(* ===== verification/Prelude.thy ===== *)
theory Prelude
  imports Main "HOL-Library.Word" "HOL-Library.Sublist"
begin

text \<open>
  What the components share: the integer types of the C code, the ways a C program stops
  (\<open>fault\<close>), a state monad with stopping (\<open>cm\<close>) and its weakest preconditions
  (\<open>wp\<close>, with one rewrite rule per combinator, collected in \<open>wp_simps\<close>), and the
  pieces of the C library the programs use on bytes: byte order, C strings, \<open>strstr\<close>.
\<close>

unbundle bit_operations_syntax

section \<open>Integer types\<close>

type_synonym byte = "8 word"
type_synonym u16 = "16 word"
type_synonym u32 = "32 word"
type_synonym u64 = "64 word"

section \<open>Stopping, and the state monad with stopping\<close>

text \<open>
  \<open>Oob_read\<close> and \<open>Oob_write\<close> are accesses outside the object a pointer points into,
  \<open>Bad_index\<close> an access to a global table outside its bounds, \<open>Null_deref\<close> a use of a
  null pointer, \<open>Impl_defined\<close> a library call outside its documented domain, or arithmetic without
  a result (division by zero, a signed overflow). All five are
  undefined behaviour of the C program. \<open>Exit c\<close> is a call of \<open>exit(c)\<close>.
\<close>

datatype fault = Oob_read | Oob_write | Bad_index | Null_deref | Impl_defined | Exit int

text \<open>
  A C function on a global state of type \<open>'s\<close> with a result of type \<open>'a\<close>: it stops, or it
  returns a value; in both cases the state it leaves is known.
\<close>

type_synonym ('s, 'a) cm = "'s \<Rightarrow> (fault + 'a) \<times> 's"

definition ret :: "'a \<Rightarrow> ('s, 'a) cm" where
  "ret a = (\<lambda>s. (Inr a, s))"

definition stop :: "fault \<Rightarrow> ('s, 'a) cm" where
  "stop e = (\<lambda>s. (Inl e, s))"

definition bnd :: "('s, 'a) cm \<Rightarrow> ('a \<Rightarrow> ('s, 'b) cm) \<Rightarrow> ('s, 'b) cm" where
  "bnd m f = (\<lambda>s. case m s of (Inl e, s') \<Rightarrow> (Inl e, s') | (Inr a, s') \<Rightarrow> f a s')"

definition thn :: "('s, 'a) cm \<Rightarrow> ('s, 'b) cm \<Rightarrow> ('s, 'b) cm" where
  "thn m k = bnd m (\<lambda>_. k)"

definition ignore :: "('s, 'a) cm \<Rightarrow> ('s, unit) cm" where
  "ignore m = thn m (ret ())"

text \<open>A block of statements.\<close>

fun seqs :: "('s, unit) cm list \<Rightarrow> ('s, unit) cm" where
  "seqs [] = ret ()"
| "seqs (m # ms) = thn m (seqs ms)"

definition doif :: "bool \<Rightarrow> ('s, unit) cm \<Rightarrow> ('s, unit) cm" where
  "doif b m = (if b then m else ret ())"

definition gets :: "('s \<Rightarrow> 'a) \<Rightarrow> ('s, 'a) cm" where
  "gets f = (\<lambda>s. (Inr (f s), s))"

definition modify :: "('s \<Rightarrow> 's) \<Rightarrow> ('s, unit) cm" where
  "modify f = (\<lambda>s. (Inr (), f s))"

definition check :: "fault \<Rightarrow> bool \<Rightarrow> ('s, unit) cm" where
  "check e b = (if b then ret () else stop e)"

text \<open>Sequencing is associative and \<open>ret\<close> is its unit.\<close>

lemma bnd_assoc: "bnd (bnd m f) g = bnd m (\<lambda>a. bnd (f a) g)"
  by (rule ext) (simp add: bnd_def split: prod.split sum.split)

lemma bnd_ret [simp]: "bnd (ret a) f = f a"
  by (simp add: bnd_def ret_def)

lemma bnd_ret_right [simp]: "bnd m ret = m"
  by (rule ext) (simp add: bnd_def ret_def split: prod.split sum.split)

text \<open>Running a block on a given state, step by step.\<close>

named_theorems run_simps

lemma run_ret [run_simps]: "ret a s = (Inr a, s)"
  by (simp add: ret_def)

lemma run_stop [run_simps]: "stop e s = (Inl e, s)"
  by (simp add: stop_def)

lemma run_bnd [run_simps]:
  "bnd m f s = (case m s of (Inl e, s') \<Rightarrow> (Inl e, s') | (Inr a, s') \<Rightarrow> f a s')"
  by (simp add: bnd_def)

lemma run_thn [run_simps]:
  "thn m k s = (case m s of (Inl e, s') \<Rightarrow> (Inl e, s') | (Inr a, s') \<Rightarrow> k s')"
  by (simp add: thn_def bnd_def)

lemma run_ignore [run_simps]:
  "ignore m s = (case m s of (Inl e, s') \<Rightarrow> (Inl e, s') | (Inr a, s') \<Rightarrow> (Inr (), s'))"
  by (simp add: ignore_def run_thn ret_def)

lemma run_gets [run_simps]: "gets f s = (Inr (f s), s)"
  by (simp add: gets_def)

lemma run_modify [run_simps]: "modify f s = (Inr (), f s)"
  by (simp add: modify_def)

lemma run_check [run_simps]: "check e b s = (if b then (Inr (), s) else (Inl e, s))"
  by (simp add: check_def ret_def stop_def)

lemma run_doif [run_simps]: "doif b m s = (if b then m s else (Inr (), s))"
  by (simp add: doif_def ret_def)

lemma seqs_append: "seqs (xs @ ys) = thn (seqs xs) (seqs ys)"
proof (induction xs)
  case Nil
  then show ?case by (simp add: seqs.simps thn_def)
next
  case (Cons x xs)
  then show ?case by (simp add: seqs.simps thn_def bnd_assoc)
qed

section \<open>Weakest preconditions\<close>

text \<open>
  \<open>wp m Q E s\<close>: started in \<open>s\<close>, \<open>m\<close> either returns some \<open>a\<close> in a state with
  \<open>Q a\<close>, or stops with some \<open>e\<close> in a state with \<open>E e\<close>. With \<open>E = never\<close> this is
  total correctness: the code returns and does not stop.
\<close>

definition wp :: "('s, 'a) cm \<Rightarrow> ('a \<Rightarrow> 's \<Rightarrow> bool) \<Rightarrow> (fault \<Rightarrow> 's \<Rightarrow> bool) \<Rightarrow> 's \<Rightarrow> bool" where
  "wp m Q E s = (case m s of (Inl e, s') \<Rightarrow> E e s' | (Inr a, s') \<Rightarrow> Q a s')"

abbreviation never :: "fault \<Rightarrow> 's \<Rightarrow> bool" where
  "never \<equiv> (\<lambda>e s. False)"

named_theorems wp_simps

lemma wp_ret [wp_simps]: "wp (ret a) Q E = Q a"
  by (rule ext) (simp add: wp_def ret_def)

lemma wp_stop [wp_simps]: "wp (stop e) Q E = E e"
  by (rule ext) (simp add: wp_def stop_def)

lemma wp_bnd [wp_simps]: "wp (bnd m f) Q E = wp m (\<lambda>a. wp (f a) Q E) E"
  by (rule ext) (simp add: wp_def bnd_def split: prod.split sum.split)

lemma wp_thn [wp_simps]: "wp (thn m k) Q E = wp m (\<lambda>_. wp k Q E) E"
  by (simp add: thn_def wp_bnd)

lemma wp_ignore [wp_simps]: "wp (ignore m) Q E = wp m (\<lambda>_. Q ()) E"
  by (rule ext) (simp add: wp_def ignore_def thn_def bnd_def ret_def split: prod.split sum.split)

lemma wp_gets [wp_simps]: "wp (gets f) Q E s = Q (f s) s"
  by (simp add: wp_def gets_def)

lemma wp_modify [wp_simps]: "wp (modify f) Q E s = Q () (f s)"
  by (simp add: wp_def modify_def)

lemma wp_check [wp_simps]: "wp (check e b) Q E s = (if b then Q () s else E e s)"
  by (simp add: check_def wp_ret wp_stop)

lemma wp_doif [wp_simps]: "wp (doif b m) Q E s = (if b then wp m Q E s else Q () s)"
  by (simp add: doif_def wp_ret)

lemma wp_if [wp_simps]: "wp (if b then m else k) Q E s = (if b then wp m Q E s else wp k Q E s)"
  by simp

lemma wp_seqs_Nil [wp_simps]: "wp (seqs []) Q E = Q ()"
  by (simp add: wp_ret)

lemma wp_seqs_Cons [wp_simps]: "wp (seqs (m # ms)) Q E = wp m (\<lambda>_. wp (seqs ms) Q E) E"
  by (simp add: wp_thn)

declare seqs.simps [simp del]

lemma run_seqs_Nil [run_simps]: "seqs [] s = (Inr (), s)"
  by (simp add: seqs.simps ret_def)

lemma run_seqs_Cons [run_simps]:
  "seqs (m # ms) s = (case m s of (Inl e, s') \<Rightarrow> (Inl e, s') | (Inr a, s') \<Rightarrow> seqs ms s')"
  by (simp add: seqs.simps run_thn)

text \<open>Consequence: a weaker postcondition, and the way from \<open>wp\<close> to a run and back.\<close>

lemma wp_mono:
  assumes "wp m Q E s" and "\<And>a s'. Q a s' \<Longrightarrow> Q' a s'" and "\<And>e s'. E e s' \<Longrightarrow> E' e s'"
  shows "wp m Q' E' s"
  using assms by (auto simp: wp_def split: prod.splits sum.splits)

lemma wp_weaken:
  assumes "wp m Q E s" and "\<And>a s'. Q a s' \<Longrightarrow> Q' a s'"
  shows "wp m Q' E s"
  using assms by (rule wp_mono)

lemma wp_conj: "wp m Q E s \<Longrightarrow> wp m Q' E' s \<Longrightarrow> wp m (\<lambda>a s. Q a s \<and> Q' a s) (\<lambda>e s. E e s \<and> E' e s) s"
  by (auto simp: wp_def split: prod.splits sum.splits)

lemma wp_neverD: "wp m Q never s \<Longrightarrow> \<exists>a s'. m s = (Inr a, s') \<and> Q a s'"
  by (auto simp: wp_def split: prod.splits sum.splits)

lemma wp_returned: "wp m Q E s \<Longrightarrow> m s = (Inr a, s') \<Longrightarrow> Q a s'"
  by (simp add: wp_def)

lemma wp_stopped: "wp m Q E s \<Longrightarrow> m s = (Inl e, s') \<Longrightarrow> E e s'"
  by (simp add: wp_def)

text \<open>A block keeps what all its statements keep.\<close>

lemma wp_seqs_inv:
  assumes "\<And>m t. m \<in> set ms \<Longrightarrow> I t \<Longrightarrow> wp m (\<lambda>_. I) E t" and "I s"
  shows "wp (seqs ms) (\<lambda>_. I) E s"
  using assms by (induction ms arbitrary: s) (auto simp: wp_seqs_Nil wp_seqs_Cons intro: wp_weaken)

text \<open>
  \<open>keeps I E m\<close>: \<open>m\<close> preserves \<open>I\<close> when it returns. The rules follow the structure of a program.
\<close>

definition keeps :: "('s \<Rightarrow> bool) \<Rightarrow> (fault \<Rightarrow> 's \<Rightarrow> bool) \<Rightarrow> ('s, 'a) cm \<Rightarrow> bool" where
  "keeps I E m \<longleftrightarrow> (\<forall>s. I s \<longrightarrow> wp m (\<lambda>_. I) E s)"

named_theorems keeps_rules

lemma keepsI: "(\<And>s. I s \<Longrightarrow> wp m (\<lambda>_. I) E s) \<Longrightarrow> keeps I E m"
  by (simp add: keeps_def)

lemma keepsD: "keeps I E m \<Longrightarrow> I s \<Longrightarrow> wp m (\<lambda>_. I) E s"
  by (simp add: keeps_def)

lemma keeps_weaken:
  assumes "keeps I E m" and "\<And>e s. E e s \<Longrightarrow> E' e s"
  shows "keeps I E' m"
  by (rule keepsI, rule wp_mono [OF keepsD [OF assms(1)]]) (auto simp: assms(2))

text \<open>What follows a statement that only stops with \<open>E\<close> decides, when it does so from every state.\<close>

lemma wp_bnd_any:
  assumes "keeps (\<lambda>_. True) E m" and "\<And>a t. wp (f a) Q E t"
  shows "wp (bnd m f) Q E s"
  unfolding wp_bnd by (rule wp_mono [OF keepsD [OF assms(1)]]) (simp_all add: assms(2))

lemma wp_thn_any:
  assumes "keeps (\<lambda>_. True) E m" and "\<And>t. wp k Q E t"
  shows "wp (thn m k) Q E s"
  unfolding thn_def by (rule wp_bnd_any [OF assms])

lemma keeps_ret [keeps_rules]: "keeps I E (ret a)"
  by (simp add: keeps_def wp_ret)

lemma keeps_gets [keeps_rules]: "keeps I E (gets f)"
  by (simp add: keeps_def wp_gets)

lemma keeps_bnd [keeps_rules]: "keeps I E m \<Longrightarrow> (\<And>a. keeps I E (f a)) \<Longrightarrow> keeps I E (bnd m f)"
  by (auto simp: keeps_def wp_bnd intro: wp_weaken)

lemma keeps_thn [keeps_rules]: "keeps I E m \<Longrightarrow> keeps I E k \<Longrightarrow> keeps I E (thn m k)"
  by (simp add: thn_def keeps_bnd)

lemma keeps_if [keeps_rules]: "(b \<Longrightarrow> keeps I E m) \<Longrightarrow> (\<not> b \<Longrightarrow> keeps I E k) \<Longrightarrow> keeps I E (if b then m else k)"
  by simp

lemma keeps_doif [keeps_rules]: "(b \<Longrightarrow> keeps I E m) \<Longrightarrow> keeps I E (doif b m)"
  by (simp add: doif_def keeps_ret)

lemma keeps_Let [keeps_rules]: "(\<And>y. keeps I E (f y)) \<Longrightarrow> keeps I E (Let x f)"
  by (simp add: Let_def)

lemma keeps_option [keeps_rules]:
  "keeps I E m \<Longrightarrow> (\<And>y. keeps I E (f y)) \<Longrightarrow> keeps I E (case x of None \<Rightarrow> m | Some y \<Rightarrow> f y)"
  by (cases x) simp_all

lemma keeps_seqs [keeps_rules]: "(\<And>m. m \<in> set ms \<Longrightarrow> keeps I E m) \<Longrightarrow> keeps I E (seqs ms)"
  by (auto simp: keeps_def intro: wp_seqs_inv)

text \<open>A function \<open>stops\<close> with a fault when started in a state.\<close>

definition stops_with :: "('s, 'a) cm \<Rightarrow> fault \<Rightarrow> 's \<Rightarrow> bool" where
  "stops_with m e s = (fst (m s) = Inl e)"

lemma stops_with_wp: "wp m (\<lambda>_ _. False) (\<lambda>e' _. e' = e) s \<Longrightarrow> stops_with m e s"
  by (auto simp: stops_with_def wp_def split: prod.splits sum.splits)

lemma stops_with_iff_wp:
  "stops_with m e s = wp m (\<lambda>_ _. False) (\<lambda>e' _. e' = e) s"
  by (auto simp: stops_with_def wp_def split: prod.splits sum.splits)

section \<open>Bytes, byte order and C strings\<close>

definition be16 :: "byte \<Rightarrow> byte \<Rightarrow> u16" where
  "be16 hi lo = push_bit 8 (ucast hi) OR ucast lo"

definition be32 :: "byte \<Rightarrow> byte \<Rightarrow> byte \<Rightarrow> byte \<Rightarrow> u32" where
  "be32 b3 b2 b1 b0 =
     push_bit 24 (ucast b3) OR push_bit 16 (ucast b2) OR push_bit 8 (ucast b1) OR ucast b0"

definition le32 :: "byte \<Rightarrow> byte \<Rightarrow> byte \<Rightarrow> byte \<Rightarrow> u32" where
  "le32 b0 b1 b2 b3 = be32 b3 b2 b1 b0"

lemma unat_ucast_up:
  assumes "LENGTH('a::len) \<le> LENGTH('b::len)"
  shows "unat (ucast (x :: 'a word) :: 'b word) = unat x"
proof -
  have "unat x < 2 ^ LENGTH('a)"
    by (rule unsigned_less)
  also have "(2::nat) ^ LENGTH('a) \<le> 2 ^ LENGTH('b)"
    using assms by (simp add: power_increasing)
  finally have "unat x < 2 ^ LENGTH('b)" .
  then show ?thesis
    by (simp add: unsigned_ucast_eq take_bit_nat_eq_self)
qed

lemma unat_byte_16 [simp]: "unat (ucast (x :: byte) :: u16) = unat x"
  and unat_byte_32 [simp]: "unat (ucast (x :: byte) :: u32) = unat x"
  and unat_16_32 [simp]: "unat (ucast (y :: u16) :: u32) = unat y"
  by (simp_all add: unat_ucast_up)

lemma unat_byte_less [simp]: "unat (x :: byte) < 256"
  using unsigned_less [of x, where ?'a = nat] by simp

lemma unat_byte_le [simp]: "unat (x :: byte) \<le> 255"
  using unat_byte_less [of x] by linarith

lemma unat_u16_less [simp]: "unat (x :: u16) < 65536"
  using unsigned_less [of x, where ?'a = nat] by simp

lemma unat_u32_less [simp]: "unat (x :: u32) < 4294967296"
  using unsigned_less [of x, where ?'a = nat] by simp

lemma uint_u16_le [simp]: "uint (x :: u16) \<le> 65535"
  using unsigned_less [of x, where ?'a = int] by simp

lemma unat_be16: "unat (be16 hi lo) = 256 * unat hi + unat lo"
proof -
  have disj: "push_bit 8 (ucast hi :: u16) AND ucast lo = 0"
    by (rule bit_word_eqI) (auto simp: bit_simps dest: bit_imp_le_length)
  have "unat (push_bit 8 (ucast hi) OR ucast lo :: u16)
      = unat (push_bit 8 (ucast hi) + ucast lo :: u16)"
    using disj by (simp add: disjunctive_add_eq_or)
  also have "\<dots> = (256 * unat hi + unat lo) mod 65536"
    by (simp add: unat_word_ariths push_bit_eq_mult mod_simps mult.commute)
  also have "\<dots> = 256 * unat hi + unat lo"
  proof -
    have "256 * unat hi + unat lo < 65536"
      using unat_byte_less [of hi] unat_byte_less [of lo] by linarith
    then show ?thesis by simp
  qed
  finally show ?thesis by (simp add: be16_def)
qed

text \<open>Two bytes with the same eight bits are equal: with \<open>bit_simps\<close>, masks become logic.\<close>

lemma byte_eq_iff:
  "(x :: byte) = y \<longleftrightarrow> (bit x 0 = bit y 0 \<and> bit x 1 = bit y 1 \<and> bit x 2 = bit y 2 \<and> bit x 3 = bit y 3 \<and>
     bit x 4 = bit y 4 \<and> bit x 5 = bit y 5 \<and> bit x 6 = bit y 6 \<and> bit x 7 = bit y 7)"
  (is "_ = ?bits")
proof
  assume ?bits
  show "x = y"
  proof (rule bit_word_eqI)
    fix n assume "n < LENGTH(8)"
    then have "n = 0 \<or> n = 1 \<or> n = 2 \<or> n = 3 \<or> n = 4 \<or> n = 5 \<or> n = 6 \<or> n = 7"
      unfolding len_num0 by (simp, linarith)
    with \<open>?bits\<close> show "bit x n = bit y n" by (elim disjE) simp_all
  qed
qed simp

text \<open>The bytes of a string literal, and the characters up to the terminating zero.\<close>

definition bytes_of :: "string \<Rightarrow> byte list" where
  "bytes_of cs = map (\<lambda>c. of_char c) cs"

definition cstring :: "byte list \<Rightarrow> byte list" where
  "cstring bs = takeWhile (\<lambda>b. b \<noteq> 0) bs"

lemma cstring_no_nul: "0 \<notin> set (cstring bs)"
  by (auto simp: cstring_def dest: set_takeWhileD)

lemma cstring_append_nul: "cstring (bs @ 0 # cs) = cstring bs"
  by (induction bs) (simp_all add: cstring_def)

text \<open>\<open>strstr(h, n) != NULL\<close>: the needle occurs in the haystack.\<close>

fun strstr :: "byte list \<Rightarrow> byte list \<Rightarrow> bool" where
  "strstr [] n = (n = [])"
| "strstr (x # xs) n = (take (length n) (x # xs) = n \<or> strstr xs n)"

lemma take_length_eq_iff: "(take (length n) xs = n) = (\<exists>ys. xs = n @ ys)"
  by (metis append_eq_conv_conj append_take_drop_id)

lemma strstr_iff_sublist: "strstr h n = sublist n h"
proof (induction h)
  case Nil
  then show ?case by simp
next
  case (Cons x xs)
  have "strstr (x # xs) n = ((\<exists>ys. x # xs = n @ ys) \<or> sublist n xs)"
    by (simp only: strstr.simps take_length_eq_iff Cons.IH)
  also have "\<dots> = sublist n (x # xs)"
    by (simp add: sublist_Cons_right prefix_def)
  finally show ?case .
qed

section \<open>Output calls\<close>

text \<open>
  A variadic argument: an integer after promotion to 32 bits, a 64 bit integer, a C string, or the number of
  milliseconds that \<open>print_diff_time\<close> computes, in single precision, from seconds and
  microseconds.
\<close>

datatype varg = AI u32 | AL u64 | AS "byte list" | AMs int int

text \<open>What goes to the terminal instead: \<open>g_print\<close>, \<open>printf\<close>, \<open>fprintf(stderr)\<close>.\<close>

datatype tcall = Term string "varg list"

text \<open>Integer arguments: a byte, a boolean read as 0 or 1, an \<open>int\<close>.\<close>

definition Ib :: "byte \<Rightarrow> varg" where "Ib b = AI (ucast b)"
definition Ii :: "int \<Rightarrow> varg" where "Ii k = AI (word_of_int k)"

text \<open>A string literal with a newline at its end.\<close>

definition ln :: "string \<Rightarrow> string" where "ln t = t @ [CHR 0x0A]"

text \<open>String literals as arguments of \<open>%s\<close>.\<close>

definition Sl :: "string \<Rightarrow> varg" where "Sl t = AS (bytes_of t)"

section \<open>Running a fallible operation over a list\<close>

fun fold_opt :: "('b \<Rightarrow> 'x \<Rightarrow> 'b option) \<Rightarrow> 'b \<Rightarrow> 'x list \<Rightarrow> 'b option" where
  "fold_opt f b [] = Some b"
| "fold_opt f b (x # xs) = (case f b x of None \<Rightarrow> None | Some b' \<Rightarrow> fold_opt f b' xs)"

lemma fold_opt_append:
  "fold_opt f b (xs @ ys) = (case fold_opt f b xs of None \<Rightarrow> None | Some b' \<Rightarrow> fold_opt f b' ys)"
  by (induction xs arbitrary: b) (auto split: option.split)

lemma fold_opt_inv:
  assumes "fold_opt f b xs = Some b'" and "P b"
    and "\<And>b x b'. P b \<Longrightarrow> f b x = Some b' \<Longrightarrow> P b'"
  shows "P b'"
  using assms(1,2) by (induction xs arbitrary: b) (auto split: option.splits dest: assms(3))

end
