(* ===== verification/Netbuf.thy ===== *)
theory Netbuf
  imports Prelude
begin

text \<open>
  The network buffers of irdadump (\<open>irdadump/netbuf.h\<close>, \<open>irdadump/netbuf.c\<close>): one block of
  memory with a window of valid bytes, headroom before it and tailroom after it. The four
  pointers of \<open>struct _GNetBuf\<close> are offsets from \<open>head\<close>, and \<open>nb_mem\<close> holds the bytes of
  the block. The component promises a byte string (\<open>payload\<close>) that grows at both ends; the
  locale \<open>packet_buffer\<close> states that promise and is interpreted on the code's operations.
\<close>

section \<open>The structure\<close>

record netbuf =
  nb_mem :: "byte list"    \<comment> \<open>the block \<open>head\<close> points to\<close>
  nb_data :: nat           \<comment> \<open>\<open>data - head\<close>\<close>
  nb_tail :: nat           \<comment> \<open>\<open>tail - head\<close>\<close>
  nb_end :: nat            \<comment> \<open>\<open>end - head\<close>\<close>
  nb_len :: u32
  nb_truesize :: u32

text \<open>
  The C allocator is a parameter: for a request of \<open>n\<close> bytes it fails (\<open>None\<close>) or gives a
  block, whose bytes are the indeterminate values \<open>junk 0, junk 1, \<dots>\<close>.
\<close>

type_synonym allocator = "nat \<Rightarrow> (nat \<Rightarrow> byte) option"

definition malloc :: "allocator \<Rightarrow> nat \<Rightarrow> byte list option" where
  "malloc A n = map_option (\<lambda>junk. map junk [0..<n]) (A n)"

definition realloc :: "allocator \<Rightarrow> byte list \<Rightarrow> nat \<Rightarrow> byte list option" where
  "realloc A old n = map_option (\<lambda>fresh. take n old @ drop (length old) fresh) (malloc A n)"

text \<open>\<open>memcpy\<close> and \<open>memmove\<close> into a block: the destination must lie inside it.\<close>

definition poke :: "byte list \<Rightarrow> nat \<Rightarrow> byte list \<Rightarrow> fault + byte list" where
  "poke mem off bs =
     (if off + length bs \<le> length mem
      then Inr (take off mem @ bs @ drop (off + length bs) mem)
      else Inl Oob_write)"

section \<open>The operations\<close>

definition g_netbuf_recycle :: "netbuf \<Rightarrow> netbuf" where
  "g_netbuf_recycle msg =
     msg\<lparr>nb_data := 0, nb_tail := 0, nb_len := 0, nb_end := unat (nb_truesize msg)\<rparr>"

text \<open>
  \<open>g_malloc\<close> of the structure itself never returns null; \<open>A\<close> is the allocator behind the
  second \<open>g_malloc\<close>, which gives a null pointer for an empty request.
\<close>

definition g_netbuf_new :: "allocator \<Rightarrow> u32 \<Rightarrow> netbuf option" where
  "g_netbuf_new A len =
     (case malloc A (unat len) of
        None \<Rightarrow> None
      | Some buf \<Rightarrow>
          Some (g_netbuf_recycle
            \<lparr>nb_mem = buf, nb_data = 0, nb_tail = 0, nb_end = 0, nb_len = 0, nb_truesize = len\<rparr>))"

definition g_netbuf_realloc :: "allocator \<Rightarrow> netbuf \<Rightarrow> u32 \<Rightarrow> netbuf option" where
  "g_netbuf_realloc A msg len =
     (case realloc A (nb_mem msg) (unat len) of
        None \<Rightarrow> None
      | Some buf \<Rightarrow> Some (msg\<lparr>nb_truesize := len, nb_mem := buf, nb_end := unat len\<rparr>))"

text \<open>The blocks \<open>g_netbuf_free\<close> gives back, in order.\<close>

datatype freed = Head_block | Msg_block

definition g_netbuf_free :: "netbuf option \<Rightarrow> freed list" where
  "g_netbuf_free msg = (case msg of None \<Rightarrow> [] | Some _ \<Rightarrow> [Head_block, Msg_block])"

text \<open>
  The result is the returned pointer (\<open>None\<close> for null) and the structure as the call leaves
  it. When the reallocation fails, \<open>tail\<close> and \<open>len\<close> have been advanced already.
\<close>

definition g_netbuf_put :: "allocator \<Rightarrow> netbuf \<Rightarrow> u32 \<Rightarrow> nat option \<times> netbuf" where
  "g_netbuf_put A msg len =
     (let tmp = nb_tail msg;
          msg1 = msg\<lparr>nb_tail := nb_tail msg + unat len, nb_len := nb_len msg + len\<rparr>
      in if nb_tail msg1 > nb_end msg1
         then case g_netbuf_realloc A msg1 (nb_truesize msg1 + len) of
                None \<Rightarrow> (None, msg1)
              | Some msg2 \<Rightarrow> (Some (nb_tail msg2 - unat len), msg2)
         else (Some tmp, msg1))"

text \<open>\<open>data\<close> is the memory the second argument points to, from the pointer on.\<close>

definition g_netbuf_put_data ::
  "allocator \<Rightarrow> netbuf \<Rightarrow> byte list \<Rightarrow> u32 \<Rightarrow> fault + nat \<times> netbuf" where
  "g_netbuf_put_data A msg data len =
     (case g_netbuf_put A msg len of
        (None, _) \<Rightarrow> Inl Null_deref
      | (Some tmp, msg1) \<Rightarrow>
          if length data < unat len then Inl Oob_read
          else case poke (nb_mem msg1) tmp (take (unat len) data) of
                 Inl e \<Rightarrow> Inl e
               | Inr mem \<Rightarrow> Inr (tmp, msg1\<lparr>nb_mem := mem\<rparr>))"

definition g_netbuf_push :: "allocator \<Rightarrow> netbuf \<Rightarrow> u32 \<Rightarrow> fault + nat option \<times> netbuf" where
  "g_netbuf_push A msg len =
     (if int (nb_data msg) - int (unat len) < 0
      then case g_netbuf_realloc A msg (nb_truesize msg + len) of
             None \<Rightarrow> Inr (None, msg)
           | Some msg1 \<Rightarrow>
               (case poke (nb_mem msg1) (nb_data msg1 + unat len)
                       (take (unat (nb_len msg1)) (drop (nb_data msg1) (nb_mem msg1))) of
                  Inl e \<Rightarrow> Inl e
                | Inr mem \<Rightarrow>
                    Inr (Some (nb_data msg1),
                         msg1\<lparr>nb_mem := mem, nb_tail := nb_tail msg1 + unat len,
                              nb_len := nb_len msg1 + len\<rparr>))
      else Inr (Some (nb_data msg - unat len),
                msg\<lparr>nb_data := nb_data msg - unat len, nb_len := nb_len msg + len\<rparr>))"

definition g_netbuf_prepend_hdr ::
  "allocator \<Rightarrow> netbuf \<Rightarrow> byte list \<Rightarrow> u32 \<Rightarrow> fault + nat \<times> netbuf" where
  "g_netbuf_prepend_hdr A msg hdr len =
     (case g_netbuf_push A msg len of
        Inl e \<Rightarrow> Inl e
      | Inr (None, _) \<Rightarrow> Inl Null_deref
      | Inr (Some tmp, msg1) \<Rightarrow>
          if length hdr < unat len then Inl Oob_read
          else case poke (nb_mem msg1) tmp (take (unat len) hdr) of
                 Inl e \<Rightarrow> Inl e
               | Inr mem \<Rightarrow> Inr (tmp, msg1\<lparr>nb_mem := mem\<rparr>))"

definition g_netbuf_pull :: "netbuf \<Rightarrow> u32 \<Rightarrow> nat option \<times> netbuf" where
  "g_netbuf_pull msg len =
     (if len > nb_len msg then (None, msg)
      else (Some (nb_data msg + unat len),
            msg\<lparr>nb_len := nb_len msg - len, nb_data := nb_data msg + unat len\<rparr>))"

definition g_netbuf_reserve :: "netbuf \<Rightarrow> u32 \<Rightarrow> netbuf" where
  "g_netbuf_reserve msg len =
     msg\<lparr>nb_data := nb_data msg + unat len, nb_tail := nb_tail msg + unat len\<rparr>"

definition g_netbuf_headroom :: "netbuf \<Rightarrow> int" where
  "g_netbuf_headroom msg = int (nb_data msg)"

definition g_netbuf_tailroom :: "netbuf \<Rightarrow> int" where
  "g_netbuf_tailroom msg = int (nb_end msg) - int (nb_tail msg)"

definition g_netbuf_trim :: "netbuf \<Rightarrow> u32 \<Rightarrow> netbuf" where
  "g_netbuf_trim msg len =
     (if nb_len msg > len
      then msg\<lparr>nb_len := len, nb_tail := nb_data msg + unat len\<rparr> else msg)"

definition g_netbuf_get_data :: "netbuf \<Rightarrow> nat" where
  "g_netbuf_get_data msg = nb_data msg"

definition g_netbuf_get_len :: "netbuf \<Rightarrow> u32" where
  "g_netbuf_get_len msg = nb_len msg"

text \<open>The bytes \<open>g_netbuf_print\<close> prints in hexadecimal, before the newline.\<close>

definition g_netbuf_print :: "netbuf \<Rightarrow> fault + byte list" where
  "g_netbuf_print msg =
     (if nb_data msg + unat (nb_len msg) \<le> length (nb_mem msg)
      then Inr (take (unat (nb_len msg)) (drop (nb_data msg) (nb_mem msg)))
      else Inl Oob_read)"

section \<open>The invariant and the byte string a buffer stands for\<close>

definition nb_ok :: "netbuf \<Rightarrow> bool" where
  "nb_ok msg \<longleftrightarrow> nb_tail msg = nb_data msg + unat (nb_len msg) \<and> nb_tail msg \<le> nb_end msg \<and>
     nb_end msg = unat (nb_truesize msg) \<and> length (nb_mem msg) = unat (nb_truesize msg)"

definition payload :: "netbuf \<Rightarrow> byte list" where
  "payload msg = take (unat (nb_len msg)) (drop (nb_data msg) (nb_mem msg))"

lemma length_payload: "nb_ok msg \<Longrightarrow> length (payload msg) = unat (nb_len msg)"
  by (auto simp: nb_ok_def payload_def)

lemma malloc_length: "malloc A n = Some bs \<Longrightarrow> length bs = n"
  by (auto simp: malloc_def)

lemma realloc_length: "realloc A old n = Some bs \<Longrightarrow> length bs = n"
  by (auto simp: realloc_def dest: malloc_length)

lemma realloc_take: "realloc A old n = Some bs \<Longrightarrow> k \<le> n \<Longrightarrow> k \<le> length old \<Longrightarrow> take k bs = take k old"
  by (auto simp: realloc_def dest: malloc_length)

lemma poke_length: "poke mem off bs = Inr mem' \<Longrightarrow> length mem' = length mem"
  by (auto simp: poke_def split: if_splits)

lemma poke_range: "poke mem off bs = Inr mem' \<Longrightarrow> take (length bs) (drop off mem') = bs"
  by (auto simp: poke_def split: if_splits)

lemma poke_before: "poke mem off bs = Inr mem' \<Longrightarrow> k \<le> off \<Longrightarrow> take k mem' = take k mem"
  by (auto simp: poke_def split: if_splits)

lemma poke_after:
  "poke mem off bs = Inr mem' \<Longrightarrow> off + length bs \<le> k \<Longrightarrow> drop k mem' = drop k mem"
  by (auto simp: poke_def split: if_splits)

lemma nat_plus_u32: "unat (a :: u32) + unat b < 4294967296 \<Longrightarrow> unat (a + b) = unat a + unat b"
  by (simp add: unat_word_ariths)

lemma u32_plus_wrap:
  "unat ((a :: u32) + b) = unat a + unat b \<or> unat (a + b) + 4294967296 = unat a + unat b"
proof (cases "unat a + unat b < 4294967296")
  case True
  then show ?thesis by (simp add: nat_plus_u32)
next
  case False
  have "unat a + unat b - 4294967296 < 4294967296"
    using unat_u32_less [of a] unat_u32_less [of b] by linarith
  with False have "(unat a + unat b) mod 4294967296 = unat a + unat b - 4294967296"
    by (simp add: le_mod_geq)
  with False show ?thesis by (simp add: unat_word_ariths)
qed

text \<open>The window as a difference of prefixes: the form the proofs work with.\<close>

lemma payload_prefix: "nb_ok msg \<Longrightarrow> payload msg = drop (nb_data msg) (take (nb_tail msg) (nb_mem msg))"
  by (simp add: nb_ok_def payload_def drop_take)

lemma window_append:
  assumes "take p mem' = take p mem" and "take n (drop p mem') = bs" and "d \<le> p"
  shows "drop d (take (p + n) mem') = drop d (take p mem) @ bs"
proof -
  have "take (p + n) mem' = take p mem @ bs"
    using assms(1,2) by (simp add: take_add)
  moreover have "d \<le> length (take p mem) \<or> bs = []"
    using assms by (cases "p \<le> length mem'") (auto dest: arg_cong [of _ _ length])
  ultimately show ?thesis
    by (auto simp: min_def not_le)
qed

section \<open>Putting bytes at the tail\<close>

lemma put_result:
  assumes "nb_ok msg" and "g_netbuf_put A msg len = (Some p, m1)"
  shows "p = nb_tail msg" and "nb_data m1 = nb_data msg"
    and "nb_tail m1 = nb_tail msg + unat len" and "nb_len m1 = nb_len msg + len"
    and "nb_end m1 = unat (nb_truesize m1)" and "length (nb_mem m1) = unat (nb_truesize m1)"
    and "k \<le> nb_tail msg \<Longrightarrow> k \<le> length (nb_mem m1) \<Longrightarrow> take k (nb_mem m1) = take k (nb_mem msg)"
  using assms
  by (auto simp: g_netbuf_put_def Let_def nb_ok_def g_netbuf_realloc_def realloc_length realloc_take
      split: if_splits option.splits)

lemma put_data_ok:
  assumes ok: "nb_ok msg" and run: "g_netbuf_put_data A msg data len = Inr (p, msg')"
  shows "nb_ok msg' \<and> p = nb_tail msg \<and> payload msg' = payload msg @ take (unat len) data"
proof -
  from run obtain m1 mem where put: "g_netbuf_put A msg len = (Some p, m1)"
    and src: "unat len \<le> length data"
    and poke: "poke (nb_mem m1) p (take (unat len) data) = Inr mem"
    and msg': "msg' = m1\<lparr>nb_mem := mem\<rparr>"
    by (auto simp: g_netbuf_put_data_def split: prod.splits option.splits sum.splits if_splits)
  note m1 = put_result [OF ok put]
  let ?n = "unat len" and ?t = "nb_tail msg"
  from poke src m1 have room: "?t + ?n \<le> unat (nb_truesize m1)"
    by (auto simp: poke_def min_def split: if_splits)
  have len: "unat (nb_len m1) = unat (nb_len msg) + ?n"
  proof -
    have "unat (nb_len msg) + ?n < 4294967296"
      using room ok unat_u32_less [of "nb_truesize m1"] unfolding nb_ok_def by linarith
    with m1(4) show ?thesis by (simp add: nat_plus_u32)
  qed
  have mem: "length mem = unat (nb_truesize m1)"
    using poke_length [OF poke] m1(6) by simp
  have ok': "nb_ok msg'"
    using m1 room len mem ok unfolding msg' nb_ok_def by simp
  have "take ?t mem = take ?t (nb_mem m1)"
    using poke_before [OF poke] m1(1) by simp
  also have "\<dots> = take ?t (nb_mem msg)"
    using m1(6) m1(7) [of ?t] room by simp
  finally have before: "take ?t mem = take ?t (nb_mem msg)" .
  have "take ?n (drop ?t mem) = take ?n data"
    using poke_range [OF poke] src m1(1) by (simp add: min_absorb2)
  with before have "drop (nb_data msg) (take (?t + ?n) mem)
      = drop (nb_data msg) (take ?t (nb_mem msg)) @ take ?n data"
    using ok by (intro window_append) (auto simp: nb_ok_def)
  with ok ok' m1 show ?thesis
    by (simp add: payload_prefix msg')
qed

text \<open>With memory to allocate and sizes below 4 GiB, the call succeeds.\<close>

lemma put_data_succeeds:
  assumes "nb_ok msg" and "unat len \<le> length data"
    and "A (unat (nb_truesize msg) + unat len) \<noteq> None"
    and "unat (nb_truesize msg) + unat len < 4294967296"
  shows "\<exists>p msg'. g_netbuf_put_data A msg data len = Inr (p, msg')"
proof -
  from assms(3) obtain junk where junk: "A (unat (nb_truesize msg) + unat len) = Some junk"
    by auto
  show ?thesis
    using assms(1,2,4) junk
    by (auto simp: g_netbuf_put_data_def g_netbuf_put_def g_netbuf_realloc_def Let_def realloc_def
        malloc_def nb_ok_def poke_def nat_plus_u32 min_def split: if_splits)
qed

section \<open>Pushing a header in front\<close>

lemma push_in_place:
  assumes "nb_ok msg" and "unat len \<le> nb_data msg"
  shows "g_netbuf_push A msg len =
      Inr (Some (nb_data msg - unat len),
           msg\<lparr>nb_data := nb_data msg - unat len, nb_len := nb_len msg + len\<rparr>)"
proof -
  have "\<not> int (nb_data msg) - int (unat len) < 0"
    using assms(2) by linarith
  then show ?thesis by (simp only: g_netbuf_push_def if_False)
qed

lemma push_result:
  assumes ok: "nb_ok msg" and run: "g_netbuf_push A msg len = Inr (Some p, m1)"
  shows "nb_ok m1 \<and> p = nb_data m1 \<and> unat (nb_len m1) = unat (nb_len msg) + unat len \<and>
     drop (unat len) (payload m1) = payload msg"
proof (cases "unat len \<le> nb_data msg")
  case True
  with ok run have m1: "m1 = msg\<lparr>nb_data := nb_data msg - unat len, nb_len := nb_len msg + len\<rparr>"
    and p: "p = nb_data msg - unat len"
    by (auto simp: push_in_place)
  have "unat (nb_len msg) + unat len < 4294967296"
    using ok True unat_u32_less [of "nb_truesize msg"] unfolding nb_ok_def by linarith
  then have len: "unat (nb_len m1) = unat (nb_len msg) + unat len"
    by (simp add: m1 nat_plus_u32)
  have "nb_ok m1"
    using ok True len unfolding nb_ok_def m1 by simp
  moreover have "drop (unat len) (payload m1) = payload msg"
    using True len by (simp add: payload_def m1 drop_take)
  ultimately show ?thesis using p len by (simp add: m1)
next
  case False
  then have "int (nb_data msg) - int (unat len) < 0"
    by linarith
  with run obtain m' mem where re: "g_netbuf_realloc A msg (nb_truesize msg + len) = Some m'"
    and poke: "poke (nb_mem m') (nb_data m' + unat len)
                 (take (unat (nb_len m')) (drop (nb_data m') (nb_mem m'))) = Inr mem"
    and p: "p = nb_data m'"
    and m1: "m1 = m'\<lparr>nb_mem := mem, nb_tail := nb_tail m' + unat len, nb_len := nb_len m' + len\<rparr>"
    by (auto simp: g_netbuf_push_def split: if_splits option.splits sum.splits)
  from re obtain buf where buf: "realloc A (nb_mem msg) (unat (nb_truesize msg + len)) = Some buf"
    and m': "m' = msg\<lparr>nb_truesize := nb_truesize msg + len, nb_mem := buf,
                      nb_end := unat (nb_truesize msg + len)\<rparr>"
    by (auto simp: g_netbuf_realloc_def split: option.splits)
  let ?ts = "unat (nb_truesize msg + len)" and ?n = "unat len" and ?l = "unat (nb_len msg)"
    and ?d = "nb_data msg"
  have lbuf: "length buf = ?ts" using buf by (rule realloc_length)
  have fits: "?d + ?n + min ?l (?ts - ?d) \<le> ?ts"
    using poke by (auto simp: poke_def m' lbuf min_def split: if_splits)
  have grow: "?ts = unat (nb_truesize msg) + ?n"
  proof (rule ccontr)
    assume wrapped: "?ts \<noteq> unat (nb_truesize msg) + ?n"
    then have "?ts + 4294967296 = unat (nb_truesize msg) + ?n"
      using u32_plus_wrap [of "nb_truesize msg" len] by blast
    then have "?ts < ?n"
      using unat_u32_less [of "nb_truesize msg"] by linarith
    with fits show False by linarith
  qed
  have lb: "?d + ?l \<le> length (nb_mem msg)" and lm: "length (nb_mem msg) = unat (nb_truesize msg)"
    using ok by (auto simp: nb_ok_def)
  have "take (?d + ?l) buf = take (?d + ?l) (nb_mem msg)"
    using lb lm grow by (intro realloc_take [OF buf]) simp_all
  then have "drop ?d (take (?d + ?l) buf) = drop ?d (take (?d + ?l) (nb_mem msg))"
    by (rule arg_cong)
  then have old: "take ?l (drop ?d buf) = payload msg"
    by (simp add: payload_def drop_take)
  have lp: "length (payload msg) = ?l" using ok by (rule length_payload)
  have len: "unat (nb_len m1) = ?l + ?n"
  proof -
    have "?l + ?n < 4294967296"
      using lb lm grow unat_u32_less [of "nb_truesize msg + len"] by linarith
    then show ?thesis by (simp add: m1 m' nat_plus_u32)
  qed
  have poke': "poke buf (?d + ?n) (payload msg) = Inr mem"
    using poke by (simp add: m' old)
  have "drop ?n (payload m1) = take ?l (drop (?d + ?n) mem)"
    using len by (simp add: payload_def m1 m' drop_take add.commute)
  also have "\<dots> = payload msg"
    using poke_range [OF poke'] lp by simp
  finally have "drop ?n (payload m1) = payload msg" .
  moreover have "nb_ok m1"
    using ok len grow poke_length [OF poke'] lbuf unfolding nb_ok_def m1 m' by simp
  ultimately show ?thesis using p len by (simp add: m1)
qed

lemma prepend_hdr_ok:
  assumes ok: "nb_ok msg" and run: "g_netbuf_prepend_hdr A msg hdr len = Inr (p, msg')"
  shows "nb_ok msg' \<and> p = nb_data msg' \<and> payload msg' = take (unat len) hdr @ payload msg"
proof -
  from run obtain m1 mem where push: "g_netbuf_push A msg len = Inr (Some p, m1)"
    and src: "unat len \<le> length hdr"
    and poke: "poke (nb_mem m1) p (take (unat len) hdr) = Inr mem"
    and msg': "msg' = m1\<lparr>nb_mem := mem\<rparr>"
    by (auto simp: g_netbuf_prepend_hdr_def split: sum.splits prod.splits option.splits if_splits)
  let ?n = "unat len" and ?l = "unat (nb_len msg)" and ?d = "nb_data m1"
  from push_result [OF ok push] have m1: "nb_ok m1" "p = ?d" "unat (nb_len m1) = ?l + ?n"
    and rest: "drop ?n (payload m1) = payload msg"
    by auto
  have lh: "length (take ?n hdr) = ?n" using src by simp
  have "payload msg' = take ?n (drop ?d mem) @ take ?l (drop (?d + ?n) mem)"
    using m1 by (simp add: payload_def msg' take_add add.commute)
  also have "take ?n (drop ?d mem) = take ?n hdr"
    using poke_range [OF poke] m1(2) lh by simp
  also have "drop (?d + ?n) mem = drop (?d + ?n) (nb_mem m1)"
    using poke_after [OF poke] m1(2) lh by simp
  also have "take ?l (drop (?d + ?n) (nb_mem m1)) = payload msg"
    using rest m1(3) by (simp add: payload_def drop_take add.commute)
  finally have "payload msg' = take ?n hdr @ payload msg" .
  moreover have "nb_ok msg'"
    using m1(1) poke_length [OF poke] by (simp add: nb_ok_def msg')
  ultimately show ?thesis using m1(2) by (simp add: msg')
qed

section \<open>The other operations keep the invariant\<close>

lemma recycle_ok:
  assumes "length (nb_mem msg) = unat (nb_truesize msg)"
  shows "nb_ok (g_netbuf_recycle msg) \<and> payload (g_netbuf_recycle msg) = []"
  using assms by (simp add: nb_ok_def g_netbuf_recycle_def payload_def)

lemma new_ok: "g_netbuf_new A len = Some msg \<Longrightarrow> nb_ok msg \<and> payload msg = []"
  by (auto simp: g_netbuf_new_def malloc_length intro!: recycle_ok split: option.splits)

lemma pull_result:
  assumes "nb_ok msg"
  shows "g_netbuf_pull msg len =
    (if unat len \<le> unat (nb_len msg)
     then (Some (nb_data msg + unat len),
           msg\<lparr>nb_len := nb_len msg - len, nb_data := nb_data msg + unat len\<rparr>)
     else (None, msg))"
  by (simp add: g_netbuf_pull_def word_less_nat_alt)

lemma pull_ok:
  assumes "nb_ok msg" and "g_netbuf_pull msg len = (Some p, msg')"
  shows "nb_ok msg' \<and> p = nb_data msg' \<and> unat len \<le> length (payload msg) \<and>
    payload msg' = drop (unat len) (payload msg)"
proof -
  have le: "unat len \<le> unat (nb_len msg)" and p: "p = nb_data msg + unat len"
    and msg': "msg' = msg\<lparr>nb_len := nb_len msg - len, nb_data := nb_data msg + unat len\<rparr>"
    using assms by (auto simp: pull_result split: if_splits)
  have len: "unat (nb_len msg - len) = unat (nb_len msg) - unat len"
    using le by (simp add: unat_sub word_le_nat_alt)
  have "nb_ok msg'" using assms(1) le len by (simp add: nb_ok_def msg')
  moreover have "payload msg' = drop (unat len) (payload msg)"
    using le len by (simp add: payload_def msg' drop_take add.commute)
  ultimately show ?thesis using assms(1) le p by (simp add: msg' length_payload)
qed

lemma trim_ok:
  assumes "nb_ok msg"
  shows "nb_ok (g_netbuf_trim msg len) \<and>
    payload (g_netbuf_trim msg len) = take (unat len) (payload msg)"
  using assms
  by (auto simp: nb_ok_def payload_def g_netbuf_trim_def word_less_nat_alt min_def)

text \<open>\<open>g_netbuf_reserve\<close> checks nothing: the room must be there.\<close>

lemma reserve_ok:
  assumes "nb_ok msg" and "nb_len msg = 0" and "int (unat len) \<le> g_netbuf_tailroom msg"
  shows "nb_ok (g_netbuf_reserve msg len) \<and> payload (g_netbuf_reserve msg len) = [] \<and>
    g_netbuf_headroom (g_netbuf_reserve msg len) = g_netbuf_headroom msg + int (unat len)"
proof -
  have "nb_tail msg + unat len \<le> nb_end msg"
    using assms(3) unfolding g_netbuf_tailroom_def by linarith
  with assms(1,2) show ?thesis
    by (simp add: nb_ok_def payload_def g_netbuf_reserve_def g_netbuf_headroom_def)
qed

lemma realloc_grow_ok:
  assumes "nb_ok msg" and "g_netbuf_realloc A msg len = Some msg'" and "nb_tail msg \<le> unat len"
  shows "nb_ok msg' \<and> payload msg' = payload msg"
proof -
  from assms(2) obtain buf where buf: "realloc A (nb_mem msg) (unat len) = Some buf"
    and msg': "msg' = msg\<lparr>nb_truesize := len, nb_mem := buf, nb_end := unat len\<rparr>"
    by (auto simp: g_netbuf_realloc_def split: option.splits)
  have ok': "nb_ok msg'"
    using assms(1,3) realloc_length [OF buf] by (simp add: nb_ok_def msg')
  moreover have "take (nb_tail msg) buf = take (nb_tail msg) (nb_mem msg)"
    using assms(1,3) by (intro realloc_take [OF buf]) (simp_all add: nb_ok_def)
  ultimately show ?thesis
    using assms(1) by (simp add: payload_prefix) (simp add: msg')
qed

section \<open>The interface: a byte string that grows at both ends\<close>

locale packet_buffer =
  fixes ok :: "'b \<Rightarrow> bool"
    and bytes :: "'b \<Rightarrow> byte list"
    and put :: "'b \<Rightarrow> byte list \<Rightarrow> 'b option"
    and prepend :: "'b \<Rightarrow> byte list \<Rightarrow> 'b option"
    and pull :: "'b \<Rightarrow> nat \<Rightarrow> 'b option"
    and trim :: "'b \<Rightarrow> nat \<Rightarrow> 'b"
  assumes put_law: "ok b \<Longrightarrow> put b bs = Some b' \<Longrightarrow> ok b' \<and> bytes b' = bytes b @ bs"
    and prepend_law: "ok b \<Longrightarrow> prepend b bs = Some b' \<Longrightarrow> ok b' \<and> bytes b' = bs @ bytes b"
    and pull_law: "ok b \<Longrightarrow> pull b n = Some b' \<Longrightarrow> ok b' \<and> bytes b' = drop n (bytes b)"
    and pull_ready: "ok b \<Longrightarrow> pull b n \<noteq> None \<longleftrightarrow> n \<le> length (bytes b)"
    and trim_law: "ok b \<Longrightarrow> ok (trim b n) \<and> bytes (trim b n) = take n (bytes b)"
begin

lemma puts_concat:
  "ok b \<Longrightarrow> fold_opt put b bss = Some b' \<Longrightarrow> ok b' \<and> bytes b' = bytes b @ concat bss"
  by (induction bss arbitrary: b) (auto split: option.splits dest: put_law)

lemma prepends_concat:
  "ok b \<Longrightarrow> fold_opt prepend b hs = Some b' \<Longrightarrow> ok b' \<and> bytes b' = concat (rev hs) @ bytes b"
  by (induction hs arbitrary: b) (auto split: option.splits dest: prepend_law)

lemma pulls_drop:
  "ok b \<Longrightarrow> bytes b = concat hs @ rest \<Longrightarrow>
     \<exists>b'. fold_opt pull b (map length hs) = Some b' \<and> ok b' \<and> bytes b' = rest"
proof (induction hs arbitrary: b)
  case Nil
  then show ?case by simp
next
  case (Cons h hs)
  then have "pull b (length h) \<noteq> None"
    unfolding pull_ready [OF Cons.prems(1)] by simp
  then obtain b1 where b1: "pull b (length h) = Some b1" by auto
  then have "ok b1" "bytes b1 = concat hs @ rest"
    using pull_law [OF Cons.prems(1) b1] Cons.prems(2) by simp_all
  from Cons.IH [OF this] b1 show ?case by simp
qed

text \<open>Headers put on by the layers come off in the opposite order, and the body is unchanged.\<close>

lemma decapsulate:
  assumes "ok b" and "fold_opt prepend b hs = Some b'"
  shows "\<exists>b''. fold_opt pull b' (map length (rev hs)) = Some b'' \<and> ok b'' \<and> bytes b'' = bytes b"
  using prepends_concat [OF assms] by (intro pulls_drop) auto

end

text \<open>The code's operations, with the failures (allocation, a write outside) as \<open>None\<close>.\<close>

definition nb_put :: "allocator \<Rightarrow> netbuf \<Rightarrow> byte list \<Rightarrow> netbuf option" where
  "nb_put A b bs =
     (if length bs < 4294967296
      then case g_netbuf_put_data A b bs (of_nat (length bs)) of
             Inl _ \<Rightarrow> None | Inr (_, b') \<Rightarrow> Some b'
      else None)"

definition nb_prepend :: "allocator \<Rightarrow> netbuf \<Rightarrow> byte list \<Rightarrow> netbuf option" where
  "nb_prepend A b bs =
     (if length bs < 4294967296
      then case g_netbuf_prepend_hdr A b bs (of_nat (length bs)) of
             Inl _ \<Rightarrow> None | Inr (_, b') \<Rightarrow> Some b'
      else None)"

definition nb_pull :: "netbuf \<Rightarrow> nat \<Rightarrow> netbuf option" where
  "nb_pull b n =
     (if n < 4294967296
      then case g_netbuf_pull b (of_nat n) of (None, _) \<Rightarrow> None | (Some _, b') \<Rightarrow> Some b'
      else None)"

definition nb_trim :: "netbuf \<Rightarrow> nat \<Rightarrow> netbuf" where
  "nb_trim b n = (if n < 4294967296 then g_netbuf_trim b (of_nat n) else b)"

lemma unat_of_nat_u32: "n < 4294967296 \<Longrightarrow> unat (of_nat n :: u32) = n"
  by (simp add: unsigned_of_nat take_bit_nat_eq_self)

lemma payload_short: "nb_ok b \<Longrightarrow> length (payload b) < 4294967296"
  by (simp add: length_payload)

lemma nb_put_Some:
  "nb_put A b bs = Some b' \<Longrightarrow>
     length bs < 4294967296 \<and> (\<exists>p. g_netbuf_put_data A b bs (of_nat (length bs)) = Inr (p, b'))"
  by (auto simp: nb_put_def split: if_splits sum.splits)

lemma nb_prepend_Some:
  "nb_prepend A b bs = Some b' \<Longrightarrow>
     length bs < 4294967296 \<and> (\<exists>p. g_netbuf_prepend_hdr A b bs (of_nat (length bs)) = Inr (p, b'))"
  by (auto simp: nb_prepend_def split: if_splits sum.splits)

lemma nb_pull_Some:
  "nb_pull b n = Some b' \<Longrightarrow>
     n < 4294967296 \<and> (\<exists>p. g_netbuf_pull b (of_nat n) = (Some p, b'))"
  by (auto simp: nb_pull_def split: if_splits prod.splits option.splits)

interpretation nb: packet_buffer nb_ok payload "nb_put A" "nb_prepend A" nb_pull nb_trim
proof (unfold_locales, goal_cases)
  case (1 b bs b')
  from nb_put_Some [OF 1(2)] put_data_ok [OF 1(1)] show ?case
    by (metis order_refl take_all_iff unat_of_nat_u32)
next
  case (2 b bs b')
  from nb_prepend_Some [OF 2(2)] prepend_hdr_ok [OF 2(1)] show ?case
    by (metis order_refl take_all_iff unat_of_nat_u32)
next
  case (3 b n b')
  from nb_pull_Some [OF 3(2)] pull_ok [OF 3(1)] show ?case
    by (metis unat_of_nat_u32)
next
  case (4 b n)
  have "n \<le> unat (nb_len b) \<Longrightarrow> n < 4294967296"
    using unat_u32_less [of "nb_len b"] by linarith
  with 4 show ?case
    using length_payload [of b] by (auto simp: nb_pull_def pull_result unat_of_nat_u32)
next
  case (5 b n)
  then show ?case
    using payload_short [of b] by (auto simp: nb_trim_def trim_ok unat_of_nat_u32)
qed

section \<open>Properties\<close>

text \<open>
  \<open>g_netbuf_put_data\<close> appends: on a well formed buffer, with the data readable and memory
  to grow the block to a size below 4 GiB, the call returns the old tail, the buffer stays well
  formed, and the bytes it stands for are the old ones followed by the new.
\<close>

theorem put_data_appends:
  assumes "nb_ok msg" and "unat len \<le> length data"
    and "A (unat (nb_truesize msg) + unat len) \<noteq> None"
    and "unat (nb_truesize msg) + unat len < 4294967296"
  shows "\<exists>msg'. g_netbuf_put_data A msg data len = Inr (nb_tail msg, msg') \<and> nb_ok msg' \<and>
    payload msg' = payload msg @ take (unat len) data"
  using put_data_succeeds [of msg len data A, OF assms] put_data_ok [OF assms(1)] by metis

theorem put_data_appends_witness:
  "\<exists>msg'. g_netbuf_put_data (\<lambda>n. Some (\<lambda>_. 0))
      \<lparr>nb_mem = [1, 2], nb_data = 0, nb_tail = 2, nb_end = 2, nb_len = 2, nb_truesize = 2\<rparr> [7, 8, 9] 3
    = Inr (2, msg') \<and> nb_ok msg' \<and> payload msg' = [1, 2, 7, 8, 9]"
  using put_data_appends
    [of "\<lparr>nb_mem = [1, 2], nb_data = 0, nb_tail = 2, nb_end = 2, nb_len = 2, nb_truesize = 2\<rparr>" 3
      "[7, 8, 9]" "\<lambda>n. Some (\<lambda>_. 0)"]
  by (simp add: nb_ok_def payload_def)

text \<open>
  Headroom set aside by \<open>g_netbuf_reserve\<close> on an empty buffer takes a header of at most
  that length without any allocation: \<open>g_netbuf_prepend_hdr\<close> returns, also when the allocator
  always fails, and the buffer stands for the header.
\<close>

theorem reserved_room_takes_header:
  assumes "nb_ok msg" and "nb_len msg = 0" and "int (unat room) \<le> g_netbuf_tailroom msg"
    and "unat len \<le> unat room" and "unat len \<le> length hdr"
  shows "\<exists>p msg'. g_netbuf_prepend_hdr (\<lambda>_. None) (g_netbuf_reserve msg room) hdr len = Inr (p, msg') \<and>
    nb_ok msg' \<and> payload msg' = take (unat len) hdr"
proof -
  let ?r = "g_netbuf_reserve msg room"
  have r: "nb_ok ?r" "payload ?r = []" "unat len \<le> nb_data ?r"
    using reserve_ok [OF assms(1-3)] assms(4) by (auto simp: g_netbuf_headroom_def g_netbuf_reserve_def)
  then have "nb_data ?r \<le> length (nb_mem ?r)" by (simp add: nb_ok_def)
  with r assms(5) obtain p msg' where
    run: "g_netbuf_prepend_hdr (\<lambda>_. None) ?r hdr len = Inr (p, msg')"
    by (auto simp: g_netbuf_prepend_hdr_def push_in_place poke_def min_absorb2)
  with prepend_hdr_ok [OF r(1) run] r(2) show ?thesis by auto
qed

theorem reserved_room_takes_header_witness:
  "\<exists>p msg'. g_netbuf_prepend_hdr (\<lambda>_. None) (g_netbuf_reserve
      \<lparr>nb_mem = [0, 0, 0, 0], nb_data = 0, nb_tail = 0, nb_end = 4, nb_len = 0, nb_truesize = 4\<rparr> 3)
      [5, 6] 2 = Inr (p, msg') \<and> nb_ok msg' \<and> payload msg' = [5, 6]"
  using reserved_room_takes_header
    [of "\<lparr>nb_mem = [0, 0, 0, 0], nb_data = 0, nb_tail = 0, nb_end = 4, nb_len = 0, nb_truesize = 4\<rparr>"
      3 2 "[5, 6]"]
  by (simp add: nb_ok_def g_netbuf_tailroom_def)

text \<open>
  C5. Encapsulation is undone by decapsulation: the headers that \<open>g_netbuf_prepend_hdr\<close> put in
  front of a buffer, one after another, come off with \<open>g_netbuf_pull\<close> in the opposite order,
  every pull succeeds, and what is left is the original byte string.
\<close>

theorem headers_come_off:
  assumes "nb_ok b" and "fold_opt (nb_prepend A) b hs = Some b'"
  shows "\<exists>b''. fold_opt nb_pull b' (map length (rev hs)) = Some b'' \<and> nb_ok b'' \<and>
    payload b'' = payload b"
  by (rule nb.decapsulate [OF assms])

theorem headers_come_off_witness:
  "let b = \<lparr>nb_mem = [0, 9], nb_data = 1, nb_tail = 2, nb_end = 2, nb_len = 1, nb_truesize = 2\<rparr>;
       hs = [[1], [2, 3]]
   in \<exists>b'. fold_opt (nb_prepend (\<lambda>n. Some (\<lambda>_. 0))) b hs = Some b' \<and>
     (\<exists>b''. fold_opt nb_pull b' (map length (rev hs)) = Some b'' \<and> nb_ok b'' \<and> payload b'' = payload b)"
proof -
  let ?b = "\<lparr>nb_mem = [0, 9], nb_data = 1, nb_tail = 2, nb_end = 2, nb_len = 1, nb_truesize = 2\<rparr> :: netbuf"
  have "\<exists>b'. fold_opt (nb_prepend (\<lambda>n. Some (\<lambda>_. 0))) ?b [[1], [2, 3]] = Some b'"
    by (simp add: nb_prepend_def g_netbuf_prepend_hdr_def g_netbuf_push_def g_netbuf_realloc_def
        realloc_def malloc_def poke_def)
  moreover have "nb_ok ?b" by (simp add: nb_ok_def)
  ultimately show ?thesis
    using headers_come_off [of ?b "\<lambda>n. Some (\<lambda>_. 0)" "[[1], [2, 3]]"] unfolding Let_def by blast
qed

text \<open>
  A failed reallocation in \<open>g_netbuf_put\<close> is not undone: the call returns a null pointer and
  leaves the buffer with its tail past the end of its block. \<open>g_netbuf_put_data\<close> then passes
  the null pointer to \<open>memcpy\<close>.
\<close>

theorem failed_put_leaves_tail_outside:
  assumes "nb_ok msg" and "nb_end msg < nb_tail msg + unat len" and "\<And>n. A n = None"
  shows "\<exists>msg'. g_netbuf_put A msg len = (None, msg') \<and> nb_tail msg' > length (nb_mem msg') \<and>
    g_netbuf_put_data A msg data len = Inl Null_deref"
  using assms
  by (auto simp: g_netbuf_put_def g_netbuf_put_data_def g_netbuf_realloc_def realloc_def malloc_def
      Let_def nb_ok_def)

theorem failed_put_leaves_tail_outside_witness:
  "\<exists>msg'. g_netbuf_put (\<lambda>_. None)
      \<lparr>nb_mem = [1], nb_data = 0, nb_tail = 1, nb_end = 1, nb_len = 1, nb_truesize = 1\<rparr> 1 = (None, msg') \<and>
    nb_tail msg' > length (nb_mem msg') \<and>
    g_netbuf_put_data (\<lambda>_. None)
      \<lparr>nb_mem = [1], nb_data = 0, nb_tail = 1, nb_end = 1, nb_len = 1, nb_truesize = 1\<rparr> [7] 1 = Inl Null_deref"
  by (rule failed_put_leaves_tail_outside) (simp_all add: nb_ok_def)

end
