(* ===== verification/Dump_State.thy ===== *)
theory Dump_State
  imports Netbuf
begin

text \<open>
  The globals of irdadump (\<open>irdadump/irdadump.h\<close>, \<open>irdadump/irlap.c\<close>,
  \<open>irdadump/irdadump.c\<close>) as one record, the constants of the protocols, and the primitives the
  parsers are made of: a read of the frame buffer, a call on the output string, a pull. The
  output is kept as the list of calls made on the \<open>GString\<close>, with the format strings of the
  code, so nothing is assumed about how glib renders them.
\<close>

section \<open>Output calls\<close>

datatype gcall =
    Append string                     \<comment> \<open>\<open>g_string_append(str, \<dots>)\<close>\<close>
  | Sprintfa string "varg list"       \<comment> \<open>\<open>g_string_sprintfa(str, fmt, \<dots>)\<close>\<close>

section \<open>Constants\<close>

abbreviation CMD_FRAME :: byte where "CMD_FRAME \<equiv> 0x01"
abbreviation PF_BIT :: byte where "PF_BIT \<equiv> 0x10"
abbreviation CBROADCAST :: byte where "CBROADCAST \<equiv> 0xfe"

abbreviation SNRM_CMD :: byte where "SNRM_CMD \<equiv> 0x83"
abbreviation DISC_CMD :: byte where "DISC_CMD \<equiv> 0x43"
abbreviation XID_CMD :: byte where "XID_CMD \<equiv> 0x2f"
abbreviation TEST_CMD :: byte where "TEST_CMD \<equiv> 0xe3"
abbreviation UA_RSP :: byte where "UA_RSP \<equiv> 0x63"
abbreviation FRMR_RSP :: byte where "FRMR_RSP \<equiv> 0x87"
abbreviation DM_RSP :: byte where "DM_RSP \<equiv> 0x0f"
abbreviation XID_RSP :: byte where "XID_RSP \<equiv> 0xaf"
abbreviation RR :: byte where "RR \<equiv> 0x01"
abbreviation REJ :: byte where "REJ \<equiv> 0x09"
abbreviation RNR :: byte where "RNR \<equiv> 0x05"
abbreviation SREJ :: byte where "SREJ \<equiv> 0x0d"
abbreviation UI_FRAME :: byte where "UI_FRAME \<equiv> 0x03"

abbreviation CONNECT_CMD :: byte where "CONNECT_CMD \<equiv> 0x01"
abbreviation CONNECT_RSP :: byte where "CONNECT_RSP \<equiv> 0x81"
abbreviation DISCONNECT :: byte where "DISCONNECT \<equiv> 0x02"
abbreviation CONTROL_BIT :: byte where "CONTROL_BIT \<equiv> 0x80"
abbreviation LSAP_MASK :: byte where "LSAP_MASK \<equiv> 0x7f"
abbreviation LSAP_ANY :: byte where "LSAP_ANY \<equiv> 0xff"

abbreviation IAP_LST :: byte where "IAP_LST \<equiv> 0x80"
abbreviation GET_INFO_BASE :: byte where "GET_INFO_BASE \<equiv> 0x01"
abbreviation GET_VALUE_BY_CLASS :: byte where "GET_VALUE_BY_CLASS \<equiv> 0x04"
abbreviation IAS_SUCCESS :: byte where "IAS_SUCCESS \<equiv> 0x00"
abbreviation IAS_CLASS_UNKNOWN :: byte where "IAS_CLASS_UNKNOWN \<equiv> 0x01"
abbreviation IAS_ATTRIB_UNKNOWN :: byte where "IAS_ATTRIB_UNKNOWN \<equiv> 0x02"
abbreviation IAS_INTEGER :: byte where "IAS_INTEGER \<equiv> 1"
abbreviation IAS_OCT_SEQ :: byte where "IAS_OCT_SEQ \<equiv> 2"
abbreviation IAS_STRING :: byte where "IAS_STRING \<equiv> 3"

abbreviation PI_BAUD_RATE :: byte where "PI_BAUD_RATE \<equiv> 0x01"
abbreviation PI_MAX_TURN_TIME :: byte where "PI_MAX_TURN_TIME \<equiv> 0x02"
abbreviation PI_DATA_SIZE :: byte where "PI_DATA_SIZE \<equiv> 0x03"
abbreviation PI_WINDOW_SIZE :: byte where "PI_WINDOW_SIZE \<equiv> 0x04"
abbreviation PI_ADD_BOFS :: byte where "PI_ADD_BOFS \<equiv> 0x05"
abbreviation PI_MIN_TURN_TIME :: byte where "PI_MIN_TURN_TIME \<equiv> 0x06"
abbreviation PI_LINK_DISC :: byte where "PI_LINK_DISC \<equiv> 0x08"

definition MAX_CONNECTIONS :: nat where "MAX_CONNECTIONS = 15"
definition MAX_FRAME_SIZE :: nat where "MAX_FRAME_SIZE = 2050"

section \<open>The state\<close>

text \<open>\<open>struct ias_query\<close>: the last LM-IAS query seen.\<close>

record ias_query =
  q_lsap_sel :: byte
  q_ttp :: bool
  q_obex :: bool
  q_ircomm :: bool
  q_irnet :: bool

text \<open>\<open>struct lsap_state\<close>: one LMP connection.\<close>

record lsap_state =
  valid :: bool
  ttp :: bool
  obex :: bool
  ircomm :: bool
  irnet :: bool
  saddr :: u32
  daddr :: u32
  slsap_sel :: byte
  dlsap_sel :: byte
  caddr :: byte

text \<open>The \<open>config_\<close> options.\<close>

record config =
  config_print_diff :: bool
  config_dump_frame :: bool
  config_print_irlap :: bool
  config_print_irlmp :: bool
  config_print_lost_frames :: bool
  config_snaplen :: int
  config_dump_bytes :: bool
  config_snapcols :: int
  config_force_ttp :: bool

record dump =
  fb :: netbuf                \<comment> \<open>\<open>frame_buf\<close>, passed to every parser as \<open>buf\<close>\<close>
  out :: "gcall list"         \<comment> \<open>the calls made on \<open>str\<close>, in order\<close>
  console :: "tcall list"     \<comment> \<open>what is printed elsewhere, in order\<close>
  last_ias :: ias_query
  conn :: "lsap_state list"
  conn_cache :: int
  self_nr :: int
  self_ns :: int
  peer_nr :: int
  peer_ns :: int
  cfg :: config
  stk :: "byte list"          \<comment> \<open>what an uninitialised 255 byte local array holds\<close>

text \<open>The globals when the program starts; \<open>stack\<close> is what a local array of 255 bytes holds.\<close>

definition empty_query :: ias_query where
  "empty_query = \<lparr>q_lsap_sel = 0, q_ttp = False, q_obex = False, q_ircomm = False, q_irnet = False\<rparr>"

definition empty_lsap :: lsap_state where
  "empty_lsap = \<lparr>valid = False, ttp = False, obex = False, ircomm = False, irnet = False,
     saddr = 0, daddr = 0, slsap_sel = 0, dlsap_sel = 0, caddr = 0\<rparr>"

definition default_config :: config where
  "default_config = \<lparr>config_print_diff = False, config_dump_frame = False,
     config_print_irlap = True, config_print_irlmp = True, config_print_lost_frames = False,
     config_snaplen = 32, config_dump_bytes = False, config_snapcols = 16,
     config_force_ttp = False\<rparr>"

definition boot_dump :: "byte list \<Rightarrow> dump" where
  "boot_dump stack = \<lparr>
     fb = \<lparr>nb_mem = [], nb_data = 0, nb_tail = 0, nb_end = 0, nb_len = 0, nb_truesize = 0\<rparr>,
     out = [], console = [], last_ias = empty_query, conn = replicate MAX_CONNECTIONS empty_lsap,
     conn_cache = -1, self_nr = 0, self_ns = 0, peer_nr = 0, peer_ns = 0, cfg = default_config,
     stk = stack\<rparr>"

type_synonym 'a dm = "(dump, 'a) cm"

section \<open>Primitives\<close>

text \<open>\<open>buf->data[i]\<close>, for any \<open>i\<close> up to the end of the block.\<close>

definition rd :: "nat \<Rightarrow> byte dm" where
  "rd i = (\<lambda>s. let p = nb_data (fb s) + i in
     if p < length (nb_mem (fb s)) then (Inr (nb_mem (fb s) ! p), s) else (Inl Oob_read, s))"

text \<open>\<open>memcpy(\<dots>, buf->data + i, n)\<close>: the \<open>n\<close> bytes from \<open>buf->data + i\<close> on.\<close>

definition rds :: "nat \<Rightarrow> nat \<Rightarrow> byte list dm" where
  "rds i n = (\<lambda>s. let p = nb_data (fb s) + i in
     if p + n \<le> length (nb_mem (fb s)) then (Inr (take n (drop p (nb_mem (fb s)))), s)
     else (Inl Oob_read, s))"

text \<open>The C string at \<open>buf->data + i\<close>, as \<open>printf\<close> reads it for \<open>%s\<close>.\<close>

definition rd_cstring :: "nat \<Rightarrow> byte list dm" where
  "rd_cstring i = (\<lambda>s. let bs = drop (nb_data (fb s) + i) (nb_mem (fb s)) in
     if 0 \<in> set bs then (Inr (cstring bs), s) else (Inl Oob_read, s))"

text \<open>\<open>buf->data[i] = b\<close>.\<close>

definition wr :: "nat \<Rightarrow> byte \<Rightarrow> unit dm" where
  "wr i b = (\<lambda>s. let p = nb_data (fb s) + i in
     if p < length (nb_mem (fb s))
     then (Inr (), s\<lparr>fb := (fb s)\<lparr>nb_mem := (nb_mem (fb s))[p := b]\<rparr>\<rparr>)
     else (Inl Oob_write, s))"

text \<open>\<open>g_netbuf_pull(buf, n)\<close>; the result is whether the pointer is not null.\<close>

definition pull :: "u32 \<Rightarrow> bool dm" where
  "pull n = (\<lambda>s. case g_netbuf_pull (fb s) n of (p, b) \<Rightarrow> (Inr (p \<noteq> None), s\<lparr>fb := b\<rparr>))"

definition drop_hdr :: "u32 \<Rightarrow> unit dm" where
  "drop_hdr n = ignore (pull n)"

definition emit :: "gcall \<Rightarrow> unit dm" where
  "emit c = modify (\<lambda>s. s\<lparr>out := out s @ [c]\<rparr>)"

definition append_str :: "string \<Rightarrow> unit dm" where
  "append_str t = emit (Append t)"

definition sprintfa :: "string \<Rightarrow> varg list \<Rightarrow> unit dm" where
  "sprintfa fmt args = emit (Sprintfa fmt args)"

definition print_term :: "string \<Rightarrow> varg list \<Rightarrow> unit dm" where
  "print_term fmt args = modify (\<lambda>s. s\<lparr>console := console s @ [Term fmt args]\<rparr>)"

text \<open>
  \<open>memcpy\<close> of \<open>bs\<close> into a local \<open>char a[n]\<close> followed by \<open>a[len] = 0\<close>, and the C string
  that \<open>a\<close> holds then.
\<close>

definition local_string :: "nat \<Rightarrow> byte list \<Rightarrow> byte list dm" where
  "local_string n bs = (if length bs < n then ret (cstring bs) else stop Oob_write)"

section \<open>Reasoning about the primitives\<close>

text \<open>At least \<open>n\<close> bytes of the block lie at and after \<open>buf->data\<close>.\<close>

definition room :: "nat \<Rightarrow> dump \<Rightarrow> bool" where
  "room n s \<longleftrightarrow> nb_data (fb s) + n \<le> length (nb_mem (fb s))"

definition cell :: "dump \<Rightarrow> nat \<Rightarrow> byte" where
  "cell s i = nb_mem (fb s) ! (nb_data (fb s) + i)"

lemma room_le: "room n s \<Longrightarrow> m \<le> n \<Longrightarrow> room m s"
  by (simp add: room_def)

lemma wp_rd [wp_simps]:
  "wp (rd i) Q E s = (if room (Suc i) s then Q (cell s i) s else E Oob_read s)"
  by (auto simp: wp_def rd_def room_def cell_def Let_def)

lemma wp_rds [wp_simps]:
  "wp (rds i n) Q E s =
    (if room (i + n) s then Q (take n (drop (nb_data (fb s) + i) (nb_mem (fb s)))) s
     else E Oob_read s)"
  by (auto simp: wp_def rds_def room_def Let_def add.assoc)

lemma wp_rd_cstring [wp_simps]:
  "wp (rd_cstring i) Q E s =
    (if 0 \<in> set (drop (nb_data (fb s) + i) (nb_mem (fb s)))
     then Q (cstring (drop (nb_data (fb s) + i) (nb_mem (fb s)))) s else E Oob_read s)"
  by (auto simp: wp_def rd_cstring_def Let_def)

lemma wp_wr [wp_simps]:
  "wp (wr i b) Q E s =
    (if room (Suc i) s
     then Q () (s\<lparr>fb := (fb s)\<lparr>nb_mem := (nb_mem (fb s))[nb_data (fb s) + i := b]\<rparr>\<rparr>)
     else E Oob_write s)"
  by (auto simp: wp_def wr_def room_def Let_def)

text \<open>The bytes of the block from \<open>buf->data\<close> on: the frame and what lies behind it.\<close>

definition ahead :: "dump \<Rightarrow> byte list" where
  "ahead s = drop (nb_data (fb s)) (nb_mem (fb s))"

lemma ahead_room: "n \<le> length (ahead s) \<Longrightarrow> 0 < n \<Longrightarrow> room n s"
  by (auto simp: room_def ahead_def)

lemma ahead_cell: "i < length (ahead s) \<Longrightarrow> cell s i = ahead s ! i"
  by (simp add: cell_def ahead_def)

text \<open>Runs of the reads and the copies, for a frame whose bytes are known.\<close>

lemma run_rd [run_simps]: "rd i s = (if room (Suc i) s then Inr (cell s i) else Inl Oob_read, s)"
  by (auto simp: rd_def room_def cell_def Let_def)

lemma run_rds [run_simps]:
  "rds i n s = (if room (i + n) s then Inr (take n (drop i (ahead s))) else Inl Oob_read, s)"
  by (auto simp: rds_def room_def ahead_def Let_def add.assoc add.commute)

lemma run_local_string [run_simps]:
  "local_string n bs s = (if length bs < n then Inr (cstring bs) else Inl Oob_write, s)"
  by (simp add: local_string_def ret_def stop_def)

text \<open>The updates by name, so that the states of a long block stay readable.\<close>

definition said :: "gcall \<Rightarrow> dump \<Rightarrow> dump" where
  "said c s = s\<lparr>out := out s @ [c]\<rparr>"

definition told :: "tcall \<Rightarrow> dump \<Rightarrow> dump" where
  "told c s = s\<lparr>console := console s @ [c]\<rparr>"

definition pulled :: "u32 \<Rightarrow> dump \<Rightarrow> dump" where
  "pulled n s = s\<lparr>fb := (fb s)\<lparr>nb_len := nb_len (fb s) - n, nb_data := nb_data (fb s) + unat n\<rparr>\<rparr>"

lemma wp_pull [wp_simps]:
  "wp (pull n) Q E s = (if nb_len (fb s) < n then Q False s else Q True (pulled n s))"
  by (auto simp: wp_def pull_def g_netbuf_pull_def pulled_def)

lemma wp_drop_hdr [wp_simps]: "wp (drop_hdr n) Q E = wp (pull n) (\<lambda>_. Q ()) E"
  by (simp add: drop_hdr_def wp_ignore)

lemma wp_emit [wp_simps]: "wp (emit c) Q E s = Q () (said c s)"
  by (simp add: emit_def wp_modify said_def)

lemma wp_append_str [wp_simps]: "wp (append_str t) Q E s = Q () (said (Append t) s)"
  by (simp add: append_str_def wp_emit)

lemma wp_sprintfa [wp_simps]:
  "wp (sprintfa fmt args) Q E s = Q () (said (Sprintfa fmt args) s)"
  by (simp add: sprintfa_def wp_emit)

lemma wp_print_term [wp_simps]:
  "wp (print_term fmt args) Q E s = Q () (told (Term fmt args) s)"
  by (simp add: print_term_def wp_modify told_def)

lemma wp_local_string [wp_simps]:
  "wp (local_string n bs) Q E s =
    (if length bs < n then Q (cstring bs) s else E Oob_write s)"
  by (simp add: local_string_def wp_ret wp_stop)

lemma run_talk [run_simps]:
  "emit c s = (Inr (), said c s)" "append_str t s = (Inr (), said (Append t) s)"
  "sprintfa fmt args s = (Inr (), said (Sprintfa fmt args) s)"
  "print_term fmt args s = (Inr (), told (Term fmt args) s)"
  by (simp_all add: emit_def append_str_def sprintfa_def print_term_def modify_def said_def told_def)

lemma run_pull [run_simps]:
  "pull n s = (if nb_len (fb s) < n then (Inr False, s) else (Inr True, pulled n s))"
  by (auto simp: pull_def g_netbuf_pull_def pulled_def)

lemma run_drop_hdr [run_simps]:
  "drop_hdr n s = (Inr (), if nb_len (fb s) < n then s else pulled n s)"
  by (simp add: drop_hdr_def run_simps)

lemma said_simps [simp]:
  "last_ias (said c s) = last_ias s" "conn (said c s) = conn s"
  "conn_cache (said c s) = conn_cache s" "self_nr (said c s) = self_nr s"
  "self_ns (said c s) = self_ns s" "peer_nr (said c s) = peer_nr s"
  "peer_ns (said c s) = peer_ns s" "cfg (said c s) = cfg s" "stk (said c s) = stk s"
  "fb (said c s) = fb s" "console (said c s) = console s" "out (said c s) = out s @ [c]"
  by (simp_all add: said_def)

lemma told_simps [simp]:
  "last_ias (told c s) = last_ias s" "conn (told c s) = conn s"
  "conn_cache (told c s) = conn_cache s" "self_nr (told c s) = self_nr s"
  "self_ns (told c s) = self_ns s" "peer_nr (told c s) = peer_nr s"
  "peer_ns (told c s) = peer_ns s" "cfg (told c s) = cfg s" "stk (told c s) = stk s"
  "fb (told c s) = fb s" "out (told c s) = out s" "console (told c s) = console s @ [c]"
  by (simp_all add: told_def)

lemma pulled_simps [simp]:
  "last_ias (pulled n s) = last_ias s" "conn (pulled n s) = conn s"
  "conn_cache (pulled n s) = conn_cache s" "self_nr (pulled n s) = self_nr s"
  "self_ns (pulled n s) = self_ns s" "peer_nr (pulled n s) = peer_nr s"
  "peer_ns (pulled n s) = peer_ns s" "cfg (pulled n s) = cfg s" "stk (pulled n s) = stk s"
  "out (pulled n s) = out s" "console (pulled n s) = console s"
  "nb_mem (fb (pulled n s)) = nb_mem (fb s)" "nb_len (fb (pulled n s)) = nb_len (fb s) - n"
  "nb_data (fb (pulled n s)) = nb_data (fb s) + unat n"
  "nb_end (fb (pulled n s)) = nb_end (fb s)" "nb_tail (fb (pulled n s)) = nb_tail (fb s)"
  "nb_truesize (fb (pulled n s)) = nb_truesize (fb s)"
  by (simp_all add: pulled_def)

lemma room_said [simp]: "room n (said c s) = room n s"
  and room_told [simp]: "room n (told d s) = room n s"
  and room_pulled [simp]: "room n (pulled k s) = room (unat k + n) s"
  by (simp_all add: room_def pulled_def add.assoc)

lemma cell_said [simp]: "cell (said c s) i = cell s i"
  and cell_told [simp]: "cell (told d s) i = cell s i"
  and cell_pulled [simp]: "cell (pulled k s) i = cell s (unat k + i)"
  by (simp_all add: cell_def pulled_def add.assoc)

lemma room_update [simp]:
  "room n (s\<lparr>last_ias := x3\<rparr>) = room n s" "room n (s\<lparr>conn := x4\<rparr>) = room n s"
  "room n (s\<lparr>conn_cache := x5\<rparr>) = room n s" "room n (s\<lparr>self_nr := x6\<rparr>) = room n s"
  "room n (s\<lparr>self_ns := x6\<rparr>) = room n s" "room n (s\<lparr>peer_nr := x6\<rparr>) = room n s"
  "room n (s\<lparr>peer_ns := x6\<rparr>) = room n s"
  by (simp_all add: room_def)

lemma cell_update [simp]:
  "cell (s\<lparr>last_ias := x3\<rparr>) i = cell s i" "cell (s\<lparr>conn := x4\<rparr>) i = cell s i"
  "cell (s\<lparr>conn_cache := x5\<rparr>) i = cell s i" "cell (s\<lparr>self_nr := x6\<rparr>) i = cell s i"
  "cell (s\<lparr>self_ns := x6\<rparr>) i = cell s i" "cell (s\<lparr>peer_nr := x6\<rparr>) i = cell s i"
  "cell (s\<lparr>peer_ns := x6\<rparr>) i = cell s i"
  by (simp_all add: cell_def)

text \<open>The bytes of a frame, at \<open>buf->data\<close>.\<close>

lemma cell_payload: "i < unat (nb_len (fb s)) \<Longrightarrow> nb_ok (fb s) \<Longrightarrow> cell s i = payload (fb s) ! i"
  by (simp add: cell_def payload_def nb_ok_def)

section \<open>What a parser may change\<close>

text \<open>
  \<open>talked\<close>: only output was produced. \<open>parsed\<close>: output was produced and headers were
  removed from the front of the frame, whose end stays where it is.
\<close>

definition same_tables :: "dump \<Rightarrow> dump \<Rightarrow> bool" where
  "same_tables s s' \<longleftrightarrow>
     last_ias s' = last_ias s \<and> conn s' = conn s \<and> conn_cache s' = conn_cache s \<and>
     self_nr s' = self_nr s \<and> self_ns s' = self_ns s \<and> peer_nr s' = peer_nr s \<and>
     peer_ns s' = peer_ns s \<and> cfg s' = cfg s \<and> stk s' = stk s"

definition talked :: "dump \<Rightarrow> dump \<Rightarrow> bool" where
  "talked s s' \<longleftrightarrow> same_tables s s' \<and> fb s' = fb s"

definition window :: "netbuf \<Rightarrow> netbuf \<Rightarrow> bool" where
  "window b b' \<longleftrightarrow>
     nb_mem b' = nb_mem b \<and> nb_tail b' = nb_tail b \<and> nb_end b' = nb_end b \<and>
     nb_truesize b' = nb_truesize b \<and> nb_data b \<le> nb_data b' \<and>
     nb_data b' + unat (nb_len b') = nb_data b + unat (nb_len b)"

definition parsed :: "dump \<Rightarrow> dump \<Rightarrow> bool" where
  "parsed s s' \<longleftrightarrow> same_tables s s' \<and> window (fb s) (fb s')"

lemma same_tables_refl [simp]: "same_tables s s"
  by (simp add: same_tables_def)

lemma same_tables_trans: "same_tables s t \<Longrightarrow> same_tables t u \<Longrightarrow> same_tables s u"
  by (simp add: same_tables_def)

lemma window_refl [simp]: "window b b"
  by (simp add: window_def)

lemma window_trans: "window b c \<Longrightarrow> window c d \<Longrightarrow> window b d"
  by (simp add: window_def)

lemma window_ok: "window b b' \<Longrightarrow> nb_ok b \<Longrightarrow> nb_ok b'"
  by (simp add: window_def nb_ok_def)

lemma talked_refl [simp]: "talked s s"
  by (simp add: talked_def)

lemma parsed_refl [simp]: "parsed s s"
  by (simp add: parsed_def)

lemma talked_trans [trans]: "talked s t \<Longrightarrow> talked t u \<Longrightarrow> talked s u"
  by (simp add: talked_def same_tables_def)

lemma parsed_trans [trans]: "parsed s t \<Longrightarrow> parsed t u \<Longrightarrow> parsed s u"
  by (auto simp: parsed_def intro: same_tables_trans window_trans)

lemma talked_parsed: "talked s t \<Longrightarrow> parsed s t"
  by (simp add: talked_def parsed_def)

lemma talked_said: "talked s t \<Longrightarrow> talked s (said c t)"
  and talked_told: "talked s t \<Longrightarrow> talked s (told d t)"
  by (simp_all add: talked_def same_tables_def)

lemma parsed_said: "parsed s t \<Longrightarrow> parsed s (said c t)"
  and parsed_told: "parsed s t \<Longrightarrow> parsed s (told d t)"
  by (simp_all add: parsed_def same_tables_def)

lemma pulled_window:
  assumes "\<not> nb_len (fb t) < n"
  shows "window (fb t) (fb (pulled n t))"
proof -
  have "unat (nb_len (fb t) - n) = unat (nb_len (fb t)) - unat n" "unat n \<le> unat (nb_len (fb t))"
    using assms by (simp_all add: unat_sub word_le_nat_alt word_less_nat_alt)
  then show ?thesis by (simp add: window_def)
qed

lemma parsed_pulled: "parsed s t \<Longrightarrow> \<not> nb_len (fb t) < n \<Longrightarrow> parsed s (pulled n t)"
  by (auto simp: parsed_def same_tables_def intro: window_trans pulled_window)

lemma talked_sel:
  assumes "talked s s'"
  shows "fb s' = fb s" "last_ias s' = last_ias s" "conn s' = conn s" "conn_cache s' = conn_cache s"
    "self_nr s' = self_nr s" "self_ns s' = self_ns s" "peer_nr s' = peer_nr s"
    "peer_ns s' = peer_ns s" "cfg s' = cfg s" "stk s' = stk s" "room n s' = room n s"
    "cell s' i = cell s i"
  using assms by (simp_all add: talked_def same_tables_def room_def cell_def)

lemma parsed_sel:
  assumes "parsed s s'"
  shows "nb_mem (fb s') = nb_mem (fb s)" "last_ias s' = last_ias s" "conn s' = conn s"
    "conn_cache s' = conn_cache s" "self_nr s' = self_nr s" "self_ns s' = self_ns s"
    "peer_nr s' = peer_nr s" "peer_ns s' = peer_ns s" "cfg s' = cfg s" "stk s' = stk s"
    "nb_tail (fb s') = nb_tail (fb s)" "nb_end (fb s') = nb_end (fb s)"
    "nb_truesize (fb s') = nb_truesize (fb s)"
  using assms by (simp_all add: parsed_def same_tables_def window_def)

lemma parsed_ok: "parsed s s' \<Longrightarrow> nb_ok (fb s) \<Longrightarrow> nb_ok (fb s')"
  by (auto simp: parsed_def intro: window_ok)

text \<open>
  Fault postconditions: \<open>stops F P\<close> holds when the code stops with a fault in \<open>F\<close> in a state
  with \<open>P\<close>. \<open>mem_fault\<close> are the accesses outside an object, \<open>table_fault\<close> has the accesses
  outside a global table as well.
\<close>

definition mem_fault :: "fault \<Rightarrow> bool" where
  "mem_fault e \<longleftrightarrow> e = Oob_read \<or> e = Oob_write"

definition table_fault :: "fault \<Rightarrow> bool" where
  "table_fault e \<longleftrightarrow> mem_fault e \<or> e = Bad_index"

definition stops :: "(fault \<Rightarrow> bool) \<Rightarrow> (dump \<Rightarrow> bool) \<Rightarrow> fault \<Rightarrow> dump \<Rightarrow> bool" where
  "stops F P e t \<longleftrightarrow> F e \<and> P t"

abbreviation oob :: "(dump \<Rightarrow> bool) \<Rightarrow> fault \<Rightarrow> dump \<Rightarrow> bool" where
  "oob \<equiv> stops mem_fault"

lemma mem_fault_simps [simp]: "mem_fault Oob_read" "mem_fault Oob_write" "\<not> mem_fault Bad_index"
  by (simp_all add: mem_fault_def)

lemma table_fault_simps [simp]:
  "table_fault Oob_read" "table_fault Oob_write" "table_fault Bad_index"
  by (simp_all add: table_fault_def)

lemma stops_simps [simp]:
  "stops F P Oob_read t = (F Oob_read \<and> P t)" "stops F P Oob_write t = (F Oob_write \<and> P t)"
  "stops F P Bad_index t = (F Bad_index \<and> P t)"
  by (simp_all add: stops_def)

lemma oob_mono: "stops F P e t \<Longrightarrow> (P t \<Longrightarrow> P' t) \<Longrightarrow> stops F P' e t"
  by (simp add: stops_def)

text \<open>
  \<open>keeping F P m\<close>: \<open>m\<close> keeps \<open>P\<close>, also when it stops, with a fault in \<open>F\<close>. A block keeps \<open>P\<close> when its parts do.
\<close>

definition keeping :: "(fault \<Rightarrow> bool) \<Rightarrow> (dump \<Rightarrow> bool) \<Rightarrow> 'a dm \<Rightarrow> bool" where
  "keeping F P m \<longleftrightarrow> (\<forall>s. P s \<longrightarrow> wp m (\<lambda>_. P) (stops F P) s)"

lemma keepingI: "(\<And>s. P s \<Longrightarrow> wp m (\<lambda>_. P) (stops F P) s) \<Longrightarrow> keeping F P m"
  by (simp add: keeping_def)

lemma keepingD: "keeping F P m \<Longrightarrow> P s \<Longrightarrow> wp m (\<lambda>_. P) (stops F P) s"
  by (simp add: keeping_def)

lemma keeping_ret: "keeping F P (ret a)"
  by (rule keepingI) (simp add: wp_simps)

lemma keeping_gets: "keeping F P (gets f)"
  by (rule keepingI) (simp add: wp_simps)

lemma keeping_rd: "keeping mem_fault P (rd i)"
  by (rule keepingI) (simp add: wp_simps)

lemma keeping_rds: "keeping mem_fault P (rds i n)"
  by (rule keepingI) (simp add: wp_simps)

lemma keeping_bnd: "keeping F P m \<Longrightarrow> (\<And>a. keeping F P (f a)) \<Longrightarrow> keeping F P (bnd m f)"
  by (auto simp: keeping_def wp_simps elim!: wp_weaken)

lemma keeping_thn: "keeping F P m \<Longrightarrow> keeping F P k \<Longrightarrow> keeping F P (thn m k)"
  by (auto simp: keeping_def wp_simps elim!: wp_weaken)

lemma keeping_if: "(b \<Longrightarrow> keeping F P m) \<Longrightarrow> (\<not> b \<Longrightarrow> keeping F P k) \<Longrightarrow> keeping F P (if b then m else k)"
  by simp

lemma keeping_doif: "(b \<Longrightarrow> keeping F P m) \<Longrightarrow> keeping F P (doif b m)"
  by (simp add: doif_def keeping_ret)

lemma keeping_Nil: "keeping F P (seqs [])"
  by (simp add: seqs.simps keeping_ret)

lemma keeping_Cons: "keeping F P m \<Longrightarrow> keeping F P (seqs ms) \<Longrightarrow> keeping F P (seqs (m # ms))"
  by (simp add: seqs.simps keeping_thn)

lemma keeping_table: "keeping mem_fault P m \<Longrightarrow> keeping table_fault P m"
  by (auto simp: keeping_def table_fault_def stops_def elim!: wp_mono)

lemmas keeping_intros = keeping_ret keeping_gets keeping_rd keeping_rds keeping_bnd keeping_thn
  keeping_if keeping_doif keeping_Nil keeping_Cons

text \<open>The hints that close a goal \<open>talked s \<dots>\<close> or \<open>parsed s \<dots>\<close> about an updated state.\<close>

lemmas talked_intros = talked_said talked_told
lemmas parsed_intros = parsed_said parsed_told parsed_pulled talked_parsed

abbreviation nl_tab :: string where "nl_tab \<equiv> [CHR 0x0A, CHR 0x09]"

section \<open>The bytes ahead\<close>

lemma ahead_said [simp]: "ahead (said c s) = ahead s"
  and ahead_told [simp]: "ahead (told d s) = ahead s"
  and ahead_pulled [simp]: "ahead (pulled n s) = drop (unat n) (ahead s)"
  by (simp_all add: ahead_def add.commute)

text \<open>A frame that fills its block from \<open>buf->data\<close> on, for examples.\<close>

definition framed :: "byte list \<Rightarrow> dump \<Rightarrow> dump" where
  "framed bs s = s\<lparr>fb := \<lparr>nb_mem = bs, nb_data = 0, nb_tail = length bs, nb_end = length bs,
     nb_len = of_nat (length bs), nb_truesize = of_nat (length bs)\<rparr>\<rparr>"

lemma framed_sel [simp]:
  "ahead (framed bs s) = bs" "nb_len (fb (framed bs s)) = of_nat (length bs)"
  "conn (framed bs s) = conn s" "conn_cache (framed bs s) = conn_cache s"
  "last_ias (framed bs s) = last_ias s" "out (framed bs s) = out s" "cfg (framed bs s) = cfg s"
  "stk (framed bs s) = stk s"
  by (simp_all add: framed_def ahead_def)

end
