(* ===== verification/Ircomm.thy ===== *)
theory Ircomm
  imports Dump_State
begin

text \<open>
  The IrCOMM decoder of irdadump (\<open>irdadump/ircomm.h\<close>, \<open>irdadump/ircomm.c\<close>): a control
  channel of type/length/value parameters in front of the data. The lemmas show that the walk
  over the parameters stops, changes nothing but output and the front of the frame, and how
  many bytes of the block it can touch.
\<close>

section \<open>Constants\<close>

abbreviation SERVICE_TYPE :: byte where "SERVICE_TYPE \<equiv> 0x00"
abbreviation PORT_TYPE :: byte where "PORT_TYPE \<equiv> 0x01"
abbreviation DATA_RATE :: byte where "DATA_RATE \<equiv> 0x10"
abbreviation DATA_FORMAT :: byte where "DATA_FORMAT \<equiv> 0x11"
abbreviation FLOW_CONTROL :: byte where "FLOW_CONTROL \<equiv> 0x12"
abbreviation XON_XOFF_CHAR :: byte where "XON_XOFF_CHAR \<equiv> 0x13"
abbreviation DTELINE_STATE :: byte where "DTELINE_STATE \<equiv> 0x20"
abbreviation IRCOMM_3_WIRE_RAW :: byte where "IRCOMM_3_WIRE_RAW \<equiv> 0x01"
abbreviation IRCOMM_3_WIRE :: byte where "IRCOMM_3_WIRE \<equiv> 0x02"
abbreviation IRCOMM_9_WIRE :: byte where "IRCOMM_9_WIRE \<equiv> 0x04"
abbreviation IRCOMM_CENTRONICS :: byte where "IRCOMM_CENTRONICS \<equiv> 0x08"
abbreviation IRCOMM_VALID_SERVICES :: byte where "IRCOMM_VALID_SERVICES \<equiv> 0x0f"
abbreviation IRCOMM_SERIAL :: byte where "IRCOMM_SERIAL \<equiv> 0x01"
abbreviation IRCOMM_PARALLEL :: byte where "IRCOMM_PARALLEL \<equiv> 0x02"
abbreviation IRCOMM_VALID_PORT_TYPES :: byte where "IRCOMM_VALID_PORT_TYPES \<equiv> 0x03"

section \<open>The decoder\<close>

definition bytes_to_uint :: "nat \<Rightarrow> u32 dm" where
  "bytes_to_uint i =
     bnd (rd i) (\<lambda>b0. bnd (rd (i + 1)) (\<lambda>b1. bnd (rd (i + 2)) (\<lambda>b2. bnd (rd (i + 3)) (\<lambda>b3.
       ret (be32 b0 b1 b2 b3)))))"

text \<open>The \<open>switch\<close> of the loop, at the parameter that starts at \<open>buf->data[n]\<close>.\<close>

definition ircomm_param :: "byte \<Rightarrow> nat \<Rightarrow> unit dm" where
  "ircomm_param pid n =
    (if pid = SERVICE_TYPE then
       bnd (rd (n + 2)) (\<lambda>pv_byte. seqs [
         sprintfa ''Service Type='' [],
         doif (pv_byte AND IRCOMM_CENTRONICS \<noteq> 0) (sprintfa ''CENTRONICS '' []),
         doif (pv_byte AND IRCOMM_9_WIRE \<noteq> 0) (sprintfa ''NINE_WIRE '' []),
         doif (pv_byte AND IRCOMM_3_WIRE \<noteq> 0) (sprintfa ''THREE_WIRE '' []),
         doif (pv_byte AND IRCOMM_3_WIRE_RAW \<noteq> 0) (sprintfa ''THREE_WIRE_RAW '' []),
         doif (pv_byte AND IRCOMM_VALID_SERVICES = 0) (sprintfa ''N/A '' [])])
     else if pid = PORT_TYPE then
       bnd (rd (n + 2)) (\<lambda>pv_byte. seqs [
         sprintfa ''Port Type='' [],
         doif (pv_byte AND IRCOMM_SERIAL \<noteq> 0) (sprintfa ''SERIAL '' []),
         doif (pv_byte AND IRCOMM_PARALLEL \<noteq> 0) (sprintfa ''PARALLEL '' []),
         doif (pv_byte AND IRCOMM_VALID_PORT_TYPES = 0) (sprintfa ''N/A '' [])])
     else if pid = DATA_RATE then
       bnd (bytes_to_uint (n + 2)) (\<lambda>pv. sprintfa ''Data Rate=%d '' [AI pv])
     else if pid = DATA_FORMAT then
       bnd (rd (n + 2)) (\<lambda>b. sprintfa ''Data Format=%02x '' [Ib b])
     else if pid = FLOW_CONTROL then
       bnd (rd (n + 2)) (\<lambda>b. sprintfa ''Flow Control=%02x '' [Ib b])
     else if pid = XON_XOFF_CHAR then
       bnd (rd (n + 2)) (\<lambda>b. bnd (rd (n + 3)) (\<lambda>c.
         sprintfa ''XON/XOFF=%02x,%02x '' [Ib b, Ib c]))
     else if pid = DTELINE_STATE then
       bnd (rd (n + 2)) (\<lambda>b. sprintfa ''DTEline State=%02x '' [Ib b])
     else ret ())"

function ircomm_params_loop :: "nat \<Rightarrow> nat \<Rightarrow> unit dm" where
  "ircomm_params_loop clen n =
    (if n < clen then
       bnd (rd n) (\<lambda>b. bnd (rd (n + 1)) (\<lambda>pl.
         thn (ircomm_param (b AND 0x7f) n)
             (ircomm_params_loop clen (n + unat pl + 2))))
     else ret ())"
  by pat_completeness auto
termination
  by (relation "measure (\<lambda>(clen, n). clen - n)") auto

declare ircomm_params_loop.simps [simp del]

definition parse_ircomm_params :: "byte \<Rightarrow> unit dm" where
  "parse_ircomm_params clen =
     thn (ircomm_params_loop (unat clen) 0) (drop_hdr (ucast clen))"

definition parse_ircomm_lmp :: "unit dm" where
  "parse_ircomm_lmp = append_str ''IrCOMM (IrLPT) ''"

definition parse_ircomm_ttp :: "unit dm" where
  "parse_ircomm_ttp =
     bnd (gets (\<lambda>s. g_netbuf_get_len (fb s))) (\<lambda>len.
     if len = 0 then ret ()
     else bnd (rd 0) (\<lambda>clen.
       thn (drop_hdr 1)
         (if clen \<noteq> 0
          then thn (append_str (nl_tab @ ''IrCOMM '')) (parse_ircomm_params clen)
          else append_str ''IrCOMM '')))"

definition parse_ircomm_connect :: "unit dm" where
  "parse_ircomm_connect = parse_ircomm_ttp"

section \<open>Bounds and effects\<close>

lemma wp_bytes_to_uint [wp_simps]:
  "room (i + 4) s \<Longrightarrow> wp (bytes_to_uint i) Q E s =
     Q (be32 (cell s i) (cell s (i + 1)) (cell s (i + 2)) (cell s (i + 3))) s"
  by (auto simp: bytes_to_uint_def wp_simps room_def)

lemma ircomm_param_safe: "room (n + 6) s \<Longrightarrow> wp (ircomm_param pid n) (\<lambda>_. talked s) never s"
  by (simp add: ircomm_param_def wp_simps room_le [of "n + 6"] talked_intros)

lemma ircomm_params_loop_safe:
  "room (clen + 5) s \<Longrightarrow> wp (ircomm_params_loop clen n) (\<lambda>_. talked s) never s"
proof (induction clen n arbitrary: s rule: ircomm_params_loop.induct)
  case (1 clen n)
  show ?case
  proof (cases "n < clen")
    case True
    let ?next = "ircomm_params_loop clen (n + unat (cell s (n + 1)) + 2)"
    have "wp (ircomm_param (cell s n AND 0x7f) n) (\<lambda>_ t. wp ?next (\<lambda>_. talked s) never t) never s"
    proof (rule wp_weaken [OF ircomm_param_safe])
      show "room (n + 6) s" using "1.prems" True by (auto intro: room_le)
      fix a t assume t: "talked s t"
      with "1.IH" [OF True] "1.prems" have "wp ?next (\<lambda>_. talked t) never t"
        by (simp add: talked_sel)
      then show "wp ?next (\<lambda>_. talked s) never t"
        by (rule wp_weaken) (rule talked_trans [OF t])
    qed
    moreover have "room (Suc n) s" "room (Suc (n + 1)) s"
      using "1.prems" True by (auto intro: room_le)
    ultimately show ?thesis
      using True by (subst ircomm_params_loop.simps) (simp add: wp_simps)
  next
    case False
    then show ?thesis by (subst ircomm_params_loop.simps) (simp add: wp_simps)
  qed
qed

lemma parse_ircomm_params_safe:
  assumes "room (unat clen + 5) s"
  shows "wp (parse_ircomm_params clen) (\<lambda>_. parsed s) never s"
proof -
  have "wp (ircomm_params_loop (unat clen) 0)
          (\<lambda>_. wp (drop_hdr (ucast clen)) (\<lambda>_. parsed s) never) never s"
    by (rule wp_weaken [OF ircomm_params_loop_safe [OF assms]])
       (simp add: wp_simps parsed_intros)
  then show ?thesis by (simp add: parse_ircomm_params_def wp_simps)
qed

section \<open>Properties\<close>

text \<open>
  The IrCOMM control channel is decoded inside the block whenever 261 bytes of it lie ahead,
  whatever these bytes are and however long the frame says it is: the walk over the parameters
  ends, no read leaves the block, and only output and the front of the frame change. The number
  is the largest the channel can reach: the length byte, 255 bytes of parameters, and a four
  byte value that starts at the last of them.
\<close>

theorem parse_ircomm_ttp_safe:
  assumes "room 261 s"
  shows "wp parse_ircomm_ttp (\<lambda>_. parsed s) never s"
proof -
  have "wp (parse_ircomm_params (cell s 0)) (\<lambda>_. parsed s) never t"
    if "parsed s t" and "room 260 t" for t
    by (rule wp_weaken [OF parse_ircomm_params_safe])
       (use that in \<open>auto intro: room_le parsed_trans\<close>)
  with assms show ?thesis
    by (auto simp: parse_ircomm_ttp_def wp_simps parsed_intros
        g_netbuf_get_len_def room_le [of 261])
qed

theorem parse_ircomm_ttp_safe_witness:
  "wp parse_ircomm_ttp (\<lambda>_. parsed (framed (replicate 261 0x10) (boot_dump []))) never
    (framed (replicate 261 0x10) (boot_dump []))"
  by (rule parse_ircomm_ttp_safe) (simp add: room_def framed_def)

end
