(* ===== verification/Obex.thy ===== *)
theory Obex
  imports Dump_State
begin

text \<open>
  The OBEX decoder of irdadump (\<open>irdadump/obex.h\<close>, \<open>irdadump/obex.c\<close>): a command or response
  byte, a length, and a sequence of headers, each a one byte value, a four byte value, a byte
  string or a Unicode string, told apart by the two high bits of the identifier. The decoder
  copies strings into a local array of 255 bytes.
\<close>

section \<open>Constants\<close>

abbreviation OBEX_CONNECT :: byte where "OBEX_CONNECT \<equiv> 0x00"
abbreviation OBEX_DISCONNECT :: byte where "OBEX_DISCONNECT \<equiv> 0x01"
abbreviation OBEX_PUT :: byte where "OBEX_PUT \<equiv> 0x02"
abbreviation OBEX_GET :: byte where "OBEX_GET \<equiv> 0x03"
abbreviation OBEX_SETPATH :: byte where "OBEX_SETPATH \<equiv> 0x05"
abbreviation OBEX_ABORT :: byte where "OBEX_ABORT \<equiv> 0x7f"
abbreviation OBEX_CONTINUE :: byte where "OBEX_CONTINUE \<equiv> 0x10"
abbreviation OBEX_SWITCH_PRO :: byte where "OBEX_SWITCH_PRO \<equiv> 0x11"
abbreviation OBEX_SUCCESS :: byte where "OBEX_SUCCESS \<equiv> 0x20"
abbreviation OBEX_CREATED :: byte where "OBEX_CREATED \<equiv> 0x21"
abbreviation OBEX_ACCEPTED :: byte where "OBEX_ACCEPTED \<equiv> 0x22"
abbreviation OBEX_BAD_REQUEST :: byte where "OBEX_BAD_REQUEST \<equiv> 0x40"
abbreviation OBEX_FORBIDDEN :: byte where "OBEX_FORBIDDEN \<equiv> 0x43"
abbreviation OBEX_CONFLICT :: byte where "OBEX_CONFLICT \<equiv> 0x49"
abbreviation HEADER_NAME :: byte where "HEADER_NAME \<equiv> 0x01"
abbreviation HEADER_ANAME :: byte where "HEADER_ANAME \<equiv> 0x31"
abbreviation HEADER_TYPE :: byte where "HEADER_TYPE \<equiv> 0x42"
abbreviation HEADER_LENGTH :: byte where "HEADER_LENGTH \<equiv> 0xc3"
abbreviation HEADER_DESCRIPTION :: byte where "HEADER_DESCRIPTION \<equiv> 0x05"
abbreviation HEADER_TARGET :: byte where "HEADER_TARGET \<equiv> 0x46"
abbreviation HEADER_BODY :: byte where "HEADER_BODY \<equiv> 0x48"
abbreviation HEADER_BODY_END :: byte where "HEADER_BODY_END \<equiv> 0x49"
abbreviation OBEX_HI_MASK :: byte where "OBEX_HI_MASK \<equiv> 0xc0"
abbreviation OBEX_UNICODE :: byte where "OBEX_UNICODE \<equiv> 0x00"
abbreviation OBEX_BYTE_STREAM :: byte where "OBEX_BYTE_STREAM \<equiv> 0x40"
abbreviation OBEX_BYTE :: byte where "OBEX_BYTE \<equiv> 0x80"
abbreviation OBEX_INT :: byte where "OBEX_INT \<equiv> 0xc0"
abbreviation OBEX_FINAL :: byte where "OBEX_FINAL \<equiv> 0x80"

section \<open>Unicode to bytes, in place\<close>

text \<open>
  The loop overwrites the front of the array with the low bytes of the characters that follow,
  up to a zero low byte. \<open>buf\<close> is the whole array, and a read past its end stops.
\<close>

function unicode_loop :: "nat \<Rightarrow> byte list \<Rightarrow> fault + byte list" where
  "unicode_loop n buf =
    (if n * 2 + 1 < length buf then
       let c = buf ! (n * 2 + 1); buf' = buf[n := c] in
       if c \<noteq> 0 then unicode_loop (n + 1) buf' else Inr buf'
     else Inl Oob_read)"
  by pat_completeness auto
termination
  by (relation "measure (\<lambda>(n, buf). length buf - n)") auto

declare unicode_loop.simps [simp del]

definition unicode_to_char :: "byte list \<Rightarrow> fault + byte list" where
  "unicode_to_char buf = unicode_loop 0 buf"

section \<open>Headers\<close>

definition lift_fault :: "fault + 'a \<Rightarrow> 'a dm" where
  "lift_fault r = (case r of Inl e \<Rightarrow> stop e | Inr a \<Rightarrow> ret a)"

text \<open>The length field of a header, less the three bytes of its identifier and length.\<close>

definition value_length :: "u16 dm" where
  "value_length = bnd (rd 1) (\<lambda>hi. bnd (rd 2) (\<lambda>lo. ret (be16 hi lo - 3)))"

definition parse_obex_header :: "bool \<Rightarrow> int dm" where
  "parse_obex_header istext =
    bnd (rd 0) (\<lambda>hi.
    if hi AND OBEX_HI_MASK = OBEX_UNICODE then
      bnd value_length (\<lambda>tmp_short.
      thn (check Oob_write (unat tmp_short \<le> 255)) (
      bnd (rds 3 (unat tmp_short)) (\<lambda>bs.
      bnd (gets (\<lambda>s. bs @ drop (unat tmp_short) (stk s))) (\<lambda>arr.
      bnd (lift_fault (unicode_to_char arr)) (\<lambda>string.
      thn (sprintfa [CHR 0x22, CHR 0x25, CHR 0x73, CHR 0x22, CHR 0x20] [AS (cstring string)])
          (ret (3 + uint tmp_short)))))))
    else if hi AND OBEX_HI_MASK = OBEX_BYTE_STREAM then
      bnd value_length (\<lambda>tmp_short.
      thn (if istext then
             thn (check Oob_write (unat tmp_short \<le> 255)) (
             bnd (rds 3 (unat tmp_short)) (\<lambda>bs.
             bnd (local_string 255 bs) (\<lambda>string.
               sprintfa [CHR 0x22, CHR 0x25, CHR 0x73, CHR 0x22, CHR 0x20] [AS string])))
           else sprintfa ''[%d bytes] '' [AI (ucast tmp_short)])
          (ret (uint tmp_short + 3)))
    else if hi AND OBEX_HI_MASK = OBEX_BYTE then
      thn (sprintfa ''%d '' [Ib hi]) (ret 2)
    else if hi AND OBEX_HI_MASK = OBEX_INT then
      bnd (rd 1) (\<lambda>b3. bnd (rd 2) (\<lambda>b2. bnd (rd 3) (\<lambda>b1. bnd (rd 4) (\<lambda>b0.
      thn (sprintfa ''%d '' [AI (be32 b3 b2 b1 b0)]) (ret 5)))))
    else thn (print_term ''******'' []) (ret 0))"

text \<open>The \<open>switch\<close> of the header loop: a label, and whether the value is text.\<close>

definition obex_label :: "byte \<Rightarrow> string \<times> bool" where
  "obex_label hi =
    (if hi = HEADER_NAME \<or> hi = HEADER_ANAME then (''Name='', True)
     else if hi = HEADER_DESCRIPTION then (''Description='', False)
     else if hi = HEADER_LENGTH then (''Lenght='', False)
     else if hi = HEADER_TYPE then (''Type='', True)
     else if hi = HEADER_TARGET then (''Target='', True)
     else if hi = HEADER_BODY then (''body='', False)
     else if hi = HEADER_BODY_END then (''body-end='', False)
     else (''custom='', False))"

definition obex_item :: "int dm" where
  "obex_item =
    bnd (rd 0) (\<lambda>hi. thn (append_str (fst (obex_label hi))) (parse_obex_header (snd (obex_label hi))))"

lemma value_length_talked: "wp value_length (\<lambda>_ t. t = s) (\<lambda>_ _. True) s"
  by (simp add: value_length_def wp_simps)

lemma hi_mask_cases:
  "(hi :: byte) AND 0xc0 = 0 \<or> hi AND 0xc0 = 0x40 \<or> hi AND 0xc0 = 0x80 \<or> hi AND 0xc0 = 0xc0"
  by (simp add: byte_eq_iff bit_simps) blast

text \<open>
  Every header takes at least two bytes and at most 65538, and reading it changes nothing but
  output: what makes the loop over the headers stop.
\<close>

lemma unicode_loop_fault: "unicode_loop n buf = Inl e \<Longrightarrow> e = Oob_read"
proof (induction n buf rule: unicode_loop.induct)
  case (1 n buf)
  then show ?case
    by (cases "n * 2 + 1 < length buf \<and> buf ! (n * 2 + 1) \<noteq> 0")
       (auto simp: unicode_loop.simps [of n buf] Let_def split: if_splits)
qed

lemma wp_lift_fault [wp_simps]:
  "wp (lift_fault r) Q E s = (case r of Inl e \<Rightarrow> E e s | Inr a \<Rightarrow> Q a s)"
  by (simp add: lift_fault_def wp_simps split: sum.split)

lemma value_length_wp [wp_simps]:
  "wp value_length Q E s =
    (if room 3 s then Q (be16 (cell s 1) (cell s 2) - 3) s else E Oob_read s)"
  by (auto simp: value_length_def wp_simps room_def)

lemma parse_obex_header_consumes:
  "wp (parse_obex_header istext)
     (\<lambda>len t. talked s t \<and> 2 \<le> len \<and> len \<le> 65538) (oob (talked s)) s"
  using hi_mask_cases [of "cell s 0"]
  by (elim disjE)
     (simp_all add: parse_obex_header_def wp_simps talked_intros unicode_to_char_def
       split: sum.split, auto dest!: unicode_loop_fault)

lemma obex_item_consumes:
  "wp obex_item (\<lambda>len t. talked s t \<and> 2 \<le> len \<and> len \<le> 65538) (oob (talked s)) s"
proof -
  have "wp (parse_obex_header b) (\<lambda>len t. talked s t \<and> 2 \<le> len \<and> len \<le> 65538) (oob (talked s))
      (said c s)" for b c
    by (rule wp_mono [OF parse_obex_header_consumes])
       (auto elim!: oob_mono intro: talked_trans [OF talked_said [OF talked_refl]])
  then show ?thesis by (simp add: obex_item_def wp_simps)
qed

lemma pull_shrinks:
  assumes "pull (word_of_int len) t = (Inr True, u)" and "2 \<le> len" and "len \<le> 65538"
  shows "unat (nb_len (fb u)) < unat (nb_len (fb t))"
proof -
  have "unat (word_of_int len :: u32) = nat len"
    using assms(2,3) by (simp add: unsigned_of_int take_bit_int_eq_self)
  with assms show ?thesis
    by (auto simp: pull_def g_netbuf_pull_def unat_sub word_le_nat_alt word_less_nat_alt
        split: if_splits)
qed

text \<open>The loop over the headers, until the frame is used up or a header runs past its end.\<close>

function obex_headers_loop :: "unit dm" where
  "obex_headers_loop s =
    (if nb_len (fb s) > 0 then
       case obex_item s of
         (Inl e, t) \<Rightarrow> (Inl e, t)
       | (Inr len, t) \<Rightarrow>
           (case pull (word_of_int len) t of
              (Inl e, u) \<Rightarrow> (Inl e, u)
            | (Inr ok, u) \<Rightarrow>
                if \<not> ok then append_str ''{unterminated} '' u else obex_headers_loop u)
     else (Inr (), s))"
  by pat_completeness auto

termination
proof (relation "measure (\<lambda>s. unat (nb_len (fb s)))", goal_cases)
  case 1
  show ?case by simp
next
  case (2 s ir t len ir' u ok)
  have "talked s t" "2 \<le> len" "len \<le> 65538"
    using 2 wp_returned [OF obex_item_consumes, of s len t] by auto
  moreover from this have "unat (nb_len (fb u)) < unat (nb_len (fb t))"
    using 2 pull_shrinks [of len t u] by auto
  ultimately show ?case by (simp add: talked_sel)
qed

declare obex_headers_loop.simps [simp del]

lemma wp_obex_headers_loop:
  "wp obex_headers_loop Q E s =
    (if nb_len (fb s) > 0
     then wp obex_item (\<lambda>len. wp (pull (word_of_int len))
            (\<lambda>ok. wp (if ok then obex_headers_loop else append_str ''{unterminated} '') Q E) E) E s
     else Q () s)"
  by (subst wp_def, subst obex_headers_loop.simps)
     (auto simp: wp_def split: prod.split sum.split)

section \<open>Commands and responses\<close>

definition parse_obex_headers :: "unit dm" where
  "parse_obex_headers =
    bnd (rd 0) (\<lambda>opcode. bnd (rd 1) (\<lambda>hi. bnd (rd 2) (\<lambda>lo. seqs [
      drop_hdr 3,
      sprintfa ''final=%d len=%d '' [Ib (drop_bit 7 (opcode AND OBEX_FINAL)), AI (ucast (be16 hi lo))],
      obex_headers_loop])))"

text \<open>The fields of \<open>struct obex_connect_frame\<close>, printed after the given word.\<close>

definition print_connection :: "string \<Rightarrow> u16 \<Rightarrow> unit dm" where
  "print_connection fmt flen =
    bnd (rd 3) (\<lambda>version. bnd (rd 4) (\<lambda>flags. bnd (rd 5) (\<lambda>hi. bnd (rd 6) (\<lambda>lo.
      sprintfa fmt
        [AI (ucast flen), Ib (drop_bit 4 (version AND 0xf0)), Ib (version AND 0x0f), Ib flags,
         AI (ucast (be16 hi lo))]))))"

definition parse_obex_connect :: "unit dm" where
  "parse_obex_connect =
    bnd (rd 1) (\<lambda>hi. bnd (rd 2) (\<lambda>lo.
      if be16 hi lo = 7
      then print_connection ''CONNECT len=%d ver=%d.%d flags=%d mtu=%d '' (be16 hi lo)
      else sprintfa ''CONNECT len=%d '' [AI (ucast (be16 hi lo))]))"

definition parse_obex_success :: "unit dm" where
  "parse_obex_success =
    bnd (rd 1) (\<lambda>hi. bnd (rd 2) (\<lambda>lo.
      if be16 hi lo = 7
      then print_connection ''SUCCESS len=%d ver=%d.%d flags=%d mtu=%d '' (be16 hi lo)
      else if be16 hi lo = 3 then sprintfa ''SUCCESS len=%d '' [AI (ucast (be16 hi lo))]
      else thn (append_str ''SUCCESS '') parse_obex_headers))"

definition obex_response :: "byte \<Rightarrow> unit dm" where
  "obex_response opcode =
    (if opcode = OBEX_CONTINUE then thn (append_str ''CONTINUE '') parse_obex_headers
     else if opcode = OBEX_SWITCH_PRO then append_str ''SWITCH_PRO ''
     else if opcode = OBEX_SUCCESS then parse_obex_success
     else if opcode = OBEX_CREATED then append_str ''CREATED ''
     else if opcode = OBEX_ACCEPTED then append_str ''ACCEPTED ''
     else if opcode = OBEX_BAD_REQUEST then append_str ''BAD REQUEST ''
     else if opcode = OBEX_FORBIDDEN then append_str ''FORBIDDEN ''
     else if opcode = OBEX_CONFLICT then append_str ''CONFLICT ''
     else sprintfa ''Unknown response %02x '' [Ib opcode])"

definition obex_command :: "byte \<Rightarrow> unit dm" where
  "obex_command opcode =
    (if opcode = OBEX_CONNECT then parse_obex_connect
     else if opcode = OBEX_PUT then thn (append_str ''PUT '') parse_obex_headers
     else if opcode = OBEX_GET then thn (append_str ''GET '') parse_obex_headers
     else if opcode = OBEX_DISCONNECT then append_str ''DISC ''
     else if opcode = OBEX_ABORT then append_str ''ABORT ''
     else if opcode = OBEX_SETPATH then append_str ''SETPATH ''
     else if opcode > 0x04 \<and> opcode < 0x10 then append_str ''RESERVED ''
     else if opcode > 0x0f \<and> opcode < 0x20 then append_str ''USER_DEFINED ''
     else sprintfa ''unknown opcode %#x '' [Ib opcode])"

definition parse_obex :: "bool \<Rightarrow> unit dm" where
  "parse_obex cmd =
    thn (append_str (nl_tab @ ''OBEX '')) (
    bnd (gets (\<lambda>s. g_netbuf_get_len (fb s))) (\<lambda>len.
    if len = 0 then ret ()
    else bnd (rd 0) (\<lambda>b0. let opcode = b0 AND NOT OBEX_FINAL in
      if \<not> cmd then obex_response opcode else obex_command opcode)))"

section \<open>What the decoder changes\<close>

text \<open>Whether or not it stops, the decoder only prints and removes headers from the front.\<close>

lemma obex_item_talked: "wp obex_item (\<lambda>_. talked s) (oob (talked s)) s"
  by (rule wp_mono [OF obex_item_consumes]) auto

lemma obex_headers_loop_parsed: "parsed s0 s \<Longrightarrow> wp obex_headers_loop (\<lambda>_. parsed s0) (oob (parsed s0)) s"
proof (induction s rule: obex_headers_loop.induct)
  case (1 s)
  have "wp (pull (word_of_int len))
      (\<lambda>ok. wp (if ok then obex_headers_loop else append_str ''{unterminated} '')
         (\<lambda>_. parsed s0) (oob (parsed s0))) (oob (parsed s0)) t"
    if len: "0 < nb_len (fb s)" and run: "obex_item s = (Inr len, t)" and t: "parsed s0 t" for len t
  proof (cases "nb_len (fb t) < word_of_int len")
    case True
    with t show ?thesis by (simp add: wp_simps parsed_intros)
  next
    case False
    then have "pull (word_of_int len) t = (Inr True, pulled (word_of_int len) t)"
      by (simp add: pull_def g_netbuf_pull_def pulled_def)
    with "1.IH" [OF len run [symmetric]] False t show ?thesis
      by (simp add: wp_simps parsed_intros)
  qed
  moreover have "wp obex_item (\<lambda>len t. obex_item s = (Inr len, t) \<and> parsed s0 t) (oob (parsed s0)) s"
    using obex_item_talked [of s] "1.prems"
    by (auto simp: wp_def elim!: oob_mono intro: parsed_trans talked_parsed split: prod.splits sum.splits)
  ultimately show ?case
    using "1.prems" by (subst wp_obex_headers_loop) (auto elim!: wp_weaken)
qed

lemma parse_obex_headers_parsed:
  "parsed s0 s \<Longrightarrow> wp parse_obex_headers (\<lambda>_. parsed s0) (oob (parsed s0)) s"
  by (simp add: parse_obex_headers_def wp_simps parsed_intros obex_headers_loop_parsed)

lemma print_connection_parsed:
  "parsed s0 s \<Longrightarrow> wp (print_connection fmt len) (\<lambda>_. parsed s0) (oob (parsed s0)) s"
  by (simp add: print_connection_def wp_simps parsed_intros)

lemma parse_obex_parsed:
  "parsed s0 s \<Longrightarrow> wp (parse_obex cmd) (\<lambda>_. parsed s0) (oob (parsed s0)) s"
  by (simp add: parse_obex_def obex_response_def obex_command_def parse_obex_success_def
      parse_obex_connect_def g_netbuf_get_len_def Let_def wp_simps parsed_intros
      parse_obex_headers_parsed print_connection_parsed)

section \<open>What the string conversion computes\<close>

text \<open>
  Character \<open>n\<close> is read at \<open>2n + 1\<close> and written at \<open>n\<close>, so the loop never reads what it has
  overwritten.
\<close>

lemma unicode_loop_result:
  assumes "n \<le> k" and "k * 2 + 1 < length buf" and "buf ! (k * 2 + 1) = 0"
    and "\<And>i. n \<le> i \<Longrightarrow> i < k \<Longrightarrow> buf ! (i * 2 + 1) \<noteq> 0"
  shows "unicode_loop n buf =
    Inr (take n buf @ map (\<lambda>i. buf ! (i * 2 + 1)) [n..<Suc k] @ drop (Suc k) buf)"
  using assms
proof (induction n buf rule: unicode_loop.induct)
  case (1 n buf)
  define c where "c = buf ! (n * 2 + 1)"
  have n: "n * 2 + 1 < length buf" using "1.prems"(1,2) by linarith
  show ?case
  proof (cases "n = k")
    case True
    with n "1.prems"(3) show ?thesis
      by (subst unicode_loop.simps) (simp add: Let_def upd_conv_take_nth_drop)
  next
    case False
    then have c: "c \<noteq> 0" and k: "Suc n \<le> k" using "1.prems"(1,4) by (auto simp: c_def)
    have same: "(buf[n := c]) ! (i * 2 + 1) = buf ! (i * 2 + 1)" if "Suc n \<le> i" for i
      using that by simp
    have "unicode_loop (n + 1) (buf[n := c]) = Inr (take (n + 1) (buf[n := c]) @
        map (\<lambda>i. (buf[n := c]) ! (i * 2 + 1)) [n + 1..<Suc k] @ drop (Suc k) (buf[n := c]))"
      using "1.prems" c k n same
      by (intro "1.IH" [OF n c_def refl]) (auto simp: c_def)
    also have "take (n + 1) (buf[n := c]) = take n buf @ [c]"
      using n by (simp add: take_Suc_conv_app_nth)
    also have "map (\<lambda>i. (buf[n := c]) ! (i * 2 + 1)) [n + 1..<Suc k] = map (\<lambda>i. buf ! (i * 2 + 1)) [n + 1..<Suc k]"
      using same by (intro map_cong) auto
    also have "drop (Suc k) (buf[n := c]) = drop (Suc k) buf"
      using k by (simp add: drop_update_cancel)
    finally show ?thesis
      using n c k "1.prems"(1)
      by (subst unicode_loop.simps) (simp add: Let_def c_def upt_conv_Cons)
  qed
qed

lemma unicode_loop_overrun:
  assumes "\<And>i. n \<le> i \<Longrightarrow> i * 2 + 1 < length buf \<Longrightarrow> buf ! (i * 2 + 1) \<noteq> 0"
  shows "unicode_loop n buf = Inl Oob_read"
  using assms
proof (induction n buf rule: unicode_loop.induct)
  case (1 n buf)
  show ?case
  proof (cases "n * 2 + 1 < length buf")
    case True
    with "1.prems" have c: "buf ! (n * 2 + 1) \<noteq> 0" by simp
    have "unicode_loop (n + 1) (buf[n := buf ! (n * 2 + 1)]) = Inl Oob_read"
      using "1.prems" by (intro "1.IH" [OF True refl refl c]) auto
    with True c show ?thesis by (subst unicode_loop.simps) (simp add: Let_def)
  next
    case False
    then show ?thesis by (subst unicode_loop.simps) simp
  qed
qed

text \<open>A string of bytes as big-endian UTF-16 with its terminating zero.\<close>

definition utf16 :: "byte list \<Rightarrow> byte list" where
  "utf16 cs = concat (map (\<lambda>c. [0, c]) (cs @ [0]))"

lemma length_utf16: "length (utf16 cs) = 2 * length cs + 2"
  by (induction cs) (simp_all add: utf16_def)

lemma utf16_nth: "i \<le> length cs \<Longrightarrow> utf16 cs ! (i * 2 + 1) = (cs @ [0]) ! i"
proof (induction cs arbitrary: i)
  case Nil
  then show ?case by (simp add: utf16_def)
next
  case (Cons c cs)
  then show ?case by (cases i) (simp_all add: utf16_def)
qed

lemma cstring_id: "0 \<notin> set cs \<Longrightarrow> cstring cs = cs"
  unfolding cstring_def by (intro takeWhile_eq_all_conv [THEN iffD2]) metis

lemma unicode_utf16:
  assumes "0 \<notin> set cs"
  shows "unicode_to_char (utf16 cs @ rest) = Inr (cs @ 0 # drop (Suc (length cs)) (utf16 cs @ rest))"
proof -
  have at: "(utf16 cs @ rest) ! (i * 2 + 1) = (cs @ [0]) ! i" if "i \<le> length cs" for i
    using that utf16_nth [of i cs] by (simp add: nth_append length_utf16)
  have "(cs @ [0]) ! i \<noteq> 0" if "i < length cs" for i
  proof -
    have "cs ! i \<in> set cs" using that by simp
    with assms have "cs ! i \<noteq> 0" by metis
    with that show ?thesis by (simp add: nth_append)
  qed
  then have "unicode_loop 0 (utf16 cs @ rest) = Inr (take 0 (utf16 cs @ rest) @
      map (\<lambda>i. (utf16 cs @ rest) ! (i * 2 + 1)) [0..<Suc (length cs)] @
      drop (Suc (length cs)) (utf16 cs @ rest))"
    using at by (intro unicode_loop_result) (auto simp: length_utf16)
  also have "map (\<lambda>i. (utf16 cs @ rest) ! (i * 2 + 1)) [0..<Suc (length cs)] = cs @ [0]"
    by (rule nth_equalityI) (use at in \<open>simp_all del: upt_Suc\<close>)
  finally show ?thesis by (simp add: unicode_to_char_def)
qed

section \<open>What the header loop computes\<close>

text \<open>
  The headers of an OBEX packet by kind, their encoding on the wire, and the output the decoder
  gives for them.
\<close>

datatype obex_hdr =
    Unicode_hdr byte "byte list"        \<comment> \<open>a string, sent as UTF-16\<close>
  | Stream_hdr byte "byte list"         \<comment> \<open>a byte sequence\<close>
  | Byte_hdr byte byte
  | Int_hdr byte byte byte byte byte

definition len16 :: "nat \<Rightarrow> byte list" where
  "len16 n = [of_nat (n div 256), of_nat (n mod 256)]"

fun encode_hdr :: "obex_hdr \<Rightarrow> byte list" where
  "encode_hdr (Unicode_hdr i cs) = i # len16 (length (utf16 cs) + 3) @ utf16 cs"
| "encode_hdr (Stream_hdr i bs) = i # len16 (length bs + 3) @ bs"
| "encode_hdr (Byte_hdr i b) = [i, b]"
| "encode_hdr (Int_hdr i b3 b2 b1 b0) = [i, b3, b2, b1, b0]"

abbreviation quoted :: string where
  "quoted \<equiv> [CHR 0x22, CHR 0x25, CHR 0x73, CHR 0x22, CHR 0x20]"

fun shown_hdr :: "obex_hdr \<Rightarrow> gcall list" where
  "shown_hdr (Unicode_hdr i cs) = [Append (fst (obex_label i)), Sprintfa quoted [AS cs]]"
| "shown_hdr (Stream_hdr i bs) =
    [Append (fst (obex_label i)),
     if snd (obex_label i) then Sprintfa quoted [AS (cstring bs)]
     else Sprintfa ''[%d bytes] '' [AI (of_nat (length bs))]]"
| "shown_hdr (Byte_hdr i b) = [Append (fst (obex_label i)), Sprintfa ''%d '' [Ib i]]"
| "shown_hdr (Int_hdr i b3 b2 b1 b0) =
    [Append (fst (obex_label i)), Sprintfa ''%d '' [AI (be32 b3 b2 b1 b0)]]"

fun well_formed_hdr :: "obex_hdr \<Rightarrow> bool" where
  "well_formed_hdr (Unicode_hdr i cs) \<longleftrightarrow>
     i AND OBEX_HI_MASK = OBEX_UNICODE \<and> 0 \<notin> set cs \<and> length (utf16 cs) \<le> 255"
| "well_formed_hdr (Stream_hdr i bs) \<longleftrightarrow>
     i AND OBEX_HI_MASK = OBEX_BYTE_STREAM \<and> length bs + 3 < 65536 \<and>
     (snd (obex_label i) \<longrightarrow> length bs < 255)"
| "well_formed_hdr (Byte_hdr i b) \<longleftrightarrow> i AND OBEX_HI_MASK = OBEX_BYTE"
| "well_formed_hdr (Int_hdr i b3 b2 b1 b0) \<longleftrightarrow> i AND OBEX_HI_MASK = OBEX_INT"

lemma u16_of_nat:
  "n < 65536 \<Longrightarrow> unat (of_nat n :: u16) = n" "n < 65536 \<Longrightarrow> uint (of_nat n :: u16) = int n"
  by (simp_all add: unsigned_of_nat take_bit_nat_eq_self take_bit_int_eq_self)

lemma be16_len16:
  assumes "n < 65536"
  shows "be16 (of_nat (n div 256)) (of_nat (n mod 256)) = of_nat n"
proof -
  have "n div 256 < 256" using assms by linarith
  then have "unat (of_nat (n div 256) :: byte) = n div 256" "unat (of_nat (n mod 256) :: byte) = n mod 256"
    by (simp_all add: unsigned_of_nat take_bit_nat_eq_self)
  with assms show ?thesis
    by (simp add: word_unat_eq_iff unat_be16 u16_of_nat)
qed

lemma value_length_run:
  assumes "ahead s = i # len16 (k + 3) @ vs" and "k + 3 < 65536"
  shows "value_length s = (Inr (of_nat k), s)"
proof -
  have "room (Suc 1) s" "room (Suc 2) s" by (simp_all add: ahead_room assms(1) len16_def)
  moreover have "be16 (cell s 1) (cell s 2) = of_nat (k + 3)"
    using be16_len16 [OF assms(2)] by (simp add: ahead_cell assms(1) len16_def)
  ultimately show ?thesis by (simp add: value_length_def run_simps)
qed

lemma obex_item_run:
  assumes "ahead s = encode_hdr h @ rest" and "well_formed_hdr h"
  shows "obex_item s = (Inr (int (length (encode_hdr h))), s\<lparr>out := out s @ shown_hdr h\<rparr>)"
proof -
  obtain i vs where first: "ahead s = i # vs" using assms(1) by (cases h) auto
  let ?s = "said (Append (fst (obex_label i))) s"
  have start: "obex_item s = parse_obex_header (snd (obex_label i)) ?s" "cell ?s 0 = i" "room (Suc 0) ?s"
    using ahead_cell [of 0 s] first by (simp_all add: obex_item_def run_simps ahead_room)
  have fin: "said c ?s = s\<lparr>out := out s @ [Append (fst (obex_label i)), c]\<rparr>" for c
    by (simp add: said_def)
  show ?thesis
  proof (cases h)
    case (Unicode_hdr j cs)
    with assms first have j: "j = i" and a: "ahead s = i # len16 (length (utf16 cs) + 3) @ utf16 cs @ rest"
      by auto
    have k: "length (utf16 cs) + 3 < 65536" using assms(2) Unicode_hdr by simp
    with a have vl: "value_length ?s = (Inr (of_nat (length (utf16 cs))), ?s)"
      by (intro value_length_run) simp_all
    have "unat (of_nat (length (utf16 cs)) :: u16) = length (utf16 cs)"
      "uint (of_nat (length (utf16 cs)) :: u16) = int (length (utf16 cs))"
      using k by (simp_all add: u16_of_nat)
    moreover have "room (3 + length (utf16 cs)) s" "drop 3 (ahead s) = utf16 cs @ rest"
      by (simp_all add: ahead_room a len16_def)
    moreover have "cstring (cs @ 0 # xs) = cs" for xs
      using assms(2) Unicode_hdr cstring_id [of cs] by (simp add: cstring_append_nul)
    ultimately show ?thesis
      using start assms(2) vl unicode_utf16 [of cs]
      by (simp add: Unicode_hdr j parse_obex_header_def run_simps lift_fault_def fin len16_def
         )
  next
    case (Stream_hdr j bs)
    with assms first have j: "j = i" and a: "ahead s = i # len16 (length bs + 3) @ bs @ rest"
      by auto
    have k: "length bs + 3 < 65536" using assms(2) Stream_hdr by simp
    with a have vl: "value_length ?s = (Inr (of_nat (length bs)), ?s)"
      by (intro value_length_run) simp_all
    have "unat (of_nat (length bs) :: u16) = length bs" "uint (of_nat (length bs) :: u16) = int (length bs)"
      "(ucast (of_nat (length bs) :: u16) :: u32) = of_nat (length bs)"
      using k by (simp_all add: u16_of_nat word_unat_eq_iff unsigned_of_nat take_bit_nat_eq_self)
    moreover have "room (3 + length bs) s" "drop 3 (ahead s) = bs @ rest"
      by (simp_all add: ahead_room a len16_def)
    ultimately show ?thesis
      using start assms(2) vl
      by (auto simp: Stream_hdr j parse_obex_header_def run_simps fin len16_def)
  next
    case (Byte_hdr j b)
    with assms first start show ?thesis by (auto simp: parse_obex_header_def run_simps fin)
  next
    case (Int_hdr j b3 b2 b1 b0)
    with assms first have j: "j = i" and a: "ahead s = [i, b3, b2, b1, b0] @ rest" by auto
    have "room n s" if "n \<le> 5" "0 < n" for n
      using that by (intro ahead_room) (simp_all only: a, simp)
    moreover have "cell s 1 = b3" "cell s 2 = b2" "cell s 3 = b1" "cell s 4 = b0"
      by (simp_all add: ahead_cell a)
    ultimately show ?thesis
      using start assms(2) by (simp add: Int_hdr j parse_obex_header_def run_simps fin)
  qed
qed

lemma encode_hdr_pull:
  assumes "unat (nb_len (fb s)) = length (encode_hdr h) + k" and "well_formed_hdr h"
  shows "pull (word_of_int (int (length (encode_hdr h)))) s =
    (Inr True, pulled (of_nat (length (encode_hdr h))) s)"
    and "unat (nb_len (fb s) - of_nat (length (encode_hdr h))) = k"
proof -
  have "length (encode_hdr h) < 4294967296"
    using assms(1) unat_u32_less [of "nb_len (fb s)"] by linarith
  then have n: "unat (of_nat (length (encode_hdr h)) :: u32) = length (encode_hdr h)"
    by (rule unat_of_nat_u32)
  then have "\<not> nb_len (fb s) < of_nat (length (encode_hdr h))"
    using assms(1) by (simp add: word_less_nat_alt)
  then show "pull (word_of_int (int (length (encode_hdr h)))) s =
      (Inr True, pulled (of_nat (length (encode_hdr h))) s)"
    and "unat (nb_len (fb s) - of_nat (length (encode_hdr h))) = k"
    using n assms(1) by (simp_all add: run_simps unat_sub word_le_nat_alt word_less_nat_alt)
qed

lemma encode_hdr_nonempty: "0 < length (encode_hdr h)"
  by (cases h) auto

lemma pulled_out: "pulled n (s\<lparr>out := xs\<rparr>) = (pulled n s)\<lparr>out := xs\<rparr>"
  by (simp add: pulled_def)

section \<open>Properties\<close>

text \<open>
  C2. Every OBEX packet body that is a sequence of well formed headers is decoded completely and
  exactly: the header loop returns, the whole body is consumed, and the output is that of the
  headers, one after the other, with nothing read beyond the body. A string header is shown as
  the string that was sent, a one byte header as its identifier instead of its value.
\<close>

theorem obex_headers_decoded:
  assumes "ahead s = concat (map encode_hdr hs) @ rest"
    and "unat (nb_len (fb s)) = length (concat (map encode_hdr hs))"
    and "\<forall>h \<in> set hs. well_formed_hdr h"
  shows "\<exists>t. obex_headers_loop s = (Inr (), t) \<and> out t = out s @ concat (map shown_hdr hs) \<and>
    nb_len (fb t) = 0 \<and> ahead t = rest"
  using assms
proof (induction hs arbitrary: s)
  case Nil
  then have "nb_len (fb s) = 0" by (simp add: unsigned_eq_0_iff)
  with Nil show ?case by (subst obex_headers_loop.simps) simp
next
  case (Cons h hs)
  let ?n = "length (encode_hdr h)"
  let ?t = "s\<lparr>out := out s @ shown_hdr h\<rparr>"
  have item: "obex_item s = (Inr (int ?n), ?t)"
    using Cons.prems by (intro obex_item_run) auto
  have len: "unat (nb_len (fb s)) = ?n + length (concat (map encode_hdr hs))"
    using Cons.prems(2) by simp
  then have pull: "pull (word_of_int (int ?n)) ?t = (Inr True, pulled (of_nat ?n) ?t)"
    and rest: "unat (nb_len (fb (pulled (of_nat ?n) ?t))) = length (concat (map encode_hdr hs))"
    using Cons.prems(3) encode_hdr_pull [of ?t h "length (concat (map encode_hdr hs))"] by simp_all
  have "?n < 4294967296"
    using len unat_u32_less [of "nb_len (fb s)"] by linarith
  then have "ahead (pulled (of_nat ?n) ?t) = concat (map encode_hdr hs) @ rest"
    using Cons.prems(1) by (simp add: unat_of_nat_u32) (simp add: ahead_def)
  with Cons.IH [of "pulled (of_nat ?n) ?t"] rest Cons.prems(3) obtain t where
    t: "obex_headers_loop (pulled (of_nat ?n) ?t) = (Inr (), t)"
    "out t = out s @ shown_hdr h @ concat (map shown_hdr hs)" "nb_len (fb t) = 0" "ahead t = rest"
    by auto
  have "nb_len (fb s) > 0"
    using len encode_hdr_nonempty [of h] by (metis add_is_0 not_gr_zero unat_0 word_gt_0)
  with item pull t show ?case by (subst obex_headers_loop.simps) simp
qed

theorem obex_headers_decoded_witness:
  "\<exists>t. obex_headers_loop (framed (concat (map encode_hdr
      [Unicode_hdr 0x01 [0x61, 0x62], Int_hdr 0xc3 0 0 1 0, Stream_hdr 0x48 [1, 2, 3]])) (boot_dump [])) = (Inr (), t) \<and>
    out t = [Append ''Name='', Sprintfa quoted [AS [0x61, 0x62]], Append ''Lenght='', Sprintfa ''%d '' [AI 256],
      Append ''body='', Sprintfa ''[%d bytes] '' [AI 3]]"
  using obex_headers_decoded [of "framed (concat (map encode_hdr
      [Unicode_hdr 0x01 [0x61, 0x62], Int_hdr 0xc3 0 0 1 0, Stream_hdr 0x48 [1, 2, 3]])) (boot_dump [])"
      "[Unicode_hdr 0x01 [0x61, 0x62], Int_hdr 0xc3 0 0 1 0, Stream_hdr 0x48 [1, 2, 3]]" "[]"]
  by (auto simp: utf16_def len16_def obex_label_def be32_def boot_dump_def)

text \<open>
  The conversion of a Unicode value to a C string in place is right for every string of
  non-zero bytes sent as big-endian UTF-16 with its terminator: the C string the array holds
  afterwards is the string, whatever lies behind it in the array.
\<close>

theorem unicode_string_converted:
  assumes "0 \<notin> set cs"
  shows "\<exists>buf. unicode_to_char (utf16 cs @ rest) = Inr buf \<and> cstring buf = cs"
  using unicode_utf16 [OF assms, of rest] cstring_id [OF assms] by (simp add: cstring_append_nul)

theorem unicode_string_converted_witness:
  "\<exists>buf. unicode_to_char (utf16 [0x68, 0x69] @ [9]) = Inr buf \<and> cstring buf = [0x68, 0x69]"
  using unicode_string_converted [of "[0x68, 0x69]" "[9]"] by simp

text \<open>
  C11. The conversion runs past the end of the array exactly when no character of the array has
  a zero low byte, so a Unicode value without terminator is safe only by what the uninitialised
  rest of the array happens to hold.
\<close>

theorem unicode_overrun_iff:
  "unicode_to_char buf = Inl Oob_read \<longleftrightarrow> (\<forall>i < length buf div 2. buf ! (2 * i + 1) \<noteq> 0)"
proof
  assume over: "unicode_to_char buf = Inl Oob_read"
  show "\<forall>i < length buf div 2. buf ! (2 * i + 1) \<noteq> 0"
  proof (rule ccontr)
    assume "\<not> ?thesis"
    then obtain j where j: "j < length buf div 2 \<and> buf ! (2 * j + 1) = 0" by blast
    define k where "k = (LEAST i. i < length buf div 2 \<and> buf ! (2 * i + 1) = 0)"
    have k: "k < length buf div 2" "buf ! (2 * k + 1) = 0"
      using LeastI [of "\<lambda>i. i < length buf div 2 \<and> buf ! (2 * i + 1) = 0", OF j] by (auto simp: k_def)
    have "buf ! (2 * i + 1) \<noteq> 0" if "i < k" for i
      using that not_less_Least [of i "\<lambda>i. i < length buf div 2 \<and> buf ! (2 * i + 1) = 0"] k(1)
      by (auto simp: k_def)
    with k have "unicode_loop 0 buf = Inr (take 0 buf @ map (\<lambda>i. buf ! (i * 2 + 1)) [0..<Suc k] @ drop (Suc k) buf)"
      by (intro unicode_loop_result) (auto simp: mult.commute)
    with over show False by (simp add: unicode_to_char_def)
  qed
next
  assume "\<forall>i < length buf div 2. buf ! (2 * i + 1) \<noteq> 0"
  then show "unicode_to_char buf = Inl Oob_read"
    unfolding unicode_to_char_def by (intro unicode_loop_overrun) (auto simp: mult.commute)
qed

theorem unicode_overrun_iff_witness:
  "unicode_to_char (replicate 255 1) = Inl Oob_read \<longleftrightarrow>
    (\<forall>i < length (replicate 255 (1 :: byte)) div 2. replicate 255 (1 :: byte) ! (2 * i + 1) \<noteq> 0)"
  by (rule unicode_overrun_iff)

end
