(* ===== verification/Lsap_Table.thy ===== *)
theory Lsap_Table
  imports Dump_State "HOL-Library.Multiset"
begin

text \<open>
  The table of LMP connections irdadump keeps to decode data frames (the first part of
  \<open>irdadump/irlap.c\<close>): 15 slots and a cache of the slot found last. \<open>find_connection\<close>
  looks a pair of selectors up, \<open>find_free_connection\<close> finds a slot for a new connection,
  \<open>garbage_connection\<close> drops the connections of a closed LAP link. The abstraction of the
  table is the multiset of its live connections (\<open>live\<close>).
\<close>

section \<open>Access to the table\<close>

definition conn_at :: "int \<Rightarrow> lsap_state dm" where
  "conn_at i = (\<lambda>s. if 0 \<le> i \<and> nat i < length (conn s) then (Inr (conn s ! nat i), s)
                    else (Inl Bad_index, s))"

definition conn_upd :: "int \<Rightarrow> (lsap_state \<Rightarrow> lsap_state) \<Rightarrow> unit dm" where
  "conn_upd i f = (\<lambda>s. if 0 \<le> i \<and> nat i < length (conn s)
                       then (Inr (), s\<lparr>conn := (conn s)[nat i := f (conn s ! nat i)]\<rparr>)
                       else (Inl Bad_index, s))"

section \<open>The operations\<close>

definition matches :: "byte \<Rightarrow> byte \<Rightarrow> lsap_state \<Rightarrow> bool" where
  "matches slsap dlsap e \<longleftrightarrow> slsap_sel e = slsap \<and> dlsap_sel e = dlsap"

text \<open>The linear search from slot \<open>i\<close> on, which leaves its result in the cache.\<close>

function find_connection_loop :: "byte \<Rightarrow> byte \<Rightarrow> nat \<Rightarrow> int dm" where
  "find_connection_loop slsap dlsap i =
    (if i < MAX_CONNECTIONS then
       bnd (conn_at (int i)) (\<lambda>e.
         if matches slsap dlsap e
         then thn (modify (\<lambda>s. s\<lparr>conn_cache := int i\<rparr>)) (ret (int i))
         else find_connection_loop slsap dlsap (i + 1))
     else thn (modify (\<lambda>s. s\<lparr>conn_cache := -1\<rparr>)) (ret (-1)))"
  by pat_completeness auto
termination
  by (relation "measure (\<lambda>(_, _, i). MAX_CONNECTIONS - i)") auto

definition find_connection :: "byte \<Rightarrow> byte \<Rightarrow> int dm" where
  "find_connection slsap dlsap =
     bnd (gets conn_cache) (\<lambda>c.
     bnd (if c \<noteq> -1 then bnd (conn_at c) (\<lambda>e. ret (matches slsap dlsap e)) else ret False) (\<lambda>hit.
       if hit then ret c else find_connection_loop slsap dlsap 0))"

function find_free_loop :: "nat \<Rightarrow> int dm" where
  "find_free_loop i =
    (if i < MAX_CONNECTIONS then
       bnd (conn_at (int i)) (\<lambda>e. if \<not> valid e then ret (int i) else find_free_loop (i + 1))
     else ret (-1))"
  by pat_completeness auto
termination
  by (relation "measure (\<lambda>i. MAX_CONNECTIONS - i)") auto

definition find_free_connection :: "int dm" where
  "find_free_connection = find_free_loop 0"

function garbage_loop :: "byte \<Rightarrow> nat \<Rightarrow> unit dm" where
  "garbage_loop ca i =
    (if i < MAX_CONNECTIONS then
       bnd (conn_at (int i)) (\<lambda>e.
         thn (doif (caddr e = ca) (conn_upd (int i) (\<lambda>e. e\<lparr>valid := False\<rparr>)))
             (garbage_loop ca (i + 1)))
     else ret ())"
  by pat_completeness auto
termination
  by (relation "measure (\<lambda>(_, i). MAX_CONNECTIONS - i)") auto

definition garbage_connection :: "byte \<Rightarrow> unit dm" where
  "garbage_connection ca = garbage_loop ca 0"

declare find_connection_loop.simps [simp del] find_free_loop.simps [simp del]
  garbage_loop.simps [simp del]

section \<open>The invariant and the live connections\<close>

definition table_ok :: "dump \<Rightarrow> bool" where
  "table_ok s \<longleftrightarrow> length (conn s) = MAX_CONNECTIONS \<and> -1 \<le> conn_cache s \<and>
     conn_cache s < int MAX_CONNECTIONS"

definition live_in :: "lsap_state list \<Rightarrow> lsap_state multiset" where
  "live_in es = filter_mset valid (mset es)"

definition live :: "dump \<Rightarrow> lsap_state multiset" where
  "live s = live_in (conn s)"

lemma boot_table: "table_ok (boot_dump stack)"
  by (simp add: table_ok_def boot_dump_def MAX_CONNECTIONS_def)

lemma wp_conn_at [wp_simps]:
  "wp (conn_at i) Q E s =
    (if 0 \<le> i \<and> nat i < length (conn s) then Q (conn s ! nat i) s else E Bad_index s)"
  by (simp add: wp_def conn_at_def)

lemma wp_conn_upd [wp_simps]:
  "wp (conn_upd i f) Q E s =
    (if 0 \<le> i \<and> nat i < length (conn s)
     then Q () (s\<lparr>conn := (conn s)[nat i := f (conn s ! nat i)]\<rparr>) else E Bad_index s)"
  by (simp add: wp_def conn_upd_def)

text \<open>
  A found slot matches and is the first that does, or the cached one; \<open>-1\<close> means that no
  slot matches. Either way the result is the new cache, and nothing else changes.
\<close>

definition found :: "byte \<Rightarrow> byte \<Rightarrow> dump \<Rightarrow> int \<Rightarrow> bool" where
  "found slsap dlsap s i \<longleftrightarrow>
     (if i = -1 then \<forall>e \<in> set (conn s). \<not> matches slsap dlsap e
      else 0 \<le> i \<and> nat i < length (conn s) \<and> matches slsap dlsap (conn s ! nat i) \<and>
        (i = conn_cache s \<or> (\<forall>j < nat i. \<not> matches slsap dlsap (conn s ! j))))"

lemma find_connection_loop_spec:
  assumes "length (conn s) = MAX_CONNECTIONS" and "i \<le> MAX_CONNECTIONS"
    and "\<forall>j < i. \<not> matches sl dl (conn s ! j)"
  shows "wp (find_connection_loop sl dl i)
           (\<lambda>r s'. s' = s\<lparr>conn_cache := r\<rparr> \<and> found sl dl s r) never s"
  using assms(2,3)
proof (induction sl dl i rule: find_connection_loop.induct)
  case (1 sl dl i)
  show ?case
  proof (cases "i < MAX_CONNECTIONS \<and> \<not> matches sl dl (conn s ! i)")
    case True
    then have "\<forall>j < i + 1. \<not> matches sl dl (conn s ! j)"
      using "1.prems"(2) by (auto simp: less_Suc_eq)
    with "1.IH" [of "conn s ! i"] True have "wp (find_connection_loop sl dl (i + 1))
        (\<lambda>r s'. s' = s\<lparr>conn_cache := r\<rparr> \<and> found sl dl s r) never s" by simp
    with True show ?thesis
      using assms(1) by (subst find_connection_loop.simps) (simp add: wp_simps)
  next
    case False
    with "1.prems" assms(1) show ?thesis
      by (subst find_connection_loop.simps)
         (auto simp: wp_simps found_def in_set_conv_nth)
  qed
qed

lemma find_connection_spec:
  assumes "table_ok s"
  shows "wp (find_connection sl dl) (\<lambda>r s'. s' = s\<lparr>conn_cache := r\<rparr> \<and> found sl dl s r) never s"
proof -
  have loop: "wp (find_connection_loop sl dl 0)
      (\<lambda>r s'. s' = s\<lparr>conn_cache := r\<rparr> \<and> found sl dl s r) never s"
    using assms by (intro find_connection_loop_spec) (simp_all add: table_ok_def)
  have "0 \<le> conn_cache s \<and> nat (conn_cache s) < length (conn s)" if "conn_cache s \<noteq> -1"
    using assms that by (auto simp: table_ok_def)
  with loop show ?thesis
    by (auto simp: find_connection_def wp_simps found_def)
qed

lemma found_table_ok: "table_ok s \<Longrightarrow> found sl dl s r \<Longrightarrow> table_ok (s\<lparr>conn_cache := r\<rparr>)"
  by (auto simp: table_ok_def found_def split: if_splits)

text \<open>The free slot is the first one that is not valid; \<open>-1\<close> means that all are.\<close>

definition free_slot :: "dump \<Rightarrow> int \<Rightarrow> bool" where
  "free_slot s i \<longleftrightarrow>
     (if i = -1 then \<forall>e \<in> set (conn s). valid e
      else 0 \<le> i \<and> nat i < length (conn s) \<and> \<not> valid (conn s ! nat i) \<and>
        (\<forall>j < nat i. valid (conn s ! j)))"

lemma find_free_loop_spec:
  assumes "length (conn s) = MAX_CONNECTIONS" and "i \<le> MAX_CONNECTIONS"
    and "\<forall>j < i. valid (conn s ! j)"
  shows "wp (find_free_loop i) (\<lambda>r s'. s' = s \<and> free_slot s r) never s"
  using assms(2,3)
proof (induction i rule: find_free_loop.induct)
  case (1 i)
  show ?case
  proof (cases "i < MAX_CONNECTIONS \<and> valid (conn s ! i)")
    case True
    then have "\<forall>j < i + 1. valid (conn s ! j)"
      using "1.prems"(2) by (auto simp: less_Suc_eq)
    with "1.IH" [of "conn s ! i"] True have "wp (find_free_loop (i + 1)) (\<lambda>r s'. s' = s \<and> free_slot s r) never s"
      by simp
    with True show ?thesis
      using assms(1) by (subst find_free_loop.simps) (simp add: wp_simps)
  next
    case False
    with "1.prems" assms(1) show ?thesis
      by (subst find_free_loop.simps) (auto simp: wp_simps free_slot_def in_set_conv_nth)
  qed
qed

lemma find_free_connection_spec:
  "table_ok s \<Longrightarrow> wp find_free_connection (\<lambda>r s'. s' = s \<and> free_slot s r) never s"
  unfolding find_free_connection_def by (rule find_free_loop_spec) (simp_all add: table_ok_def)

text \<open>Dropping the connections of a link.\<close>

definition dropped :: "byte \<Rightarrow> lsap_state \<Rightarrow> lsap_state" where
  "dropped ca e = (if caddr e = ca then e\<lparr>valid := False\<rparr> else e)"

lemma garbage_loop_spec:
  assumes "length (conn s) = MAX_CONNECTIONS" and "i \<le> MAX_CONNECTIONS"
  shows "wp (garbage_loop ca i)
    (\<lambda>_ s'. s' = s\<lparr>conn := take i (conn s) @ map (dropped ca) (drop i (conn s))\<rparr>) never s"
  using assms
proof (induction ca i arbitrary: s rule: garbage_loop.induct)
  case (1 ca i)
  show ?case
  proof (cases "i < MAX_CONNECTIONS")
    case True
    define t where "t = s\<lparr>conn := (conn s)[i := dropped ca (conn s ! i)]\<rparr>"
    have "take (Suc i) (conn t) @ map (dropped ca) (drop (Suc i) (conn t))
        = take i (conn s) @ map (dropped ca) (drop i (conn s))"
      using True "1.prems"(1)
      by (simp add: t_def take_Suc_conv_app_nth Cons_nth_drop_Suc [symmetric])
    then have "t\<lparr>conn := take (Suc i) (conn t) @ map (dropped ca) (drop (Suc i) (conn t))\<rparr>
        = s\<lparr>conn := take i (conn s) @ map (dropped ca) (drop i (conn s))\<rparr>"
      by (simp add: t_def)
    moreover have "wp (garbage_loop ca (i + 1))
        (\<lambda>_ s'. s' = t\<lparr>conn := take (i + 1) (conn t) @ map (dropped ca) (drop (i + 1) (conn t))\<rparr>)
        never t"
      using "1.IH" [OF True, of t] "1.prems" True by (auto simp: t_def)
    ultimately have step: "wp (garbage_loop ca (i + 1))
        (\<lambda>_ s'. s' = s\<lparr>conn := take i (conn s) @ map (dropped ca) (drop i (conn s))\<rparr>) never t"
      by simp
    have "t = s" if "caddr (conn s ! i) \<noteq> ca"
      using that by (simp add: t_def dropped_def)
    moreover have "t = s\<lparr>conn := (conn s)[i := (conn s ! i)\<lparr>valid := False\<rparr>]\<rparr>"
      if "caddr (conn s ! i) = ca"
      using that by (simp add: t_def dropped_def)
    ultimately show ?thesis
      using True step "1.prems"(1)
      by (subst garbage_loop.simps, cases "caddr (conn s ! i) = ca") (simp_all add: wp_simps)
  next
    case False
    with "1.prems" show ?thesis
      by (subst garbage_loop.simps) (simp add: wp_simps)
  qed
qed

lemma garbage_connection_spec:
  assumes "table_ok s"
  shows "wp (garbage_connection ca)
    (\<lambda>_ s'. s' = s\<lparr>conn := map (dropped ca) (conn s)\<rparr>) never s"
  unfolding garbage_connection_def
  using garbage_loop_spec [of s 0 ca] assms by (simp add: table_ok_def)

lemma filter_dropped:
  "filter_mset valid (image_mset (dropped ca) M) = filter_mset (\<lambda>e. valid e \<and> caddr e \<noteq> ca) M"
  by (induction M) (auto simp: dropped_def)

section \<open>The interface: a store of connections\<close>

text \<open>
  What the LMP decoder relies on: a lookup that finds a slot with the two selectors if there is
  one, a slot for a new connection if one is not in use, an update of one slot, and the end of
  all connections of a link. The lemmas say what the two composed operations of the decoder do
  to the multiset of live connections.
\<close>

locale connection_store =
  fixes ok :: "'s \<Rightarrow> bool" and slots :: "'s \<Rightarrow> lsap_state list"
    and find :: "byte \<Rightarrow> byte \<Rightarrow> ('s, int) cm" and free :: "('s, int) cm"
    and update :: "int \<Rightarrow> (lsap_state \<Rightarrow> lsap_state) \<Rightarrow> ('s, unit) cm"
    and drop_link :: "byte \<Rightarrow> ('s, unit) cm"
  assumes find_law: "ok s \<Longrightarrow> wp (find sl dl) (\<lambda>i t. ok t \<and> slots t = slots s \<and>
      (if i = -1 then \<forall>e \<in> set (slots s). \<not> matches sl dl e
       else 0 \<le> i \<and> nat i < length (slots s) \<and> matches sl dl (slots s ! nat i))) never s"
    and free_law: "ok s \<Longrightarrow> wp free (\<lambda>i t. ok t \<and> slots t = slots s \<and>
      (if i = -1 then \<forall>e \<in> set (slots s). valid e
       else 0 \<le> i \<and> nat i < length (slots s) \<and> \<not> valid (slots s ! nat i))) never s"
    and update_law: "ok s \<Longrightarrow> 0 \<le> i \<Longrightarrow> nat i < length (slots s) \<Longrightarrow>
      wp (update i f) (\<lambda>_ t. ok t \<and> slots t = (slots s)[nat i := f (slots s ! nat i)]) never s"
    and drop_law: "ok s \<Longrightarrow> wp (drop_link ca) (\<lambda>_ t. ok t \<and> slots t = map (dropped ca) (slots s)) never s"
begin

text \<open>Opening: the new connection is added, unless all slots are in use.\<close>

lemma open_connection:
  assumes "ok s" and "\<And>e. valid (f e)"
    and "\<And>i t e. size (live_in (slots s)) < length (slots s) \<Longrightarrow> ok t \<Longrightarrow> 0 \<le> i \<Longrightarrow> nat i < length (slots t) \<Longrightarrow> slots t ! nat i = f e \<Longrightarrow>
      live_in (slots t) = add_mset (f e) (live_in (slots s)) \<Longrightarrow> wp (k i) Q E t"
    and "\<And>t. ok t \<Longrightarrow> slots t = slots s \<Longrightarrow> size (live_in (slots s)) = length (slots s) \<Longrightarrow> wp full Q E t"
  shows "wp (bnd free (\<lambda>i. if i = -1 then full else thn (update i f) (k i))) Q E s"
  unfolding wp_bnd
proof (rule wp_mono [OF free_law [OF assms(1)]])
  fix i t
  assume t: "ok t \<and> slots t = slots s \<and> (if i = -1 then \<forall>e \<in> set (slots s). valid e
       else 0 \<le> i \<and> nat i < length (slots s) \<and> \<not> valid (slots s ! nat i))"
  show "wp (if i = -1 then full else thn (update i f) (k i)) Q E t"
  proof (cases "i = -1")
    case True
    with t have "filter_mset valid (mset (slots s)) = mset (slots s)" by (simp add: filter_mset_eq_conv)
    with True t assms(4) show ?thesis by (simp add: live_in_def)
  next
    case False
    with t have i: "ok t" "slots t = slots s" "0 \<le> i" "nat i < length (slots t)"
      "\<not> valid (slots s ! nat i)" by auto
    have "filter_mset valid (mset (slots s)) \<noteq> mset (slots s)"
      using i by (auto simp: filter_mset_eq_conv)
    then have room: "size (live_in (slots s)) < length (slots s)"
      using mset_subset_size [of "live_in (slots s)" "mset (slots s)"]
      by (simp add: live_in_def subset_mset.less_le)
    have "wp (k i) Q E u" if u: "ok u" "slots u = (slots t)[nat i := f (slots t ! nat i)]" for u
    proof (rule assms(3))
      show "live_in (slots u) = add_mset (f (slots t ! nat i)) (live_in (slots s))"
        using i u(2) assms(2) by (simp add: live_in_def mset_update filter_mset_eq_conv)
    qed (use i u room in auto)
    with False i show ?thesis
      by (auto simp: wp_thn intro: wp_mono [OF update_law])
  qed
qed simp

text \<open>Closing: one matching slot is cleared; without a match nothing happens.\<close>

lemma close_connection:
  assumes "ok s"
  shows "wp (bnd (find sl dl) (\<lambda>i. doif (i \<noteq> -1) (update i (\<lambda>e. e\<lparr>valid := False\<rparr>))))
    (\<lambda>_ t. ok t \<and> (if \<exists>e \<in> set (slots s). matches sl dl e
       then \<exists>e \<in> set (slots s). matches sl dl e \<and>
              live_in (slots t) = (if valid e then live_in (slots s) - {#e#} else live_in (slots s))
       else slots t = slots s)) never s"
  unfolding wp_bnd
proof (rule wp_mono [OF find_law [OF assms]])
  fix i t
  assume t: "ok t \<and> slots t = slots s \<and>
      (if i = -1 then \<forall>e \<in> set (slots s). \<not> matches sl dl e
       else 0 \<le> i \<and> nat i < length (slots s) \<and> matches sl dl (slots s ! nat i))"
  show "wp (doif (i \<noteq> -1) (update i (\<lambda>e. e\<lparr>valid := False\<rparr>)))
    (\<lambda>_ t. ok t \<and> (if \<exists>e \<in> set (slots s). matches sl dl e
       then \<exists>e \<in> set (slots s). matches sl dl e \<and>
              live_in (slots t) = (if valid e then live_in (slots s) - {#e#} else live_in (slots s))
       else slots t = slots s)) never t"
  proof (cases "i = -1")
    case True
    with t show ?thesis by (auto simp: wp_doif)
  next
    case False
    with t have i: "ok t" "slots t = slots s" "0 \<le> i" "nat i < length (slots s)"
      "matches sl dl (slots s ! nat i)" by auto
    let ?e = "slots s ! nat i"
    have "live_in (slots u) = (if valid ?e then live_in (slots s) - {#?e#} else live_in (slots s))"
      if "slots u = (slots t)[nat i := ?e\<lparr>valid := False\<rparr>]" for u
    proof (cases "valid ?e")
      case True
      with that i show ?thesis by (simp add: live_in_def mset_update)
    next
      case False
      then have "?e\<lparr>valid := False\<rparr> = ?e" by simp
      with that i False show ?thesis by (simp add: live_in_def)
    qed
    moreover have "?e \<in> set (slots s)" using i by simp
    ultimately show ?thesis
      using False i by (auto simp: wp_doif intro!: wp_mono [OF update_law])
  qed
qed simp

text \<open>The end of a link: exactly the connections of other links survive.\<close>

lemma close_link:
  assumes "ok s"
  shows "wp (drop_link ca) (\<lambda>_ t. ok t \<and> live_in (slots t) = filter_mset (\<lambda>e. caddr e \<noteq> ca) (live_in (slots s))) never s"
  by (rule wp_weaken [OF drop_law [OF assms]])
     (simp add: live_in_def filter_dropped filter_filter_mset conj_commute)

end

interpretation ct: connection_store table_ok conn find_connection find_free_connection conn_upd
  garbage_connection
proof (unfold_locales, goal_cases)
  case (1 s sl dl)
  then show ?case
    by (intro wp_weaken [OF find_connection_spec])
       (auto intro: found_table_ok simp: found_def split: if_splits)
next
  case (2 s)
  then show ?case
    by (intro wp_weaken [OF find_free_connection_spec]) (auto simp: free_slot_def split: if_splits)
next
  case (3 s i f)
  then show ?case by (simp add: wp_simps table_ok_def)
next
  case (4 s ca)
  then show ?case
    by (intro wp_weaken [OF garbage_connection_spec]) (auto simp: table_ok_def)
qed

section \<open>Properties\<close>

text \<open>
  The lookup of a connection and its cache: on a well formed table \<open>find_connection\<close> returns,
  with the index of a slot that has both selectors, the first such or the cached one, or with
  \<open>-1\<close> when no slot has them; a second lookup of the same selectors gives the same index; and
  nothing but the cache is changed.
\<close>

theorem find_connection_stable:
  assumes "table_ok s"
  shows "wp (bnd (find_connection sl dl) (\<lambda>i. bnd (find_connection sl dl) (\<lambda>j. ret (i, j))))
    (\<lambda>(i, j) t. j = i \<and> found sl dl s i \<and> t = s\<lparr>conn_cache := i\<rparr>) never s"
  unfolding wp_simps
proof (rule wp_weaken [OF find_connection_spec [OF assms]])
  fix i t
  assume t: "t = s\<lparr>conn_cache := i\<rparr> \<and> found sl dl s i"
  then have ok: "table_ok t" using found_table_ok [OF assms, of sl dl i] by simp
  show "wp (find_connection sl dl)
      (\<lambda>j. (case (i, j) of (i, j) \<Rightarrow> \<lambda>t. j = i \<and> found sl dl s i \<and> t = s\<lparr>conn_cache := i\<rparr>)) never t"
  proof (cases "i = -1")
    case True
    with t have none: "\<forall>e \<in> set (conn t). \<not> matches sl dl e" by (simp add: found_def)
    have "j = -1" if "found sl dl t j" for j
      using that none nth_mem [of "nat j" "conn t"] by (auto simp: found_def split: if_splits)
    then show ?thesis
      using True t by (intro wp_weaken [OF find_connection_spec [OF ok]]) auto
  next
    case False
    then show ?thesis
      using t by (auto simp: found_def find_connection_def wp_simps)
  qed
qed

theorem find_connection_stable_witness:
  "let e = \<lparr>valid = True, ttp = False, obex = False, ircomm = False, irnet = False, saddr = 0,
       daddr = 0, slsap_sel = 4, dlsap_sel = 9, caddr = 2\<rparr>;
       s = (boot_dump [])\<lparr>conn := replicate 15 e, conn_cache := -1\<rparr>
   in wp (bnd (find_connection 4 9) (\<lambda>i. bnd (find_connection 4 9) (\<lambda>j. ret (i, j))))
    (\<lambda>(i, j) t. j = i \<and> found 4 9 s i \<and> t = s\<lparr>conn_cache := i\<rparr>) never s"
  unfolding Let_def
  by (rule find_connection_stable) (simp add: table_ok_def MAX_CONNECTIONS_def)

end
