(* ===== verification/Irlmp.thy ===== *)
theory Irlmp
  imports Ircomm Obex Lsap_Table
begin

text \<open>
  The IrLMP layer of irdadump (\<open>irdadump/irlmp.c\<close>): the LM-IAS query and response decoder,
  which remembers what service was last asked for (\<open>last_ias\<close>); the TinyTP headers; and the
  decoder of LMP frames, which records a connection on a connect request, drops it on a
  disconnect, and uses the record to decode the data frames of the connection.
\<close>

section \<open>LM-IAS\<close>

abbreviation dq :: string where "dq \<equiv> [CHR 0x22]"

text \<open>The query seen is remembered for the response and for the connection that follows.\<close>

definition note_query :: "byte list \<Rightarrow> byte list \<Rightarrow> ias_query \<Rightarrow> ias_query" where
  "note_query name attr q =
     q\<lparr>q_ttp := strstr attr (bytes_of ''TinyTP''),
       q_lsap_sel := LSAP_ANY,
       q_obex := strstr name (bytes_of ''OBEX''),
       q_ircomm := strstr name (bytes_of ''IrCOMM'') \<or> strstr name (bytes_of ''IrLPT''),
       q_irnet := strstr name (bytes_of ''IrNet'')\<rparr>"

definition parse_iriap_command :: "byte \<Rightarrow> unit dm" where
  "parse_iriap_command slsap =
    bnd (rd 0) (\<lambda>b0. let opcode = b0 AND NOT IAP_LST in
    if opcode = GET_INFO_BASE \<or> opcode = GET_VALUE_BY_CLASS then
      bnd (rd 1) (\<lambda>name_len.
      bnd (rds 2 (unat name_len)) (\<lambda>nm.
      bnd (local_string 255 nm) (\<lambda>name.
      bnd (rd (2 + unat name_len)) (\<lambda>attr_len.
      bnd (rds (3 + unat name_len) (unat attr_len)) (\<lambda>at.
      bnd (local_string 255 at) (\<lambda>attr. seqs [
        sprintfa (''GET_VALUE_BY_CLASS: '' @ dq @ ''%s'' @ dq @ '' '' @ dq @ ''%s'' @ dq @ '' '')
          [AS name, AS attr],
        modify (\<lambda>s. s\<lparr>last_ias := note_query name attr (last_ias s)\<rparr>)]))))))
    else ret ())"

definition parse_irias_value :: "unit dm" where
  "parse_irias_value =
    bnd (rds 0 2) (\<lambda>len_be. bnd (rds 2 2) (\<lambda>obj_id. bnd (rd 4) (\<lambda>type.
    if type = IAS_INTEGER then
      bnd (rd 5) (\<lambda>b3. bnd (rd 6) (\<lambda>b2. bnd (rd 7) (\<lambda>b1. bnd (rd 8) (\<lambda>b0. seqs [
        sprintfa ''Integer: %02x '' [AI (be32 b3 b2 b1 b0)],
        modify (\<lambda>s. s\<lparr>last_ias := (last_ias s)\<lparr>q_lsap_sel := ucast (be32 b3 b2 b1 b0)\<rparr>\<rparr>)]))))
    else if type = IAS_STRING then
      bnd (rd 5) (\<lambda>charset. bnd (rd 6) (\<lambda>value_len.
      bnd (rds 7 (unat value_len)) (\<lambda>bs.
      bnd (local_string 255 bs) (\<lambda>string. sprintfa ''String: %s '' [AS string]))))
    else if type = IAS_OCT_SEQ then
      bnd (rd 5) (\<lambda>hi. bnd (rd 6) (\<lambda>lo.
      thn (drop_hdr 7) (
      bnd (gets (\<lambda>s. q_ircomm (last_ias s))) (\<lambda>is_ircomm.
      if is_ircomm
      then thn (append_str (nl_tab @ ''IrCOMM Parameters ''))
               (parse_ircomm_params (ucast (be16 hi lo)))
      else append_str ''N/A ''))))
    else print_term ''%s() Unknown IAS value type! '' [Sl ''parse_irias_value''])))"

definition parse_iriap_response :: "byte \<Rightarrow> unit dm" where
  "parse_iriap_response dlsap =
    bnd (rd 0) (\<lambda>b0. bnd (rd 1) (\<lambda>rsp. let opcode = b0 AND NOT IAP_LST in seqs [
      drop_hdr 2,
      (if opcode = GET_INFO_BASE then
         print_term (''%s() Sorry, GET_INFO_BASE not implemented!'' @ [CHR 0x0A])
           [Sl ''parse_iriap_response'']
       else if opcode = GET_VALUE_BY_CLASS then append_str ''GET_VALUE_BY_CLASS: ''
       else print_term (''%s() Sorry, not implemented!'' @ [CHR 0x0A])
           [Sl ''parse_iriap_response'']),
      (if rsp = IAS_SUCCESS then thn (append_str ''Success '') parse_irias_value
       else if rsp = IAS_CLASS_UNKNOWN then append_str ''No such class ''
       else if rsp = IAS_ATTRIB_UNKNOWN then append_str ''No such attribute ''
       else append_str ''Unknown response code '')]))"

section \<open>IrNET and TinyTP\<close>

definition parse_irnet :: "unit dm" where
  "parse_irnet = sprintfa ''IrNET '' []"

definition parse_irttp :: "unit dm" where
  "parse_irttp =
    bnd (rd 0) (\<lambda>b0. seqs [
      sprintfa ''TTP credits=%d '' [Ib (b0 AND 0x7f)],
      doif (b0 AND 0x80 \<noteq> 0) (append_str ''More ''),
      drop_hdr 1])"

definition parse_irttp_connect :: "unit dm" where
  "parse_irttp_connect =
    bnd (rd 0) (\<lambda>b0. seqs [
      sprintfa ''TTP credits=%d '' [Ib (b0 AND 0x7f)],
      doif (b0 AND 0x80 \<noteq> 0)
        (bnd (rd 1) (\<lambda>plen. bnd (rd 2) (\<lambda>p_i. bnd (rd 3) (\<lambda>p_l. bnd (rd 4) (\<lambda>hi. bnd (rd 5) (\<lambda>lo. seqs [
           drop_hdr (ucast plen),
           sprintfa ''MaxSduSize=%d '' [AI (ucast (be16 hi lo))]])))))),
      drop_hdr 1])"

section \<open>LMP frames\<close>

text \<open>The lookup of a frame's connection: the local selector is the source of sent frames.\<close>

definition lookup_frame :: "bool \<Rightarrow> byte \<Rightarrow> byte \<Rightarrow> int dm" where
  "lookup_frame type slsap dlsap =
     (if type then find_connection slsap dlsap else find_connection dlsap slsap)"

text \<open>The layers a connect frame of connection \<open>i\<close> carries.\<close>

definition connect_layers :: "int \<Rightarrow> unit dm" where
  "connect_layers i =
    bnd (conn_at i) (\<lambda>e. seqs [
      doif (ttp e) parse_irttp_connect,
      doif (ircomm e) parse_ircomm_connect,
      doif (irnet e) parse_irnet])"

definition new_connection :: "byte \<Rightarrow> bool \<Rightarrow> byte \<Rightarrow> byte \<Rightarrow> ias_query \<Rightarrow> lsap_state \<Rightarrow> lsap_state" where
  "new_connection ca type slsap dlsap q e =
     e\<lparr>valid := True, caddr := ca,
       slsap_sel := (if type then slsap else dlsap),
       dlsap_sel := (if type then dlsap else slsap),
       ttp := q_ttp q, obex := q_obex q, ircomm := q_ircomm q, irnet := q_irnet q\<rparr>"

definition lmp_connect_cmd :: "byte \<Rightarrow> bool \<Rightarrow> byte \<Rightarrow> byte \<Rightarrow> unit dm" where
  "lmp_connect_cmd ca type slsap dlsap =
    thn (append_str ''CONN_CMD '') (
    bnd (gets last_ias) (\<lambda>q.
    if dlsap = q_lsap_sel q then
      bnd find_free_connection (\<lambda>i.
      if i = -1 then print_term (''No more space for connection!'' @ [CHR 0x0A]) []
      else thn (conn_upd i (new_connection ca type slsap dlsap q)) (connect_layers i))
    else bnd (gets (\<lambda>s. config_force_ttp (cfg s))) (\<lambda>force.
      doif (force \<and> dlsap \<noteq> 0x00) parse_irttp_connect)))"

definition lmp_connect_rsp :: "bool \<Rightarrow> byte \<Rightarrow> byte \<Rightarrow> unit dm" where
  "lmp_connect_rsp type slsap dlsap =
    thn (append_str ''CONN_RSP '') (
    bnd (lookup_frame type slsap dlsap) (\<lambda>i.
    if i \<noteq> -1 then connect_layers i
    else bnd (gets (\<lambda>s. config_force_ttp (cfg s))) (\<lambda>force.
      doif (force \<and> slsap \<noteq> 0x00) parse_irttp_connect)))"

definition lmp_disconnect :: "bool \<Rightarrow> byte \<Rightarrow> byte \<Rightarrow> unit dm" where
  "lmp_disconnect type slsap dlsap =
    thn (append_str ''DISC '') (
    bnd (lookup_frame type slsap dlsap) (\<lambda>i.
    doif (i \<noteq> -1) (conn_upd i (\<lambda>e. e\<lparr>valid := False\<rparr>))))"

definition lmp_data_layers :: "bool \<Rightarrow> lsap_state \<Rightarrow> unit dm" where
  "lmp_data_layers cmd e = seqs [
     doif (valid e \<and> ttp e) parse_irttp,
     doif (valid e \<and> obex e) (parse_obex cmd),
     doif (valid e \<and> ircomm e) (if ttp e then parse_ircomm_ttp else parse_ircomm_lmp),
     doif (valid e \<and> irnet e) parse_irnet]"

definition lmp_data :: "bool \<Rightarrow> bool \<Rightarrow> byte \<Rightarrow> byte \<Rightarrow> unit dm" where
  "lmp_data type cmd slsap dlsap =
    thn (if dlsap = 0x00 then parse_iriap_command slsap
         else if slsap = 0x00 then parse_iriap_response dlsap
         else ret ()) (
    bnd (lookup_frame type slsap dlsap) (\<lambda>i. seqs [
      doif (i \<noteq> -1) (bnd (conn_at i) (lmp_data_layers cmd)),
      doif (dlsap \<noteq> 0x00 \<and> slsap \<noteq> 0x00 \<and> i = -1)
        (bnd (gets (\<lambda>s. config_force_ttp (cfg s))) (\<lambda>force. doif force parse_irttp))]))"

definition lmp_control :: "byte \<Rightarrow> bool \<Rightarrow> byte \<Rightarrow> byte \<Rightarrow> unit dm" where
  "lmp_control ca type slsap dlsap =
    bnd (rd 0) (\<lambda>ctrl. bnd (rd 1) (\<lambda>rsvd.
    thn (drop_hdr 2)
      (if ctrl = CONNECT_CMD then lmp_connect_cmd ca type slsap dlsap
       else if ctrl = CONNECT_RSP then lmp_connect_rsp type slsap dlsap
       else if ctrl = DISCONNECT then lmp_disconnect type slsap dlsap
       else ret ())))"

text \<open>\<open>type\<close> is false for received frames, \<open>cmd\<close> is the command bit of the IrLAP address.\<close>

definition parse_irlmp :: "byte \<Rightarrow> bool \<Rightarrow> bool \<Rightarrow> unit dm" where
  "parse_irlmp ca type cmd =
    bnd (rd 0) (\<lambda>b0. bnd (rd 1) (\<lambda>slsap.
    let ctrl = b0 AND CONTROL_BIT; dlsap = b0 AND LSAP_MASK in
    thn (drop_hdr 2) (
    thn (sprintfa ''LM slsap=%02x dlsap=%02x '' [Ib slsap, Ib dlsap])
      (if ctrl \<noteq> 0 then lmp_control ca type slsap dlsap else lmp_data type cmd slsap dlsap))))"

definition parse_ui_irlmp :: "unit dm" where
  "parse_ui_irlmp =
    bnd (rd 0) (\<lambda>b0. bnd (rd 1) (\<lambda>slsap.
    let dlsap = b0 AND LSAP_MASK in
    thn (drop_hdr 2) (
    thn (sprintfa ''LM slsap=%02x dlsap=%02x '' [Ib slsap, Ib dlsap])
      (if slsap = 0x70 \<and> dlsap = 0x70 then
         bnd (rd 0) (\<lambda>u. let upid = u AND 0x7f in
         thn (drop_hdr 1) (
         thn (sprintfa '' Ultra-PID=%02x '' [Ib upid])
           (if upid = 0x01 then thn (drop_hdr 1) (parse_obex True) else ret ())))
       else ret ()))))"

section \<open>What the layer keeps\<close>

text \<open>
  \<open>kept s0 s\<close>: since \<open>s0\<close> the frame's end has not moved, the block has kept its length,
  sequence counters, options and stack contents are as they were, and the connection table is
  well formed.
\<close>

definition kept :: "dump \<Rightarrow> dump \<Rightarrow> bool" where
  "kept s0 s \<longleftrightarrow>
     window (fb s0) (fb s) \<and> self_nr s = self_nr s0 \<and> self_ns s = self_ns s0 \<and>
     peer_nr s = peer_nr s0 \<and> peer_ns s = peer_ns s0 \<and> cfg s = cfg s0 \<and> stk s = stk s0 \<and>
     table_ok s"

lemma kept_refl: "table_ok s \<Longrightarrow> kept s s"
  by (simp add: kept_def)

lemma kept_parsed: "kept s0 s \<Longrightarrow> parsed s t \<Longrightarrow> kept s0 t"
  by (auto simp: kept_def parsed_def same_tables_def table_ok_def intro: window_trans)

lemma kept_said: "kept s0 s \<Longrightarrow> kept s0 (said c s)"
  and kept_told: "kept s0 s \<Longrightarrow> kept s0 (told d s)"
  by (simp_all add: kept_def table_ok_def)

lemma kept_pulled: "kept s0 s \<Longrightarrow> \<not> nb_len (fb s) < n \<Longrightarrow> kept s0 (pulled n s)"
  by (rule kept_parsed [OF _ parsed_pulled [OF parsed_refl]])

lemma kept_ias: "kept s0 s \<Longrightarrow> kept s0 (s\<lparr>last_ias := q\<rparr>)"
  by (simp add: kept_def table_ok_def)

lemma kept_conn: "kept s0 s \<Longrightarrow> length t = length (conn s) \<Longrightarrow> kept s0 (s\<lparr>conn := t\<rparr>)"
  by (simp add: kept_def table_ok_def)

lemma kept_cache: "kept s0 s \<Longrightarrow> found sl dl s r \<Longrightarrow> kept s0 (s\<lparr>conn_cache := r\<rparr>)"
  using found_table_ok [of s sl dl r] by (simp add: kept_def)

lemmas kept_intros = kept_said kept_told kept_pulled kept_ias kept_conn

text \<open>From a lemma about a decoder's effect (\<open>parsed\<close>) to the invariant.\<close>

lemma wp_kept:
  assumes "kept s0 s" and "wp m (\<lambda>_. parsed s) (oob (parsed s)) s"
  shows "wp m (\<lambda>_. kept s0) (oob (kept s0)) s"
  using assms(2) by (rule wp_mono) (auto elim!: oob_mono intro: kept_parsed [OF assms(1)])

named_theorems keeps

lemma append_str_keeps [keeps]: "kept s0 s \<Longrightarrow> wp (append_str t) (\<lambda>_. kept s0) (oob (kept s0)) s"
  and sprintfa_keeps [keeps]: "kept s0 s \<Longrightarrow> wp (sprintfa f xs) (\<lambda>_. kept s0) (oob (kept s0)) s"
  and print_term_keeps [keeps]: "kept s0 s \<Longrightarrow> wp (print_term f xs) (\<lambda>_. kept s0) (oob (kept s0)) s"
  and drop_hdr_keeps [keeps]: "kept s0 s \<Longrightarrow> wp (drop_hdr n) (\<lambda>_. kept s0) (oob (kept s0)) s"
  by (simp_all add: wp_simps kept_intros)

lemma parse_obex_keeps [keeps]: "kept s0 s \<Longrightarrow> wp (parse_obex cmd) (\<lambda>_. kept s0) (oob (kept s0)) s"
  by (rule wp_kept) (simp_all add: parse_obex_parsed)

lemma ircomm_param_talked: "wp (ircomm_param pid n) (\<lambda>_. talked s) (oob (talked s)) s"
  by (simp add: ircomm_param_def bytes_to_uint_def wp_simps talked_intros)

lemma ircomm_params_loop_talked:
  "talked s0 s \<Longrightarrow> wp (ircomm_params_loop clen n) (\<lambda>_. talked s0) (oob (talked s0)) s"
proof (induction clen n arbitrary: s rule: ircomm_params_loop.induct)
  case (1 clen n)
  have "wp (ircomm_param p n) (\<lambda>_ t. talked s0 t) (oob (talked s0)) s" for p
    by (rule wp_mono [OF ircomm_param_talked])
       (use "1.prems" in \<open>auto elim!: oob_mono intro: talked_trans\<close>)
  then have "n < clen \<Longrightarrow> wp (ircomm_param p n)
      (\<lambda>_. wp (ircomm_params_loop clen (n + unat pl + 2)) (\<lambda>_. talked s0) (oob (talked s0)))
      (oob (talked s0)) s" for p and pl :: byte
    by (rule wp_weaken) (rule "1.IH")
  then show ?case
    using "1.prems" by (subst ircomm_params_loop.simps) (simp add: wp_simps)
qed

lemma parse_ircomm_params_parsed:
  "parsed s0 s \<Longrightarrow> wp (parse_ircomm_params clen) (\<lambda>_. parsed s0) (oob (parsed s0)) s"
  unfolding parse_ircomm_params_def wp_simps
  by (rule wp_mono [OF ircomm_params_loop_talked [OF talked_refl]])
     (auto simp: wp_simps intro!: parsed_pulled elim!: oob_mono
       intro: parsed_trans [OF _ talked_parsed])

lemma parse_ircomm_ttp_keeps [keeps]:
  "kept s0 s \<Longrightarrow> wp parse_ircomm_ttp (\<lambda>_. kept s0) (oob (kept s0)) s"
  by (rule wp_kept)
     (simp_all add: parse_ircomm_ttp_def g_netbuf_get_len_def wp_simps parsed_intros
       parse_ircomm_params_parsed)

lemma parse_ircomm_connect_keeps [keeps]:
  "kept s0 s \<Longrightarrow> wp parse_ircomm_connect (\<lambda>_. kept s0) (oob (kept s0)) s"
  unfolding parse_ircomm_connect_def by (rule parse_ircomm_ttp_keeps)

lemma parse_ircomm_params_keeps [keeps]:
  "kept s0 s \<Longrightarrow> wp (parse_ircomm_params clen) (\<lambda>_. kept s0) (oob (kept s0)) s"
  by (rule wp_kept) (simp_all add: parse_ircomm_params_parsed)

lemma parse_ircomm_lmp_keeps [keeps]:
  "kept s0 s \<Longrightarrow> wp parse_ircomm_lmp (\<lambda>_. kept s0) (oob (kept s0)) s"
  by (simp add: parse_ircomm_lmp_def wp_simps kept_intros)

lemma parse_irnet_keeps [keeps]: "kept s0 s \<Longrightarrow> wp parse_irnet (\<lambda>_. kept s0) (oob (kept s0)) s"
  by (simp add: parse_irnet_def wp_simps kept_intros)

lemma parse_irttp_keeps [keeps]: "kept s0 s \<Longrightarrow> wp parse_irttp (\<lambda>_. kept s0) (oob (kept s0)) s"
  by (simp add: parse_irttp_def wp_simps kept_intros)

lemma parse_irttp_connect_keeps [keeps]:
  "kept s0 s \<Longrightarrow> wp parse_irttp_connect (\<lambda>_. kept s0) (oob (kept s0)) s"
  by (simp add: parse_irttp_connect_def wp_simps kept_intros)

lemma parse_iriap_command_keeps [keeps]:
  "kept s0 s \<Longrightarrow> wp (parse_iriap_command sl) (\<lambda>_. kept s0) (oob (kept s0)) s"
  by (simp add: parse_iriap_command_def Let_def wp_simps kept_intros)

lemma parse_irias_value_keeps:
  "kept s0 s \<Longrightarrow> wp parse_irias_value (\<lambda>_. kept s0) (oob (kept s0)) s"
  by (simp add: parse_irias_value_def wp_simps kept_intros keeps)

lemma parse_iriap_response_keeps [keeps]:
  "kept s0 s \<Longrightarrow> wp (parse_iriap_response dl) (\<lambda>_. kept s0) (oob (kept s0)) s"
  by (simp add: parse_iriap_response_def Let_def wp_simps kept_intros parse_irias_value_keeps)

lemma lookup_frame_keeps:
  assumes "kept s0 s"
  shows "wp (lookup_frame type sl dl)
    (\<lambda>i t. kept s0 t \<and> -1 \<le> i \<and> i < int (length (conn t))) (oob (kept s0)) s"
proof -
  have "wp (find_connection a b)
      (\<lambda>i t. kept s0 t \<and> -1 \<le> i \<and> i < int (length (conn t))) (oob (kept s0)) s" for a b
    by (rule wp_mono [OF find_connection_spec])
       (use assms in \<open>auto simp: kept_def found_def intro: found_table_ok split: if_splits\<close>)
  then show ?thesis by (simp add: lookup_frame_def)
qed

text \<open>A function of a table index keeps the invariant when the index is one.\<close>

definition slot :: "int \<Rightarrow> bool" where
  "slot i \<longleftrightarrow> 0 \<le> i \<and> i < int MAX_CONNECTIONS"

lemma kept_length: "kept s0 s \<Longrightarrow> length (conn s) = MAX_CONNECTIONS"
  by (simp add: kept_def table_ok_def)

lemma conn_at_keeping: "slot i \<Longrightarrow> keeping mem_fault (kept s0) (conn_at i)"
  by (rule keepingI) (auto simp: wp_simps slot_def kept_length)

lemma conn_upd_keeping: "slot i \<Longrightarrow> keeping mem_fault (kept s0) (conn_upd i f)"
  by (rule keepingI) (auto simp: wp_simps slot_def kept_length intro: kept_conn)

lemma lookup_keeping:
  assumes "\<And>i. i = -1 \<or> slot i \<Longrightarrow> keeping mem_fault (kept s0) (f i)"
  shows "keeping mem_fault (kept s0) (bnd (lookup_frame type sl dl) f)"
proof (rule keepingI, unfold wp_simps, rule wp_weaken [OF lookup_frame_keeps])
  fix i t
  assume "kept s0 t \<and> -1 \<le> i \<and> i < int (length (conn t))"
  then have "i = -1 \<or> slot i" and "kept s0 t"
    by (auto simp: slot_def kept_length)
  then show "wp (f i) (\<lambda>_. kept s0) (oob (kept s0)) t"
    by (blast intro: keepingD [OF assms])
qed

lemma find_free_keeping:
  assumes "\<And>i. i = -1 \<or> slot i \<Longrightarrow> keeping mem_fault (kept s0) (f i)"
  shows "keeping mem_fault (kept s0) (bnd find_free_connection f)"
proof (rule keepingI, unfold wp_simps)
  fix s
  assume s: "kept s0 s"
  have "wp find_free_connection (\<lambda>i t. t = s \<and> free_slot s i) (oob (kept s0)) s"
    using s by (intro wp_mono [OF find_free_connection_spec]) (auto simp: kept_def)
  then show "wp find_free_connection (\<lambda>i. wp (f i) (\<lambda>_. kept s0) (oob (kept s0))) (oob (kept s0)) s"
  proof (rule wp_weaken)
    fix i t
    assume "t = s \<and> free_slot s i"
    then have "i = -1 \<or> slot i" and "t = s"
      by (auto simp: free_slot_def slot_def kept_length [OF s] split: if_splits)
    then show "wp (f i) (\<lambda>_. kept s0) (oob (kept s0)) t"
      using s by (blast intro: keepingD [OF assms])
  qed
qed

lemmas keeping_leaves =
  keepingI [OF append_str_keeps] keepingI [OF sprintfa_keeps] keepingI [OF print_term_keeps]
  keepingI [OF drop_hdr_keeps] keepingI [OF parse_obex_keeps] keepingI [OF parse_ircomm_ttp_keeps]
  keepingI [OF parse_ircomm_connect_keeps] keepingI [OF parse_ircomm_lmp_keeps]
  keepingI [OF parse_irnet_keeps] keepingI [OF parse_irttp_keeps]
  keepingI [OF parse_irttp_connect_keeps] keepingI [OF parse_iriap_command_keeps]
  keepingI [OF parse_iriap_response_keeps]

lemma connect_layers_keeping: "slot i \<Longrightarrow> keeping mem_fault (kept s0) (connect_layers i)"
  unfolding connect_layers_def by (intro keeping_intros keeping_leaves conn_at_keeping)

lemma lmp_connect_cmd_keeping: "keeping mem_fault (kept s0) (lmp_connect_cmd ca type sl dl)"
  unfolding lmp_connect_cmd_def
  by (intro keeping_thn keeping_bnd keeping_if find_free_keeping keeping_leaves keeping_doif
        keeping_gets conn_upd_keeping connect_layers_keeping) auto

lemma lmp_connect_rsp_keeping: "keeping mem_fault (kept s0) (lmp_connect_rsp type sl dl)"
  unfolding lmp_connect_rsp_def
  by (intro keeping_thn lookup_keeping keeping_if keeping_leaves) 
     (auto intro!: keeping_bnd keeping_gets keeping_doif keeping_leaves connect_layers_keeping)

lemma lmp_disconnect_keeping: "keeping mem_fault (kept s0) (lmp_disconnect type sl dl)"
  unfolding lmp_disconnect_def
  by (intro keeping_thn lookup_keeping keeping_doif keeping_leaves conn_upd_keeping) auto

lemma lmp_data_layers_keeping: "keeping mem_fault (kept s0) (lmp_data_layers cmd e)"
  unfolding lmp_data_layers_def by (intro keeping_intros keeping_leaves)

lemma lmp_data_keeping: "keeping mem_fault (kept s0) (lmp_data type cmd sl dl)"
  unfolding lmp_data_def
  by (intro keeping_thn lookup_keeping keeping_if keeping_leaves keeping_ret)
     (auto intro!: keeping_Cons keeping_Nil keeping_doif keeping_bnd keeping_gets keeping_leaves
        conn_at_keeping lmp_data_layers_keeping)

lemma lmp_control_keeping: "keeping mem_fault (kept s0) (lmp_control ca type sl dl)"
  unfolding lmp_control_def
  by (intro keeping_intros keeping_leaves lmp_connect_cmd_keeping lmp_connect_rsp_keeping
        lmp_disconnect_keeping)

text \<open>The whole layer, for frames of connections and for unit data.\<close>

lemma parse_irlmp_keeping: "keeping mem_fault (kept s0) (parse_irlmp ca type cmd)"
  unfolding parse_irlmp_def Let_def
  by (intro keeping_intros keeping_leaves lmp_control_keeping lmp_data_keeping)

lemma parse_ui_irlmp_keeping: "keeping mem_fault (kept s0) parse_ui_irlmp"
  unfolding parse_ui_irlmp_def Let_def by (intro keeping_intros keeping_leaves)

section \<open>Connections come and go\<close>

lemma keeping_conn:
  assumes "\<And>s. wp m (\<lambda>_. parsed s) (oob (parsed s)) s"
  shows "keeping mem_fault (\<lambda>t. conn t = C) m"
  by (rule keepingI, rule wp_mono [OF assms]) (auto simp: parsed_sel elim!: oob_mono)

lemma parse_irttp_connect_parsed: "wp parse_irttp_connect (\<lambda>_. parsed s) (oob (parsed s)) s"
  and parse_ircomm_connect_parsed: "wp parse_ircomm_connect (\<lambda>_. parsed s) (oob (parsed s)) s"
  and parse_irnet_parsed: "wp parse_irnet (\<lambda>_. parsed s) (oob (parsed s)) s"
  by (simp_all add: parse_irttp_connect_def parse_ircomm_connect_def parse_ircomm_ttp_def
      parse_irnet_def g_netbuf_get_len_def wp_simps parsed_intros parse_ircomm_params_parsed)

lemma connect_layers_conn:
  assumes "0 \<le> i" and "nat i < length C"
  shows "keeping mem_fault (\<lambda>t. conn t = C) (connect_layers i)"
proof -
  have "keeping mem_fault (\<lambda>t. conn t = C) (conn_at i)"
    by (rule keepingI) (use assms in \<open>simp add: wp_simps\<close>)
  then show ?thesis
    unfolding connect_layers_def
    by (auto intro!: keeping_intros keeping_conn [OF parse_irttp_connect_parsed]
          keeping_conn [OF parse_ircomm_connect_parsed] keeping_conn [OF parse_irnet_parsed])
qed

text \<open>What a connect request to the selector last asked for does to the live connections.\<close>

definition connected :: "byte \<Rightarrow> bool \<Rightarrow> byte \<Rightarrow> byte \<Rightarrow> dump \<Rightarrow> dump \<Rightarrow> bool" where
  "connected ca type sl dl s t \<longleftrightarrow>
     (if size (live s) = MAX_CONNECTIONS then conn t = conn s
      else \<exists>e. live t = add_mset e (live s) \<and> caddr e = ca \<and>
        matches (if type then sl else dl) (if type then dl else sl) e \<and>
        ttp e = q_ttp (last_ias s) \<and> obex e = q_obex (last_ias s) \<and>
        ircomm e = q_ircomm (last_ias s) \<and> irnet e = q_irnet (last_ias s))"

text \<open>
  C3. A connect request whose destination is the selector the last LM-IAS query was answered
  with adds exactly one live connection to the table, with the link address and selectors of
  the frame, the local selector first, and the services the query named; with all 15 slots in
  use the table is left as it is. This also holds when the decoding of the headers behind the
  request runs outside the frame buffer.
\<close>

theorem connect_request_adds_connection:
  assumes "table_ok s" and "dl = q_lsap_sel (last_ias s)"
  shows "wp (lmp_connect_cmd ca type sl dl) (\<lambda>_. connected ca type sl dl s)
    (oob (connected ca type sl dl s)) s"
proof -
  let ?s = "said (Append ''CONN_CMD '') s" and ?P = "connected ca type sl dl s"
  let ?f = "new_connection ca type sl dl (last_ias ?s)"
  have layers: "wp (connect_layers i) (\<lambda>_. ?P) (oob ?P) t"
    if "size (live_in (conn ?s)) < length (conn ?s)" "table_ok t" "0 \<le> i" "nat i < length (conn t)"
      "conn t ! nat i = ?f e" "live_in (conn t) = add_mset (?f e) (live_in (conn ?s))" for i t e
  proof -
    have "?P u" if "conn u = conn t" for u
      using that \<open>size _ < _\<close> \<open>live_in (conn t) = _\<close> assms(1)
      by (auto simp: connected_def live_def new_connection_def matches_def table_ok_def
          intro!: exI [of _ "?f e"])
    then show ?thesis
      using that(3,4)
      by (intro wp_mono [OF keepingD [OF connect_layers_conn [of i "conn t"]]])
         (auto simp: stops_def)
  qed
  have full: "wp (print_term (''No more space for connection!'' @ [CHR 0x0A]) []) (\<lambda>_. ?P) (oob ?P) t"
    if "table_ok t" "conn t = conn ?s" "size (live_in (conn ?s)) = length (conn ?s)" for t
    using that by (simp add: wp_simps connected_def live_def table_ok_def)
  have "wp (bnd find_free_connection (\<lambda>i.
      if i = -1 then print_term (''No more space for connection!'' @ [CHR 0x0A]) []
      else thn (conn_upd i ?f) (connect_layers i))) (\<lambda>_. ?P) (oob ?P) ?s"
    using assms(1) layers full
    by (intro ct.open_connection) (auto simp: table_ok_def new_connection_def)
  then show ?thesis
    by (simp add: lmp_connect_cmd_def wp_thn wp_append_str wp_bnd wp_gets assms(2) [symmetric])
qed

theorem connect_request_adds_connection_witness:
  "let s = (boot_dump [])\<lparr>last_ias := empty_query\<lparr>q_lsap_sel := 3, q_obex := True\<rparr>\<rparr>
   in wp (lmp_connect_cmd 4 False 9 3) (\<lambda>_. connected 4 False 9 3 s) (oob (connected 4 False 9 3 s)) s"
  unfolding Let_def
  by (rule connect_request_adds_connection)
     (simp_all add: table_ok_def boot_dump_def MAX_CONNECTIONS_def empty_query_def)

text \<open>What a disconnect frame does to the live connections.\<close>

definition disconnected :: "byte \<Rightarrow> byte \<Rightarrow> dump \<Rightarrow> dump \<Rightarrow> bool" where
  "disconnected sl dl s t \<longleftrightarrow> table_ok t \<and>
     (if \<exists>e \<in> set (conn s). matches sl dl e
      then \<exists>e \<in> set (conn s). matches sl dl e \<and> live t = (if valid e then live s - {#e#} else live s)
      else conn t = conn s)"

text \<open>
  C8. A disconnect frame clears one slot with the selectors of the frame when there is one, so
  that at most one live connection goes away, and it has these selectors; without such a slot
  the table is unchanged. Decoding the frame never fails.
\<close>

theorem disconnect_drops_connection:
  assumes "table_ok s"
  shows "wp (lmp_disconnect type sl dl)
    (\<lambda>_. disconnected (if type then sl else dl) (if type then dl else sl) s) never s"
proof -
  have ok: "table_ok (said (Append ''DISC '') s)" using assms by (simp add: table_ok_def)
  have "wp (bnd (find_connection a b) (\<lambda>i. doif (i \<noteq> -1) (conn_upd i (\<lambda>e. e\<lparr>valid := False\<rparr>))))
      (\<lambda>_. disconnected a b s) never (said (Append ''DISC '') s)" for a b
    by (rule wp_weaken [OF ct.close_connection [OF ok]]) (simp add: disconnected_def live_def cong: if_cong)
  then show ?thesis by (simp add: lmp_disconnect_def lookup_frame_def wp_thn wp_append_str)
qed

theorem disconnect_drops_connection_witness:
  "wp (lmp_disconnect True 3 9) (\<lambda>_. disconnected 3 9 (boot_dump [])) never (boot_dump [])"
  using disconnect_drops_connection [OF boot_table, of True 3 9 "[]"] by simp

section \<open>LM-IAS properties\<close>

text \<open>
  C10. The query decoder on a complete GetValueByClass request: with class and attribute names
  of at most 254 bytes it prints both and remembers the services the names contain, with no
  selector known yet; with a name of 255 bytes, which the length byte allows, the terminating
  zero is written past the end of the local array.
\<close>

theorem iriap_query_decoded:
  assumes "ahead s = op # of_nat (length name) # name @ of_nat (length attr) # attr @ rest"
    and "length name \<le> 255" and "length attr \<le> 255" and "op AND NOT IAP_LST = GET_VALUE_BY_CLASS"
  shows "parse_iriap_command sl s =
    (if length name = 255 \<or> length attr = 255 then (Inl Oob_write, s)
     else (Inr (), (said (Sprintfa (''GET_VALUE_BY_CLASS: '' @ dq @ ''%s'' @ dq @ '' '' @ dq @ ''%s'' @ dq @ '' '')
         [AS (cstring name), AS (cstring attr)]) s)
       \<lparr>last_ias := note_query (cstring name) (cstring attr) (last_ias s)\<rparr>))"
proof -
  have n: "unat (of_nat k :: byte) = k" if "k \<le> 255" for k
    using that by (simp add: unsigned_of_nat take_bit_nat_eq_self)
  let ?a = "ahead s"
  have "length ?a = 3 + length name + length attr + length rest" by (simp add: assms(1))
  then have len: "length ?a = 3 + length name + length attr + length rest" and rooms: "room (Suc 0) s" "room (Suc 1) s" "room (2 + length name) s"
    "room (Suc (2 + length name)) s" "room (3 + length name + length attr) s"
    by (simp_all add: ahead_room)
  have "cell s 0 = op" "cell s 1 = of_nat (length name)" "cell s (2 + length name) = of_nat (length attr)"
    "take (length name) (drop 2 ?a) = name" "take (length attr) (drop (3 + length name) ?a) = attr"
    by (simp_all add: ahead_cell assms(1) nth_append eval_nat_numeral)
  with rooms n [OF assms(2)] n [OF assms(3)] assms(2-4) show ?thesis
    by (simp add: parse_iriap_command_def Let_def run_simps said_def) (auto simp: len add.assoc)
qed

theorem iriap_query_decoded_witness:
  "parse_iriap_command 9 (framed ([0x84, 4] @ bytes_of ''OBEX'' @ [2, 0x41, 0x42]) (boot_dump [])) =
    (Inr (), (said (Sprintfa (''GET_VALUE_BY_CLASS: '' @ dq @ ''%s'' @ dq @ '' '' @ dq @ ''%s'' @ dq @ '' '')
         [Sl ''OBEX'', AS [0x41, 0x42]]) (framed ([0x84, 4] @ bytes_of ''OBEX'' @ [2, 0x41, 0x42]) (boot_dump [])))
       \<lparr>last_ias := note_query (bytes_of ''OBEX'') [0x41, 0x42] empty_query\<rparr>)"
proof -
  have "cstring (bytes_of ''OBEX'') = bytes_of ''OBEX''" "cstring [0x41, 0x42] = [0x41, 0x42]"
    "length (bytes_of ''OBEX'') = 4" "last_ias (boot_dump []) = empty_query"
    by (simp_all add: cstring_def bytes_of_def boot_dump_def)
  then show ?thesis
    using iriap_query_decoded [of "framed ([0x84, 4] @ bytes_of ''OBEX'' @ [2, 0x41, 0x42]) (boot_dump [])"
      "0x84" "bytes_of ''OBEX''" "[0x41, 0x42]" "[]" 9]
    by (simp add: Sl_def)
qed

text \<open>
  After a query for a class the table records the services asked for: an integer answer
  sets the selector the query was for, and keeps the services; and \<open>obex\<close> is remembered
  exactly when \<open>OBEX\<close> occurs in the class name, \<open>ttp\<close> when \<open>TinyTP\<close> occurs in the
  attribute name.
\<close>

theorem iriap_answer_learned:
  assumes "ahead s = l1 # l0 # i1 # i0 # IAS_INTEGER # b3 # b2 # b1 # b0 # rest"
    and "last_ias s = note_query name attr q"
  shows "\<exists>t. parse_irias_value s = (Inr (), t) \<and> q_lsap_sel (last_ias t) = b0 \<and>
    (q_obex (last_ias t) \<longleftrightarrow> sublist (bytes_of ''OBEX'') name) \<and>
    (q_ttp (last_ias t) \<longleftrightarrow> sublist (bytes_of ''TinyTP'') attr) \<and>
    (q_ircomm (last_ias t) \<longleftrightarrow>
       sublist (bytes_of ''IrCOMM'') name \<or> sublist (bytes_of ''IrLPT'') name)"
proof -
  have "ucast (be32 b3 b2 b1 b0) = b0"
    by (rule bit_word_eqI) (simp add: be32_def bit_simps)
  moreover have "room n s" if "n \<le> 9" "0 < n" for n
    using that assms(1) by (simp add: ahead_room)
  moreover have "cell s 4 = 1" "cell s 5 = b3" "cell s 6 = b2" "cell s 7 = b1" "cell s 8 = b0"
    by (simp_all add: ahead_cell assms(1) eval_nat_numeral)
  ultimately show ?thesis
    by (simp add: parse_irias_value_def run_simps said_def assms(2) note_query_def strstr_iff_sublist)
qed

theorem iriap_answer_learned_witness:
  "\<exists>t. parse_irias_value ((framed [0, 1, 0, 5, 1, 0, 0, 0, 7] (boot_dump []))
      \<lparr>last_ias := note_query [0x41] [0x42] empty_query\<rparr>) = (Inr (), t) \<and> q_lsap_sel (last_ias t) = 7 \<and>
    (q_obex (last_ias t) \<longleftrightarrow> sublist (bytes_of ''OBEX'') [0x41])"
  using iriap_answer_learned [of "(framed [0, 1, 0, 5, 1, 0, 0, 0, 7] (boot_dump []))
      \<lparr>last_ias := note_query [0x41] [0x42] empty_query\<rparr>" 0 1 0 5 0 0 0 7 "[]" "[0x41]" "[0x42]" empty_query]
  by (auto simp: framed_def ahead_def)

end
