(* ===== verification/Irlap_Params.thy ===== *)
theory Irlap_Params
  imports Dump_State
begin

text \<open>
  The negotiation parameters of IrLAP (\<open>irdadump/irlap.c\<close>): the tables of values, the choice
  of the most significant bit of a parameter value, and the walk over the parameters of an
  SNRM or UA frame. The tables are shorter than the values a peer can send; the lemmas say
  exactly which values index past the end of a table.
\<close>

section \<open>The tables\<close>

definition min_turn_times :: "u32 list" where
  "min_turn_times = [10000, 5000, 1000, 500, 100, 50, 10, 0]"
definition baud_rates :: "u32 list" where
  "baud_rates = [2400, 9600, 19200, 38400, 57600, 115200, 576000, 1152000, 4000000, 16000000]"
definition data_sizes :: "u32 list" where
  "data_sizes = [64, 128, 256, 512, 1024, 2048]"
definition add_bofs :: "u32 list" where
  "add_bofs = [48, 24, 12, 5, 3, 2, 1, 0]"
definition max_turn_times :: "u32 list" where
  "max_turn_times = [500, 250, 100, 50]"
definition link_disc_times :: "u32 list" where
  "link_disc_times = [3, 8, 12, 16, 20, 25, 30, 40]"
definition window_sizes :: "u32 list" where
  "window_sizes = [1, 2, 3, 4, 5, 6, 7, 0]"

definition index_value :: "int \<Rightarrow> u32 list \<Rightarrow> u32 dm" where
  "index_value bit_index arr =
     (if 0 \<le> bit_index \<and> nat bit_index < length arr then ret (arr ! nat bit_index)
      else stop Bad_index)"

section \<open>The most significant bit\<close>

function msb_loop :: "u16 \<Rightarrow> u16 \<Rightarrow> int \<Rightarrow> int" where
  "msb_loop w msb bit_index =
    (if msb \<noteq> 0 then
       if w AND msb \<noteq> 0 then bit_index else msb_loop w (drop_bit 1 msb) (bit_index - 1)
     else bit_index)"
  by pat_completeness auto
termination
proof (relation "measure (\<lambda>(_, msb, _). unat msb)", goal_cases)
  case (2 w msb bit_index)
  then show ?case
    by (simp add: drop_bit_eq_div unat_div div_less_dividend unat_gt_0)
qed simp

declare msb_loop.simps [simp del]

definition msb_index :: "u16 \<Rightarrow> int dm" where
  "msb_index w =
     thn (doif (w = 0)
            (print_term (''Detected buggy peer, adjust null PV to 0x1!'' @ [CHR 0x0A]) []))
         (ret (msb_loop (if w = 0 then 0x1 else w) 0x8000 15))"

definition byte_value :: "u16 \<Rightarrow> u32 list \<Rightarrow> u32 dm" where
  "byte_value b arr = bnd (msb_index b) (\<lambda>bit_index. index_value bit_index arr)"

section \<open>The parameters\<close>

text \<open>The \<open>switch\<close> of the loop, at the parameter that starts at \<open>buf->data[n]\<close>.\<close>

definition qos_param :: "string \<Rightarrow> u32 list \<Rightarrow> nat \<Rightarrow> unit dm" where
  "qos_param fmt arr n =
     bnd (rd (n + 2)) (\<lambda>b. bnd (byte_value (ucast b) arr) (\<lambda>v. sprintfa fmt [AI v]))"

definition irlap_param :: "byte \<Rightarrow> byte \<Rightarrow> nat \<Rightarrow> unit dm" where
  "irlap_param pid pl n =
    (if pid = PI_BAUD_RATE then
       bnd (rd (n + 2)) (\<lambda>b.
       bnd (if pl \<ge> 2 then bnd (rd (n + 3)) (\<lambda>c. ret (be16 c b)) else ret (ucast b)) (\<lambda>pv_byte.
       bnd (byte_value pv_byte baud_rates) (\<lambda>v. sprintfa ''Baud Rate=%dbps '' [AI v])))
     else if pid = PI_MAX_TURN_TIME then qos_param ''Max Turn Time=%dms '' max_turn_times n
     else if pid = PI_DATA_SIZE then qos_param ''Data Size=%dB '' data_sizes n
     else if pid = PI_WINDOW_SIZE then qos_param ''Window Size=%d '' window_sizes n
     else if pid = PI_ADD_BOFS then qos_param ''Add BOFS=%d '' add_bofs n
     else if pid = PI_MIN_TURN_TIME then qos_param ''Min Turn Time=%dus '' min_turn_times n
     else if pid = PI_LINK_DISC then qos_param ''Link Disc=%ds '' link_disc_times n
     else ret ())"

function irlap_params_loop :: "nat \<Rightarrow> nat \<Rightarrow> unit dm" where
  "irlap_params_loop clen n =
    (if n < clen then
       bnd (rd n) (\<lambda>b. bnd (rd (n + 1)) (\<lambda>pl.
         thn (irlap_param (b AND 0x7f) pl n)
             (irlap_params_loop clen (n + unat pl + 2))))
     else ret ())"
  by pat_completeness auto
termination
  by (relation "measure (\<lambda>(clen, n). clen - n)") auto

declare irlap_params_loop.simps [simp del]

definition parse_irlap_params :: "byte \<Rightarrow> unit dm" where
  "parse_irlap_params clen = seqs [
     append_str (nl_tab @ ''LAP QoS: ''),
     irlap_params_loop (unat clen) 0,
     drop_hdr (ucast clen)]"

section \<open>Service hints\<close>

text \<open>The names of the bits set in the two hint bytes.\<close>

definition parse_hints :: "byte \<Rightarrow> byte \<Rightarrow> unit dm" where
  "parse_hints hint0 hint1 = seqs [
     append_str ''[ '',
     doif (hint0 AND 0x01 \<noteq> 0) (append_str ''PnP ''),
     doif (hint0 AND 0x02 \<noteq> 0) (append_str ''PDA/Palmtop ''),
     doif (hint0 AND 0x04 \<noteq> 0) (append_str ''Computer ''),
     doif (hint0 AND 0x08 \<noteq> 0) (append_str ''Printer ''),
     doif (hint0 AND 0x10 \<noteq> 0) (append_str ''Modem ''),
     doif (hint0 AND 0x20 \<noteq> 0) (append_str ''Fax ''),
     doif (hint0 AND 0x40 \<noteq> 0) (append_str ''LAN Access ''),
     doif (hint1 AND 0x01 \<noteq> 0) (append_str ''Telephony ''),
     doif (hint1 AND 0x02 \<noteq> 0) (append_str ''File Server ''),
     doif (hint1 AND 0x04 \<noteq> 0) (append_str ''IrCOMM ''),
     doif (hint1 AND 0x20 \<noteq> 0) (append_str ''IrOBEX ''),
     append_str ''] '']"

section \<open>Which bit is found\<close>

text \<open>The loop finds the highest bit of a word below the mask.\<close>

lemma msb_loop_bit:
  assumes "k < 16" and "w \<noteq> 0" and "\<forall>i > k. \<not> bit w i"
  shows "\<exists>m \<le> k. msb_loop w (push_bit k 1) (int k) = int m \<and> bit w m \<and> (\<forall>i > m. \<not> bit w i)"
  using assms
proof (induction k)
  case 0
  have "bit w 0"
  proof (rule ccontr)
    assume "\<not> bit w 0"
    with "0.prems"(3) have "w = 0"
      by (auto intro!: bit_word_eqI simp: not_less) (metis gr0I)
    with "0.prems"(2) show False by simp
  qed
  then have "w AND 1 \<noteq> 0"
    using bit_iff_and_push_bit_not_eq_0 [of w 0] by simp
  with \<open>bit w 0\<close> "0.prems"(3) show ?case
    by (subst msb_loop.simps) simp
next
  case (Suc k)
  have mask: "push_bit (Suc k) (1 :: u16) \<noteq> 0"
  proof -
    have "bit (push_bit (Suc k) (1 :: u16)) (Suc k)"
      using Suc.prems(1) by (simp add: bit_simps)
    then show ?thesis by auto
  qed
  have half: "drop_bit 1 (push_bit (Suc k) (1 :: u16)) = push_bit k 1"
    using Suc.prems(1) by (auto intro!: bit_word_eqI simp: bit_simps)
  show ?case
  proof (cases "bit w (Suc k)")
    case True
    then have "w AND push_bit (Suc k) 1 \<noteq> 0"
      using bit_iff_and_push_bit_not_eq_0 [of w "Suc k"] by blast
    with mask have "msb_loop w (push_bit (Suc k) 1) (int (Suc k)) = int (Suc k)"
      by (subst msb_loop.simps) simp
    with True Suc.prems(3) show ?thesis by blast
  next
    case False
    then have masked: "w AND push_bit (Suc k) 1 = 0"
      using bit_iff_and_push_bit_not_eq_0 [of w "Suc k"] by blast
    have diff: "int (Suc k) - 1 = int k" by simp
    from masked mask have step: "msb_loop w (push_bit (Suc k) 1) (int (Suc k)) = msb_loop w (push_bit k 1) (int k)"
      by (subst msb_loop.simps) (simp only: half diff if_True if_False simp_thms)
    have "\<forall>i > k. \<not> bit w i"
      using Suc.prems(3) False by (metis Suc_lessI)
    with Suc.IH Suc.prems(1,2) obtain m where "m \<le> k"
      "msb_loop w (push_bit k 1) (int k) = int m" "bit w m" "\<forall>i > m. \<not> bit w i" by auto
    with step show ?thesis by (intro exI [of _ m]) simp
  qed
qed

definition top_bit :: "u16 \<Rightarrow> int" where
  "top_bit w = msb_loop (if w = 0 then 0x1 else w) 0x8000 15"

lemma bounds_of_top:
  assumes "bit (w :: u16) m" and "\<forall>i > m. \<not> bit w i"
  shows "2 ^ m \<le> unat w \<and> unat w < 2 ^ Suc m"
proof -
  have "drop_bit m w = 1"
    using assms
    by (intro bit_word_eqI)
       (auto simp: bit_simps bit_1_iff, metis less_add_same_cancel1 not_gr_zero)
  have "unat w div 2 ^ m = drop_bit m (unat w)" by (simp add: drop_bit_eq_div)
  also have "\<dots> = unat (drop_bit m w)" by (simp add: unat_drop_bit_eq)
  finally have "unat w div 2 ^ m = 1" using \<open>drop_bit m w = 1\<close> by simp
  moreover have "unat w div 2 ^ m * 2 ^ m \<le> unat w"
    by (rule div_times_less_eq_dividend)
  moreover have "unat w < (unat w div 2 ^ m + 1) * 2 ^ m"
    using dividend_less_div_times [of "2 ^ m" "unat w"] by (simp add: add_mult_distrib)
  ultimately show ?thesis by simp
qed

lemma top_bit_spec:
  assumes "w \<noteq> 0"
  shows "\<exists>m < 16. top_bit w = int m \<and> 2 ^ m \<le> unat w \<and> unat w < 2 ^ Suc m"
proof -
  have "\<forall>i > 15. \<not> bit w i" using bit_imp_le_length [of w] by fastforce
  moreover have "push_bit 15 (1 :: u16) = 0x8000" by (simp add: push_bit_eq_mult)
  ultimately obtain m where "m \<le> 15" "top_bit w = int m" "bit w m" "\<forall>i > m. \<not> bit w i"
    using msb_loop_bit [of 15 w] assms by (auto simp: top_bit_def)
  with bounds_of_top [of w m] show ?thesis by (intro exI [of _ m]) simp
qed

lemma top_bit_0: "top_bit 0 = 0"
proof -
  obtain m where m: "top_bit 1 = int m" "2 ^ m \<le> unat (1 :: u16)"
    using top_bit_spec [of 1] by auto
  have "2 ^ m \<le> (1::nat)" using m(2) by simp
  moreover have "m < 2 ^ m" by (rule less_exp)
  ultimately have "m = 0" by linarith
  with m(1) show ?thesis by (simp add: top_bit_def)
qed

lemma top_bit_range: "0 \<le> top_bit w \<and> top_bit w < 16"
  using top_bit_spec [of w] by (cases "w = 0") (auto simp: top_bit_0)

text \<open>The top bit is below \<open>k\<close> exactly for the values below \<open>2 ^ k\<close>.\<close>

lemma top_bit_less_iff:
  assumes "0 < k"
  shows "nat (top_bit w) < k \<longleftrightarrow> unat w < 2 ^ k"
proof (cases "w = 0")
  case True
  with assms show ?thesis by (simp add: top_bit_0)
next
  case False
  then obtain m where m: "top_bit w = int m" "2 ^ m \<le> unat w" "unat w < 2 ^ Suc m"
    using top_bit_spec by blast
  have "unat w < 2 ^ k" if "m < k"
  proof -
    have "(2::nat) ^ Suc m \<le> 2 ^ k" using that by (intro power_increasing) auto
    with m(3) show ?thesis by linarith
  qed
  moreover have "m < k" if "unat w < 2 ^ k"
  proof -
    have "(2::nat) ^ m < 2 ^ k" using m(2) that by linarith
    then show ?thesis by (simp add: power_strict_increasing_iff)
  qed
  ultimately show ?thesis using m(1) by auto
qed

text \<open>
  The lookup in a table of \<open>k\<close> values: with a value below \<open>2 ^ k\<close> the entry of the top bit,
  with any other an access outside the table. A null value counts as 1, with a warning.
\<close>

definition warned :: "u16 \<Rightarrow> dump \<Rightarrow> dump" where
  "warned w s = (if w = 0
     then told (Term (''Detected buggy peer, adjust null PV to 0x1!'' @ [CHR 0x0A]) []) s else s)"

lemma warned_sel [simp]: "room n (warned w s) = room n s" "cell (warned w s) i = cell s i"
  by (simp_all add: warned_def)

lemma talked_warned: "talked s t \<Longrightarrow> talked s (warned w t)"
  by (simp add: warned_def talked_intros)

lemma wp_byte_value [wp_simps]:
  assumes "arr \<noteq> []"
  shows "wp (byte_value w arr) Q E s =
    (if unat w < 2 ^ length arr then Q (arr ! nat (top_bit w)) (warned w s) else E Bad_index (warned w s))"
  using assms top_bit_range [of w] top_bit_less_iff [of "length arr" w]
  by (auto simp: byte_value_def msb_index_def index_value_def wp_simps warned_def top_bit_def [symmetric])

lemma tables_nonempty [simp]:
  "min_turn_times \<noteq> []" "baud_rates \<noteq> []" "data_sizes \<noteq> []" "add_bofs \<noteq> []"
  "max_turn_times \<noteq> []" "link_disc_times \<noteq> []" "window_sizes \<noteq> []"
  by (simp_all add: min_turn_times_def baud_rates_def data_sizes_def add_bofs_def
      max_turn_times_def link_disc_times_def window_sizes_def)

lemma tables_length:
  "length min_turn_times = 8" "length baud_rates = 10" "length data_sizes = 6" "length add_bofs = 8"
  "length max_turn_times = 4" "length link_disc_times = 8" "length window_sizes = 8"
  by (simp_all add: min_turn_times_def baud_rates_def data_sizes_def add_bofs_def
      max_turn_times_def link_disc_times_def window_sizes_def)

section \<open>Effects\<close>

lemma irlap_param_talked:
  "talked s0 s \<Longrightarrow> wp (irlap_param pid pl n) (\<lambda>_. talked s0) (stops table_fault (talked s0)) s"
  by (simp add: irlap_param_def qos_param_def wp_simps talked_intros talked_warned)

lemma irlap_params_loop_talked:
  "talked s0 s \<Longrightarrow> wp (irlap_params_loop clen n) (\<lambda>_. talked s0) (stops table_fault (talked s0)) s"
proof (induction clen n arbitrary: s rule: irlap_params_loop.induct)
  case (1 clen n)
  have "n < clen \<Longrightarrow> wp (irlap_param p pl n)
      (\<lambda>_. wp (irlap_params_loop clen (n + unat pl + 2)) (\<lambda>_. talked s0) (stops table_fault (talked s0)))
      (stops table_fault (talked s0)) s" for p and pl :: byte
    by (rule wp_weaken [OF irlap_param_talked [OF "1.prems"]]) (rule "1.IH")
  then show ?case
    using "1.prems" by (subst irlap_params_loop.simps) (simp add: wp_simps)
qed

lemma parse_irlap_params_parsed:
  assumes "parsed s0 s"
  shows "wp (parse_irlap_params clen) (\<lambda>_. parsed s0) (stops table_fault (parsed s0)) s"
proof -
  have "wp (irlap_params_loop (unat clen) 0)
      (\<lambda>_. wp (drop_hdr (ucast clen)) (\<lambda>_. parsed s0) (stops table_fault (parsed s0)))
      (stops table_fault (parsed s0)) t" if t: "parsed s0 t" for t
    by (rule wp_mono [OF irlap_params_loop_talked [OF talked_refl]])
       (auto simp: wp_simps intro!: parsed_pulled elim!: oob_mono
         intro: parsed_trans [OF t talked_parsed])
  with assms show ?thesis by (simp add: parse_irlap_params_def wp_simps parsed_intros)
qed

lemma append_str_talking: "keeping F (talked s0) (append_str t)"
  by (rule keepingI) (simp add: wp_simps talked_intros)

lemma parse_hints_talked: "talked s0 s \<Longrightarrow> wp (parse_hints a b) (\<lambda>_. talked s0) never s"
proof -
  have "keeping (\<lambda>_. False) (talked s0) (parse_hints a b)"
    unfolding parse_hints_def by (intro keeping_intros append_str_talking)
  then show "talked s0 s \<Longrightarrow> ?thesis"
    by (drule_tac s = s in keepingD) (auto elim!: wp_mono simp: stops_def)
qed

section \<open>Properties\<close>

text \<open>
  A one byte negotiation parameter is decoded by its highest set bit: for a value from
  \<open>2 ^ k\<close> up to \<open>2 ^ (k + 1) - 1\<close> the entry \<open>k\<close> of the table is shown, and if the table has
  no such entry, memory behind it is read.
\<close>

theorem qos_value_of_top_bit:
  assumes "room (n + 3) s" and "arr \<noteq> []"
    and "2 ^ k \<le> unat (cell s (n + 2))" and "unat (cell s (n + 2)) < 2 ^ Suc k"
  shows "qos_param fmt arr n s =
    (if k < length arr then (Inr (), said (Sprintfa fmt [AI (arr ! k)]) s) else (Inl Bad_index, s))"
proof -
  let ?w = "ucast (cell s (n + 2)) :: u16"
  have w: "2 ^ k \<le> unat ?w" "unat ?w < 2 ^ Suc k" using assms(3,4) by simp_all
  moreover have "0 < (2::nat) ^ k" by simp
  ultimately have "unat ?w \<noteq> 0" by linarith
  then have nz: "?w \<noteq> 0" by (metis unsigned_0)
  then obtain m where m: "top_bit ?w = int m" "2 ^ m \<le> unat ?w" "unat ?w < 2 ^ Suc m"
    using top_bit_spec by blast
  have "(2::nat) ^ k < 2 ^ Suc m" "(2::nat) ^ m < 2 ^ Suc k"
    using w m by linarith+
  then have "k < Suc m" "m < Suc k"
    by (simp_all only: power_strict_increasing_iff one_less_numeral_iff semiring_norm)
  then have "m = k" by simp
  moreover have "msb_index ?w s = (Inr (top_bit ?w), s)"
    using nz by (simp add: msb_index_def run_simps top_bit_def)
  moreover have "room (Suc (n + 2)) s" using assms(1) by (rule room_le) simp
  ultimately show ?thesis
    using m(1) by (simp add: qos_param_def byte_value_def index_value_def run_simps)
qed

theorem qos_value_of_top_bit_witness:
  "qos_param ''Max Turn Time=%dms '' max_turn_times 0 (framed [2, 1, 0x05] (boot_dump [])) =
    (Inr (), said (Sprintfa ''Max Turn Time=%dms '' [AI 100]) (framed [2, 1, 0x05] (boot_dump [])))"
  using qos_value_of_top_bit [of 0 "framed [2, 1, 0x05] (boot_dump [])" max_turn_times 2 "''Max Turn Time=%dms ''"]
  by (simp add: room_def framed_def cell_def max_turn_times_def)

text \<open>
  The parameters by which a peer makes the decoder read behind a table, exactly: a maximum
  turn time of 0x10 or more, a data size of 0x40 or more, and a baud rate of two bytes whose
  second is 0x04 or more. No other parameter with any value does it.
\<close>

theorem qos_table_overreads:
  assumes "room (n + 4) s"
  shows "stops_with (irlap_param pid pl n) Bad_index s \<longleftrightarrow>
    pid = PI_MAX_TURN_TIME \<and> 0x10 \<le> unat (cell s (n + 2)) \<or>
    pid = PI_DATA_SIZE \<and> 0x40 \<le> unat (cell s (n + 2)) \<or>
    pid = PI_BAUD_RATE \<and> 2 \<le> pl \<and> 0x04 \<le> unat (cell s (n + 3))"
proof -
  have rooms: "room (Suc (n + 2)) s" "room (Suc (n + 3)) s" using assms by (auto intro: room_le)
  have baud: "unat (be16 c b) < 1024 \<longleftrightarrow> unat c < 4" for c b
    using unat_byte_less [of b] unfolding unat_be16 by linarith
  have small: "unat (cell s i) < 1024" for i
    using unat_byte_less [of "cell s i"] by linarith
  show ?thesis
    using rooms small unat_byte_less [of "cell s (n + 2)"]
    by (auto simp: stops_with_iff_wp irlap_param_def qos_param_def wp_simps tables_length baud not_less)
qed

theorem qos_table_overreads_witness:
  "stops_with (irlap_param PI_MAX_TURN_TIME 1 0) Bad_index (framed [2, 1, 0x10, 0] (boot_dump []))"
  using qos_table_overreads [of 0 "framed [2, 1, 0x10, 0] (boot_dump [])" PI_MAX_TURN_TIME 1]
  by (simp add: room_def framed_def cell_def)

end
