(* ===== verification/Irlap.thy ===== *)
theory Irlap
  imports Irlmp Irlap_Params
begin

text \<open>
  The IrLAP layer of irdadump (\<open>irdadump/irlap.c\<close>): one decoder per frame type and
  \<open>parse_irlap_frame\<close>, which picks one by the control byte. Sequence numbers of information
  and receive-ready frames feed the report of lost frames. The booleans \<open>cmd\<close> and \<open>type\<close>
  are the C integers tested for zero: command frame, and frame sent by this host.
\<close>

section \<open>Pieces the decoders share\<close>

definition cmd_rsp :: "bool \<Rightarrow> varg" where
  "cmd_rsp cmd = Sl (if cmd then ''cmd'' else ''rsp'')"

definition arrow :: "bool \<Rightarrow> varg" where
  "arrow type = Sl (if type then ''>'' else ''<'')"

text \<open>A little-endian device address at \<open>buf->data + i\<close>.\<close>

definition rd_addr :: "nat \<Rightarrow> u32 dm" where
  "rd_addr i = bnd (rd i) (\<lambda>b0. bnd (rd (i + 1)) (\<lambda>b1. bnd (rd (i + 2)) (\<lambda>b2. bnd (rd (i + 3)) (\<lambda>b3.
     ret (le32 b0 b1 b2 b3)))))"

text \<open>The sequence numbers of a control byte: next to receive, next to send.\<close>

definition nr_of :: "byte \<Rightarrow> int" where "nr_of b = uint (drop_bit 5 b)"
definition ns_of :: "byte \<Rightarrow> int" where "ns_of b = uint (drop_bit 1 b AND 0x07)"

definition lost_count :: "int \<Rightarrow> int \<Rightarrow> int" where
  "lost_count ns nr = (if ns + 1 > nr then ns + 1 - nr else ns + 9 - nr)"

text \<open>The acknowledgement check of \<open>parse_rr_frame\<close> and \<open>parse_i_frame\<close>.\<close>

definition check_acks :: "bool \<Rightarrow> int \<Rightarrow> unit dm" where
  "check_acks type nr =
    (if type then
       thn (modify (\<lambda>s. s\<lparr>self_nr := nr\<rparr>)) (
       bnd (gets peer_ns) (\<lambda>ns.
       doif (nr \<noteq> (ns + 1) mod 8)
         (sprintfa ''** %d frame(s) lost ** '' [Ii (lost_count ns nr)])))
     else
       thn (modify (\<lambda>s. s\<lparr>peer_nr := nr\<rparr>)) (
       bnd (gets self_ns) (\<lambda>ns.
       doif (nr \<noteq> (ns + 1) mod 8)
         (sprintfa ''** %d frame(s) lost ** '' [Ii (lost_count ns nr)]))))"

section \<open>Information frames\<close>

text \<open>The part under \<open>config_print_lost_frames\<close>.\<close>

definition track_i_frame :: "bool \<Rightarrow> int \<Rightarrow> int \<Rightarrow> unit dm" where
  "track_i_frame type nr ns =
    thn (check_acks type nr)
      (if type then
         bnd (gets self_ns) (\<lambda>old. seqs [
           doif (ns \<noteq> (old + 1) mod 8) (append_str ''** retransmit ** ''),
           modify (\<lambda>s. s\<lparr>self_ns := ns\<rparr>)])
       else
         bnd (gets peer_ns) (\<lambda>old. seqs [
           doif (ns \<noteq> (old + 1) mod 8) (append_str ''** retransmit **''),
           modify (\<lambda>s. s\<lparr>peer_ns := ns\<rparr>)]))"

definition parse_i_frame :: "byte \<Rightarrow> bool \<Rightarrow> byte \<Rightarrow> bool \<Rightarrow> unit dm" where
  "parse_i_frame ca cmd pf type =
    bnd (rd 1) (\<lambda>b. let nr = nr_of b; ns = ns_of b in
    bnd (gets cfg) (\<lambda>opts. seqs [
      drop_hdr 2,
      sprintfa ''i:%s  %s ca=%02x pf=%d nr=%d ns=%d ''
        [cmd_rsp cmd, arrow type, Ib ca, Ib pf, Ii nr, Ii ns],
      doif (config_print_irlmp opts) (parse_irlmp ca type cmd),
      doif (config_print_lost_frames opts) (track_i_frame type nr ns)]))"

definition parse_ui_frame :: "byte \<Rightarrow> bool \<Rightarrow> byte \<Rightarrow> bool \<Rightarrow> unit dm" where
  "parse_ui_frame ca cmd pf type =
    bnd (gets cfg) (\<lambda>opts. seqs [
      drop_hdr 2,
      sprintfa ''ui:%s %s ca=%02x pf=%d  '' [cmd_rsp cmd, arrow type, Ib ca, Ib pf],
      doif (config_print_irlmp opts) parse_ui_irlmp])"

section \<open>Supervisory frames\<close>

definition parse_rr_frame :: "byte \<Rightarrow> bool \<Rightarrow> byte \<Rightarrow> bool \<Rightarrow> unit dm" where
  "parse_rr_frame ca cmd pf type =
    bnd (rd 1) (\<lambda>b. let nr = nr_of b in
    bnd (gets cfg) (\<lambda>opts. seqs [
      sprintfa ''rr:%s %s ca=%02x pf=%d nr=%d '' [cmd_rsp cmd, arrow type, Ib ca, Ib pf, Ii nr],
      doif (config_print_lost_frames opts) (check_acks type nr)]))"

definition parse_rnr_frame :: "byte \<Rightarrow> bool \<Rightarrow> byte \<Rightarrow> bool \<Rightarrow> unit dm" where
  "parse_rnr_frame ca cmd pf type =
    bnd (rd 1) (\<lambda>b.
      sprintfa ''rnr:%s %s ca=%02x pf=%d nr=%d ''
        [cmd_rsp cmd, arrow type, Ib ca, Ib pf, Ii (nr_of b)])"

definition parse_rej_frame :: "byte \<Rightarrow> bool \<Rightarrow> byte \<Rightarrow> bool \<Rightarrow> unit dm" where
  "parse_rej_frame ca cmd pf type =
    bnd (rd 1) (\<lambda>b.
      sprintfa ''rej:%s %s ca=%02x pf=%d nr=%d ''
        [cmd_rsp cmd, arrow type, Ib ca, Ib pf, Ii (nr_of b)])"

definition parse_srej_frame :: "byte \<Rightarrow> bool \<Rightarrow> byte \<Rightarrow> bool \<Rightarrow> unit dm" where
  "parse_srej_frame ca cmd pf type =
    bnd (rd 1) (\<lambda>b.
      sprintfa ''srej:%s %s ca=%02x pf=%d nr=%d ''
        [cmd_rsp cmd, arrow type, Ib ca, Ib pf, Ii (nr_of b)])"

section \<open>Unnumbered frames\<close>

definition xid_slots :: "byte \<Rightarrow> int" where
  "xid_slots flags =
    (if flags = 0x00 then 1 else if flags = 0x01 then 6 else if flags = 0x02 then 8
     else if flags = 0x03 then 16 else 0)"

text \<open>
  The hint bytes and the offset of the device name in a frame with discovery information,
  and the terminating zero written behind the frame.
\<close>

definition xid_info :: "(nat \<times> byte \<times> byte) dm" where
  "xid_info =
    bnd (rd 14) (\<lambda>h0.
    bnd (if h0 AND 0x80 \<noteq> 0 then bnd (rd 15) (\<lambda>h1. ret (17, h0, h1)) else ret (16, h0, 0)) (\<lambda>r.
    bnd (gets (\<lambda>s. unat (nb_len (fb s)))) (\<lambda>len.
    thn (wr len 0) (ret r))))"

definition print_xid_info :: "nat \<times> byte \<times> byte \<Rightarrow> unit dm" where
  "print_xid_info r = (case r of (info, h0, h1) \<Rightarrow>
     bnd (rd_cstring info) (\<lambda>name. seqs [
       sprintfa ''%s hint=%02x%02x '' [AS name, Ib h0, Ib h1],
       parse_hints h0 h1]))"

definition parse_xid_frame :: "bool \<Rightarrow> byte \<Rightarrow> bool \<Rightarrow> unit dm" where
  "parse_xid_frame cmd pf type =
    bnd (rd_addr 3) (\<lambda>sa. bnd (rd_addr 7) (\<lambda>da. bnd (rd 11) (\<lambda>flags. bnd (rd 12) (\<lambda>slotnr.
    bnd (if slotnr = 0xff \<or> \<not> cmd then bnd xid_info (\<lambda>r. ret (Some r)) else ret None) (\<lambda>info. seqs [
      (if type
       then sprintfa ''xid:%s %08x > %08x S=%d '' [cmd_rsp cmd, AI sa, AI da, Ii (xid_slots flags)]
       else sprintfa ''xid:%s %08x < %08x S=%d '' [cmd_rsp cmd, AI da, AI sa, Ii (xid_slots flags)]),
      (if slotnr = 0xff then append_str ''s=* '' else sprintfa ''s=%d '' [Ib slotnr]),
      (case info of None \<Rightarrow> ret () | Some r \<Rightarrow> print_xid_info r)])))))"

definition parse_frmr_frame :: "byte \<Rightarrow> bool \<Rightarrow> byte \<Rightarrow> bool \<Rightarrow> unit dm" where
  "parse_frmr_frame ca cmd pf type =
    bnd (rd 1) (\<lambda>ctrl. bnd (rd 2) (\<lambda>b.
      sprintfa ''frmr:%s  %s ca=%02x pf=%d ctrl=%02x, nr=%d ns=%d ''
        [cmd_rsp cmd, arrow type, Ib ca, Ib ctrl, Ii (nr_of b), Ib pf, Ii (ns_of b)]))"

text \<open>The negotiation parameters that may follow the header of a UA or SNRM frame.\<close>

definition parse_qos :: "unit dm" where
  "parse_qos =
    bnd (gets (\<lambda>s. g_netbuf_get_len (fb s))) (\<lambda>len.
      doif (len \<noteq> 0) (parse_irlap_params (ucast len)))"

definition parse_ua_frame :: "byte \<Rightarrow> bool \<Rightarrow> byte \<Rightarrow> bool \<Rightarrow> unit dm" where
  "parse_ua_frame ca cmd pf type =
    bnd (rd_addr 2) (\<lambda>sa. bnd (rd_addr 6) (\<lambda>da. seqs [
      (if type
       then sprintfa ''ua:%s ca=%02x pf=%d %08x > %08x '' [cmd_rsp cmd, Ib ca, Ib pf, AI sa, AI da]
       else sprintfa ''ua:%s ca=%02x pf=%d %08x < %08x '' [cmd_rsp cmd, Ib ca, Ib pf, AI da, AI sa]),
      drop_hdr 10,
      parse_qos]))"

definition parse_disc_frame :: "byte \<Rightarrow> bool \<Rightarrow> byte \<Rightarrow> bool \<Rightarrow> unit dm" where
  "parse_disc_frame ca cmd pf type = seqs [
     sprintfa ''disc:%s %s ca=%#02x pf=%d '' [cmd_rsp cmd, arrow type, Ib ca, Ib pf],
     garbage_connection ca]"

definition parse_dm_frame :: "byte \<Rightarrow> bool \<Rightarrow> byte \<Rightarrow> bool \<Rightarrow> unit dm" where
  "parse_dm_frame ca cmd pf type =
     sprintfa ''dm:%s %s ca=%#02x pf=%d '' [cmd_rsp cmd, arrow type, Ib ca, Ib pf]"

definition parse_rd_frame :: "byte \<Rightarrow> bool \<Rightarrow> byte \<Rightarrow> bool \<Rightarrow> unit dm" where
  "parse_rd_frame ca cmd pf type =
     sprintfa ''rd:%s %s ca=%#02x pf=%d '' [cmd_rsp cmd, arrow type, Ib ca, Ib pf]"

definition parse_test_frame :: "byte \<Rightarrow> bool \<Rightarrow> byte \<Rightarrow> bool \<Rightarrow> unit dm" where
  "parse_test_frame ca cmd pf type =
    bnd (rd_addr 2) (\<lambda>sa. bnd (rd_addr 6) (\<lambda>da.
      sprintfa ''test:%s ca=%#02x pf=%d %08x %s %08x ''
        [cmd_rsp cmd, Ib ca, Ib pf, AI sa, arrow type, AI da]))"

definition parse_snrm_frame :: "byte \<Rightarrow> bool \<Rightarrow> byte \<Rightarrow> bool \<Rightarrow> unit dm" where
  "parse_snrm_frame ca cmd pf type =
    bnd (rd_addr 2) (\<lambda>sa. bnd (rd_addr 6) (\<lambda>da. bnd (rd 10) (\<lambda>new_caddr. seqs [
      (if type
       then sprintfa ''snrm:%s ca=%02x pf=%d %08x > %08x new-ca=%02x ''
              [cmd_rsp cmd, Ib ca, Ib pf, AI sa, AI da, Ib new_caddr]
       else sprintfa ''snrm:%s ca=%02x pf=%d %08x < %08x new-ca=%02x ''
              [cmd_rsp cmd, Ib ca, Ib pf, AI da, AI sa, Ib new_caddr]),
      drop_hdr 11,
      parse_qos])))"

definition parse_rnrm_frame :: "byte \<Rightarrow> bool \<Rightarrow> byte \<Rightarrow> bool \<Rightarrow> unit dm" where
  "parse_rnrm_frame ca cmd pf type =
    bnd (rd_addr 2) (\<lambda>sa. bnd (rd_addr 6) (\<lambda>da.
      sprintfa ''snrm:%s ca=%02x pf=%d %08x %s %08x ''
        [cmd_rsp cmd, Ib ca, Ib pf, AI sa, arrow type, AI da]))"

section \<open>Dispatch\<close>

definition irlap_s_frame :: "byte \<Rightarrow> byte \<Rightarrow> bool \<Rightarrow> byte \<Rightarrow> bool \<Rightarrow> unit dm" where
  "irlap_s_frame ctrl ca cmd pf type =
    (if ctrl AND 0x0f = RR then parse_rr_frame ca cmd pf type
     else if ctrl AND 0x0f = RNR then parse_rnr_frame ca cmd pf type
     else if ctrl AND 0x0f = REJ then parse_rej_frame ca cmd pf type
     else if ctrl AND 0x0f = SREJ then parse_srej_frame ca cmd pf type
     else sprintfa (''Unknown S frame %02x received!'' @ [CHR 0x0A]) [Ib ctrl])"

definition irlap_u_frame :: "byte \<Rightarrow> byte \<Rightarrow> bool \<Rightarrow> byte \<Rightarrow> bool \<Rightarrow> unit dm" where
  "irlap_u_frame ctrl ca cmd pf type =
    (if ctrl = XID_RSP then parse_xid_frame cmd pf type
     else if ctrl = XID_CMD then parse_xid_frame cmd pf type
     else if ctrl = SNRM_CMD then
       (if cmd then parse_snrm_frame ca cmd pf type else parse_rnrm_frame ca cmd pf type)
     else if ctrl = DM_RSP then parse_dm_frame ca cmd pf type
     else if ctrl = DISC_CMD then
       (if cmd then parse_disc_frame ca cmd pf type else parse_rd_frame ca cmd pf type)
     else if ctrl = TEST_CMD then parse_test_frame ca cmd pf type
     else if ctrl = UA_RSP then parse_ua_frame ca cmd pf type
     else if ctrl = FRMR_RSP then parse_frmr_frame ca cmd pf type
     else if ctrl = UI_FRAME then parse_ui_frame ca cmd pf type
     else sprintfa (''Unknown frame %02x received!'' @ [CHR 0x0A]) [Ib ctrl])"

definition parse_irlap_frame :: "bool \<Rightarrow> unit dm" where
  "parse_irlap_frame type =
    bnd (rd 0) (\<lambda>b0. bnd (rd 1) (\<lambda>b1.
    let cmd = (b0 AND CMD_FRAME \<noteq> 0);
        ca = b0 AND CBROADCAST;
        pf = drop_bit 4 (b1 AND PF_BIT);
        ctrl = b1 AND NOT PF_BIT
    in if NOT ctrl AND 0x01 \<noteq> 0 then parse_i_frame ca cmd pf type
       else if NOT ctrl AND 0x02 \<noteq> 0 then irlap_s_frame ctrl ca cmd pf type
       else irlap_u_frame ctrl ca cmd pf type))"

text \<open>
  \<open>irlap_init\<close> clears the last query, and of the connection table the first entry: the
  length it gives \<open>memset\<close> is that of one entry.
\<close>

definition irlap_init :: "dump \<Rightarrow> dump" where
  "irlap_init s = s\<lparr>last_ias := empty_query, conn := (conn s)[0 := empty_lsap]\<rparr>"

section \<open>What the layer keeps\<close>

text \<open>
  \<open>intact s0 s\<close>: since \<open>s0\<close> the frame buffer is a well formed buffer of the same size, the
  options and the stack contents are as they were, and the connection table is well formed.
\<close>

definition intact :: "dump \<Rightarrow> dump \<Rightarrow> bool" where
  "intact s0 s \<longleftrightarrow>
     nb_ok (fb s) \<and> nb_truesize (fb s) = nb_truesize (fb s0) \<and> cfg s = cfg s0 \<and>
     stk s = stk s0 \<and> table_ok s"

lemma intact_kept: "intact s0 s \<Longrightarrow> kept s t \<Longrightarrow> intact s0 t"
  by (auto simp: intact_def kept_def window_def nb_ok_def)

lemma keeping_intact:
  assumes "\<And>s. keeping F (kept s) m"
  shows "keeping F (intact s0) m"
proof (rule keepingI)
  fix s
  assume s: "intact s0 s"
  then have "kept s s" by (simp add: intact_def kept_refl)
  then have "wp m (\<lambda>_. kept s) (stops F (kept s)) s" by (rule keepingD [OF assms])
  then show "wp m (\<lambda>_. intact s0) (stops F (intact s0)) s"
    by (rule wp_mono) (auto simp: stops_def intro: intact_kept [OF s])
qed

lemma keeping_kept_parsed:
  assumes "\<And>s. wp m (\<lambda>_. parsed s) (stops F (parsed s)) s"
  shows "keeping F (kept s0) m"
proof (rule keepingI)
  fix s
  assume s: "kept s0 s"
  show "wp m (\<lambda>_. kept s0) (stops F (kept s0)) s"
    by (rule wp_mono [OF assms]) (auto simp: stops_def intro: kept_parsed [OF s])
qed

lemma parse_irlap_params_keeping: "keeping table_fault (kept s0) (parse_irlap_params clen)"
  by (rule keeping_kept_parsed) (simp add: parse_irlap_params_parsed)

lemma parse_hints_keeping: "keeping mem_fault (kept s0) (parse_hints a b)"
  by (rule keeping_kept_parsed)
     (auto intro!: wp_mono [OF parse_hints_talked [OF talked_refl]] talked_parsed)

lemma modify_intact:
  "(\<And>s. intact s0 s \<Longrightarrow> intact s0 (f s)) \<Longrightarrow> keeping F (intact s0) (modify f)"
  by (rule keepingI) (simp add: wp_simps)

lemma rd_addr_keeping: "keeping mem_fault P (rd_addr i)"
  unfolding rd_addr_def by (intro keeping_intros)

lemma rd_cstring_keeping: "keeping mem_fault P (rd_cstring i)"
  by (rule keepingI) (simp add: wp_simps)

lemma wr_intact: "keeping mem_fault (intact s0) (wr i b)"
  by (rule keepingI) (auto simp: wp_simps intact_def nb_ok_def table_ok_def)

lemma garbage_intact: "keeping mem_fault (intact s0) (garbage_connection ca)"
  by (rule keepingI, rule wp_mono [OF garbage_connection_spec]) (auto simp: intact_def table_ok_def)

lemmas intact_leaves = keeping_leaves [THEN keeping_intact] parse_irlmp_keeping [THEN keeping_intact]
  parse_ui_irlmp_keeping [THEN keeping_intact] parse_hints_keeping [THEN keeping_intact]
  rd_addr_keeping rd_cstring_keeping wr_intact garbage_intact

lemma counters_intact:
  "intact s0 s \<Longrightarrow> intact s0 (s\<lparr>self_nr := k\<rparr>)" "intact s0 s \<Longrightarrow> intact s0 (s\<lparr>peer_nr := k\<rparr>)"
  "intact s0 s \<Longrightarrow> intact s0 (s\<lparr>self_ns := k\<rparr>)" "intact s0 s \<Longrightarrow> intact s0 (s\<lparr>peer_ns := k\<rparr>)"
  by (simp_all add: intact_def table_ok_def)

lemma check_acks_intact: "keeping mem_fault (intact s0) (check_acks type nr)"
  unfolding check_acks_def
  by (intro keeping_intros intact_leaves modify_intact counters_intact)

lemma track_i_frame_intact: "keeping mem_fault (intact s0) (track_i_frame type nr ns)"
  unfolding track_i_frame_def
  by (intro keeping_intros intact_leaves modify_intact counters_intact check_acks_intact)

lemma parse_i_frame_intact: "keeping mem_fault (intact s0) (parse_i_frame ca cmd pf type)"
  unfolding parse_i_frame_def Let_def by (intro keeping_intros intact_leaves track_i_frame_intact)

lemma parse_ui_frame_intact: "keeping mem_fault (intact s0) (parse_ui_frame ca cmd pf type)"
  unfolding parse_ui_frame_def by (intro keeping_intros intact_leaves)

lemma irlap_s_frame_intact: "keeping mem_fault (intact s0) (irlap_s_frame ctrl ca cmd pf type)"
  unfolding irlap_s_frame_def parse_rr_frame_def parse_rnr_frame_def parse_rej_frame_def
    parse_srej_frame_def Let_def
  by (intro keeping_intros intact_leaves check_acks_intact)

lemma parse_xid_frame_intact: "keeping mem_fault (intact s0) (parse_xid_frame cmd pf type)"
  unfolding parse_xid_frame_def xid_info_def print_xid_info_def
  by (auto intro!: keeping_intros intact_leaves split: option.split prod.split)

lemma parse_qos_intact: "keeping table_fault (intact s0) parse_qos"
  unfolding parse_qos_def
  by (intro keeping_bnd keeping_gets keeping_doif keeping_intact parse_irlap_params_keeping)

lemmas table_leaves = intact_leaves [THEN keeping_table]

lemma irlap_u_frame_intact: "keeping table_fault (intact s0) (irlap_u_frame ctrl ca cmd pf type)"
proof -
  have "keeping table_fault (intact s0) (parse_snrm_frame ca cmd pf type)"
    unfolding parse_snrm_frame_def
    by (intro keeping_bnd keeping_Cons keeping_Nil keeping_if table_leaves parse_qos_intact
          keeping_rd [THEN keeping_table])
  moreover have "keeping table_fault (intact s0) (parse_ua_frame ca cmd pf type)"
    unfolding parse_ua_frame_def
    by (intro keeping_bnd keeping_Cons keeping_Nil keeping_if table_leaves parse_qos_intact)
  moreover have "keeping mem_fault (intact s0) (parse_rnrm_frame ca cmd pf type)"
    "keeping mem_fault (intact s0) (parse_dm_frame ca cmd pf type)"
    "keeping mem_fault (intact s0) (parse_disc_frame ca cmd pf type)"
    "keeping mem_fault (intact s0) (parse_rd_frame ca cmd pf type)"
    "keeping mem_fault (intact s0) (parse_test_frame ca cmd pf type)"
    "keeping mem_fault (intact s0) (parse_frmr_frame ca cmd pf type)"
    unfolding parse_rnrm_frame_def parse_dm_frame_def parse_disc_frame_def parse_rd_frame_def
      parse_test_frame_def parse_frmr_frame_def
    by (auto intro!: keeping_intros intact_leaves)
  ultimately show ?thesis
    unfolding irlap_u_frame_def
    by (intro keeping_if table_leaves parse_xid_frame_intact [THEN keeping_table]
          parse_ui_frame_intact [THEN keeping_table])
       (auto intro: keeping_table)
qed

lemma parse_irlap_frame_intact: "keeping table_fault (intact s0) (parse_irlap_frame type)"
  unfolding parse_irlap_frame_def Let_def
  by (intro keeping_bnd keeping_if keeping_rd [THEN keeping_table] irlap_u_frame_intact
        parse_i_frame_intact [THEN keeping_table] irlap_s_frame_intact [THEN keeping_table])

section \<open>Properties\<close>

text \<open>The send counter of one side: of this host for a frame it sent, else of the peer.\<close>

definition sent_ns :: "bool \<Rightarrow> dump \<Rightarrow> int" where
  "sent_ns type s = (if type then self_ns s else peer_ns s)"

text \<open>
  C6. The number of lost frames that is reported when an acknowledgement comes in: with the
  sequence numbers in range, it is the difference modulo eight between the number the other side
  should be waiting for and the one it asks for, and nothing is said exactly when they agree.
\<close>

theorem lost_frames_reported:
  assumes "0 \<le> nr" "nr < 8" "0 \<le> sent_ns (\<not> type) s" "sent_ns (\<not> type) s < 8"
  shows "out (snd (check_acks type nr s)) =
    (let lost = (sent_ns (\<not> type) s + 1 - nr) mod 8
     in if lost = 0 then out s else out s @ [Sprintfa ''** %d frame(s) lost ** '' [Ii lost]])"
proof -
  have "nr = (ns + 1) mod 8 \<longleftrightarrow> (ns + 1 - nr) mod 8 = 0" if "0 \<le> ns" "ns < 8" for ns :: int
  proof -
    have "nr = (ns + 1) mod 8 \<longleftrightarrow> (ns + 1) mod 8 = nr mod 8" using assms(1,2) by auto
    then show ?thesis by (simp add: mod_eq_dvd_iff mod_eq_0_iff_dvd)
  qed
  moreover have "lost_count ns nr = (ns + 1 - nr) mod 8" if "0 \<le> ns" "ns < 8" "nr \<noteq> (ns + 1) mod 8" for ns :: int
  proof (cases "ns + 1 > nr")
    case True
    have "ns + 1 - nr \<noteq> 8"
    proof
      assume "ns + 1 - nr = 8"
      then have "ns = 7" "nr = 0" using that(1,2) assms(1,2) by linarith+
      with that(3) show False by simp
    qed
    with True that(1,2) assms(1,2) show ?thesis by (simp add: lost_count_def)
  next
    case False
    have "(ns + 1 - nr) mod 8 = (ns + 1 - nr + 8) mod 8" by (rule mod_add_self2 [symmetric])
    also have "ns + 1 - nr + 8 = ns + 9 - nr" by simp
    finally have "(ns + 1 - nr) mod 8 = (ns + 9 - nr) mod 8" .
    moreover have "ns + 1 \<noteq> nr" using that assms(2) by (auto simp: mod_pos_pos_trivial)
    ultimately show ?thesis
      using False that(1,2) assms(1,2) by (simp add: lost_count_def)
  qed
  moreover have "out (snd (check_acks type nr s)) = (if nr = (sent_ns (\<not> type) s + 1) mod 8 then out s
      else out s @ [Sprintfa ''** %d frame(s) lost ** '' [Ii (lost_count (sent_ns (\<not> type) s) nr)]])"
    by (cases type) (simp_all add: check_acks_def run_simps sent_ns_def)
  ultimately show ?thesis
    using assms(3,4) by (simp add: Let_def)
qed

theorem lost_frames_reported_witness:
  "out (snd (check_acks True 6 ((boot_dump [])\<lparr>peer_ns := 1\<rparr>))) = [Sprintfa ''** %d frame(s) lost ** '' [Ii 4]]"
  using lost_frames_reported [of 6 True "(boot_dump [])\<lparr>peer_ns := 1\<rparr>"]
  by (simp add: sent_ns_def Let_def boot_dump_def)

text \<open>
  A run of information frames from one side, numbered without gaps modulo eight and each
  acknowledging the last frame of the other side, is tracked without any report, and the counter
  ends at the number of the last frame.
\<close>

theorem in_sequence_run_is_silent:
  assumes "0 \<le> sent_ns type s" "sent_ns type s < 8"
  shows "\<exists>t. seqs (map (\<lambda>k. track_i_frame type ((sent_ns (\<not> type) s + 1) mod 8)
        ((sent_ns type s + 1 + int k) mod 8)) [0..<n]) s = (Inr (), t) \<and>
    out t = out s \<and> sent_ns type t = (sent_ns type s + int n) mod 8 \<and>
    sent_ns (\<not> type) t = sent_ns (\<not> type) s"
proof (induction n)
  case 0
  from assms show ?case by (simp add: run_simps)
next
  case (Suc n)
  then obtain t where t: "seqs (map (\<lambda>k. track_i_frame type ((sent_ns (\<not> type) s + 1) mod 8)
        ((sent_ns type s + 1 + int k) mod 8)) [0..<n]) s = (Inr (), t)"
    "out t = out s" "sent_ns type t = (sent_ns type s + int n) mod 8"
    "sent_ns (\<not> type) t = sent_ns (\<not> type) s" by blast
  let ?k = "(sent_ns type s + 1 + int n) mod 8"
  have "((sent_ns type s + int n) mod 8 + 1) mod 8 = ?k"
    by (simp add: mod_simps algebra_simps)
  then have "\<exists>u. track_i_frame type ((sent_ns (\<not> type) t + 1) mod 8) ?k t = (Inr (), u) \<and>
      out u = out t \<and> sent_ns type u = ?k \<and> sent_ns (\<not> type) u = sent_ns (\<not> type) t"
    using t(3) by (cases type) (simp_all add: track_i_frame_def check_acks_def sent_ns_def run_simps)
  then obtain u where "track_i_frame type ((sent_ns (\<not> type) s + 1) mod 8) ?k t = (Inr (), u)"
    "out u = out s" "sent_ns type u = ?k" "sent_ns (\<not> type) u = sent_ns (\<not> type) s"
    using t by auto
  with t(1) show ?case
    by (auto simp: seqs_append run_thn run_seqs_Cons run_seqs_Nil algebra_simps)
qed

theorem in_sequence_run_is_silent_witness:
  "\<exists>t. seqs (map (\<lambda>k. track_i_frame True ((peer_ns (boot_dump []) + 1) mod 8)
        ((self_ns (boot_dump []) + 1 + int k) mod 8)) [0..<9]) (boot_dump []) = (Inr (), t) \<and>
    out t = out (boot_dump []) \<and> self_ns t = 1"
  using in_sequence_run_is_silent [of True "boot_dump []" 9]
  by (auto simp: sent_ns_def boot_dump_def)

text \<open>
  Supervisory frames are always safe to decode: with two bytes of the block at hand no read
  leaves it, also for codes that are not defined, and buffer, connections and the remembered
  query stay as they are.
\<close>

theorem supervisory_frames_safe:
  assumes "room 2 s" and "cell s 1 AND 0x03 = 0x01"
  shows "wp (parse_irlap_frame type)
    (\<lambda>_ t. fb t = fb s \<and> conn t = conn s \<and> conn_cache t = conn_cache s \<and> last_ias t = last_ias s) never s"
proof -
  have "NOT (cell s 1 AND NOT PF_BIT) AND 0x01 = 0" "NOT (cell s 1 AND NOT PF_BIT) AND 0x02 \<noteq> 0"
    using assms(2) by (simp_all add: byte_eq_iff bit_simps)
  moreover have "room (Suc 0) s" "room (Suc 1) s" using assms(1) by (auto intro: room_le)
  ultimately show ?thesis
    by (simp add: parse_irlap_frame_def Let_def irlap_s_frame_def parse_rr_frame_def
        parse_rnr_frame_def parse_rej_frame_def parse_srej_frame_def check_acks_def wp_simps)
qed

theorem supervisory_frames_safe_witness:
  "let s = framed [0x05, 0x51] (boot_dump []) in wp (parse_irlap_frame True)
    (\<lambda>_ t. fb t = fb s \<and> conn t = conn s \<and> conn_cache t = conn_cache s \<and> last_ias t = last_ias s) never s"
  unfolding Let_def
  by (rule supervisory_frames_safe) (simp_all add: room_def framed_def cell_def)

text \<open>Unnumbered frames, by their control field without the poll bit.\<close>

lemma wp_irlap_u_frame:
  assumes "room 2 s" and "cell s 1 AND NOT PF_BIT = ctrl"
    and "NOT ctrl AND 0x01 = 0" and "NOT ctrl AND 0x02 = 0"
  shows "wp (parse_irlap_frame type) Q E s =
    wp (irlap_u_frame ctrl (cell s 0 AND CBROADCAST) (cell s 0 AND CMD_FRAME \<noteq> 0)
          (drop_bit 4 (cell s 1 AND PF_BIT)) type) Q E s"
proof -
  have "room (Suc 0) s" "room (Suc 1) s" using assms(1) by (auto intro: room_le)
  then show ?thesis
    by (simp only: parse_irlap_frame_def Let_def wp_bnd wp_rd assms(2-4) if_True simp_thms if_False)
qed

text \<open>
  C9. A DISC command ends the connections of its link: afterwards the live connections are those
  of the other links, and no byte but the address and the control field was read.
\<close>

theorem disc_command_ends_link:
  assumes "table_ok s" and "room 2 s" and "cell s 0 AND CMD_FRAME \<noteq> 0"
    and "cell s 1 AND NOT PF_BIT = DISC_CMD"
  shows "wp (parse_irlap_frame type)
    (\<lambda>_ t. table_ok t \<and> live t = filter_mset (\<lambda>e. caddr e \<noteq> cell s 0 AND CBROADCAST) (live s)) never s"
proof -
  have "wp (garbage_connection ca)
      (\<lambda>_ t. table_ok t \<and> live t = filter_mset (\<lambda>e. caddr e \<noteq> ca) (live s)) never (said c s)" for ca c
    using assms(1) by (intro wp_weaken [OF ct.close_link]) (simp_all add: live_def table_ok_def)
  then show ?thesis
    using assms(3)
    by (simp add: wp_irlap_u_frame [OF assms(2,4)] irlap_u_frame_def parse_disc_frame_def wp_simps)
qed

theorem disc_command_ends_link_witness:
  "let s = framed [0x05, 0x53] (boot_dump []) in wp (parse_irlap_frame True)
    (\<lambda>_ t. table_ok t \<and> live t = filter_mset (\<lambda>e. caddr e \<noteq> cell s 0 AND CBROADCAST) (live s)) never s"
  unfolding Let_def
  by (rule disc_command_ends_link)
     (simp_all add: room_def framed_def cell_def table_ok_def boot_dump_def MAX_CONNECTIONS_def)

text \<open>
  A discovery response that fills the frame buffer makes the decoder write behind it: the
  device name is terminated at the first byte after the frame. One byte less and the write is
  inside.
\<close>

theorem discovery_terminator_outside:
  assumes "room 17 s" and "cell s 0 AND CMD_FRAME = 0" and "cell s 1 AND NOT PF_BIT = XID_RSP"
    and "nb_data (fb s) + unat (nb_len (fb s)) = length (nb_mem (fb s))"
  shows "stops_with (parse_irlap_frame type) Oob_write s"
proof -
  have rooms: "room n s" if "n \<le> 17" for n using assms(1) that by (rule room_le)
  have "\<not> room (Suc (unat (nb_len (fb s)))) s" using assms(4) by (simp add: room_def)
  then show ?thesis
    using assms(2,3)
    by (simp add: stops_with_iff_wp wp_irlap_u_frame [OF rooms assms(3)] irlap_u_frame_def
        parse_xid_frame_def xid_info_def rd_addr_def wp_simps rooms)
qed

theorem discovery_terminator_outside_witness:
  "stops_with (parse_irlap_frame True) Oob_write (framed ([0xfe, 0xbf] @ replicate 20 0) (boot_dump []))"
  by (rule discovery_terminator_outside) (simp_all add: room_def framed_def cell_def)

end
