(* ===== verification/C_Library.thy ===== *)
theory C_Library
  imports Prelude
begin

text \<open>
  What several programs use of the C library and of the machine: the bytes of an integer in the
  byte order of the host, numbers in strings (\<open>atoi\<close>, \<open>strtoul\<close>, \<open>sscanf\<close>, \<open>sprintf\<close>).
\<close>

section \<open>Byte order\<close>

datatype endian = Little | Big

definition bytes16 :: "endian \<Rightarrow> u16 \<Rightarrow> byte list" where
  "bytes16 E w = (let hi = ucast (drop_bit 8 w); lo = ucast w in
     case E of Little \<Rightarrow> [lo, hi] | Big \<Rightarrow> [hi, lo])"

definition word16 :: "endian \<Rightarrow> byte list \<Rightarrow> u16" where
  "word16 E bs = (case E of Little \<Rightarrow> be16 (bs ! 1) (bs ! 0) | Big \<Rightarrow> be16 (bs ! 0) (bs ! 1))"

definition bytes32 :: "endian \<Rightarrow> u32 \<Rightarrow> byte list" where
  "bytes32 E w =
    (let b3 = ucast (drop_bit 24 w); b2 = ucast (drop_bit 16 w); b1 = ucast (drop_bit 8 w);
         b0 = ucast w
     in case E of Little \<Rightarrow> [b0, b1, b2, b3] | Big \<Rightarrow> [b3, b2, b1, b0])"

definition word32 :: "endian \<Rightarrow> byte list \<Rightarrow> u32" where
  "word32 E bs = (case E of Little \<Rightarrow> be32 (bs ! 3) (bs ! 2) (bs ! 1) (bs ! 0)
                          | Big \<Rightarrow> be32 (bs ! 0) (bs ! 1) (bs ! 2) (bs ! 3))"

definition htons :: "endian \<Rightarrow> u16 \<Rightarrow> u16" where
  "htons E w = word16 E (bytes16 Big w)"

lemma length_bytes16 [simp]: "length (bytes16 E w) = 2"
  by (cases E) (simp_all add: bytes16_def Let_def)

lemma length_bytes32 [simp]: "length (bytes32 E w) = 4"
  by (cases E) (simp_all add: bytes32_def Let_def)

lemma be16_split: "be16 (ucast (drop_bit 8 w)) (ucast w) = w"
  unfolding be16_def by (rule bit_word_eqI) (auto simp: bit_simps not_less)

lemma be32_split:
  "be32 (ucast (drop_bit 24 w)) (ucast (drop_bit 16 w)) (ucast (drop_bit 8 w)) (ucast w) = w"
proof (rule bit_word_eqI)
  fix n
  assume "n < LENGTH(32)"
  then consider "n < 8" | "8 \<le> n" "n < 16" | "16 \<le> n" "n < 24" | "24 \<le> n" "n < 32"
    by (simp, linarith)
  then show "bit (be32 (ucast (drop_bit 24 w)) (ucast (drop_bit 16 w)) (ucast (drop_bit 8 w))
      (ucast w)) n = bit w n"
    unfolding be32_def by cases (auto simp: bit_simps less_diff_conv2)
qed

lemma word16_bytes16 [simp]: "word16 E (bytes16 E w @ bs) = w"
  by (cases E) (simp_all add: word16_def bytes16_def Let_def be16_split)

lemma word16_bytes16_Nil [simp]: "word16 E (bytes16 E w) = w"
  using word16_bytes16 [of E w "[]"] by simp

lemma word32_bytes32 [simp]: "word32 E (bytes32 E w @ bs) = w"
  by (cases E) (simp_all add: word32_def bytes32_def Let_def be32_split)

lemma word32_bytes32_Nil [simp]: "word32 E (bytes32 E w) = w"
  using word32_bytes32 [of E w "[]"] by simp

section \<open>Decimal numbers\<close>

text \<open>
  \<open>atoi\<close>: white space, a sign, digits. A value outside \<open>int\<close> is undefined behaviour.
\<close>

definition is_space :: "byte \<Rightarrow> bool" where
  "is_space b \<longleftrightarrow> b = 32 \<or> (9 \<le> b \<and> b \<le> 13)"

definition digits_value :: "byte list \<Rightarrow> int" where
  "digits_value bs = foldl (\<lambda>n b. 10 * n + (uint b - 48)) 0 (takeWhile (\<lambda>b. 48 \<le> b \<and> b \<le> 57) bs)"

definition atoi :: "byte list \<Rightarrow> fault + int" where
  "atoi str =
    (let bs = dropWhile is_space (cstring str);
         n = (case bs of [] \<Rightarrow> 0
              | b # rest \<Rightarrow> if b = of_char CHR ''-'' then - digits_value rest
                            else if b = of_char CHR ''+'' then digits_value rest
                            else digits_value bs)
     in if -2147483648 \<le> n \<and> n \<le> 2147483647 then Inr n else Inl Impl_defined)"

text \<open>\<open>%u\<close> and \<open>%lu\<close> of \<open>sprintf\<close>.\<close>

definition digit :: "nat \<Rightarrow> byte" where
  "digit n = of_nat (48 + n)"

function dec :: "nat \<Rightarrow> byte list" where
  "dec n = (if n < 10 then [digit n] else dec (n div 10) @ [digit (n mod 10)])"
  by auto
termination by (relation "measure id") auto

declare dec.simps [simp del]

text \<open>\<open>%d\<close>\<close>

definition dec_int :: "int \<Rightarrow> byte list" where
  "dec_int k = (if k < 0 then of_char CHR ''-'' # dec (nat (- k)) else dec (nat k))"

text \<open>
  One \<open>%u\<close> or \<open>%d\<close> of \<open>sscanf\<close>: white space, a sign, digits. \<open>None\<close>: no digits. The value and what
  follows it; a value that the type cannot represent is undefined behaviour.
\<close>

definition is_digit :: "byte \<Rightarrow> bool" where
  "is_digit b \<longleftrightarrow> 48 \<le> b \<and> b \<le> 57"

definition scan_number :: "int \<Rightarrow> int \<Rightarrow> byte list \<Rightarrow> (fault + int \<times> byte list) option" where
  "scan_number lo hi str =
    (let bs = dropWhile is_space str;
         neg = (bs \<noteq> [] \<and> hd bs = of_char CHR ''-'');
         ds = (if bs \<noteq> [] \<and> hd bs \<in> {of_char CHR ''-'', of_char CHR ''+''} then tl bs else bs);
         v = (if neg then - digits_value ds else digits_value ds)
     in if takeWhile is_digit ds = [] then None
        else if v < lo \<or> hi < v then Some (Inl Impl_defined)
        else Some (Inr (v, dropWhile is_digit ds)))"

text \<open>\<open>n\<close> such conversions, until one fails.\<close>

fun scan_numbers :: "int \<Rightarrow> int \<Rightarrow> nat \<Rightarrow> byte list \<Rightarrow> fault + int list \<times> byte list" where
  "scan_numbers lo hi 0 str = Inr ([], str)"
| "scan_numbers lo hi (Suc n) str =
    (case scan_number lo hi str of
       None \<Rightarrow> Inr ([], str)
     | Some (Inl e) \<Rightarrow> Inl e
     | Some (Inr (v, rest)) \<Rightarrow>
         (case scan_numbers lo hi n rest of Inl e \<Rightarrow> Inl e | Inr (vs, r) \<Rightarrow> Inr (v # vs, r)))"

lemma uint_digit: "n < 10 \<Longrightarrow> uint (digit n) = 48 + int n"
  by (simp add: digit_def unsigned_of_nat take_bit_eq_mod del: of_nat_add)

lemma digit_is_digit [simp]: "n < 10 \<Longrightarrow> is_digit (digit n)"
  by (simp add: is_digit_def word_le_def uint_digit)

lemma is_digit_not_space [simp]: "is_digit b \<Longrightarrow> \<not> is_space b"
  by (auto simp: is_digit_def is_space_def word_le_def)

lemma is_digit_not_sign: "is_digit b \<Longrightarrow> b \<noteq> of_char CHR ''-'' \<and> b \<noteq> of_char CHR ''+''"
  by (auto simp: is_digit_def)

lemma dec_digits: "b \<in> set (dec n) \<Longrightarrow> is_digit b"
  by (induction n rule: dec.induct) (subst (asm) (2) dec.simps, auto split: if_splits)

lemma dec_not_empty [simp]: "dec n \<noteq> []"
  by (subst dec.simps) simp

lemma length_dec: "0 < k \<Longrightarrow> n < 10 ^ k \<Longrightarrow> length (dec n) \<le> k"
proof (induction k arbitrary: n)
  case (Suc k)
  show ?case
  proof (cases "n < 10")
    case True
    then show ?thesis by (simp add: dec.simps [of n])
  next
    case False
    then have "0 < k" using Suc.prems(2) by (cases k) auto
    moreover have "n div 10 < 10 ^ k" using Suc.prems(2) by (simp add: less_mult_imp_div_less mult.commute)
    ultimately show ?thesis using Suc.IH False by (simp add: dec.simps [of n])
  qed
qed simp

lemma foldl_digits_dec: "foldl (\<lambda>n b. 10 * n + (uint b - 48)) 0 (dec n) = int n"
proof (induction n rule: dec.induct)
  case (1 n)
  show ?case
  proof (cases "n < 10")
    case True
    then show ?thesis by (simp add: dec.simps [of n] uint_digit)
  next
    case False
    have "10 * int (n div 10) + int (n mod 10) = int (10 * (n div 10) + n mod 10)" by (simp only: of_nat_add of_nat_mult of_nat_numeral)
    then have "10 * int (n div 10) + int (n mod 10) = int n" by (simp only: mult_div_mod_eq)
    with 1 False show ?thesis by (simp add: dec.simps [of n] uint_digit)
  qed
qed

lemma digits_value_dec:
  assumes "bs = [] \<or> \<not> is_digit (hd bs)"
  shows "digits_value (dec n @ bs) = int n"
proof -
  have "takeWhile is_digit (dec n @ bs) = dec n"
    using assms dec_digits by (cases bs) (auto simp: takeWhile_append2)
  then show ?thesis by (simp add: digits_value_def foldl_digits_dec is_digit_def [abs_def])
qed

text \<open>What \<open>sprintf\<close> writes, \<open>sscanf\<close> reads back.\<close>

lemma scan_number_dec:
  assumes "bs = [] \<or> \<not> is_digit (hd bs)" and "lo \<le> int n" and "int n \<le> hi"
    and "\<And>b. b \<in> set sp \<Longrightarrow> is_space b"
  shows "scan_number lo hi (sp @ dec n @ bs) = Some (Inr (int n, bs))"
proof -
  obtain d ds where dec: "dec n = d # ds" by (cases "dec n") auto
  then have d: "is_digit d" using dec_digits [of d n] by simp
  have "dropWhile is_space (sp @ dec n @ bs) = dec n @ bs"
    using assms(4) d dec by (simp add: dropWhile_append2)
  moreover have "takeWhile is_digit (dec n @ bs) = dec n" "dropWhile is_digit (dec n @ bs) = bs"
    using assms(1) dec_digits by (cases bs; auto simp: takeWhile_append2 dropWhile_append2)+
  ultimately show ?thesis
    using assms(2,3) is_digit_not_sign [OF d] digits_value_dec [OF assms(1), of n] dec
    by (auto simp: scan_number_def Let_def)
qed

section \<open>Numbers with a prefix\<close>

text \<open>
  \<open>strtoul(str, &end, 0)\<close>: white space, a sign, the prefix that tells the base, digits. No digits give 0 and
  leave the string, too big a number gives the greatest.
\<close>

definition digit_in :: "int \<Rightarrow> byte \<Rightarrow> int option" where
  "digit_in base b =
    (let v = (if 48 \<le> b \<and> b \<le> 57 then uint b - 48 else if 97 \<le> b \<and> b \<le> 122 then uint b - 87
              else if 65 \<le> b \<and> b \<le> 90 then uint b - 55 else base)
     in if v < base then Some v else None)"

fun digits_in :: "int \<Rightarrow> int \<Rightarrow> byte list \<Rightarrow> int \<times> byte list" where
  "digits_in base n [] = (n, [])"
| "digits_in base n (b # bs) =
    (case digit_in base b of None \<Rightarrow> (n, b # bs) | Some v \<Rightarrow> digits_in base (base * n + v) bs)"

definition strtoul :: "byte list \<Rightarrow> u64 \<times> byte list" where
  "strtoul str =
    (let bs = dropWhile is_space (cstring str);
         neg = (bs \<noteq> [] \<and> hd bs = of_char CHR ''-'');
         ds = (if bs \<noteq> [] \<and> hd bs \<in> {of_char CHR ''-'', of_char CHR ''+''} then tl bs else bs);
         hex = (take 1 ds = bytes_of ''0'' \<and> take 1 (drop 1 ds) \<in> {bytes_of ''x'', bytes_of ''X''} \<and>
                drop 2 ds \<noteq> [] \<and> digit_in 16 (ds ! 2) \<noteq> None);
         base = (if hex then 16 else if take 1 ds = bytes_of ''0'' then 8 else 10);
         (n, rest) = digits_in base 0 (if hex then drop 2 ds else ds)
     in if ds = [] \<or> digit_in base (hd ds) = None then (0, cstring str)
        else if 2 ^ 64 \<le> n then (- 1, rest)
        else (if neg then - word_of_int n else word_of_int n, rest))"

section \<open>Lines\<close>

text \<open>\<open>fgets\<close> with room for \<open>n\<close> bytes and a terminator: what it stores, and what is left.\<close>

fun fgets :: "nat \<Rightarrow> byte list \<Rightarrow> byte list \<times> byte list" where
  "fgets (Suc n) (b # bs) = (if b = 10 then ([b], bs) else let (line, rest) = fgets n bs in (b # line, rest))"
| "fgets n bs = ([], bs)"

lemma fgets_splits: "fgets n bs = (l, r) \<Longrightarrow> bs = l @ r"
  by (induction n bs arbitrary: l r rule: fgets.induct) (auto split: if_splits prod.splits)

lemma fgets_shorter: "fgets (Suc n) bs = (l, r) \<Longrightarrow> bs \<noteq> [] \<Longrightarrow> length r < length bs"
  using fgets_splits [of "Suc n" bs l r] by (cases bs) (auto split: if_splits prod.splits)

lemma fgets_length: "length (fst (fgets n bs)) \<le> n"
  by (induction n bs rule: fgets.induct) (auto split: if_splits prod.splits)

end
