(* ===== verification/Capture.thy ===== *)
theory Capture
  imports Dump_State C_Library
begin

text \<open>
  The capture files of irdadump (\<open>irdadump/capture.c\<close>): libpcap files with a Linux cooked
  header in front of every frame. A file is the list of its bytes; a file opened for reading is
  the list of the bytes not read yet. The structures are written and read in the byte order of
  the host, which is a parameter, with two fields put in network order by the code.
\<close>

section \<open>The structures\<close>

abbreviation DLT_LINUX_IRDA :: u32 where "DLT_LINUX_IRDA \<equiv> 144"
abbreviation SLL_ADDRLEN :: nat where "SLL_ADDRLEN \<equiv> 8"
abbreviation LINUX_SLL_HOST :: u16 where "LINUX_SLL_HOST \<equiv> 0"
abbreviation LINUX_SLL_BROADCAST :: u16 where "LINUX_SLL_BROADCAST \<equiv> 1"
abbreviation LINUX_SLL_MULTICAST :: u16 where "LINUX_SLL_MULTICAST \<equiv> 2"
abbreviation LINUX_SLL_OTHERHOST :: u16 where "LINUX_SLL_OTHERHOST \<equiv> 3"
abbreviation LINUX_SLL_OUTGOING :: u16 where "LINUX_SLL_OUTGOING \<equiv> 4"

record sll_header =
  h_pkttype :: u16
  h_hatype :: u16
  h_halen :: u16
  h_addr :: "byte list"    \<comment> \<open>\<open>SLL_ADDRLEN\<close> bytes\<close>
  h_protocol :: u16

record pcaprec_hdr =
  ts_sec :: u32
  ts_usec :: u32
  incl_len :: u32
  orig_len :: u32

record pcap_hdr =
  magic :: u32
  version_major :: u16
  version_minor :: u16
  thiszone :: u32
  sigfigs :: u32
  snaplen :: u32
  network :: u32

definition sll_bytes :: "endian \<Rightarrow> sll_header \<Rightarrow> byte list" where
  "sll_bytes E h = bytes16 E (h_pkttype h) @ bytes16 E (h_hatype h) @ bytes16 E (h_halen h) @
     h_addr h @ bytes16 E (h_protocol h)"

definition sll_of_bytes :: "endian \<Rightarrow> byte list \<Rightarrow> sll_header" where
  "sll_of_bytes E bs =
     \<lparr>h_pkttype = word16 E bs, h_hatype = word16 E (drop 2 bs), h_halen = word16 E (drop 4 bs),
      h_addr = take 8 (drop 6 bs), h_protocol = word16 E (drop 14 bs)\<rparr>"

definition rec_bytes :: "endian \<Rightarrow> pcaprec_hdr \<Rightarrow> byte list" where
  "rec_bytes E h = bytes32 E (ts_sec h) @ bytes32 E (ts_usec h) @ bytes32 E (incl_len h) @
     bytes32 E (orig_len h)"

definition rec_of_bytes :: "endian \<Rightarrow> byte list \<Rightarrow> pcaprec_hdr" where
  "rec_of_bytes E bs =
     \<lparr>ts_sec = word32 E bs, ts_usec = word32 E (drop 4 bs), incl_len = word32 E (drop 8 bs),
      orig_len = word32 E (drop 12 bs)\<rparr>"

definition pcap_bytes :: "endian \<Rightarrow> pcap_hdr \<Rightarrow> byte list" where
  "pcap_bytes E h = bytes32 E (magic h) @ bytes16 E (version_major h) @ bytes16 E (version_minor h) @
     bytes32 E (thiszone h) @ bytes32 E (sigfigs h) @ bytes32 E (snaplen h) @ bytes32 E (network h)"

definition pcap_of_bytes :: "endian \<Rightarrow> byte list \<Rightarrow> pcap_hdr" where
  "pcap_of_bytes E bs =
     \<lparr>magic = word32 E bs, version_major = word16 E (drop 4 bs), version_minor = word16 E (drop 6 bs),
      thiszone = word32 E (drop 8 bs), sigfigs = word32 E (drop 12 bs), snaplen = word32 E (drop 16 bs),
      network = word32 E (drop 20 bs)\<rparr>"

definition fileHeader :: pcap_hdr where
  "fileHeader = \<lparr>magic = 0xa1b2c3d4, version_major = 2, version_minor = 0, thiszone = 0, sigfigs = 0,
     snaplen = 2050 + 16, network = DLT_LINUX_IRDA\<rparr>"

text \<open>What a packet socket tells about a frame (\<open>struct sockaddr_ll\<close>), and a time.\<close>

record sockaddr_ll =
  sll_protocol :: u16      \<comment> \<open>in network byte order\<close>
  sll_ifindex :: int
  sll_hatype :: u16
  sll_pkttype :: byte
  sll_halen :: byte
  sll_addr :: "byte list"  \<comment> \<open>8 bytes\<close>

record timeval =
  tv_sec :: int
  tv_usec :: int

section \<open>Writing\<close>

text \<open>
  \<open>write\<close> with the result \<open>r\<close> of the system call: an error when negative, else the number of
  bytes taken from the front of the buffer.
\<close>

definition sys_write :: "int \<Rightarrow> byte list \<Rightarrow> byte list \<Rightarrow> byte list" where
  "sys_write r file bs = (if r < 0 then file else file @ take (nat r) bs)"

definition capwrite_init :: "endian \<Rightarrow> int \<Rightarrow> byte list \<Rightarrow> int \<times> byte list" where
  "capwrite_init E r file =
     (if r < 0 then -1 else 0, sys_write r file (pcap_bytes E fileHeader))"

text \<open>\<open>junk\<close> is what the local header holds before it is filled in.\<close>

definition capwrite_fillsll :: "endian \<Rightarrow> byte list \<Rightarrow> sockaddr_ll \<Rightarrow> sll_header" where
  "capwrite_fillsll E junk from =
    (let n = min SLL_ADDRLEN (unat (sll_halen from)) in
     \<lparr>h_pkttype =
        (if sll_pkttype from = 0 then htons E LINUX_SLL_HOST
         else if sll_pkttype from = 1 then htons E LINUX_SLL_BROADCAST
         else if sll_pkttype from = 2 then htons E LINUX_SLL_MULTICAST
         else if sll_pkttype from = 3 then htons E LINUX_SLL_OTHERHOST
         else if sll_pkttype from = 4 then htons E LINUX_SLL_OUTGOING
         else -1),
      h_hatype = htons E (sll_hatype from),
      h_halen = htons E (ucast (sll_halen from)),
      h_addr = take n (sll_addr from) @ drop n (take SLL_ADDRLEN junk),
      h_protocol = sll_protocol from\<rparr>)"

text \<open>
  Three writes with results \<open>r1\<close>, \<open>r2\<close>, \<open>r3\<close>; an error of one of them ends the program. The
  last one reads \<open>len\<close> bytes from the start of the buffer's block.
\<close>

definition capwrite_dump ::
  "endian \<Rightarrow> byte list \<Rightarrow> int \<Rightarrow> int \<Rightarrow> int \<Rightarrow> byte list \<Rightarrow> netbuf \<Rightarrow> nat \<Rightarrow> sockaddr_ll \<Rightarrow> timeval \<Rightarrow>
     fault + byte list" where
  "capwrite_dump E junk r1 r2 r3 file buf len from time =
    (let rec_hdr = \<lparr>ts_sec = word_of_int (tv_sec time), ts_usec = word_of_int (tv_usec time),
                    incl_len = of_nat len + 16, orig_len = of_nat len + 16\<rparr>;
         psd_hdr = capwrite_fillsll E junk from
     in if r1 < 0 then Inl (Exit (-1))
        else if r2 < 0 then Inl (Exit (-1))
        else if length (nb_mem buf) < len then Inl Oob_read
        else if r3 < 0 then Inl (Exit (-1))
        else Inr (sys_write r3 (sys_write r2 (sys_write r1 file (rec_bytes E rec_hdr))
                    (sll_bytes E psd_hdr)) (take len (nb_mem buf))))"

section \<open>Reading\<close>

definition capread_check :: "endian \<Rightarrow> byte list \<Rightarrow> int \<times> byte list" where
  "capread_check E file =
    (if length file < 24 then (-1, [])
     else let h = pcap_of_bytes E file in
       (if magic h \<noteq> magic fileHeader \<or> version_major h \<noteq> version_major fileHeader \<or>
           version_minor h \<noteq> version_minor fileHeader \<or> network h \<noteq> network fileHeader
        then -1 else 0, drop 24 file))"

record capread =
  r_len :: int
  r_dir :: int
  r_prot :: int
  r_time :: timeval
  r_buf :: netbuf
  r_rest :: "byte list"

text \<open>
  \<open>read(fd, buf->head, n)\<close>: the bytes there are, at most \<open>n\<close>, go to the front of the block. A
  negative \<open>n\<close> becomes a size above \<open>SSIZE_MAX\<close>, for which \<open>read\<close> is implementation-defined.
\<close>

definition read_head :: "byte list \<Rightarrow> netbuf \<Rightarrow> int \<Rightarrow> fault + (int \<times> netbuf \<times> byte list)" where
  "read_head file buf n =
    (if n < 0 then Inl Impl_defined
     else let bs = take (nat n) file in
       case poke (nb_mem buf) 0 bs of
         Inl e \<Rightarrow> Inl e
       | Inr mem \<Rightarrow> Inr (int (length bs), buf\<lparr>nb_mem := mem\<rparr>, drop (nat n) file))"

text \<open>\<open>Inr None\<close> is the result \<open>-1\<close>.\<close>

definition capread_get :: "endian \<Rightarrow> byte list \<Rightarrow> netbuf \<Rightarrow> fault + capread option" where
  "capread_get E file buf =
    (if length file < 16 then Inr None
     else let rec_hdr = rec_of_bytes E file; file1 = drop 16 file;
              len = sint (orig_len rec_hdr - 16)
       in if length file1 < 16 then Inr None
          else let psd_hdr = sll_of_bytes E file1; file2 = drop 16 file1 in
            case read_head file2 buf len of
              Inl e \<Rightarrow> Inl e
            | Inr (n, buf1, rest) \<Rightarrow>
                if n \<noteq> len then Inr None
                else Inr (Some
                  \<lparr>r_len = len,
                   r_dir = (if h_pkttype psd_hdr \<noteq> LINUX_SLL_HOST then 1 else 0),
                   r_prot = uint (h_protocol psd_hdr),
                   r_time = \<lparr>tv_sec = uint (ts_sec rec_hdr), tv_usec = uint (ts_usec rec_hdr)\<rparr>,
                   r_buf = buf1, r_rest = rest\<rparr>))"

section \<open>Layout\<close>

lemma sll_roundtrip:
  "length (h_addr h) = 8 \<Longrightarrow> sll_of_bytes E (sll_bytes E h @ bs) = h"
  by (simp add: sll_of_bytes_def sll_bytes_def)

lemma rec_roundtrip: "rec_of_bytes E (rec_bytes E h @ bs) = h"
  by (simp add: rec_of_bytes_def rec_bytes_def)

lemma pcap_roundtrip: "pcap_of_bytes E (pcap_bytes E h @ bs) = h"
  by (simp add: pcap_of_bytes_def pcap_bytes_def)

lemma length_sll_bytes: "length (h_addr h) = 8 \<Longrightarrow> length (sll_bytes E h) = 16"
  by (simp add: sll_bytes_def)

lemma length_rec_bytes [simp]: "length (rec_bytes E h) = 16"
  by (simp add: rec_bytes_def)

lemma length_pcap_bytes [simp]: "length (pcap_bytes E h) = 24"
  by (simp add: pcap_bytes_def)

lemma htons_Big [simp]: "htons Big w = w"
  by (simp add: htons_def)

lemma htons_Little: "htons Little w = be16 (ucast w) (ucast (drop_bit 8 w))"
  by (simp add: htons_def word16_def bytes16_def Let_def)

section \<open>A record that is written is the record that is read\<close>

lemma fillsll_addr:
  "length (sll_addr from) = 8 \<Longrightarrow> 8 \<le> length junk \<Longrightarrow> length (h_addr (capwrite_fillsll E junk from)) = 8"
  by (auto simp: capwrite_fillsll_def Let_def min_def)

lemma htons_eq_0: "htons E w = 0 \<longleftrightarrow> w = 0"
proof -
  have "htons E (htons E w) = w" for w
  proof (cases E)
    case Little
    have "be16 (ucast (htons Little w)) (ucast (drop_bit 8 (htons Little w))) = w"
      unfolding htons_Little be16_def
      by (rule bit_word_eqI) (auto simp: bit_simps less_diff_conv2)
    then show ?thesis by (simp add: Little htons_Little [of "htons Little w"])
  qed simp
  moreover have "htons E 0 = 0"
    by (cases E) (simp_all add: htons_Little be16_def)
  ultimately show ?thesis by metis
qed

lemma fillsll_pkttype: "h_pkttype (capwrite_fillsll E junk from) = LINUX_SLL_HOST \<longleftrightarrow> sll_pkttype from = 0"
  by (simp add: capwrite_fillsll_def Let_def htons_eq_0)

text \<open>The record of a frame, and what \<open>capwrite_dump\<close> does when no write is cut short.\<close>

definition capture_record ::
  "endian \<Rightarrow> byte list \<Rightarrow> byte list \<Rightarrow> sockaddr_ll \<Rightarrow> timeval \<Rightarrow> byte list" where
  "capture_record E junk frame from time =
     rec_bytes E \<lparr>ts_sec = word_of_int (tv_sec time), ts_usec = word_of_int (tv_usec time),
       incl_len = of_nat (length frame) + 16, orig_len = of_nat (length frame) + 16\<rparr> @
     sll_bytes E (capwrite_fillsll E junk from) @ frame"

lemma capwrite_dump_record:
  assumes "len \<le> length (nb_mem buf)" and "length (sll_addr from) = 8" and "8 \<le> length junk"
  shows "capwrite_dump E junk 16 16 (int len) file buf len from time =
    Inr (file @ capture_record E junk (take len (nb_mem buf)) from time)"
  using assms length_sll_bytes [OF fillsll_addr [OF assms(2,3)], of E E]
  by (simp add: capwrite_dump_def Let_def sys_write_def capture_record_def min_absorb2)

lemma capread_get_record:
  assumes "length frame \<le> length (nb_mem buf)" and "length frame < 2 ^ 31"
    and "length (sll_addr from) = 8" and "8 \<le> length junk"
  shows "capread_get E (capture_record E junk frame from time @ rest) buf =
    Inr (Some \<lparr>r_len = int (length frame), r_dir = (if sll_pkttype from = 0 then 0 else 1),
      r_prot = uint (sll_protocol from),
      r_time = \<lparr>tv_sec = tv_sec time mod 2 ^ 32, tv_usec = tv_usec time mod 2 ^ 32\<rparr>,
      r_buf = buf\<lparr>nb_mem := frame @ drop (length frame) (nb_mem buf)\<rparr>, r_rest = rest\<rparr>)"
proof -
  have "sint (of_nat (length frame) :: u32) = int (length frame)"
    using assms(2) by (simp add: signed_of_nat signed_take_bit_int_eq_self)
  moreover note length_sll_bytes [OF fillsll_addr [OF assms(3,4)], of E E]
    sll_roundtrip [OF fillsll_addr [OF assms(3,4)], of E E]
  moreover have "uint (word_of_int k :: u32) = k mod 4294967296" for k
    by (simp add: unsigned_of_int take_bit_eq_mod)
  ultimately show ?thesis
    using assms(1) fillsll_pkttype [of E junk "from"]
    by (simp add: capread_get_def capture_record_def Let_def rec_roundtrip read_head_def poke_def)
      (simp add: capwrite_fillsll_def Let_def)
qed

lemma capread_check_header: "capread_check E (pcap_bytes E fileHeader @ file) = (0, file)"
  by (simp add: capread_check_def Let_def pcap_roundtrip)

section \<open>Properties\<close>

text \<open>
  C4. A captured frame is read back as it was: the bytes \<open>capwrite_dump\<close> appends for a frame,
  when no write is cut short, make \<open>capread_get\<close> return the length and bytes of the frame, its
  protocol field, whether it was sent or received, and the time stamp, and leave the file at the
  next record; times are kept modulo \<open>2 ^ 32\<close>.
\<close>

theorem capture_roundtrip:
  assumes "len \<le> length (nb_mem buf)" and "len < 2 ^ 31" and "len \<le> length (nb_mem buf2)"
    and "length (sll_addr from) = 8" and "8 \<le> length junk"
  shows "\<exists>rec. capwrite_dump E junk 16 16 (int len) file buf len from time = Inr (file @ rec) \<and>
    capread_get E (rec @ rest) buf2 = Inr (Some
      \<lparr>r_len = int len, r_dir = (if sll_pkttype from = 0 then 0 else 1),
       r_prot = uint (sll_protocol from),
       r_time = \<lparr>tv_sec = tv_sec time mod 2 ^ 32, tv_usec = tv_usec time mod 2 ^ 32\<rparr>,
       r_buf = buf2\<lparr>nb_mem := take len (nb_mem buf) @ drop len (nb_mem buf2)\<rparr>,
       r_rest = rest\<rparr>)"
  using capwrite_dump_record [OF assms(1,4,5), of E "file" time]
    capread_get_record [of "take len (nb_mem buf)" buf2 "from" junk E time rest] assms
  by (simp add: min_absorb2)

definition sample_from :: sockaddr_ll where
  "sample_from = \<lparr>sll_protocol = 0x17, sll_ifindex = 1, sll_hatype = 0, sll_pkttype = 4, sll_halen = 4,
     sll_addr = [1, 2, 3, 4, 0, 0, 0, 0]\<rparr>"

definition sample_buf :: netbuf where
  "sample_buf = \<lparr>nb_mem = [0xff, 0x3f, 1, 0], nb_data = 0, nb_tail = 3, nb_end = 4, nb_len = 3, nb_truesize = 4\<rparr>"

theorem capture_roundtrip_witness:
  "\<exists>rec. capwrite_dump Little (replicate 8 0) 16 16 3 [9] sample_buf 3 sample_from \<lparr>tv_sec = 5, tv_usec = 6\<rparr>
      = Inr ([9] @ rec) \<and>
    capread_get Little (rec @ [7]) sample_buf = Inr (Some
      \<lparr>r_len = 3, r_dir = 1, r_prot = 0x17, r_time = \<lparr>tv_sec = 5, tv_usec = 6\<rparr>, r_buf = sample_buf,
       r_rest = [7]\<rparr>)"
  using capture_roundtrip [of 3 sample_buf sample_buf sample_from "replicate 8 0" Little "[9]"
      "\<lparr>tv_sec = 5, tv_usec = 6\<rparr>" "[7]"]
  by (simp add: sample_buf_def sample_from_def)

text \<open>
  The header a capture file starts with is accepted, and of the fields of a header exactly
  the magic number, the two version numbers and the network type decide: any other 24 bytes
  with these fields are accepted, and any file with another value in one of them, or shorter
  than a header, is refused.
\<close>

theorem capture_header_check:
  "fst (capread_check E file) = 0 \<longleftrightarrow>
     24 \<le> length file \<and> magic (pcap_of_bytes E file) = 0xa1b2c3d4 \<and>
     version_major (pcap_of_bytes E file) = 2 \<and> version_minor (pcap_of_bytes E file) = 0 \<and>
     network (pcap_of_bytes E file) = DLT_LINUX_IRDA"
  by (simp add: capread_check_def Let_def fileHeader_def)

text \<open>
  A file written by \<open>capwrite_init\<close> on a host is accepted by \<open>capread_check\<close> on a host of
  the same byte order, and the frames follow; on a host of the other byte order it is refused.
\<close>

theorem capture_header_portability:
  "capread_check E' (snd (capwrite_init E 24 []) @ file) = (if E' = E then 0 else -1, file)"
proof -
  have other: "magic (pcap_of_bytes E' (pcap_bytes E fileHeader @ file)) \<noteq> magic fileHeader" if "E' \<noteq> E"
    using that by (cases E; cases E')
      (simp_all add: pcap_of_bytes_def pcap_bytes_def word32_def bytes32_def fileHeader_def Let_def be32_def)
  then show ?thesis
    by (auto simp: capwrite_init_def sys_write_def capread_check_def Let_def pcap_roundtrip)
qed

text \<open>
  The length field of a record is trusted: a record longer than the frame buffer, with the
  bytes for it in the file, makes \<open>capread_get\<close> write past the end of the buffer.
\<close>

theorem long_record_overruns_buffer:
  assumes "length (nb_mem buf) < length frame" and "length frame < 2 ^ 31"
    and "length (sll_addr from) = 8" and "8 \<le> length junk"
  shows "capread_get E (capture_record E junk frame from time @ rest) buf = Inl Oob_write"
proof -
  have "sint (of_nat (length frame) :: u32) = int (length frame)"
    using assms(2) by (simp add: signed_of_nat signed_take_bit_int_eq_self)
  then show ?thesis
    using assms(1) length_sll_bytes [OF fillsll_addr [OF assms(3,4)], of E E]
    by (simp add: capread_get_def capture_record_def Let_def rec_roundtrip read_head_def poke_def)
qed

theorem long_record_overruns_buffer_witness:
  "capread_get Little (capture_record Little (replicate 8 0) [1, 2, 3, 4, 5] sample_from
     \<lparr>tv_sec = 0, tv_usec = 0\<rparr> @ []) sample_buf = Inl Oob_write"
  by (rule long_record_overruns_buffer) (simp_all add: sample_buf_def sample_from_def)

end
