(* ===== verification/Irdadump.thy ===== *)
theory Irdadump
  imports Irlap Capture "HOL-Library.Signed_Division"
begin

text \<open>
  The program around the parsers (\<open>irdadump/irdadump.c\<close>, \<open>irdadump/main.c\<close>): time stamps, byte
  dumps, one iteration of the capture loop for a live socket or a capture file, the options, and
  the start and end of the program. What the operating system answers is an argument: the record
  \<open>os\<close> holds the answers to the calls of one iteration, \<open>environ\<close> those to the calls of
  the start.
\<close>

section \<open>The state of the program\<close>

text \<open>
  \<open>curr_time\<close> and \<open>prev_time\<close> are what the two pointers of that name point to. A capture file
  is \<open>None\<close> when its descriptor is negative; else it is the bytes written so far, or the bytes
  not read yet. \<open>no_buf\<close> says that \<open>frame_buf\<close> is a null pointer.
\<close>

record session =
  dmp :: dump
  no_buf :: bool
  curr_time :: timeval
  prev_time :: timeval
  ifindex :: int
  packets :: int
  cap_write :: "byte list option"
  cap_read :: "byte list option"
  screen :: "gcall list list"     \<comment> \<open>the lines \<open>puts\<close> has printed\<close>

type_synonym 'a im = "(session, 'a) cm"

definition in_dump :: "'a dm \<Rightarrow> 'a im" where
  "in_dump m = (\<lambda>s. case m (dmp s) of (r, d) \<Rightarrow> (r, s\<lparr>dmp := d\<rparr>))"

section \<open>Time stamps\<close>

definition print_time :: "timeval \<Rightarrow> unit dm" where
  "print_time timev =
    (let s0 = tv_sec timev smod 86400;
         s = (if s0 < 0 then s0 + 86400 else s0)
     in sprintfa ''%02d:%02d:%02d.%06u ''
          [Ii (s sdiv 3600), Ii ((s smod 3600) sdiv 60), Ii (s smod 60),
           AI (word_of_int (tv_usec timev))])"

text \<open>The two times are changed in place: the result is the new \<open>(*timev, *prev_timev)\<close>.\<close>

definition diff_times :: "timeval \<Rightarrow> timeval \<Rightarrow> timeval \<times> timeval" where
  "diff_times timev prev_timev =
    (let t = (if tv_usec prev_timev > tv_usec timev
              then \<lparr>tv_sec = tv_sec timev - 1, tv_usec = tv_usec timev + 1000000\<rparr> else timev)
     in (t, \<lparr>tv_sec = tv_sec t - tv_sec prev_timev, tv_usec = tv_usec t - tv_usec prev_timev\<rparr>))"

definition print_diff_time :: "unit im" where
  "print_diff_time =
    bnd (gets (\<lambda>s. diff_times (curr_time s) (prev_time s))) (\<lambda>(t, d).
    thn (modify (\<lambda>s. s\<lparr>curr_time := t, prev_time := d\<rparr>))
      (in_dump (sprintfa ''(%07.2f ms) '' [AMs (tv_sec d) (tv_usec d)])))"

section \<open>One frame\<close>

text \<open>\<open>frame_buf->head[i]\<close>.\<close>

definition rd_head :: "nat \<Rightarrow> byte dm" where
  "rd_head i = (\<lambda>s. if i < length (nb_mem (fb s)) then (Inr (nb_mem (fb s) ! i), s)
                    else (Inl Oob_read, s))"

definition dump_hex :: "string \<Rightarrow> nat \<Rightarrow> unit dm" where
  "dump_hex fmt i = bnd (rd_head i) (\<lambda>b. sprintfa fmt [Ib b])"

definition printable :: "byte \<Rightarrow> byte" where
  "printable c = (if sint c < 32 \<or> sint c > 126 then of_char CHR ''.'' else c)"

definition dump_char :: "nat \<Rightarrow> unit dm" where
  "dump_char i = bnd (rd_head i) (\<lambda>c. sprintfa '' %c'' [Ib (printable c)])"

definition dump_cell :: "int \<Rightarrow> nat \<Rightarrow> unit dm" where
  "dump_cell cols i = seqs [
     check Impl_defined (cols \<noteq> 0),
     doif (int i smod cols = 0) (append_str nl_tab),
     dump_hex ''%02x '' i]"

text \<open>The byte dumps of \<open>-x\<close> and \<open>-b\<close>, over the first \<open>n\<close> bytes.\<close>

definition dump_frame :: "nat \<Rightarrow> unit dm" where
  "dump_frame n = seqs [
     append_str nl_tab,
     seqs (map (dump_hex ''%02x'') [0..<n]),
     append_str nl_tab,
     seqs (map dump_char [0..<n])]"

definition dump_bytes :: "int \<Rightarrow> nat \<Rightarrow> unit dm" where
  "dump_bytes cols n = seqs (map (dump_cell cols) [0..<n])"

definition maxlen :: "config \<Rightarrow> int \<Rightarrow> nat" where
  "maxlen opts len = nat (if len < config_snaplen opts then len else config_snaplen opts)"

definition print_times :: "unit im" where
  "print_times =
    bnd (gets curr_time) (\<lambda>t. thn (in_dump (print_time t)) (
    bnd (gets (\<lambda>s. cfg (dmp s))) (\<lambda>opts.
    doif (config_print_diff opts)
      (thn print_diff_time
        (modify (\<lambda>s. s\<lparr>prev_time := curr_time s, curr_time := prev_time s\<rparr>))))))"

definition print_frame :: "int \<Rightarrow> int \<Rightarrow> unit dm" where
  "print_frame type len =
    bnd (gets cfg) (\<lambda>opts. seqs [
      doif (config_print_irlap opts) (parse_irlap_frame (type \<noteq> 0)),
      sprintfa ''(%d) '' [Ii len],
      doif (config_dump_frame opts) (dump_frame (maxlen opts len)),
      doif (config_dump_bytes opts) (dump_bytes (config_snapcols opts) (maxlen opts len))])"

definition parse_irda_frame :: "int \<Rightarrow> int \<Rightarrow> unit im" where
  "parse_irda_frame type len = thn print_times (in_dump (print_frame type len))"

section \<open>One iteration of the capture loop\<close>

abbreviation ETH_P_IRDA :: u16 where "ETH_P_IRDA \<equiv> 0x0017"

text \<open>
  The answers to the system calls of one iteration: \<open>recvfrom\<close> (nothing, or the frame and where
  it came from), the time stamp of the frame, the three writes to the capture file; and what is
  not determined: the bytes of uninitialised memory, the memory the allocator gives.
\<close>

record os =
  recv :: "(byte list \<times> sockaddr_ll) option"
  stamp :: "timeval option"
  writes :: "int \<times> int \<times> int"
  junk :: "byte list"
  heap :: allocator

definition exit_with :: "string \<Rightarrow> int \<Rightarrow> 'a im" where
  "exit_with message code = thn (in_dump (print_term message [])) (stop (Exit code))"

definition set_fb :: "netbuf \<Rightarrow> unit im" where
  "set_fb b = modify (\<lambda>s. s\<lparr>dmp := (dmp s)\<lparr>fb := b\<rparr>\<rparr>)"

text \<open>\<open>g_netbuf_put(frame_buf, len)\<close>, whose result the code does not look at.\<close>

definition put_len :: "allocator \<Rightarrow> int \<Rightarrow> unit im" where
  "put_len A len = bnd (gets (\<lambda>s. snd (g_netbuf_put A (fb (dmp s)) (word_of_int len)))) set_fb"

definition loop_file :: "endian \<Rightarrow> os \<Rightarrow> byte list \<Rightarrow> int im" where
  "loop_file E os file =
    bnd (gets (\<lambda>s. capread_get E file (fb (dmp s)))) (\<lambda>r. case r of
      Inl e \<Rightarrow> stop e
    | Inr None \<Rightarrow> exit_with ''read capture file'' (-1)
    | Inr (Some c) \<Rightarrow>
        thn (modify (\<lambda>s. s\<lparr>cap_read := Some (r_rest c), curr_time := r_time c\<rparr>)) (
        thn (set_fb (r_buf c))
          (if r_prot c \<noteq> uint ETH_P_IRDA then ret (-1)
           else if r_len c = 0 then ret (-1)
           else thn (put_len (heap os) (r_len c))
                  (thn (parse_irda_frame (r_dir c) (r_len c)) (ret 0)))))"

text \<open>\<open>recvfrom(fd, frame_buf->data, MAX_FRAME_SIZE, \<dots>)\<close> cuts a longer frame.\<close>

definition receive :: "byte list \<Rightarrow> int im" where
  "receive frame =
    (let bs = take MAX_FRAME_SIZE frame in
     bnd (gets (\<lambda>s. fb (dmp s))) (\<lambda>b. case poke (nb_mem b) (nb_data b) bs of
       Inl e \<Rightarrow> stop e
     | Inr mem \<Rightarrow> thn (set_fb (b\<lparr>nb_mem := mem\<rparr>)) (ret (int (length bs)))))"

definition save_frame :: "endian \<Rightarrow> os \<Rightarrow> int \<Rightarrow> sockaddr_ll \<Rightarrow> unit im" where
  "save_frame E os len from =
    bnd (gets (\<lambda>s. s)) (\<lambda>s. case cap_write s of
      None \<Rightarrow> ret ()
    | Some file \<Rightarrow>
        (case writes os of (r1, r2, r3) \<Rightarrow>
         case capwrite_dump E (junk os) r1 r2 r3 file (fb (dmp s)) (nat len) from (curr_time s) of
           Inl (Exit c) \<Rightarrow> exit_with ''write capture file'' c
         | Inl e \<Rightarrow> stop e
         | Inr file' \<Rightarrow> modify (\<lambda>s. s\<lparr>cap_write := Some file'\<rparr>)))"

definition loop_live :: "endian \<Rightarrow> os \<Rightarrow> int im" where
  "loop_live E os = (case recv os of
     None \<Rightarrow> exit_with ''recvfrom'' (-1)
   | Some (frame, from) \<Rightarrow>
       bnd (receive frame) (\<lambda>len.
       bnd (gets ifindex) (\<lambda>ifx.
         if sll_protocol from \<noteq> htons E ETH_P_IRDA then ret (-1)
         else if ifx \<noteq> 0 \<and> sll_ifindex from \<noteq> ifx then ret (-1)
         else if len = 0 then ret (-1)
         else thn (put_len (heap os) len) (case stamp os of
             None \<Rightarrow> exit_with ''ioctl'' (-1)
           | Some t \<Rightarrow>
               thn (modify (\<lambda>s. s\<lparr>curr_time := t\<rparr>)) (
               thn (parse_irda_frame (uint (sll_pkttype from)) len) (
               thn (save_frame E os len from) (ret 0)))))))"

definition irdadump_loop :: "endian \<Rightarrow> os \<Rightarrow> int im" where
  "irdadump_loop E os =
    bnd (gets no_buf) (\<lambda>null. thn (check Null_deref (\<not> null)) (
    thn (modify (\<lambda>s. s\<lparr>dmp := (dmp s)\<lparr>fb := g_netbuf_recycle (fb (dmp s))\<rparr>\<rparr>)) (
    bnd (gets cap_read) (\<lambda>r. case r of
      Some file \<Rightarrow> loop_file E os file
    | None \<Rightarrow> loop_live E os))))"

section \<open>The program\<close>

text \<open>One turn of the endless loop of \<open>main\<close>, and a number of turns.\<close>

definition main_step :: "endian \<Rightarrow> os \<Rightarrow> unit im" where
  "main_step E os =
    bnd (irdadump_loop E os) (\<lambda>r.
      if r = -1 then ret ()
      else modify (\<lambda>s. s\<lparr>packets := packets s + 1, screen := screen s @ [out (dmp s)],
                         dmp := (dmp s)\<lparr>out := []\<rparr>\<rparr>))"

fun main_loop :: "endian \<Rightarrow> os list \<Rightarrow> unit im" where
  "main_loop E [] = ret ()"
| "main_loop E (os # rest) = thn (main_step E os) (main_loop E rest)"

definition cleanup :: "unit im" where
  "cleanup =
    bnd (gets packets) (\<lambda>n. thn (in_dump (print_term (''%d packets received by filter'' @ [CHR 0x0A]) [Ii n]))
      (thn (modify (\<lambda>s. s\<lparr>cap_write := None, cap_read := None\<rparr>)) (stop (Exit 0))))"

subsection \<open>Options\<close>

text \<open>What the option loop of \<open>main\<close> sets, and the lines it prints.\<close>

record settings =
  opts :: config
  ifdev :: "byte list option"
  writefilename :: "byte list option"
  readfilename :: "byte list option"
  linebuf :: bool
  told_user :: "tcall list"

definition usage :: "byte list \<Rightarrow> tcall list" where
  "usage argv0 =
    Term (''Usage: %s [-d] [-x] [-b] [-s <n>] [-c <n>] [-p] [-i device] [-o log]'' @ [CHR 0x0A]) [AS argv0] #
    map (\<lambda>t. Term (CHR 0x09 # t @ [CHR 0x0A]) [])
      [''-d'' @ CHR 0x09 # ''Print diffs'',
       ''-l'' @ CHR 0x09 # ''Set line buffering on output file.'',
       ''-s <n>'' @ CHR 0x09 # ''Set snaplen for -x & -b'',
       ''-x'' @ CHR 0x09 # ''Dump frame (bytes + ascii)'',
       ''-b'' @ CHR 0x09 # ''Dump bytes in columns'',
       ''-c <n>'' @ CHR 0x09 # ''Set number of colums for -b'',
       ''-p <n>'' @ CHR 0x09 # ''Disable parsing/decoding'',
       ''-i device'' @ CHR 0x09 # ''IrDA port to listen on'',
       ''-w log'' @ CHR 0x09 # ''Writes out raw capture file'',
       ''-v'' @ CHR 0x09 # ''Print version number and exit'',
       ''-r log'' @ CHR 0x09 # ''Read from raw capture file'']"

text \<open>
  One result of \<open>getopt\<close>: the option character and \<open>optarg\<close>. The case of \<open>-s\<close> has no
  \<open>break\<close> and runs into that of \<open>-t\<close>.
\<close>

definition set_snapcols :: "int \<Rightarrow> config \<Rightarrow> config" where
  "set_snapcols c o' = (if c \<le> 0 then o'\<lparr>config_snapcols := 16\<rparr> else o'\<lparr>config_snapcols := c\<rparr>)"

definition set_snaplen :: "int \<Rightarrow> config \<Rightarrow> config" where
  "set_snaplen c o' =
    (let o1 = (if c \<le> 0 then o'\<lparr>config_snaplen := 2050\<rparr> else o'\<lparr>config_snaplen := c\<rparr>)
     in o1\<lparr>config_force_ttp := True\<rparr>)"

definition main_option :: "byte list \<Rightarrow> char \<times> byte list \<Rightarrow> (settings, unit) cm" where
  "main_option argv0 p = (case p of (c, optarg) \<Rightarrow>
    let set_opts = \<lambda>f. modify (\<lambda>s. s\<lparr>opts := f (opts s)\<rparr>);
        with_number = \<lambda>f. (case atoi optarg of Inl e \<Rightarrow> stop e | Inr n \<Rightarrow> set_opts (f n))
    in if c = CHR ''b'' then set_opts (\<lambda>o'. o'\<lparr>config_dump_bytes := True\<rparr>)
       else if c = CHR ''c'' then with_number set_snapcols
       else if c = CHR ''d'' then set_opts (\<lambda>o'. o'\<lparr>config_print_diff := True\<rparr>)
       else if c = CHR ''i'' then
         modify (\<lambda>s. s\<lparr>ifdev := Some optarg,
           told_user := told_user s @ [Term (''Using interface: %s'' @ [CHR 0x0A]) [AS optarg]]\<rparr>)
       else if c = CHR ''l'' then modify (\<lambda>s. s\<lparr>linebuf := True\<rparr>)
       else if c = CHR ''p'' then set_opts (\<lambda>o'. o'\<lparr>config_print_irlap := False\<rparr>)
       else if c = CHR ''r'' then modify (\<lambda>s. s\<lparr>readfilename := Some optarg\<rparr>)
       else if c = CHR ''s'' then with_number set_snaplen
       else if c = CHR ''t'' then set_opts (\<lambda>o'. o'\<lparr>config_force_ttp := True\<rparr>)
       else if c = CHR ''v'' then
         thn (modify (\<lambda>s. s\<lparr>told_user := told_user s @
                [Term (''Version: %s'' @ [CHR 0x0A]) [Sl ''0.9.17 (19.02.2006) Dag Brattli/Jean Tourrilhes'']]\<rparr>))
           (stop (Exit 0))
       else if c = CHR ''w'' then modify (\<lambda>s. s\<lparr>writefilename := Some optarg\<rparr>)
       else if c = CHR ''x'' then set_opts (\<lambda>o'. o'\<lparr>config_dump_frame := True\<rparr>)
       else if c = CHR ''?'' then
         thn (modify (\<lambda>s. s\<lparr>told_user := told_user s @ usage argv0\<rparr>)) (stop (Exit 1))
       else ret ())"

definition main_options :: "byte list \<Rightarrow> (char \<times> byte list) list \<Rightarrow> (settings, unit) cm" where
  "main_options argv0 args = seqs (map (main_option argv0) args)"

definition default_settings :: settings where
  "default_settings = \<lparr>opts = default_config, ifdev = None, writefilename = None,
     readfilename = None, linebuf = False, told_user = []\<rparr>"

subsection \<open>Start\<close>

text \<open>
  The answers to the system calls before the loop: the descriptor from opening a file for
  writing and the result of writing its header, the descriptor and contents of a file opened
  for reading, the time, the socket, the index of an interface, and the allocator.
\<close>

record environ =
  open_write :: "byte list \<Rightarrow> int"
  write_header :: int
  open_read :: "byte list \<Rightarrow> int \<times> byte list"
  now :: timeval
  socket_fd :: int
  if_index :: "byte list \<Rightarrow> int option"
  memory :: allocator

definition open_captures :: "endian \<Rightarrow> environ \<Rightarrow> settings \<Rightarrow> unit im" where
  "open_captures E env st = seqs [
     (case writefilename st of
        None \<Rightarrow> ret ()
      | Some name \<Rightarrow>
          (if open_write env name < 0
           then exit_with ''Opening capture file'' (open_write env name)
           else case capwrite_init E (write_header env) [] of (r, file) \<Rightarrow>
             thn (modify (\<lambda>s. s\<lparr>cap_write := Some file\<rparr>))
               (if r < 0 then stop (Exit (-1)) else ret ()))),
     (case readfilename st of
        None \<Rightarrow> ret ()
      | Some name \<Rightarrow>
          (case open_read env name of (f, file) \<Rightarrow>
             if f < 0 then exit_with ''Opening capture file'' f
             else case capread_check E file of (r, rest) \<Rightarrow>
               thn (modify (\<lambda>s. s\<lparr>cap_read := Some rest\<rparr>))
                 (if r < 0 then stop (Exit (-1)) else ret ())))]"

text \<open>\<open>strncpy\<close> into \<open>ifr_name\<close> keeps at most \<open>IFNAMSIZ\<close> bytes of the name.\<close>

abbreviation IFNAMSIZ :: nat where "IFNAMSIZ \<equiv> 16"

definition irdadump_init :: "environ \<Rightarrow> byte list option \<Rightarrow> int im" where
  "irdadump_init env dev =
    thn (modify (\<lambda>s. s\<lparr>dmp := irlap_init (dmp s), prev_time := now env\<rparr>))
      (if socket_fd env < 0 then ret (socket_fd env)
       else thn (case dev of
           None \<Rightarrow> ret ()
         | Some name \<Rightarrow>
             (case if_index env (take IFNAMSIZ (cstring name)) of
                None \<Rightarrow> exit_with ''ioctl'' (-1)
              | Some i \<Rightarrow> modify (\<lambda>s. s\<lparr>ifindex := i\<rparr>)))
         (thn (case g_netbuf_new (memory env) (of_nat MAX_FRAME_SIZE) of
             None \<Rightarrow> modify (\<lambda>s. s\<lparr>no_buf := True\<rparr>)
           | Some b \<Rightarrow> thn (modify (\<lambda>s. s\<lparr>no_buf := False\<rparr>)) (set_fb b))
         (ret (socket_fd env))))"

definition main_start :: "endian \<Rightarrow> environ \<Rightarrow> byte list \<Rightarrow> settings \<Rightarrow> unit im" where
  "main_start E env argv0 st = seqs [
     modify (\<lambda>s. s\<lparr>dmp := (dmp s)\<lparr>cfg := opts st, console := console (dmp s) @ told_user st\<rparr>\<rparr>),
     open_captures E env st,
     bnd (irdadump_init env (ifdev st)) (\<lambda>fd.
       if fd < 0 then thn (in_dump (print_term ''%s'' [AS argv0])) (stop (Exit fd)) else ret ())]"

definition boot :: "byte list \<Rightarrow> session" where
  "boot stack = \<lparr>dmp = boot_dump stack, no_buf = True, curr_time = \<lparr>tv_sec = 0, tv_usec = 0\<rparr>,
     prev_time = \<lparr>tv_sec = 0, tv_usec = 0\<rparr>, ifindex = 0, packets = 0, cap_write = None,
     cap_read = None, screen = []\<rparr>"

text \<open>
  The whole program on the options \<open>args\<close>, and then the answers of as many turns as there
  are: it has stopped, or it waits for the next frame.
\<close>

definition main_c ::
  "endian \<Rightarrow> environ \<Rightarrow> byte list \<Rightarrow> (char \<times> byte list) list \<Rightarrow> byte list \<Rightarrow> os list \<Rightarrow>
     (fault + unit) \<times> session" where
  "main_c E env argv0 args stack inputs =
    (case main_options argv0 args default_settings of
       (Inl e, st) \<Rightarrow> (Inl e, (boot stack)\<lparr>dmp := (boot_dump stack)\<lparr>console := told_user st\<rparr>\<rparr>)
     | (Inr (), st) \<Rightarrow> thn (main_start E env argv0 st) (main_loop E inputs) (boot stack))"

section \<open>Reasoning about the program state\<close>

lemma wp_in_dump [wp_simps]:
  "wp (in_dump m) Q E s = wp m (\<lambda>a d. Q a (s\<lparr>dmp := d\<rparr>)) (\<lambda>e d. E e (s\<lparr>dmp := d\<rparr>)) (dmp s)"
  by (auto simp: wp_def in_dump_def split: prod.split sum.split)

lemma wp_exit_with [wp_simps]:
  "wp (exit_with message code) Q E s =
    E (Exit code) (s\<lparr>dmp := told (Term message []) (dmp s)\<rparr>)"
  by (simp add: exit_with_def wp_simps)

lemma wp_set_fb [wp_simps]: "wp (set_fb b) Q E s = Q () (s\<lparr>dmp := (dmp s)\<lparr>fb := b\<rparr>\<rparr>)"
  by (simp add: set_fb_def wp_simps)

lemma wp_put_len [wp_simps]:
  "wp (put_len A len) Q E s =
    Q () (s\<lparr>dmp := (dmp s)\<lparr>fb := snd (g_netbuf_put A (fb (dmp s)) (word_of_int len))\<rparr>\<rparr>)"
  by (simp add: put_len_def wp_simps)

lemma wp_rd_head [wp_simps]:
  "wp (rd_head i) Q E s =
    (if i < length (nb_mem (fb s)) then Q (nb_mem (fb s) ! i) s else E Oob_read s)"
  by (simp add: wp_def rd_head_def)

lemma wp_receive:
  "wp (receive frame) Q E s =
    (let bs = take MAX_FRAME_SIZE frame; b = fb (dmp s) in
     if nb_data b + length bs \<le> length (nb_mem b)
     then Q (int (length bs)) (s\<lparr>dmp := (dmp s)\<lparr>fb := b\<lparr>nb_mem :=
       take (nb_data b) (nb_mem b) @ bs @ drop (nb_data b + length bs) (nb_mem b)\<rparr>\<rparr>\<rparr>)
     else E Oob_write s)"
  by (auto simp: receive_def Let_def poke_def wp_simps split: sum.split)

section \<open>Time\<close>

definition micros :: "timeval \<Rightarrow> int" where
  "micros t = 1000000 * tv_sec t + tv_usec t"

lemma sdiv_nonneg: "0 \<le> a \<Longrightarrow> 0 < b \<Longrightarrow> a sdiv b = a div (b :: int)"
  by (cases "a = 0") (simp_all add: signed_divide_int_def)

lemma clock_of_day:
  fixes sec :: int
  defines "s \<equiv> (if sec smod 86400 < 0 then sec smod 86400 + 86400 else sec smod 86400)"
  shows "s = sec mod 86400" "s sdiv 3600 = (sec mod 86400) div 3600"
    "(s smod 3600) sdiv 60 = (sec mod 3600) div 60" "s smod 60 = sec mod 60"
proof -
  show s: "s = sec mod 86400"
  proof (cases "sec \<ge> 0")
    case True
    then show ?thesis by (simp add: s_def smod_mod_positive not_less)
  next
    case False
    have "(- sec) mod 86400 = (if sec mod 86400 = 0 then 0 else 86400 - sec mod 86400)"
      by (simp add: zmod_zminus1_eq_if)
    with False show ?thesis by (simp add: s_def smod_int_alt_def)
  qed
  have nonneg: "0 \<le> s" by (simp add: s)
  have "s mod 3600 = sec mod 3600" "s mod 60 = sec mod 60"
    by (simp_all add: s mod_mod_cancel)
  with nonneg show "s sdiv 3600 = (sec mod 86400) div 3600"
    "(s smod 3600) sdiv 60 = (sec mod 3600) div 60" "s smod 60 = sec mod 60"
    by (simp_all add: smod_mod_positive sdiv_nonneg s)
qed

lemma diff_times_micros:
  "diff_times t p = (t', d) \<Longrightarrow> micros t' = micros t \<and> micros d = micros t - micros p"
  by (auto simp: diff_times_def Let_def micros_def split: if_splits)

section \<open>Byte dumps only talk\<close>

lemma wp_talk_list:
  assumes "talked s t" and "\<And>x t. x \<in> set xs \<Longrightarrow> talked s t \<Longrightarrow> wp (f x) (\<lambda>_. talked s) never t"
  shows "wp (seqs (map f xs)) (\<lambda>_. talked s) never t"
  using assms
proof (induction xs arbitrary: t)
  case Nil
  then show ?case by (simp add: wp_simps)
next
  case (Cons x xs)
  have "wp (f x) (\<lambda>_. talked s) never t" using Cons.prems by simp
  then have "wp (f x) (\<lambda>_. wp (seqs (map f xs)) (\<lambda>_. talked s) never) never t"
    by (rule wp_weaken) (rule Cons.IH, assumption, rule Cons.prems(2), simp_all)
  then show ?case by (simp add: wp_simps)
qed

lemma dump_frame_talks:
  assumes "n \<le> length (nb_mem (fb s))" and "talked s t"
  shows "wp (dump_frame n) (\<lambda>_. talked s) never t"
proof -
  have hex: "wp (seqs (map (dump_hex ''%02x'') [0..<n])) (\<lambda>_. talked s) never u"
    if "talked s u" for u
    using that assms(1)
    by (rule_tac wp_talk_list) (auto simp: dump_hex_def wp_simps talked_sel intro: talked_intros)
  have chars: "wp (seqs (map dump_char [0..<n])) (\<lambda>_. talked s) never u" if "talked s u" for u
    using that assms(1)
    by (rule_tac wp_talk_list) (auto simp: dump_char_def wp_simps talked_sel intro: talked_intros)
  show ?thesis
    unfolding dump_frame_def
    by (simp only: wp_seqs_Cons wp_seqs_Nil wp_append_str)
       (auto simp: wp_append_str intro!: wp_weaken [OF hex] chars talked_intros assms(2))
qed

lemma dump_bytes_talks:
  assumes "n \<le> length (nb_mem (fb s))" and "cols \<noteq> 0" and "talked s t"
  shows "wp (dump_bytes cols n) (\<lambda>_. talked s) never t"
  unfolding dump_bytes_def
  using assms
  by (intro wp_talk_list)
     (auto simp: dump_cell_def dump_hex_def wp_simps talked_sel intro: talked_intros)

section \<open>The invariant of the program\<close>

definition sound :: "session \<Rightarrow> bool" where
  "sound s \<longleftrightarrow>
     \<not> no_buf s \<and> nb_ok (fb (dmp s)) \<and> unat (nb_truesize (fb (dmp s))) = MAX_FRAME_SIZE \<and>
     table_ok (dmp s) \<and> 0 < config_snapcols (cfg (dmp s))"

lemma talked_intact: "intact s0 s \<Longrightarrow> talked s t \<Longrightarrow> intact s0 t"
  by (auto simp: intact_def talked_def same_tables_def table_ok_def)

lemma maxlen_le: "nat len \<le> n \<Longrightarrow> maxlen o' len \<le> n"
  by (auto simp: maxlen_def)

lemma wp_faulting: "wp m Q E s \<Longrightarrow> wp m Q (\<lambda>e t. E e t \<and> m s = (Inl e, t)) s"
  by (auto simp: wp_def split: prod.splits sum.splits)

lemma print_frame_intact:
  assumes "intact s0 s" and "nat len \<le> length (nb_mem (fb s))" and "config_snapcols (cfg s) \<noteq> 0"
  shows "wp (print_frame type len) (\<lambda>_. intact s0)
    (\<lambda>e t. stops table_fault (intact s0) e t \<and> (\<exists>d. parse_irlap_frame d s = (Inl e, t))) s"
proof -
  let ?E = "\<lambda>e t. stops table_fault (intact s0) e t \<and> (\<exists>d. parse_irlap_frame d s = (Inl e, t))"
  have size: "length (nb_mem (fb t)) = length (nb_mem (fb s))" if "intact s0 t" for t
    using assms(1) that by (simp add: intact_def nb_ok_def)
  have decode: "wp (doif b (parse_irlap_frame d)) (\<lambda>_. intact s0) ?E s" for b d
    using wp_faulting [OF keepingD [OF parse_irlap_frame_intact assms(1), of d]] assms(1)
    by (auto simp: wp_doif elim!: wp_mono)
  have dump1: "wp (doif b (dump_frame (maxlen (cfg s) len))) (\<lambda>_. intact s0) F t"
    if "intact s0 t" for b t F
    using that size [OF that] assms(2)
    by (auto simp: wp_doif intro!: wp_mono [OF dump_frame_talks [of _ t t]] maxlen_le
        intro: talked_intact)
  have dump2: "wp (doif b (dump_bytes (config_snapcols (cfg s)) (maxlen (cfg s) len))) (\<lambda>_. intact s0) F t"
    if "intact s0 t" for b t F
    using that size [OF that] assms(2,3)
    by (auto simp: wp_doif intro!: wp_mono [OF dump_bytes_talks [of _ t _ t]] maxlen_le
        intro: talked_intact)
  have said: "intact s0 (said c t)" if "intact s0 t" for c t
    by (rule talked_intact [OF that]) (simp add: talked_said)
  show ?thesis
    unfolding print_frame_def
    by (simp only: wp_bnd wp_gets wp_seqs_Cons wp_seqs_Nil wp_sprintfa)
       (auto simp: wp_sprintfa intro!: wp_weaken [OF decode] wp_weaken [OF dump1] dump2 said)
qed

section \<open>One turn keeps the invariant\<close>

definition same_files :: "session \<Rightarrow> session \<Rightarrow> bool" where
  "same_files s t \<longleftrightarrow> no_buf t = no_buf s \<and> ifindex t = ifindex s \<and> packets t = packets s \<and>
     cap_write t = cap_write s \<and> cap_read t = cap_read s \<and> screen t = screen s"

lemma same_files_refl [simp]: "same_files s s"
  by (simp add: same_files_def)

definition times_after :: "session \<Rightarrow> timeval \<times> timeval" where
  "times_after s =
    (if config_print_diff (cfg (dmp s))
     then (snd (diff_times (curr_time s) (prev_time s)), fst (diff_times (curr_time s) (prev_time s)))
     else (curr_time s, prev_time s))"

lemma print_times_spec:
  "wp print_times (\<lambda>_ t. talked (dmp s) (dmp t) \<and> same_files s t \<and>
     (curr_time t, prev_time t) = times_after s) F s"
  by (auto simp: print_times_def print_time_def print_diff_time_def Let_def wp_simps times_after_def
      same_files_def talked_sel split: prod.split intro!: talked_intros)

lemma sound_intact: "sound s \<Longrightarrow> intact (dmp s) (dmp t) \<Longrightarrow> no_buf t = no_buf s \<Longrightarrow> sound t"
  by (simp add: sound_def intact_def)

lemma sound_intact_refl: "sound s \<Longrightarrow> intact (dmp s) (dmp s)"
  by (simp add: sound_def intact_def)

lemma sound_size: "sound s \<Longrightarrow> length (nb_mem (fb (dmp s))) = MAX_FRAME_SIZE"
  by (simp add: sound_def nb_ok_def)

text \<open>
  The program has stopped in the decoder, with an access outside the frame or a table: a run of \<open>parse_irlap_frame\<close> from a state
  whose frame buffer and connection table are in order ended there.
\<close>

definition decoder_stopped :: "fault \<Rightarrow> session \<Rightarrow> bool" where
  "decoder_stopped e t \<longleftrightarrow> table_fault e \<and> (\<exists>u d. nb_ok (fb u) \<and> unat (nb_truesize (fb u)) = MAX_FRAME_SIZE \<and>
     table_ok u \<and> parse_irlap_frame d u = (Inl e, dmp t))"

lemma soundD: "sound t \<Longrightarrow> nb_ok (fb (dmp t)) \<and> unat (nb_truesize (fb (dmp t))) = MAX_FRAME_SIZE \<and> table_ok (dmp t)"
  by (simp add: sound_def)

lemma parse_irda_frame_sound:
  assumes "sound s" and "len \<le> int MAX_FRAME_SIZE"
  shows "wp (parse_irda_frame type len)
    (\<lambda>_ t. sound t \<and> same_files s t \<and> (curr_time t, prev_time t) = times_after s)
    decoder_stopped s"
proof -
  have body: "wp (in_dump (print_frame type len))
      (\<lambda>_ u. sound u \<and> same_files s u \<and> (curr_time u, prev_time u) = times_after s)
      decoder_stopped t"
    if t: "talked (dmp s) (dmp t)" "same_files s t" "(curr_time t, prev_time t) = times_after s" for t
  proof -
    have "sound t"
      using assms(1) t(1,2) by (auto simp: sound_def same_files_def talked_sel table_ok_def)
    moreover from this have "wp (print_frame type len) (\<lambda>_. intact (dmp t))
        (\<lambda>e v. stops table_fault (intact (dmp t)) e v \<and> (\<exists>d. parse_irlap_frame d (dmp t) = (Inl e, v))) (dmp t)"
      using assms(2) sound_size [of t]
      by (intro print_frame_intact sound_intact_refl) (auto simp: sound_def)
    ultimately show ?thesis
      using t(2,3) sound_intact [OF \<open>sound t\<close>] soundD [OF \<open>sound t\<close>] unfolding wp_in_dump
      by (auto elim!: wp_mono simp: stops_def same_files_def decoder_stopped_def)
  qed
  show ?thesis
    unfolding parse_irda_frame_def wp_thn
    by (rule wp_mono [OF print_times_spec [of s never]]) (auto intro: body)
qed

lemma put_recycled:
  assumes "nb_ok b" and "nb_tail b = 0" and "nb_len b = 0" and "0 \<le> len"
    and "nat len \<le> unat (nb_truesize b)"
  shows "snd (g_netbuf_put A b (word_of_int len)) = b\<lparr>nb_tail := nat len, nb_len := word_of_int len\<rparr>"
proof -
  have "len < 4294967296"
    using assms(4,5) unat_u32_less [of "nb_truesize b"] by linarith
  then have "unat (word_of_int len :: u32) = nat len"
    using assms(4) by (simp add: unsigned_of_int take_bit_int_eq_self)
  with assms show ?thesis
    by (simp add: g_netbuf_put_def Let_def nb_ok_def)
qed

lemma put_sound:
  assumes "sound s" and "nb_tail (fb (dmp s)) = 0" and "nb_len (fb (dmp s)) = 0"
    and "0 \<le> len" and "len \<le> int MAX_FRAME_SIZE"
  shows "sound (s\<lparr>dmp := (dmp s)\<lparr>fb := snd (g_netbuf_put A (fb (dmp s)) (word_of_int len))\<rparr>\<rparr>)"
proof -
  have "unat (word_of_int len :: u32) = nat len"
    using assms(4,5) by (simp add: unsigned_of_int take_bit_int_eq_self MAX_FRAME_SIZE_def)
  moreover have "snd (g_netbuf_put A (fb (dmp s)) (word_of_int len))
      = (fb (dmp s))\<lparr>nb_tail := nat len, nb_len := word_of_int len\<rparr>"
    using assms by (intro put_recycled) (auto simp: sound_def)
  ultimately show ?thesis
    using assms by (auto simp: sound_def nb_ok_def table_ok_def)
qed

lemma recycle_sound:
  "sound s \<Longrightarrow> sound (s\<lparr>dmp := (dmp s)\<lparr>fb := g_netbuf_recycle (fb (dmp s))\<rparr>\<rparr>)"
  by (auto simp: sound_def g_netbuf_recycle_def nb_ok_def table_ok_def)

text \<open>What may end the program in the loop, when a capture file is read and when not.\<close>

definition loop_fault :: "bool \<Rightarrow> fault \<Rightarrow> session \<Rightarrow> bool" where
  "loop_fault file e t \<longleftrightarrow> decoder_stopped e t \<or> e = Exit (-1) \<or> (file \<and> (e = Impl_defined \<or> e = Oob_write))"

lemma loop_fault_simps [simp]: "loop_fault file (Exit (-1)) t" "decoder_stopped e t \<Longrightarrow> loop_fault file e t"
  "loop_fault True Impl_defined t" "loop_fault True Oob_write t"
  by (simp_all add: loop_fault_def)

lemma capwrite_dump_faults:
  "capwrite_dump E j r1 r2 r3 file buf len from time = Inl e \<Longrightarrow> len \<le> length (nb_mem buf) \<Longrightarrow> e = Exit (-1)"
  by (auto simp: capwrite_dump_def Let_def split: if_splits)

lemma save_frame_spec:
  assumes "nat len \<le> length (nb_mem (fb (dmp s)))" and "writes os = (r1, r2, r3)"
  shows "wp (save_frame E os len from)
    (\<lambda>_ t. \<exists>w. t = s\<lparr>cap_write := w\<rparr> \<and>
       (\<forall>file. cap_write s = Some file \<longrightarrow> (\<exists>file'. w = Some file' \<and>
          capwrite_dump E (junk os) r1 r2 r3 file (fb (dmp s)) (nat len) from (curr_time s) = Inr file')))
    (\<lambda>e _. e = Exit (-1)) s"
proof (cases "cap_write s")
  case None
  then show ?thesis by (simp add: save_frame_def wp_simps) (metis session.surjective session.update_convs(7))
next
  case (Some f)
  show ?thesis
  proof (cases "capwrite_dump E (junk os) r1 r2 r3 f (fb (dmp s)) (nat len) from (curr_time s)")
    case (Inl e)
    then have "e = Exit (-1)" using capwrite_dump_faults assms(1) by blast
    with Inl Some assms(2) show ?thesis by (simp add: save_frame_def wp_simps)
  next
    case (Inr f')
    with Some assms(2) show ?thesis by (auto simp: save_frame_def wp_simps)
  qed
qed

lemma cap_write_sound: "sound s \<Longrightarrow> sound (s\<lparr>cap_write := w\<rparr>)"
  and curr_time_sound: "sound s \<Longrightarrow> sound (s\<lparr>curr_time := t\<rparr>)"
  by (simp_all add: sound_def)

lemma received_sound:
  assumes "sound s" and "length bs + nb_data (fb (dmp s)) \<le> MAX_FRAME_SIZE"
  shows "sound (s\<lparr>dmp := (dmp s)\<lparr>fb := (fb (dmp s))\<lparr>nb_mem := take (nb_data (fb (dmp s))) (nb_mem (fb (dmp s))) @
     bs @ drop (nb_data (fb (dmp s)) + length bs) (nb_mem (fb (dmp s)))\<rparr>\<rparr>\<rparr>)"
  using assms by (auto simp: sound_def nb_ok_def table_ok_def)

definition empty_buf :: "session \<Rightarrow> bool" where
  "empty_buf s \<longleftrightarrow> nb_data (fb (dmp s)) = 0 \<and> nb_tail (fb (dmp s)) = 0 \<and> nb_len (fb (dmp s)) = 0"

lemma decode_saved_sound:
  assumes "sound s" and "len \<le> int MAX_FRAME_SIZE"
  shows "wp (thn (parse_irda_frame type len) (thn (save_frame E os len from) (ret r)))
    (\<lambda>_. sound) (loop_fault b) s"
  unfolding wp_thn wp_ret
proof (rule wp_mono [OF parse_irda_frame_sound [OF assms]])
  fix t
  assume t: "sound t \<and> same_files s t \<and> (curr_time t, prev_time t) = times_after s"
  obtain r1 r2 r3 where "writes os = (r1, r2, r3)" by (cases "writes os") auto
  with t assms(2) sound_size [of t]
  show "wp (save_frame E os len from) (\<lambda>_. sound) (loop_fault b) t"
    by (intro wp_mono [OF save_frame_spec]) (auto intro: cap_write_sound)
qed simp

text \<open>
  A frame from the socket: it is dropped, or decoded and saved in a state that differs from the
  first one by the frame in the buffer and its time stamp.
\<close>

lemma loop_live_frame:
  assumes s: "sound s" and empty: "empty_buf s" and p: "recv os = Some (frame, from)"
    and dropped: "\<And>t. sound t \<Longrightarrow> Q (-1) t" and failed: "\<And>t. F (Exit (-1)) t"
    and body: "\<And>v t. stamp os = Some t \<Longrightarrow> sound v \<Longrightarrow> curr_time v = t \<Longrightarrow> prev_time v = prev_time s \<Longrightarrow>
      cap_write v = cap_write s \<Longrightarrow> cfg (dmp v) = cfg (dmp s) \<Longrightarrow>
      wp (thn (parse_irda_frame (uint (sll_pkttype from)) (int (length (take MAX_FRAME_SIZE frame))))
        (thn (save_frame E os (int (length (take MAX_FRAME_SIZE frame))) from) (ret 0))) Q F v"
  shows "wp (loop_live E os) Q F s"
proof -
  define bs where "bs = take MAX_FRAME_SIZE frame"
  define s1 where "s1 = s\<lparr>dmp := (dmp s)\<lparr>fb := (fb (dmp s))\<lparr>nb_mem :=
    take (nb_data (fb (dmp s))) (nb_mem (fb (dmp s))) @ bs @
      drop (nb_data (fb (dmp s)) + length bs) (nb_mem (fb (dmp s)))\<rparr>\<rparr>\<rparr>"
  define s2 where "s2 = s1\<lparr>dmp := (dmp s1)\<lparr>fb := snd (g_netbuf_put (heap os) (fb (dmp s1))
    (of_nat (length bs)))\<rparr>\<rparr>"
  have len: "length bs \<le> MAX_FRAME_SIZE" by (simp add: bs_def)
  then have s1: "sound s1"
    unfolding s1_def using s empty by (intro received_sound) (auto simp: empty_buf_def)
  have s2: "sound s2"
    unfolding s2_def using s1 empty len put_sound [of s1 "int (length bs)" "heap os"]
    by (simp add: s1_def empty_buf_def)
  have same: "prev_time s2 = prev_time s" "cap_write s2 = cap_write s" "cfg (dmp s2) = cfg (dmp s)"
    by (simp_all add: s2_def s1_def)
  have "wp (receive frame) (\<lambda>n t. n = int (length bs) \<and> t = s1) never s"
    using len empty sound_size [OF s] by (simp add: wp_receive Let_def bs_def s1_def empty_buf_def)
  then show ?thesis
    unfolding loop_live_def p option.case prod.case wp_bnd
    using dropped failed s1 body [OF _ curr_time_sound [OF s2]] same
    by (elim wp_mono)
       (auto simp: wp_gets wp_if wp_thn wp_ret wp_put_len wp_modify wp_exit_with s2_def [symmetric]
         bs_def [symmetric] split: option.split)
qed

lemma loop_live_sound:
  assumes "sound s" and "empty_buf s"
  shows "wp (loop_live E os) (\<lambda>_. sound) (loop_fault b) s"
proof (cases "recv os")
  case None
  then show ?thesis by (simp add: loop_live_def wp_simps)
next
  case (Some p)
  then obtain frame "from" where "recv os = Some (frame, from)" by (cases p) auto
  with assms show ?thesis
    by (rule loop_live_frame) (auto intro: decode_saved_sound)
qed

lemma read_head_result:
  assumes "read_head file buf n = Inr (k, buf', rest)"
  shows "0 \<le> n" "k \<le> int (length (nb_mem buf))" "\<exists>mem. buf' = buf\<lparr>nb_mem := mem\<rparr> \<and> length mem = length (nb_mem buf)"
  using assms
  by (auto simp: read_head_def Let_def poke_def split: if_splits sum.splits)

lemma read_head_faults: "read_head file buf n = Inl e \<Longrightarrow> e = Impl_defined \<or> e = Oob_write"
  by (auto simp: read_head_def Let_def poke_def split: if_splits sum.splits)

lemma capread_get_result:
  assumes "capread_get E file buf = Inr (Some c)"
  shows "0 \<le> r_len c" "r_len c \<le> int (length (nb_mem buf))"
    "\<exists>mem. r_buf c = buf\<lparr>nb_mem := mem\<rparr> \<and> length mem = length (nb_mem buf)"
  using assms
  by (auto simp: capread_get_def Let_def split: if_splits sum.splits prod.splits
      dest: read_head_result)

lemma capread_get_faults: "capread_get E file buf = Inl e \<Longrightarrow> e = Impl_defined \<or> e = Oob_write"
  by (auto simp: capread_get_def Let_def split: if_splits sum.splits prod.splits
      dest: read_head_faults)

lemma loop_file_sound:
  assumes s: "sound s" and empty: "empty_buf s"
  shows "wp (loop_file E os file) (\<lambda>_. sound) (loop_fault True) s"
proof (cases "capread_get E file (fb (dmp s))")
  case (Inl e)
  then show ?thesis
    using capread_get_faults [OF Inl] by (auto simp: loop_file_def wp_simps)
next
  case (Inr r)
  show ?thesis
  proof (cases r)
    case None
    with Inr show ?thesis by (simp add: loop_file_def wp_simps)
  next
    case (Some c)
    with Inr have get: "capread_get E file (fb (dmp s)) = Inr (Some c)" by simp
    define s1 where "s1 = s\<lparr>cap_read := Some (r_rest c), curr_time := r_time c,
      dmp := (dmp s)\<lparr>fb := r_buf c\<rparr>\<rparr>"
    define s2 where "s2 = s1\<lparr>dmp := (dmp s1)\<lparr>fb := snd (g_netbuf_put (heap os) (fb (dmp s1))
      (word_of_int (r_len c)))\<rparr>\<rparr>"
    note c = capread_get_result [OF get]
    have s1: "sound s1" using s c(3) by (auto simp: s1_def sound_def nb_ok_def table_ok_def)
    have s2: "sound s2"
      unfolding s2_def using s1 empty c sound_size [OF s]
      by (intro put_sound) (auto simp: s1_def empty_buf_def)
    have "wp (parse_irda_frame (r_dir c) (r_len c)) (\<lambda>_. sound) (loop_fault True) s2"
      using c(2) sound_size [OF s] by (intro wp_mono [OF parse_irda_frame_sound [OF s2]]) auto
    with s1 get show ?thesis
      by (simp add: loop_file_def wp_gets wp_bnd wp_thn wp_if wp_ret wp_put_len wp_modify wp_set_fb
          s1_def s2_def)
  qed
qed

lemma irdadump_loop_sound:
  assumes "sound s"
  shows "wp (irdadump_loop E os) (\<lambda>_. sound) (loop_fault (cap_read s \<noteq> None)) s"
proof -
  define t where "t = s\<lparr>dmp := (dmp s)\<lparr>fb := g_netbuf_recycle (fb (dmp s))\<rparr>\<rparr>"
  have t: "sound t" "empty_buf t"
    using recycle_sound [OF assms] by (simp_all add: t_def empty_buf_def g_netbuf_recycle_def)
  from assms have "\<not> no_buf s" by (simp add: sound_def)
  then show ?thesis
    using loop_live_sound [OF t] loop_file_sound [OF t]
    by (auto simp: irdadump_loop_def wp_bnd wp_thn wp_gets wp_check wp_modify t_def split: option.split)
qed

lemma main_step_sound:
  assumes "sound s"
  shows "wp (main_step E os) (\<lambda>_. sound) (loop_fault (cap_read s \<noteq> None)) s"
  unfolding main_step_def wp_bnd
  by (rule wp_weaken [OF irdadump_loop_sound [OF assms]])
     (auto simp: wp_simps sound_def table_ok_def)

text \<open>The loop never opens or closes a capture file.\<close>

definition same_input :: "'a im \<Rightarrow> bool" where
  "same_input m \<longleftrightarrow> (\<forall>s. (cap_read (snd (m s)) = None) = (cap_read s = None))"

lemma same_input_run:
  "same_input (ret a)" "same_input (stop e)" "same_input (gets f)" "same_input (in_dump d)"
  "same_input (check e b)"
  by (simp_all add: same_input_def run_simps in_dump_def split: prod.split)

lemma same_input_modify: "(\<And>s. (cap_read (f s) = None) = (cap_read s = None)) \<Longrightarrow> same_input (modify f)"
  by (simp add: same_input_def run_simps)

lemma same_input_bnd: "same_input m \<Longrightarrow> (\<And>a. same_input (f a)) \<Longrightarrow> same_input (bnd m f)"
  by (simp add: same_input_def bnd_def split: prod.split sum.split) (metis snd_conv)

lemma same_input_thn: "same_input m \<Longrightarrow> same_input k \<Longrightarrow> same_input (thn m k)"
  unfolding thn_def by (rule same_input_bnd)

lemma same_input_if: "same_input m \<Longrightarrow> same_input k \<Longrightarrow> same_input (if b then m else k)"
  by simp

lemma same_input_doif: "same_input m \<Longrightarrow> same_input (doif b m)"
  by (simp add: doif_def same_input_run)

lemmas same_input_intros = same_input_run same_input_bnd same_input_thn same_input_if same_input_doif

lemma exit_with_input: "same_input (exit_with t c)"
  and set_fb_input: "same_input (set_fb b)"
  and put_len_input: "same_input (put_len A n)"
  unfolding exit_with_def set_fb_def put_len_def
  by (auto intro!: same_input_intros same_input_modify)

lemma parse_irda_frame_input: "same_input (parse_irda_frame type len)"
  unfolding parse_irda_frame_def print_times_def print_diff_time_def
  by (auto intro!: same_input_intros same_input_modify split: prod.split)

lemma save_frame_input: "same_input (save_frame E os len from)"
  unfolding save_frame_def
  by (auto intro!: same_input_intros same_input_modify exit_with_input
      split: option.split prod.split sum.split fault.split)

lemma loop_live_input: "same_input (loop_live E os)"
  unfolding loop_live_def receive_def Let_def
  by (auto intro!: same_input_intros same_input_modify exit_with_input set_fb_input put_len_input
      parse_irda_frame_input save_frame_input split: option.split prod.split sum.split)

lemma wp_same_input:
  assumes "same_input m" and "cap_read s = None"
  shows "wp m (\<lambda>_ t. cap_read t = None) (\<lambda>_ t. cap_read t = None) s"
  using assms by (simp add: wp_def same_input_def split: prod.split sum.split) (metis snd_conv)

lemma main_step_live:
  assumes s: "sound s" and live: "cap_read s = None"
  shows "wp (main_step E os) (\<lambda>_ t. sound t \<and> cap_read t = None) (loop_fault False) s"
proof -
  have "wp (irdadump_loop E os) (\<lambda>_ t. cap_read t = None) (\<lambda>_ t. True) s"
    using live by (auto simp: irdadump_loop_def wp_bnd wp_thn wp_gets wp_check wp_modify
        intro!: wp_mono [OF wp_same_input [OF loop_live_input]])
  then have "wp (main_step E os) (\<lambda>_ t. cap_read t = None) (\<lambda>_ t. True) s"
    unfolding main_step_def wp_bnd by (rule wp_weaken) (simp add: wp_simps)
  from wp_conj [OF main_step_sound [OF s] this] live show ?thesis by simp
qed

lemma main_loop_live:
  assumes "sound s" and "cap_read s = None"
  shows "wp (main_loop E inputs) (\<lambda>_ t. sound t \<and> cap_read t = None) (loop_fault False) s"
  using assms
proof (induction inputs arbitrary: s)
  case Nil
  then show ?case by (simp add: wp_simps)
next
  case (Cons os inputs)
  then show ?case
    unfolding main_loop.simps wp_thn by (intro wp_weaken [OF main_step_live]) auto
qed

text \<open>The states the loop can reach from \<open>s\<close>, as a step relation.\<close>

inductive reaches :: "endian \<Rightarrow> session \<Rightarrow> session \<Rightarrow> bool" for E where
  here: "reaches E s s"
| turn: "reaches E s t \<Longrightarrow> main_step E os t = (Inr (), u) \<Longrightarrow> reaches E s u"

lemma reaches_sound: "reaches E s t \<Longrightarrow> sound s \<Longrightarrow> sound t"
  by (induction rule: reaches.induct) (auto dest: wp_returned [OF main_step_sound])

lemma main_loop_append: "main_loop E (xs @ ys) = thn (main_loop E xs) (main_loop E ys)"
  by (induction xs) (simp_all add: thn_def bnd_assoc)

lemma reaches_iff_loop: "reaches E s t \<longleftrightarrow> (\<exists>inputs. main_loop E inputs s = (Inr (), t))"
proof
  assume "reaches E s t"
  then show "\<exists>inputs. main_loop E inputs s = (Inr (), t)"
  proof (induction rule: reaches.induct)
    case (here s)
    then show ?case by (auto simp: run_simps intro: exI [of _ "[]"])
  next
    case (turn s t os u)
    then obtain inputs where "main_loop E inputs s = (Inr (), t)" by blast
    with turn.hyps(2) have "main_loop E (inputs @ [os]) s = (Inr (), u)"
      by (simp add: main_loop_append run_simps)
    then show ?case ..
  qed
next
  assume "\<exists>inputs. main_loop E inputs s = (Inr (), t)"
  then obtain inputs where "main_loop E inputs s = (Inr (), t)" ..
  then show "reaches E s t"
  proof (induction inputs arbitrary: t rule: rev_induct)
    case Nil
    then show ?case by (simp add: run_simps reaches.here)
  next
    case (snoc os inputs)
    then obtain v where "main_loop E inputs s = (Inr (), v)" and step: "main_step E os v = (Inr (), t)"
      by (auto simp: main_loop_append run_simps split: prod.splits sum.splits)
    then have "reaches E s v" by (auto intro: snoc.IH)
    then show ?case using step by (rule reaches.turn)
  qed
qed

section \<open>The start of the program\<close>

definition sane_options :: "settings \<Rightarrow> bool" where
  "sane_options s \<longleftrightarrow> 0 < config_snapcols (opts s) \<and> 0 < config_snaplen (opts s)"

lemma main_option_sane:
  "sane_options s \<Longrightarrow> wp (main_option argv0 p) (\<lambda>_. sane_options) (\<lambda>e _. e = Impl_defined \<or> e = Exit 0 \<or> e = Exit 1) s"
proof -
  assume s: "sane_options s"
  have num: "e = Impl_defined" if "atoi t = Inl e" for t e
    using that by (auto simp: atoi_def Let_def split: if_splits)
  show ?thesis
    using s num
    by (cases p) (auto simp: main_option_def Let_def wp_simps sane_options_def set_snapcols_def
        set_snaplen_def split: sum.split)
qed

lemma main_options_sane:
  "sane_options s \<Longrightarrow>
    wp (main_options argv0 args) (\<lambda>_. sane_options) (\<lambda>e _. e = Impl_defined \<or> e = Exit 0 \<or> e = Exit 1) s"
proof (induction args arbitrary: s)
  case Nil
  then show ?case by (simp add: main_options_def wp_simps)
next
  case (Cons p args)
  then show ?case
    by (auto simp: main_options_def wp_simps intro!: wp_weaken [OF main_option_sane])
qed

lemma default_sane: "sane_options default_settings"
  by (simp add: sane_options_def default_settings_def default_config_def)

text \<open>\<open>main_start\<close> leaves a sound state when the frame buffer could be allocated.\<close>

lemma main_start_live:
  assumes "sane_options st" and "readfilename st = None" and "memory env MAX_FRAME_SIZE \<noteq> None"
  shows "wp (main_start E env argv0 st) (\<lambda>_ t. sound t \<and> cap_read t = None)
    (\<lambda>e _. \<exists>c < 0. e = Exit c) (boot stack)"
proof -
  obtain b where b: "g_netbuf_new (memory env) (of_nat MAX_FRAME_SIZE) = Some b"
    using assms(3) by (auto simp: g_netbuf_new_def malloc_def MAX_FRAME_SIZE_def)
  then have "nb_ok b" "unat (nb_truesize b) = MAX_FRAME_SIZE"
    using new_ok [OF b] by (auto simp: g_netbuf_new_def g_netbuf_recycle_def MAX_FRAME_SIZE_def
        split: option.splits)
  then have good: "sound t" if "fb (dmp t) = b" "\<not> no_buf t" "cfg (dmp t) = opts st"
    "length (conn (dmp t)) = MAX_CONNECTIONS" "conn_cache (dmp t) = -1" for t
    using that assms(1) by (simp add: sound_def table_ok_def sane_options_def MAX_CONNECTIONS_def)
  show ?thesis
    using assms(2)
    by (auto simp: main_start_def open_captures_def irdadump_init_def capwrite_init_def b wp_simps
        irlap_init_def boot_def boot_dump_def intro!: good split: option.split prod.split)
qed

section \<open>Properties: time\<close>

text \<open>
  The time stamp in front of a frame is the time of day: hours, minutes and seconds of
  \<open>tv_sec\<close> within its day, rounding downwards also for times before the epoch.
\<close>

theorem print_time_of_day:
  "print_time t s = (Inr (), said (Sprintfa ''%02d:%02d:%02d.%06u ''
     [Ii (tv_sec t mod 86400 div 3600), Ii (tv_sec t mod 3600 div 60), Ii (tv_sec t mod 60),
      AI (word_of_int (tv_usec t))]) s)"
  unfolding print_time_def Let_def clock_of_day(2-4) by (simp add: run_simps)

text \<open>
  With \<open>-d\<close> the difference shown is, in microseconds, exactly that of the two time stamps,
  and the stamp kept for the next frame has the value of the current one, although the code
  borrows from the seconds in place and so leaves stamps that are not normalised.
\<close>

theorem time_differences_exact:
  assumes "config_print_diff (cfg (dmp s))"
  shows "\<exists>t d before. print_times s = (Inr (), t) \<and>
    out (dmp t) = before @ [Sprintfa ''(%07.2f ms) '' [AMs (tv_sec d) (tv_usec d)]] \<and>
    micros d = micros (curr_time s) - micros (prev_time s) \<and>
    micros (prev_time t) = micros (curr_time s)"
proof -
  obtain t' d where d: "diff_times (curr_time s) (prev_time s) = (t', d)" by fastforce
  from diff_times_micros [OF d] d assms show ?thesis
    by (auto simp: print_times_def print_time_def print_diff_time_def Let_def run_simps in_dump_def)
qed

definition sample_session :: session where
  "sample_session = (boot [])\<lparr>
     dmp := (framed (replicate 2050 0) (boot_dump []))\<lparr>cfg := default_config\<lparr>config_print_diff := True,
       config_print_irlap := False, config_dump_bytes := True, config_snaplen := 2\<rparr>\<rparr>,
     no_buf := False, curr_time := \<lparr>tv_sec = 10, tv_usec = 20\<rparr>, prev_time := \<lparr>tv_sec = 9, tv_usec = 30\<rparr>\<rparr>"

theorem time_differences_exact_witness:
  "\<exists>t d before. print_times sample_session = (Inr (), t) \<and>
    out (dmp t) = before @ [Sprintfa ''(%07.2f ms) '' [AMs (tv_sec d) (tv_usec d)]] \<and>
    micros d = 999990 \<and> micros (prev_time t) = 10000020"
  using time_differences_exact [of sample_session]
  by (simp add: sample_session_def micros_def)

section \<open>Properties: frames and capture files\<close>

text \<open>What the byte dump of \<open>-b\<close> says about byte \<open>i\<close> of a block.\<close>

definition cell_calls :: "int \<Rightarrow> byte list \<Rightarrow> nat \<Rightarrow> gcall list" where
  "cell_calls cols mem i = (if int i mod cols = 0 then [Append nl_tab] else []) @ [Sprintfa ''%02x '' [Ib (mem ! i)]]"

lemma dump_bytes_run:
  assumes "n \<le> length (nb_mem (fb s))" and "0 < cols"
  shows "dump_bytes cols n s =
    (Inr (), s\<lparr>out := out s @ concat (map (cell_calls cols (nb_mem (fb s))) [0..<n])\<rparr>)"
  using assms(1)
proof (induction n)
  case 0
  then show ?case by (simp add: dump_bytes_def run_simps)
next
  case (Suc n)
  then have "dump_bytes cols n s =
    (Inr (), s\<lparr>out := out s @ concat (map (cell_calls cols (nb_mem (fb s))) [0..<n])\<rparr>)" by simp
  moreover have "int n smod cols = int n mod cols" using assms(2) by (simp add: smod_mod_positive)
  ultimately show ?case
    using Suc.prems assms(2)
    by (simp add: dump_bytes_def seqs_append run_thn run_seqs_Cons run_seqs_Nil)
      (simp add: dump_cell_def dump_hex_def rd_head_def run_simps cell_calls_def said_def)
qed

text \<open>
  With decoding switched off and byte columns switched on (\<open>-p -b\<close>) the line of a frame is
  its length and the first \<open>min len snaplen\<close> bytes of the buffer, each once and in order, with a
  line break before every \<open>snapcols\<close>-th: no byte of the frame can make the program stop.
\<close>

theorem raw_dump_exact:
  assumes "cfg s = o'" "\<not> config_print_irlap o'" "\<not> config_dump_frame o'" "config_dump_bytes o'"
    and "0 < config_snapcols o'" and "nat len \<le> length (nb_mem (fb s))"
  shows "print_frame type len s = (Inr (), s\<lparr>out := out s @ Sprintfa ''(%d) '' [Ii len] #
    concat (map (cell_calls (config_snapcols o') (nb_mem (fb s))) [0..<nat (min len (config_snaplen o'))])\<rparr>)"
proof -
  have "maxlen o' len = nat (min len (config_snaplen o'))" by (auto simp: maxlen_def)
  moreover have "maxlen o' len \<le> length (nb_mem (fb s))" using assms(6) by (rule maxlen_le)
  ultimately show ?thesis
    using assms dump_bytes_run [of "maxlen o' len" "said (Sprintfa ''(%d) '' [Ii len]) s" "config_snapcols o'"]
    by (simp add: print_frame_def run_simps said_def)
qed

theorem raw_dump_exact_witness:
  "print_frame 0 5 (dmp sample_session) = (Inr (), (dmp sample_session)\<lparr>out := [Sprintfa ''(%d) '' [Ii 5],
    Append nl_tab, Sprintfa ''%02x '' [Ib 0], Sprintfa ''%02x '' [Ib 0]]\<rparr>)"
  using raw_dump_exact [of "dmp sample_session" "cfg (dmp sample_session)" 5 0]
  by (simp add: sample_session_def default_config_def framed_def boot_dump_def cell_calls_def upt_rec)

text \<open>
  C7. The time stamp saved with a frame in the capture file is the one the kernel gave, unless
  \<open>-d\<close> is on: then the two times are swapped before the frame is saved, and the record carries
  the difference to the previous frame instead of the time.
\<close>

theorem saved_time_with_differences:
  assumes s: "sound s" "cap_read s = None" "cap_write s = Some f"
    and os: "recv os = Some (frame, from)" "stamp os = Some t" "writes os = (16, 16, int (length frame))"
      "length (sll_addr from) = 8" "8 \<le> length (junk os)" "length frame \<le> MAX_FRAME_SIZE"
    and run: "irdadump_loop E os s = (Inr 0, s')"
  shows "\<exists>bytes. cap_write s' = Some (f @ capture_record E (junk os) bytes from
    (if config_print_diff (cfg (dmp s)) then snd (diff_times t (prev_time s)) else t))"
proof -
  define saved where "saved = (if config_print_diff (cfg (dmp s)) then snd (diff_times t (prev_time s)) else t)"
  let ?saved = "\<lambda>u. \<exists>bytes. cap_write u = Some (f @ capture_record E (junk os) bytes from saved)"
  have step: "wp (thn (parse_irda_frame type (int (length frame)))
      (thn (save_frame E os (int (length frame)) from) (ret (0::int)))) (\<lambda>r u. r = 0 \<longrightarrow> ?saved u) (\<lambda>_ _. True) v"
    if v: "sound v" "cap_write v = Some f" "curr_time v = t" "prev_time v = prev_time s" "cfg (dmp v) = cfg (dmp s)"
    for type v
    unfolding wp_thn wp_ret
  proof (rule wp_mono [OF parse_irda_frame_sound [OF v(1)]])
    fix u
    assume u: "sound u \<and> same_files v u \<and> (curr_time u, prev_time u) = times_after v"
    then have "curr_time u = saved"
      and "cap_write u = Some f"
      using v by (auto simp: times_after_def same_files_def saved_def split: if_splits)
    moreover have "length frame \<le> length (nb_mem (fb (dmp u)))" using u os(6) sound_size [of u] by simp
    ultimately show "wp (save_frame E os (int (length frame)) from) (\<lambda>_ u. (0::int) = 0 \<longrightarrow> ?saved u) (\<lambda>_ _. True) u"
      using capwrite_dump_record [OF _ os(4,5), of "length frame" "fb (dmp u)" E f "curr_time u"] os(3)
      by (auto simp: save_frame_def wp_simps)
  qed (use os(6) in auto)
  define s1 where "s1 = s\<lparr>dmp := (dmp s)\<lparr>fb := g_netbuf_recycle (fb (dmp s))\<rparr>\<rparr>"
  have "sound s1" "empty_buf s1"
    using recycle_sound [OF s(1)] by (simp_all add: s1_def empty_buf_def g_netbuf_recycle_def)
  then have "wp (loop_live E os) (\<lambda>r u. r = 0 \<longrightarrow> ?saved u) (\<lambda>_ _. True) s1"
    using os(1)
  proof (rule loop_live_frame)
    fix v t'
    have all: "take MAX_FRAME_SIZE frame = frame" using os(6) by simp
    assume "stamp os = Some t'" "sound v" "curr_time v = t'" "prev_time v = prev_time s1"
      "cap_write v = cap_write s1" "cfg (dmp v) = cfg (dmp s1)"
    then show "wp (thn (parse_irda_frame (uint (sll_pkttype from)) (int (length (take MAX_FRAME_SIZE frame))))
        (thn (save_frame E os (int (length (take MAX_FRAME_SIZE frame))) from) (ret (0::int))))
        (\<lambda>r u. r = 0 \<longrightarrow> ?saved u) (\<lambda>_ _. True) v"
      unfolding all using os(2) s(3) by (intro step) (simp_all add: s1_def)
  qed simp_all
  then have "wp (irdadump_loop E os) (\<lambda>r u. r = 0 \<longrightarrow> ?saved u) (\<lambda>_ _. True) s"
    using s(1,2) by (simp add: irdadump_loop_def wp_bnd wp_thn wp_gets wp_check wp_modify s1_def sound_def)
  from wp_returned [OF this run] show ?thesis by (simp add: saved_def)
qed

text \<open>Answers for one frame of two bytes from the socket.\<close>

definition sample_os :: os where
  "sample_os = \<lparr>recv = Some ([0xff, 0x3f], sample_from\<lparr>sll_protocol := 0x0017\<rparr>),
     stamp = Some \<lparr>tv_sec = 12, tv_usec = 40\<rparr>, writes = (16, 16, 2), junk = replicate 8 0,
     heap = (\<lambda>_. None)\<rparr>"

lemma sample_sound: "sound sample_session" "cap_read sample_session = None"
  by (simp_all add: sample_session_def sound_def framed_def nb_ok_def table_ok_def boot_def boot_dump_def
      default_config_def MAX_CONNECTIONS_def MAX_FRAME_SIZE_def)

theorem saved_time_with_differences_witness:
  "\<exists>s' bytes. irdadump_loop Big sample_os (sample_session\<lparr>cap_write := Some [1]\<rparr>) = (Inr 0, s') \<and>
    cap_write s' = Some ([1] @ capture_record Big (replicate 8 0) bytes (sample_from\<lparr>sll_protocol := 0x0017\<rparr>)
      \<lparr>tv_sec = 3, tv_usec = 10\<rparr>)"
proof -
  let ?s = "sample_session\<lparr>cap_write := Some [1]\<rparr>"
  have s: "sound ?s" "cap_read ?s = None" using sample_sound by (simp_all add: cap_write_sound)
  have "\<exists>s'. irdadump_loop Big sample_os ?s = (Inr 0, s')"
    by (simp add: irdadump_loop_def loop_live_def receive_def poke_def sample_os_def sample_session_def
        boot_def boot_dump_def framed_def default_config_def MAX_FRAME_SIZE_def g_netbuf_recycle_def
        put_len_def set_fb_def run_simps sample_from_def g_netbuf_put_def parse_irda_frame_def
        print_times_def print_time_def print_diff_time_def in_dump_def print_frame_def maxlen_def
        dump_bytes_run diff_times_def save_frame_def capwrite_dump_def said_def Let_def)
  then obtain s' where "irdadump_loop Big sample_os ?s = (Inr 0, s')" ..
  with saved_time_with_differences [OF s, of "[1]" sample_os "[0xff, 0x3f]" "sample_from\<lparr>sll_protocol := 0x0017\<rparr>"
      "\<lparr>tv_sec = 12, tv_usec = 40\<rparr>" Big s'] show ?thesis
    by (simp add: sample_os_def sample_from_def sample_session_def default_config_def diff_times_def MAX_FRAME_SIZE_def)
qed

text \<open>
  C1. A run of the sniffer on a socket, from its start with valid options and a frame buffer that
  could be allocated, through any number of frames of any content, sent or received, with any
  answers of the system: after every frame the frame buffer is well formed and has its size, the
  connection table is well formed and the cache of the lookup points into it; and the only ways
  to end are an exit with a negative status and an access of the decoder, that is of a run of
  \<open>parse_irlap_frame\<close> on a well formed buffer, outside the frame or a table. Receiving a frame, the
  dumps of its bytes and saving it stay inside the buffer, no null pointer is used, and no division
  by zero happens in the byte dump.
\<close>

theorem live_run_sound:
  assumes "main_options argv0 args default_settings = (Inr (), st)" and "readfilename st = None"
    and "memory env MAX_FRAME_SIZE \<noteq> None"
  shows "wp (thn (main_start E env argv0 st) (main_loop E inputs)) (\<lambda>_. sound)
    (\<lambda>e t. decoder_stopped e t \<or> (\<exists>c < 0. e = Exit c)) (boot stack)"
proof -
  have "sane_options st"
    using wp_returned [OF main_options_sane [OF default_sane] assms(1)] .
  from main_start_live [OF this assms(2,3)] show ?thesis
    unfolding wp_thn
    by (rule wp_mono) (auto simp: loop_fault_def intro!: wp_mono [OF main_loop_live])
qed

definition sample_env :: environ where
  "sample_env = \<lparr>open_write = (\<lambda>_. 4), write_header = 24, open_read = (\<lambda>_. (-1, [])),
     now = \<lparr>tv_sec = 0, tv_usec = 0\<rparr>, socket_fd = 3, if_index = (\<lambda>_. None), memory = (\<lambda>_. Some (\<lambda>_. 0))\<rparr>"

theorem live_run_sound_witness:
  "wp (thn (main_start Little sample_env [] (default_settings\<lparr>opts := default_config\<lparr>config_print_diff := True\<rparr>\<rparr>))
     (main_loop Little [sample_os, sample_os])) (\<lambda>_. sound)
    (\<lambda>e t. decoder_stopped e t \<or> (\<exists>c < 0. e = Exit c)) (boot [])"
  by (rule live_run_sound [of "[]" "[(CHR ''d'', [])]"])
     (simp_all add: main_options_def main_option_def Let_def run_simps default_settings_def sample_env_def)

text \<open>
  The option \<open>-s\<close>, given last with a number, sets the number of bytes of a dump, 2050 for a
  number that is not positive, and leaves the number of columns positive whatever the options
  before it were; its case has no \<open>break\<close>, so it also switches on the decoding of unknown
  connections as TinyTP, which is what \<open>-t\<close> is for.
\<close>

theorem snaplen_option_forces_ttp:
  assumes "main_options argv0 (args @ [(CHR ''s'', optarg)]) default_settings = (Inr (), st)"
    and "atoi optarg = Inr n"
  shows "config_force_ttp (opts st) \<and> config_snaplen (opts st) = (if n \<le> 0 then 2050 else n) \<and>
    0 < config_snapcols (opts st)"
proof -
  have "0 < config_snapcols (opts st)"
    using wp_returned [OF main_options_sane [OF default_sane] assms(1)] by (simp add: sane_options_def)
  then show ?thesis
    using assms
    by (auto simp: main_options_def seqs_append run_simps main_option_def Let_def set_snaplen_def
        split: prod.splits sum.splits if_splits)
qed

theorem snaplen_option_forces_ttp_witness:
  "\<exists>st. main_options [] [(CHR ''s'', bytes_of ''64'')] default_settings = (Inr (), st) \<and>
    config_force_ttp (opts st) \<and> config_snaplen (opts st) = 64"
proof -
  have atoi: "atoi (bytes_of ''64'') = Inr 64"
    by (simp add: atoi_def bytes_of_def cstring_def is_space_def digits_value_def)
  then have "\<exists>st. main_options [] [(CHR ''s'', bytes_of ''64'')] default_settings = (Inr (), st)"
    by (simp add: main_options_def main_option_def Let_def run_simps)
  then show ?thesis
    using snaplen_option_forces_ttp [of "[]" "[]" "bytes_of ''64''" _ 64] atoi by auto
qed

text \<open>A record in the capture file that is read, at the start of one turn of the loop.\<close>

lemma file_turn:
  assumes s: "sound s" "cap_read s = Some (capture_record E jk frame from time @ rest)"
    and hdr: "length (sll_addr from) = 8" "8 \<le> length jk" "frame \<noteq> []" "length frame \<le> MAX_FRAME_SIZE"
  shows "\<exists>u v. irdadump_loop E os s = (if sll_protocol from \<noteq> ETH_P_IRDA then (Inr (-1), u)
      else thn (parse_irda_frame (if sll_pkttype from = 0 then 0 else 1) (int (length frame))) (ret 0) v) \<and>
    cap_read u = Some rest \<and> out (dmp u) = out (dmp s) \<and> screen u = screen s \<and> packets u = packets s \<and>
    payload (fb (dmp v)) = frame \<and> cap_read v = Some rest \<and>
    curr_time v = \<lparr>tv_sec = tv_sec time mod 2 ^ 32, tv_usec = tv_usec time mod 2 ^ 32\<rparr>"
proof -
  define b where "b = g_netbuf_recycle (fb (dmp s))"
  have size: "length (nb_mem b) = MAX_FRAME_SIZE"
    using sound_size [OF s(1)] by (simp add: b_def g_netbuf_recycle_def)
  have ok: "nb_ok b" "unat (nb_truesize b) = MAX_FRAME_SIZE"
    using recycle_sound [OF s(1)] by (simp_all add: b_def sound_def)
  define b1 where "b1 = b\<lparr>nb_mem := frame @ drop (length frame) (nb_mem b)\<rparr>"
  have put: "snd (g_netbuf_put (heap os) b1 (of_nat (length frame)))
      = b1\<lparr>nb_tail := length frame, nb_len := of_nat (length frame)\<rparr>"
    using put_recycled [of b1 "int (length frame)" "heap os"] ok hdr(4) size
    by (simp add: b1_def nb_ok_def b_def g_netbuf_recycle_def)
  have len: "unat (of_nat (length frame) :: u32) = length frame"
    using hdr(4) by (simp add: unat_of_nat_u32 MAX_FRAME_SIZE_def)
  have get: "capread_get E (capture_record E jk frame from time @ rest) b = Inr (Some
      \<lparr>r_len = int (length frame), r_dir = (if sll_pkttype from = 0 then 0 else 1),
       r_prot = uint (sll_protocol from),
       r_time = \<lparr>tv_sec = tv_sec time mod 2 ^ 32, tv_usec = tv_usec time mod 2 ^ 32\<rparr>,
       r_buf = b1, r_rest = rest\<rparr>)"
    unfolding b1_def using hdr size by (intro capread_get_record) (auto simp: MAX_FRAME_SIZE_def)
  have prot: "uint (sll_protocol from) = uint ETH_P_IRDA \<longleftrightarrow> sll_protocol from = ETH_P_IRDA"
    by (simp only: word_uint_eq_iff)
  define u where "u = s\<lparr>dmp := (dmp s)\<lparr>fb := b1\<rparr>, cap_read := Some rest,
    curr_time := \<lparr>tv_sec = tv_sec time mod 2 ^ 32, tv_usec = tv_usec time mod 2 ^ 32\<rparr>\<rparr>"
  define v where "v = u\<lparr>dmp := (dmp u)\<lparr>fb := b1\<lparr>nb_tail := length frame, nb_len := of_nat (length frame)\<rparr>\<rparr>\<rparr>"
  have "payload (fb (dmp v)) = frame"
    by (simp add: v_def payload_def len b1_def b_def g_netbuf_recycle_def)
  moreover have "irdadump_loop E os s = (if sll_protocol from \<noteq> ETH_P_IRDA then (Inr (-1), u)
      else thn (parse_irda_frame (if sll_pkttype from = 0 then 0 else 1) (int (length frame))) (ret 0) v)"
    using s hdr(3) get prot put
    by (simp add: irdadump_loop_def run_thn run_bnd run_gets run_check run_modify sound_def b_def [symmetric]
        loop_file_def set_fb_def put_len_def run_ret u_def v_def)
  ultimately show ?thesis
    by (intro exI [of _ u] exI [of _ v]) (simp add: u_def v_def)
qed

text \<open>
  On a little-endian host, frames that irdadump captured are not read back: for a record of an
  IrDA frame that \<open>capwrite_dump\<close> wrote, one turn of the loop on the capture file consumes the
  record, prints nothing and counts nothing, because the protocol field, saved in network byte
  order, is compared with the constant of the host.
\<close>

theorem captured_frame_skipped_little_endian:
  assumes "sound s" and "cap_read s = Some (capture_record Little jk frame from time @ rest)"
    and "sll_protocol from = htons Little ETH_P_IRDA"
    and "length (sll_addr from) = 8" "8 \<le> length jk" "frame \<noteq> []" "length frame \<le> MAX_FRAME_SIZE"
  shows "\<exists>t. main_step Little os s = (Inr (), t) \<and> cap_read t = Some rest \<and>
    out (dmp t) = out (dmp s) \<and> screen t = screen s \<and> packets t = packets s"
proof -
  have "sll_protocol from \<noteq> ETH_P_IRDA"
    by (simp add: assms(3) htons_Little be16_def)
  with file_turn [OF assms(1,2,4-7), of os] show ?thesis
    by (auto simp: main_step_def run_simps)
qed

text \<open>
  On a big-endian host the same record is decoded as the frame it came from: the loop runs the
  decoder of live frames on a buffer that holds exactly the captured bytes, with the saved
  direction, length and time.
\<close>

theorem captured_frame_decoded_big_endian:
  assumes "sound s" and "cap_read s = Some (capture_record Big jk frame from time @ rest)"
    and "sll_protocol from = htons Big ETH_P_IRDA"
    and "length (sll_addr from) = 8" "8 \<le> length jk" "frame \<noteq> []" "length frame \<le> MAX_FRAME_SIZE"
  shows "\<exists>v. irdadump_loop Big os s =
      thn (parse_irda_frame (if sll_pkttype from = 0 then 0 else 1) (int (length frame))) (ret 0) v \<and>
    payload (fb (dmp v)) = frame \<and> cap_read v = Some rest \<and>
    curr_time v = \<lparr>tv_sec = tv_sec time mod 2 ^ 32, tv_usec = tv_usec time mod 2 ^ 32\<rparr>"
  using file_turn [OF assms(1,2,4-7), of os] assms(3) by auto

definition sample_replay :: "endian \<Rightarrow> session" where
  "sample_replay E = sample_session\<lparr>cap_read := Some (capture_record E (replicate 8 0) [0xff, 0x3f]
     (sample_from\<lparr>sll_protocol := htons E ETH_P_IRDA\<rparr>) \<lparr>tv_sec = 1, tv_usec = 2\<rparr> @ [])\<rparr>"

lemma sample_replay_sound: "sound (sample_replay E)"
  using sample_sound by (simp add: sample_replay_def sound_def)

theorem captured_frame_skipped_little_endian_witness:
  "\<exists>t. main_step Little sample_os (sample_replay Little) = (Inr (), t) \<and> cap_read t = Some [] \<and> packets t = 0"
proof -
  have "packets (sample_replay Little) = 0" by (simp add: sample_replay_def sample_session_def boot_def)
  then show ?thesis
    using captured_frame_skipped_little_endian [OF sample_replay_sound [of Little], of "replicate 8 0" "[0xff, 0x3f]"
      "sample_from\<lparr>sll_protocol := htons Little ETH_P_IRDA\<rparr>" "\<lparr>tv_sec = 1, tv_usec = 2\<rparr>" "[]" sample_os]
    by (auto simp: sample_replay_def sample_from_def MAX_FRAME_SIZE_def)
qed

theorem captured_frame_decoded_big_endian_witness:
  "\<exists>v. irdadump_loop Big sample_os (sample_replay Big) = thn (parse_irda_frame 1 2) (ret 0) v \<and>
    payload (fb (dmp v)) = [0xff, 0x3f] \<and> curr_time v = \<lparr>tv_sec = 1, tv_usec = 2\<rparr>"
  using captured_frame_decoded_big_endian [OF sample_replay_sound [of Big], of "replicate 8 0" "[0xff, 0x3f]"
      "sample_from\<lparr>sll_protocol := htons Big ETH_P_IRDA\<rparr>" "\<lparr>tv_sec = 1, tv_usec = 2\<rparr>" "[]" sample_os]
  by (auto simp: sample_replay_def sample_from_def MAX_FRAME_SIZE_def)

text \<open>
  The end of a capture file, and a record cut short in its header, end the program as an
  error: with less than 16 bytes left the loop prints the error message and exits with \<open>-1\<close>,
  without a look at the buffer.
\<close>

theorem end_of_capture_is_error:
  assumes "\<not> no_buf s" and "cap_read s = Some f" and "length f < 16"
  shows "\<exists>t. main_step E os s = (Inl (Exit (-1)), t) \<and>
    console (dmp t) = console (dmp s) @ [Term ''read capture file'' []] \<and>
    out (dmp t) = out (dmp s) \<and> packets t = packets s"
  using assms
  by (simp add: main_step_def irdadump_loop_def loop_file_def capread_get_def exit_with_def in_dump_def run_simps)

theorem end_of_capture_is_error_witness:
  "\<exists>t. main_step Big sample_os (sample_session\<lparr>cap_read := Some []\<rparr>) = (Inl (Exit (-1)), t) \<and>
    console (dmp t) = [Term ''read capture file'' []]"
  using end_of_capture_is_error [of "sample_session\<lparr>cap_read := Some []\<rparr>" "[]" Big sample_os]
  by (auto simp: sample_session_def boot_dump_def framed_def)

end
