(* ===== verification/Irkbd.thy ===== *)
theory Irkbd
  imports Prelude
begin

text \<open>
  The driver of the Tekram infrared keyboard (\<open>tekram/irkbd.c\<close>, \<open>tekram/irkbd.h\<close>). The program
  has a main loop, which connects and then sleeps, and two signal handlers: one for data on the
  socket and one for its watchdog timer. All three work on one structure, here the record
  \<open>irkbd_cb\<close>.
\<close>

section \<open>Constants and state\<close>

abbreviation IRKBD_CMD_INIT_KBD :: byte where "IRKBD_CMD_INIT_KBD \<equiv> 0xfe"
abbreviation IRKBD_CMD_INIT_MOUSE :: byte where "IRKBD_CMD_INIT_MOUSE \<equiv> 0xff"
abbreviation IRKBD_CMD_ENABLE :: byte where "IRKBD_CMD_ENABLE \<equiv> 0x41"

abbreviation IRKBD_RSP_KBDOK :: byte where "IRKBD_RSP_KBDOK \<equiv> 0x11"
abbreviation IRKBD_RSP_KBDERR :: byte where "IRKBD_RSP_KBDERR \<equiv> 0x12"
abbreviation IRKBD_RSP_MSOK :: byte where "IRKBD_RSP_MSOK \<equiv> 0x21"
abbreviation IRKBD_RSP_MSERR :: byte where "IRKBD_RSP_MSERR \<equiv> 0x22"
abbreviation IRKBD_RSP_LEDOK :: byte where "IRKBD_RSP_LEDOK \<equiv> 0x31"
abbreviation IRKBD_RSP_KBDSPEEDOK :: byte where "IRKBD_RSP_KBDSPEEDOK \<equiv> 0x33"
abbreviation IRKBD_RSP_RSPN41 :: byte where "IRKBD_RSP_RSPN41 \<equiv> 0x41"

abbreviation IRKBD_RATE :: int where "IRKBD_RATE \<equiv> 15000"
abbreviation IRKBD_IDLE_RATE :: int where "IRKBD_IDLE_RATE \<equiv> 100000"
abbreviation IRKBD_TIMEOUT :: int where "IRKBD_TIMEOUT \<equiv> 1"

abbreviation SUBFRAME_MASK :: byte where "SUBFRAME_MASK \<equiv> 0xc0"
abbreviation SUBFRAME_MOUSE :: byte where "SUBFRAME_MOUSE \<equiv> 0x80"
abbreviation SUBFRAME_MOUSE2 :: byte where "SUBFRAME_MOUSE2 \<equiv> 0xc0"
abbreviation SUBFRAME_KEYBOARD :: byte where "SUBFRAME_KEYBOARD \<equiv> 0x40"
abbreviation SUBFRAME_RESPONSE :: byte where "SUBFRAME_RESPONSE \<equiv> 0x00"

definition IRKBD_BUF_SIZE :: nat where "IRKBD_BUF_SIZE = 4096"

datatype kbd_state = IRKBD_IDLE | IRKBD_INIT_KBD | IRKBD_INIT_MOUSE | IRKBD_READY | IRKBD_POLLING

text \<open>What the program asks of the system and the user sees, in order.\<close>

datatype kact =
    Call string "int list"          \<comment> \<open>a system call, with its integer arguments\<close>
  | Send byte                       \<comment> \<open>\<open>send(self->sock, buf, 1, 0)\<close>\<close>
  | Fifo byte                       \<comment> \<open>\<open>write(self->fifo, &scancode, 1)\<close>\<close>
  | Inject byte                     \<comment> \<open>\<open>ioctl(self->fd, TIOCSTI, &scancode)\<close>\<close>
  | Setitimer int int               \<comment> \<open>seconds and microseconds\<close>
  | Say tcall
  | Perror string
  | Sleep nat

text \<open>\<open>struct irkbd_cb\<close>, the global \<open>power_save\<close>, and the history.\<close>

record irkbd_cb =
  kstate :: kbd_state
  sock :: int
  fifo :: int
  kfd :: int
  connected_flag :: bool
  ksaddr :: u32
  kdaddr :: u32
  mtu_tx :: int
  watchdog_timer :: "int \<times> int"
  timer_running :: bool          \<comment> \<open>the timer of the kernel that \<open>setitimer\<close> sets, \<open>ITIMER_REAL\<close>\<close>
  frame :: "byte list"
  khead :: int
  ktail :: int
  power_save :: int
  history :: "kact list"

text \<open>
  The system: what a call returns may depend on all that happened before it, the call itself
  included. \<open>received\<close> is what \<open>recv\<close> gives (nothing on an error), \<open>link_mtu\<close> the
  value of the option \<open>IRTTP_MAX_SDU_SIZE\<close>, \<open>enumerated\<close> the device list (nothing on an error),
  each device with its addresses and the bytes of its name.
\<close>

record kernel =
  answer :: "kact list \<Rightarrow> int"
  exists_already :: "kact list \<Rightarrow> bool"
  received :: "kact list \<Rightarrow> byte list option"
  link_mtu :: "kact list \<Rightarrow> int"
  enumerated :: "kact list \<Rightarrow> (u32 \<times> u32 \<times> byte list) list option"

type_synonym 'a km = "(irkbd_cb, 'a) cm"

definition act :: "kact \<Rightarrow> unit km" where
  "act a = modify (\<lambda>s. s\<lparr>history := history s @ [a]\<rparr>)"

definition call :: "kernel \<Rightarrow> string \<Rightarrow> int list \<Rightarrow> int km" where
  "call K name args = thn (act (Call name args)) (gets (\<lambda>s. answer K (history s)))"

definition say :: "string \<Rightarrow> varg list \<Rightarrow> unit km" where
  "say fmt args = act (Say (Term fmt args))"

definition die :: "string \<Rightarrow> 'a km" where
  "die what = thn (act (Perror what)) (stop (Exit (-1)))"

section \<open>The timer and the commands\<close>

definition irkbd_start_watchdog_timer :: "int \<Rightarrow> int \<Rightarrow> unit km" where
  "irkbd_start_watchdog_timer sec usec =
     thn (modify (\<lambda>s. s\<lparr>watchdog_timer := (sec, usec), timer_running := (sec, usec) \<noteq> (0, 0)\<rparr>)) (act (Setitimer sec usec))"

text \<open>All callers pass one of the three commands, so the byte is always set.\<close>

definition irkbd_data_request :: "kernel \<Rightarrow> byte \<Rightarrow> unit km" where
  "irkbd_data_request K cmd =
     thn (act (Send cmd)) (bnd (gets (\<lambda>s. answer K (history s))) (\<lambda>r.
       doif (r < 0) (say (ln ''Disconnected2!'') [])))"

definition irkbd_watchdog_timer_expired :: "kernel \<Rightarrow> unit km" where
  "irkbd_watchdog_timer_expired K = bnd (gets kstate) (\<lambda>st. case st of
     IRKBD_POLLING \<Rightarrow> thn (irkbd_data_request K IRKBD_CMD_ENABLE)
                        (irkbd_start_watchdog_timer IRKBD_TIMEOUT 0)
   | IRKBD_IDLE \<Rightarrow> ret ()
   | IRKBD_INIT_KBD \<Rightarrow> thn (say ''Initializing keyboard: '' [])
                        (irkbd_data_request K IRKBD_CMD_INIT_KBD)
   | IRKBD_INIT_MOUSE \<Rightarrow> thn (say ''Initializing mouse: '' [])
                        (irkbd_data_request K IRKBD_CMD_INIT_MOUSE)
   | IRKBD_READY \<Rightarrow> seqs [
       say (ln ''Running ...'') [],
       irkbd_data_request K IRKBD_CMD_ENABLE,
       modify (\<lambda>s. s\<lparr>kstate := IRKBD_POLLING\<rparr>)])"

text \<open>
  The timer runs out once (its interval is zero): the handler of the alarm runs only when the timer was started and has not
  run out since, and it does not run again before the timer is started again.
\<close>

definition sigalrm :: "kernel \<Rightarrow> unit km" where
  "sigalrm K = bnd (gets timer_running) (\<lambda>on. doif on
     (thn (modify (\<lambda>s. s\<lparr>timer_running := False\<rparr>)) (irkbd_watchdog_timer_expired K)))"

section \<open>Data from the keyboard\<close>

definition irkbd_handle_response :: "byte \<Rightarrow> unit km" where
  "irkbd_handle_response rsp =
    (if rsp = IRKBD_RSP_RSPN41 then
       bnd (gets power_save) (\<lambda>n.
       thn (check Impl_defined (n < 2147483647)) (
       thn (modify (\<lambda>s. s\<lparr>power_save := n + 1\<rparr>)) (
       if n > 100 then irkbd_start_watchdog_timer 0 IRKBD_IDLE_RATE
       else irkbd_start_watchdog_timer 0 IRKBD_RATE)))
     else if rsp = IRKBD_RSP_KBDOK then seqs [
       say (ln ''OK!'') [],
       modify (\<lambda>s. s\<lparr>kstate := IRKBD_INIT_MOUSE\<rparr>),
       irkbd_start_watchdog_timer 0 IRKBD_RATE]
     else if rsp = IRKBD_RSP_KBDERR then seqs [
       say (ln ''Error!'') [],
       modify (\<lambda>s. s\<lparr>kstate := IRKBD_INIT_MOUSE\<rparr>),
       irkbd_start_watchdog_timer 0 IRKBD_RATE]
     else if rsp = IRKBD_RSP_MSOK then seqs [
       say (ln ''OK!'') [],
       modify (\<lambda>s. s\<lparr>kstate := IRKBD_READY\<rparr>),
       irkbd_start_watchdog_timer 0 100000]
     else if rsp = IRKBD_RSP_MSERR then seqs [
       say (ln ''Error!'') [],
       modify (\<lambda>s. s\<lparr>kstate := IRKBD_READY\<rparr>),
       irkbd_start_watchdog_timer 0 100000]
     else if rsp = IRKBD_RSP_LEDOK then ret ()
     else if rsp = IRKBD_RSP_KBDSPEEDOK then ret ()
     else say (ln ''%s(), unknown response %02x'') [Sl ''irkbd_handle_response'', Ib rsp])"

definition irkbd_handle_mouse :: "byte \<Rightarrow> unit km" where
  "irkbd_handle_mouse scancode = act (Fifo scancode)"

definition handle_scancode :: "kernel \<Rightarrow> byte \<Rightarrow> unit km" where
  "handle_scancode K scancode =
     thn (act (Inject scancode)) (bnd (gets (\<lambda>s. answer K (history s))) (\<lambda>r.
       doif (r \<noteq> 0) (act (Perror ''ioctl''))))"

text \<open>\<open>frame[n]\<close>, and the loops \<open>for (i = 0; i < k; i++) f(frame[n++])\<close>.\<close>

definition frame_at :: "nat \<Rightarrow> byte km" where
  "frame_at n = (\<lambda>s. if n < length (frame s) then (Inr (frame s ! n), s) else (Inl Oob_read, s))"

fun for_bytes :: "(byte \<Rightarrow> unit km) \<Rightarrow> nat \<Rightarrow> nat \<Rightarrow> unit km" where
  "for_bytes f n 0 = ret ()"
| "for_bytes f n (Suc k) = bnd (frame_at n) (\<lambda>b. thn (f b) (for_bytes f (n + 1) k))"

text \<open>
  The body of the \<open>switch\<close> for one subframe whose bytes start at \<open>n\<close>. The result is how many bytes
  it takes.
\<close>

definition subframe :: "kernel \<Rightarrow> byte \<Rightarrow> nat \<Rightarrow> nat \<Rightarrow> nat km" where
  "subframe K subtype sublen n =
    (if subtype = SUBFRAME_MOUSE \<or> subtype = SUBFRAME_MOUSE2 then
       thn (for_bytes irkbd_handle_mouse n (sublen * 3)) (
       thn (modify (\<lambda>s. s\<lparr>power_save := 0\<rparr>)) (
       thn (irkbd_start_watchdog_timer 0 IRKBD_RATE) (ret (sublen * 3))))
     else if subtype = SUBFRAME_KEYBOARD then
       thn (say (ln ''Test!'') []) (
       thn (for_bytes (handle_scancode K) n sublen) (
       thn (modify (\<lambda>s. s\<lparr>power_save := 0\<rparr>)) (
       thn (irkbd_start_watchdog_timer 0 IRKBD_RATE) (ret sublen))))
     else if subtype = SUBFRAME_RESPONSE then
       thn (for_bytes irkbd_handle_response n sublen) (ret sublen)
     else thn (say (ln ''Test2'') []) (ret sublen))"

lemma wp_act [wp_simps]: "wp (act a) Q E s = Q () (s\<lparr>history := history s @ [a]\<rparr>)"
  by (simp add: act_def wp_simps)

lemma wp_frame_at [wp_simps]:
  "wp (frame_at n) Q E s = (if n < length (frame s) then Q (frame s ! n) s else E Oob_read s)"
  by (simp add: wp_def frame_at_def)

text \<open>What the handlers leave alone: the frame.\<close>

lemma timer_wp [wp_simps]:
  "wp (irkbd_start_watchdog_timer a b) Q E s =
     Q () (s\<lparr>watchdog_timer := (a, b), timer_running := (a, b) \<noteq> (0, 0), history := history s @ [Setitimer a b]\<rparr>)"
  by (simp add: irkbd_start_watchdog_timer_def wp_simps)

lemma for_bytes_inv:
  assumes "\<And>b t. I t \<Longrightarrow> wp (f b) (\<lambda>_. I) E t" and "\<And>t. I t \<Longrightarrow> E Oob_read t"
  shows "I s \<Longrightarrow> wp (for_bytes f n k) (\<lambda>_. I) E s"
proof (induction k arbitrary: n s)
  case 0
  then show ?case by (simp add: wp_simps)
next
  case (Suc k)
  then show ?case by (auto simp: wp_simps assms(2) intro!: wp_weaken [OF assms(1)])
qed

lemma subframe_frame:
  "wp (subframe K ty sl n) (\<lambda>_ t. frame t = frame s) (\<lambda>_ t. frame t = frame s) s"
  by (auto simp: subframe_def wp_simps say_def irkbd_handle_mouse_def handle_scancode_def
      irkbd_handle_response_def intro!: wp_mono [OF for_bytes_inv [where I = "\<lambda>t. frame t = frame s" and E = "\<lambda>_ t. frame t = frame s"]])

text \<open>
  The loop over the subframes. \<open>len\<close> is a \<open>__u8\<close>, and what is taken off it is not compared with it
  first: it wraps around when a subframe is longer than what is left.
\<close>

function subframes :: "kernel \<Rightarrow> nat \<Rightarrow> byte \<Rightarrow> unit km" where
  "subframes K n len s =
    (if len > 0 then
       if n < length (frame s) then
         case subframe K (frame s ! n AND SUBFRAME_MASK) (unat (frame s ! n AND NOT SUBFRAME_MASK)) (n + 1) s of
           (Inl e, t) \<Rightarrow> (Inl e, t)
         | (Inr k, t) \<Rightarrow> subframes K (n + 1 + k) (len - 1 - of_nat k) t
       else (Inl Oob_read, s)
     else (Inr (), s))"
  by pat_completeness auto
termination
proof (relation "measure (\<lambda>(K, n, len, s). length (frame s) - n)", goal_cases)
  case 1
  show ?case by simp
next
  case (2 K n len s r t k)
  then have "frame t = frame s"
    using wp_returned [OF subframe_frame] by metis
  with 2 show ?case by simp
qed

declare subframes.simps [simp del]

text \<open>\<open>recv(self->sock, frame, 2048, 0)\<close>: the result, and the bytes at the start of the buffer.\<close>

definition recv_frame :: "kernel \<Rightarrow> int km" where
  "recv_frame K =
    bnd (gets sock) (\<lambda>fd. thn (act (Call ''recv'' [fd, 2048])) (
    bnd (gets (\<lambda>s. received K (history s))) (\<lambda>r. case r of
      None \<Rightarrow> ret (-1)
    | Some bs \<Rightarrow>
        let got = take 2048 bs in
        thn (modify (\<lambda>s. s\<lparr>frame := got @ drop (length got) (frame s)\<rparr>)) (ret (int (length got))))))"

definition irkbd_data_indication :: "kernel \<Rightarrow> unit km" where
  "irkbd_data_indication K =
    bnd (recv_frame K) (\<lambda>actual.
    thn (doif (actual \<le> 0)
          (thn (say (ln ''Disconnected!'') []) (modify (\<lambda>s. s\<lparr>connected_flag := False\<rparr>)))) (
    bnd (frame_at 0) (\<lambda>len. subframes K 1 len)))"

section \<open>Start, discovery and connection\<close>

abbreviation FASYNC :: int where "FASYNC \<equiv> 8192"

text \<open>\<open>memset(&irkbd, 0, sizeof(struct irkbd_cb))\<close>.\<close>

definition clear_cb :: "irkbd_cb \<Rightarrow> irkbd_cb" where
  "clear_cb s = s\<lparr>kstate := IRKBD_IDLE, sock := 0, fifo := 0, kfd := 0, connected_flag := False,
     ksaddr := 0, kdaddr := 0, mtu_tx := 0, watchdog_timer := (0, 0),
     frame := replicate IRKBD_BUF_SIZE 0, khead := 0, ktail := 0\<rparr>"

definition irkbd_init :: "kernel \<Rightarrow> unit km" where
  "irkbd_init K =
    thn (modify clear_cb) (
    bnd (call K ''socket'' []) (\<lambda>fd.
    if fd < 0 then die ''socket'' else
    thn (act (Call ''signal SIGIO'' [])) (
    thn (act (Call ''fcntl F_SETOWN'' [fd])) (
    bnd (call K ''fcntl F_GETFL'' [0]) (\<lambda>oflags.
    bnd (call K ''fcntl F_SETFL'' [fd, oflags OR FASYNC]) (\<lambda>r.
    if r < 0 then die ''fcntl'' else
    thn (modify (\<lambda>s. s\<lparr>sock := fd\<rparr>)) (
    bnd (call K ''mknod'' []) (\<lambda>r.
    bnd (gets (\<lambda>s. exists_already K (history s))) (\<lambda>eexist.
    if r \<noteq> 0 \<and> \<not> eexist then die ''mknod'' else
    bnd (call K ''open /dev/irkbd'' []) (\<lambda>fd.
    if fd < 0 then die ''open'' else
    thn (modify (\<lambda>s. s\<lparr>fifo := fd\<rparr>)) (
    bnd (call K ''open /dev/console'' []) (\<lambda>fd.
    doif (\<not> fd < 0) (modify (\<lambda>s. s\<lparr>kfd := fd, kstate := IRKBD_IDLE\<rparr>))))))))))))))"

fun look_at_devices :: "(u32 \<times> u32 \<times> byte list) list \<Rightarrow> int km" where
  "look_at_devices [] = thn (say (ln (''Hmm, didn'' @ [CHR 0x27] @ ''t find any! retry?'')) []) (ret (-1))"
| "look_at_devices ((daddr, saddr, info) # ds) =
    thn (seqs [
      say (ln ''  name:  %s'') [AS (cstring info)],
      say (ln ''  daddr: %08x'') [AI daddr],
      say (ln ''  saddr: %08x'') [AI saddr],
      say (ln []) [],
      modify (\<lambda>s. s\<lparr>kdaddr := daddr\<rparr>),
      modify (\<lambda>s. s\<lparr>ksaddr := saddr\<rparr>)])
    (if cstring info = bytes_of ''IR-660''
     then thn (say (ln ''This one looks good!'') []) (ret 0)
     else look_at_devices ds)"

definition irkbd_discover_devices :: "kernel \<Rightarrow> int km" where
  "irkbd_discover_devices K =
    bnd (gets sock) (\<lambda>fd. thn (act (Call ''getsockopt IRLMP_ENUMDEVICES'' [fd])) (
    bnd (gets (\<lambda>s. enumerated K (history s))) (\<lambda>r. case r of
      None \<Rightarrow> die ''getsockopt''
    | Some ds \<Rightarrow>
        thn (say (ln ''Discovered: (list len=%d)'') [Ii (int (length ds))]) (look_at_devices ds))))"

definition irkbd_connect_request :: "kernel \<Rightarrow> int km" where
  "irkbd_connect_request K =
    bnd (irkbd_discover_devices K) (\<lambda>r.
    if r = -1 then ret (-1) else
    bnd (gets sock) (\<lambda>fd.
    bnd (call K ''setsockopt IRTTP_MAX_SDU_SIZE'' [fd, 0]) (\<lambda>r.
    if r \<noteq> 0 then die ''setsockopt'' else
    bnd (gets kdaddr) (\<lambda>daddr.
    bnd (call K ''connect IrKBMS'' [fd, uint daddr]) (\<lambda>r.
    if r \<noteq> 0 then thn (act (Perror ''connect'')) (ret (-1)) else
    bnd (call K ''getsockopt IRTTP_MAX_SDU_SIZE'' [fd]) (\<lambda>r.
    if r \<noteq> 0 then die ''getsockopt'' else
    bnd (gets (\<lambda>s. link_mtu K (history s))) (\<lambda>mtu.
    thn (modify (\<lambda>s. s\<lparr>mtu_tx := mtu, connected_flag := True\<rparr>)) (ret 0))))))))"

section \<open>The program\<close>

text \<open>One turn of the outer loop of \<open>main\<close> up to the inner one; whether a connection was made.\<close>

definition irkbd_main_turn :: "kernel \<Rightarrow> bool km" where
  "irkbd_main_turn K =
    bnd (irkbd_connect_request K) (\<lambda>err.
    if err \<noteq> 0 then thn (act (Sleep 5)) (ret False)
    else thn (seqs [
      modify (\<lambda>s. s\<lparr>kstate := IRKBD_INIT_KBD\<rparr>),
      modify (\<lambda>s. s\<lparr>kstate := IRKBD_INIT_MOUSE\<rparr>),
      irkbd_start_watchdog_timer IRKBD_TIMEOUT 0]) (ret True))"

text \<open>
  Where \<open>main\<close> is, and the steps of the program: a turn of the outer loop, a turn of the inner
  loop, its end, and the two signals, each of which runs to its end before anything else happens.
\<close>

datatype main_at = Connecting | Waiting

inductive irkbd_step :: "kernel \<Rightarrow> main_at \<times> irkbd_cb \<Rightarrow> main_at \<times> irkbd_cb \<Rightarrow> bool" for K where
  connect_step: "irkbd_main_turn K s = (Inr ok, t) \<Longrightarrow>
     irkbd_step K (Connecting, s) (if ok then Waiting else Connecting, t)"
| sleep_step: "connected_flag s \<Longrightarrow> act (Sleep 1) s = (Inr (), t) \<Longrightarrow> irkbd_step K (Waiting, s) (Waiting, t)"
| lost_step: "\<not> connected_flag s \<Longrightarrow> say (ln ''Disconnected!'') [] s = (Inr (), t) \<Longrightarrow>
     irkbd_step K (Waiting, s) (Connecting, t)"
| sigio_step: "irkbd_data_indication K s = (Inr (), t) \<Longrightarrow> irkbd_step K (pc, s) (pc, t)"
| sigalrm_step: "sigalrm K s = (Inr (), t) \<Longrightarrow> irkbd_step K (pc, s) (pc, t)"

inductive irkbd_reaches :: "kernel \<Rightarrow> main_at \<times> irkbd_cb \<Rightarrow> bool" for K where
  started: "irkbd_init K s0 = (Inr (), s) \<Longrightarrow> history s0 = [] \<Longrightarrow> irkbd_reaches K (Connecting, s)"
| stepped: "irkbd_reaches K p \<Longrightarrow> irkbd_step K p q \<Longrightarrow> irkbd_reaches K q"

section \<open>The frame buffer\<close>

text \<open>
  The second half of the buffer is never written: \<open>recv\<close> fills at most 2048 of the 4096 bytes. So
  the loop over the subframes, when a length has wrapped around and it runs on behind the data,
  finds empty response subframes there, each of which takes one off the length.
\<close>

definition frame_ok :: "byte list \<Rightarrow> bool" where
  "frame_ok f \<longleftrightarrow> length f = IRKBD_BUF_SIZE \<and> (\<forall>i < IRKBD_BUF_SIZE. 2048 \<le> i \<longrightarrow> f ! i = 0)"

lemma frame_ok_zero: "frame_ok (replicate IRKBD_BUF_SIZE 0)"
  by (simp add: frame_ok_def)

lemma frame_ok_received:
  assumes "frame_ok f"
  shows "frame_ok (take 2048 bs @ drop (length (take 2048 bs)) f)"
proof -
  have "length (take 2048 bs @ drop (length (take 2048 bs)) f) = IRKBD_BUF_SIZE"
    using assms by (simp add: frame_ok_def IRKBD_BUF_SIZE_def)
  then show ?thesis
    using assms by (auto simp: frame_ok_def nth_append IRKBD_BUF_SIZE_def)
qed

lemma len_dec: "len > 0 \<Longrightarrow> unat (len - 1 :: byte) = unat len - 1"
  by (simp add: unat_minus_one word_greater_zero_iff)

lemma len_pos: "0 < len \<longleftrightarrow> 0 < unat (len :: byte)"
  by (simp add: word_less_nat_alt)

lemma subframes_behind_data:
  assumes "frame_ok (frame s)" and "2048 \<le> n" and "n + unat len \<le> IRKBD_BUF_SIZE"
  shows "subframes K n len s = (Inr (), s)"
  using assms(2,3)
proof (induction "unat len" arbitrary: n len)
  case 0
  then show ?case by (simp add: subframes.simps [of K n] len_pos)
next
  case (Suc k)
  then have "len > 0" by (simp add: len_pos)
  moreover have "n < IRKBD_BUF_SIZE" using Suc by simp
  moreover from this have "frame s ! n = 0" "n < length (frame s)"
    using assms(1) Suc.prems by (auto simp: frame_ok_def)
  moreover have "subframes K (Suc n) (len - 1) s = (Inr (), s)"
    using Suc \<open>len > 0\<close> by (intro Suc.hyps) (simp_all add: len_dec)
  ultimately show ?case
    by (subst subframes.simps) (simp add: subframe_def run_simps)
qed

text \<open>
  The count of idle polls can still take one response per byte of the buffer from \<open>n\<close> on.
\<close>

definition polls_left :: "nat \<Rightarrow> irkbd_cb \<Rightarrow> bool" where
  "polls_left n s \<longleftrightarrow> 0 \<le> power_save s \<and> power_save s + (4096 - int n) \<le> 2147483647"

definition handles :: "byte list \<Rightarrow> nat \<Rightarrow> irkbd_cb \<Rightarrow> bool" where
  "handles F n s \<longleftrightarrow> frame s = F \<and> polls_left n s"

lemma for_bytes_handles:
  assumes "\<And>b j t. handles F j t \<Longrightarrow> j < length F \<Longrightarrow> wp (f b) (\<lambda>_. handles F (j + 1)) never t"
  shows "handles F n s \<Longrightarrow> n + k \<le> length F \<Longrightarrow> wp (for_bytes f n k) (\<lambda>_. handles F (n + k)) never s"
proof (induction k arbitrary: n s)
  case 0
  then show ?case by (simp add: wp_simps)
next
  case (Suc k)
  have "wp (f b) (\<lambda>_ u. wp (for_bytes f (n + 1) k) (\<lambda>_. handles F (n + Suc k)) never u) never s" for b
    by (rule wp_weaken [OF assms [OF Suc.prems(1)]])
       (use Suc.prems in \<open>auto intro: Suc.IH [of "n + 1", simplified] \<close>)
  moreover have "frame s = F" using Suc.prems by (simp add: handles_def)
  ultimately show ?case
    using Suc.prems(2) by (simp add: wp_simps)
qed

lemma response_handles:
  assumes "handles F j t" and "j < length F" and "length F = IRKBD_BUF_SIZE"
  shows "wp (irkbd_handle_response b) (\<lambda>_. handles F (j + 1)) never t"
  using assms by (auto simp: irkbd_handle_response_def wp_simps say_def handles_def polls_left_def
      IRKBD_BUF_SIZE_def)

lemma scancode_handles:
  assumes "handles F j t"
  shows "wp (handle_scancode K b) (\<lambda>_. handles F (j + 1)) never t"
    and "wp (irkbd_handle_mouse b) (\<lambda>_. handles F (j + 1)) never t"
  using assms by (auto simp: handle_scancode_def irkbd_handle_mouse_def wp_simps handles_def polls_left_def)

lemma mask_sum: "unat (h AND NOT SUBFRAME_MASK) \<le> 63" for h :: byte
proof -
  have "h AND NOT SUBFRAME_MASK = h AND mask 6"
    by (simp add: byte_eq_iff bit_simps)
  then have "h AND NOT SUBFRAME_MASK = take_bit 6 h"
    by (simp only: take_bit_eq_mask)
  then have "unat (h AND NOT SUBFRAME_MASK) = take_bit 6 (unat h)"
    by (simp add: unsigned_take_bit_eq)
  also have "\<dots> < 2 ^ 6" by (rule take_bit_nat_less_exp)
  finally show ?thesis by simp
qed

lemma subframe_handles:
  assumes "handles F n s" and "n \<le> 2048" and "sublen \<le> 63" and "length F = IRKBD_BUF_SIZE"
  shows "wp (subframe K ty sublen n) (\<lambda>k t. handles F (n + k) t \<and> k \<le> 189) never s"
proof -
  have k: "n + sublen * 3 \<le> length F" "n + sublen \<le> length F"
    using assms by (simp_all add: IRKBD_BUF_SIZE_def)
  have reset: "handles F m t \<Longrightarrow> handles F m (t\<lparr>power_save := 0, watchdog_timer := w, timer_running := on, history := h\<rparr>)" for m t w h on
    by (simp add: handles_def polls_left_def)
  have said: "handles F n (s\<lparr>history := h\<rparr>)" for h
    using assms(1) by (simp add: handles_def polls_left_def)
  have more: "handles F m t \<Longrightarrow> handles F (m + j) t" for m j t
    by (simp add: handles_def polls_left_def)
  have mouse: "wp (for_bytes irkbd_handle_mouse n (sublen * 3)) (\<lambda>_. handles F (n + sublen * 3)) never s"
    by (rule for_bytes_handles [OF _ assms(1) k(1)]) (rule scancode_handles)
  have keys: "wp (for_bytes (handle_scancode K) n sublen) (\<lambda>_. handles F (n + sublen)) never (s\<lparr>history := h\<rparr>)" for h
    by (rule for_bytes_handles [OF _ said k(2)]) (rule scancode_handles)
  have rsp: "wp (for_bytes irkbd_handle_response n sublen) (\<lambda>_. handles F (n + sublen)) never s"
    by (rule for_bytes_handles [OF response_handles assms(1) k(2)]) (simp_all add: assms(4))
  show ?thesis
    using assms(3)
    by (auto simp: subframe_def wp_simps say_def intro!: reset more [OF said]
        wp_weaken [OF mouse] wp_weaken [OF keys] wp_weaken [OF rsp])
qed

lemma subframes_return:
  assumes "frame_ok F"
  shows "handles F n s \<Longrightarrow> n \<le> 2237 \<Longrightarrow> wp (subframes K n len) (\<lambda>_ t. frame t = F) never s"
proof (induction "length F - n" arbitrary: n len s rule: less_induct)
  case less
  have F: "length F = IRKBD_BUF_SIZE" using assms by (simp add: frame_ok_def)
  consider "len = 0" | "2048 \<le> n" | "len > 0" "n < 2048"
    by (cases "len = 0"; cases "n < 2048") (auto simp: word_neq_0_conv)
  then show ?case
  proof cases
    case 1
    with less.prems show ?thesis by (simp add: wp_def subframes.simps [of K n] handles_def)
  next
    case 2
    have "n + unat len \<le> IRKBD_BUF_SIZE"
      using less.prems(2) unat_byte_le [of len] unfolding IRKBD_BUF_SIZE_def by linarith
    from subframes_behind_data [OF _ 2 this, of s K] show ?thesis
      using less.prems(1) assms by (simp add: wp_def handles_def)
  next
    case 3
    let ?ty = "F ! n AND SUBFRAME_MASK" and ?sublen = "unat (F ! n AND NOT SUBFRAME_MASK)"
    have "handles F (n + 1) s"
      using less.prems(1) by (simp add: handles_def polls_left_def)
    from subframe_handles [OF this _ mask_sum F, of K ?ty "F ! n"] 3
    obtain k t where r: "subframe K ?ty ?sublen (n + 1) s = (Inr k, t)" "handles F (n + 1 + k) t" "k \<le> 189"
      using wp_neverD by fastforce
    have "wp (subframes K (n + 1 + k) (len - 1 - of_nat k)) (\<lambda>_ t. frame t = F) never t"
      by (rule less.hyps) (use r 3 F in \<open>simp_all add: IRKBD_BUF_SIZE_def\<close>)
    moreover have "subframes K n len s = subframes K (n + 1 + k) (len - 1 - of_nat k) t"
      using 3 r less.prems F by (simp add: subframes.simps [of K n len] handles_def IRKBD_BUF_SIZE_def)
    ultimately show ?thesis by (simp add: wp_def)
  qed
qed

section \<open>Well-formed frames\<close>

text \<open>The subframes a keyboard sends: three bytes for every mouse record, scan codes, responses.\<close>

datatype kbd_msg = Mouse "byte list" | Keys "byte list" | Responses "byte list"

fun msg_ok :: "kbd_msg \<Rightarrow> bool" where
  "msg_ok (Mouse bs) \<longleftrightarrow> 3 dvd length bs \<and> length bs div 3 < 64"
| "msg_ok (Keys bs) \<longleftrightarrow> length bs < 64"
| "msg_ok (Responses bs) \<longleftrightarrow> length bs < 64"

fun msg_bytes :: "kbd_msg \<Rightarrow> byte list" where
  "msg_bytes (Mouse bs) = (SUBFRAME_MOUSE OR of_nat (length bs div 3)) # bs"
| "msg_bytes (Keys bs) = (SUBFRAME_KEYBOARD OR of_nat (length bs)) # bs"
| "msg_bytes (Responses bs) = (SUBFRAME_RESPONSE OR of_nat (length bs)) # bs"

definition packet :: "kbd_msg list \<Rightarrow> byte list" where
  "packet ms = of_nat (length (concat (map msg_bytes ms))) # concat (map msg_bytes ms)"

text \<open>What each of them means.\<close>

definition keyboard_alive :: "unit km" where
  "keyboard_alive = thn (modify (\<lambda>s. s\<lparr>power_save := 0\<rparr>)) (irkbd_start_watchdog_timer 0 IRKBD_RATE)"

fun deliver :: "kernel \<Rightarrow> kbd_msg \<Rightarrow> unit km" where
  "deliver K (Mouse bs) = thn (seqs (map irkbd_handle_mouse bs)) keyboard_alive"
| "deliver K (Keys bs) = thn (say (ln ''Test!'') []) (thn (seqs (map (handle_scancode K) bs)) keyboard_alive)"
| "deliver K (Responses bs) = seqs (map irkbd_handle_response bs)"

lemma small_byte:
  assumes "k < 64"
  shows "of_nat k AND SUBFRAME_MASK = 0" and "of_nat k AND NOT SUBFRAME_MASK = (of_nat k :: byte)"
    and "unat (of_nat k :: byte) = k"
proof -
  have k: "k = take_bit 6 k" using assms by (simp add: take_bit_nat_eq_self)
  have "\<not> bit k 6" "\<not> bit k 7" by (subst k, simp add: bit_simps)+
  then show "of_nat k AND SUBFRAME_MASK = 0" "of_nat k AND NOT SUBFRAME_MASK = (of_nat k :: byte)"
    by (simp_all add: byte_eq_iff bit_simps)
  show "unat (of_nat k :: byte) = k"
    using assms by (simp add: unat_of_nat)
qed

lemma header_split:
  assumes "k < 64" and "ty AND SUBFRAME_MASK = ty"
  shows "(ty OR of_nat k) AND SUBFRAME_MASK = (ty :: byte)"
    and "unat ((ty OR of_nat k) AND NOT SUBFRAME_MASK) = k"
proof -
  have "ty AND NOT SUBFRAME_MASK = 0"
    using assms(2) by (simp add: byte_eq_iff bit_simps)
  then show "(ty OR of_nat k) AND SUBFRAME_MASK = ty"
    "unat ((ty OR of_nat k) AND NOT SUBFRAME_MASK) = k"
    using assms small_byte [OF assms(1)]
    by (simp_all add: bit.conj_disj_distrib2)
qed

lemma for_bytes_seqs:
  assumes keep: "\<And>b t u. f b t = (Inr (), u) \<Longrightarrow> frame u = frame t"
  shows "take (length bs) (drop n (frame s)) = bs \<Longrightarrow> for_bytes f n (length bs) s = seqs (map f bs) s"
proof (induction bs arbitrary: n s)
  case Nil
  then show ?case by (simp add: run_simps)
next
  case (Cons b bs)
  then have n: "n < length (frame s)" by (cases "n < length (frame s)") auto
  then have "drop n (frame s) = frame s ! n # drop (Suc n) (frame s)" by (simp add: Cons_nth_drop_Suc)
  with Cons.prems have b: "frame s ! n = b" and rest: "take (length bs) (drop (Suc n) (frame s)) = bs" by auto
  have "frame u = frame s" if "f b s = (Inr (), u)" for u using keep that by blast
  then have "for_bytes f (Suc n) (length bs) u = seqs (map f bs) u" if "f b s = (Inr (), u)" for u
    using that rest by (intro Cons.IH) simp
  then show ?case
    using n b by (auto simp: run_simps frame_at_def split: prod.split sum.split)
qed

lemma keeps_frame:
  "irkbd_handle_response b t = (Inr (), u) \<Longrightarrow> frame u = frame t"
  "irkbd_handle_mouse b t = (Inr (), u) \<Longrightarrow> frame u = frame t"
  "handle_scancode K b t = (Inr (), u) \<Longrightarrow> frame u = frame t"
  by (auto simp: irkbd_handle_response_def irkbd_handle_mouse_def handle_scancode_def run_simps act_def
      say_def irkbd_start_watchdog_timer_def split: if_splits)

lemma subframe_delivers:
  assumes "msg_ok m" and "take (length (msg_bytes m) - 1) (drop n (frame s)) = tl (msg_bytes m)"
  shows "subframe K (hd (msg_bytes m) AND SUBFRAME_MASK) (unat (hd (msg_bytes m) AND NOT SUBFRAME_MASK)) n s =
    thn (deliver K m) (ret (length (msg_bytes m) - 1)) s"
proof -
  have then_ret: "thn m (thn a (thn b c)) s = thn (thn m (thn a b)) c s" for m a b :: "unit km" and c :: "nat km" and s
    by (simp add: thn_def bnd_assoc)
  show ?thesis
  proof (cases m)
    case (Mouse bs)
    then have "length bs div 3 * 3 = length bs" using assms(1) by simp
    then show ?thesis
      using Mouse assms for_bytes_seqs [of irkbd_handle_mouse bs n s] keeps_frame(2)
      by (auto simp: subframe_def header_split [simplified] keyboard_alive_def then_ret run_thn split: prod.splits sum.splits)
  next
    case (Keys bs)
    then have "for_bytes (handle_scancode K) n (length bs) (s\<lparr>history := h\<rparr>) =
      seqs (map (handle_scancode K) bs) (s\<lparr>history := h\<rparr>)" for h
      using assms(2) by (intro for_bytes_seqs keeps_frame(3)) auto
    then show ?thesis
      using Keys assms
      by (auto simp: subframe_def header_split [simplified] keyboard_alive_def run_simps say_def act_def
          split: prod.splits sum.splits)
  next
    case (Responses bs)
    then show ?thesis
      using assms for_bytes_seqs [of irkbd_handle_response bs n s] keeps_frame(1)
      by (auto simp: subframe_def small_byte [simplified] run_simps)
  qed
qed

lemma subframes_deliver:
  assumes "\<forall>m \<in> set ms. msg_ok m"
  shows "length (concat (map msg_bytes ms)) < 256 \<Longrightarrow>
    take (length (concat (map msg_bytes ms))) (drop n (frame s)) = concat (map msg_bytes ms) \<Longrightarrow>
    subframes K n (of_nat (length (concat (map msg_bytes ms)))) s = seqs (map (deliver K) ms) s"
  using assms
proof (induction ms arbitrary: n s)
  case Nil
  then show ?case by (simp add: subframes.simps [of K n] run_simps)
next
  case (Cons m ms)
  let ?r = "concat (map msg_bytes ms)" and ?k = "length (msg_bytes m) - 1"
  obtain h bs where m: "msg_bytes m = h # bs" by (cases m) auto
  have at: "take (Suc (length bs) + length ?r) (drop n (frame s)) = h # bs @ ?r"
    using Cons.prems m by simp
  then have n: "n < length (frame s)" by (cases "n < length (frame s)") auto
  then have "drop n (frame s) = frame s ! n # drop (Suc n) (frame s)" by (simp add: Cons_nth_drop_Suc)
  with at have h: "frame s ! n = h"
    and tl: "take (length bs + length ?r) (drop (Suc n) (frame s)) = bs @ ?r" by simp_all
  from arg_cong [OF tl, of "take (length bs)"] arg_cong [OF tl, of "drop (length bs)"]
  have bs: "take (length bs) (drop (Suc n) (frame s)) = bs"
    and r: "take (length ?r) (drop (Suc n + length bs) (frame s)) = ?r"
    by (simp_all add: drop_take add.commute)
  have len: "(of_nat (Suc (length bs) + length ?r) :: byte) > 0"
    unfolding len_pos unat_of_nat using Cons.prems(1) m by simp
  have sub: "subframe K (h AND SUBFRAME_MASK) (unat (h AND NOT SUBFRAME_MASK)) (Suc n) s =
      thn (deliver K m) (ret (length bs)) s"
    using subframe_delivers [of m "Suc n" s K] Cons.prems(3) m bs by simp
  have IH: "subframes K (Suc n + length bs) (of_nat (length ?r)) t = seqs (map (deliver K) ms) t"
    if "deliver K m s = (Inr (), t)" for t
  proof -
    have "thn (deliver K m) (ret (length bs)) s = (Inr (length bs), t)" using that by (simp add: run_simps)
    then have "frame t = frame s" using sub wp_returned [OF subframe_frame] by metis
    with Cons.prems m r show ?thesis by (intro Cons.IH) simp_all
  qed
  have "of_nat (Suc (length bs) + length ?r) - 1 - of_nat (length bs) = (of_nat (length ?r) :: byte)"
    by simp
  then show ?case
    using len n h m sub IH
    by (subst subframes.simps) (auto simp: run_simps split: prod.split sum.split)
qed

lemma packet_delivers:
  assumes "received K (history s @ [Call ''recv'' [sock s, 2048]]) = Some (packet ms)"
    and "\<forall>m \<in> set ms. msg_ok m" and "length (concat (map msg_bytes ms)) < 256"
    and "frame_ok (frame s)"
  shows "irkbd_data_indication K s = seqs (map (deliver K) ms)
    (s\<lparr>history := history s @ [Call ''recv'' [sock s, 2048]],
       frame := packet ms @ drop (length (packet ms)) (frame s)\<rparr>)"
proof -
  let ?c = "concat (map msg_bytes ms)"
  have "length (packet ms) \<le> 2048" using assms(3) by (simp add: packet_def)
  then have recv: "recv_frame K s = (Inr (int (length (packet ms))),
      s\<lparr>history := history s @ [Call ''recv'' [sock s, 2048]],
        frame := packet ms @ drop (length (packet ms)) (frame s)\<rparr>)" (is "_ = (_, ?t)")
    using assms(1) by (simp add: recv_frame_def run_simps act_def Let_def)
  have "frame_at 0 ?t = (Inr (of_nat (length ?c)), ?t)" by (simp add: frame_at_def packet_def)
  moreover have "subframes K 1 (of_nat (length ?c)) ?t = seqs (map (deliver K) ms) ?t"
    by (rule subframes_deliver [OF assms(2,3)]) (simp add: packet_def)
  moreover have "0 < length (packet ms)" by (simp add: packet_def)
  ultimately show ?thesis
    by (simp add: irkbd_data_indication_def run_simps recv)
qed

definition sample_cb :: irkbd_cb where
  "sample_cb = \<lparr>kstate = IRKBD_INIT_MOUSE, sock = 3, fifo = 4, kfd = 5, connected_flag = True,
     ksaddr = 0, kdaddr = 0, mtu_tx = 0, watchdog_timer = (1, 0), timer_running = True,
     frame = replicate IRKBD_BUF_SIZE 0, khead = 0, ktail = 0, power_save = 0, history = []\<rparr>"

text \<open>A system without errors on which every \<open>recv\<close> returns the same bytes.\<close>

definition sample_kernel :: "byte list option \<Rightarrow> kernel" where
  "sample_kernel r = \<lparr>answer = (\<lambda>_. 0), exists_already = (\<lambda>_. False), received = (\<lambda>_. r),
     link_mtu = (\<lambda>_. 0), enumerated = (\<lambda>_. Some [])\<rparr>"

text \<open>
  C22. A well-formed frame of the keyboard, with any number of subframes that fit into its length
  byte, is handled as the sequence of its subframes: every mouse byte goes to the fifo, every scan
  code to the console, every response to the state machine, in the order of the frame, and the
  timer is restarted after mouse and keyboard data.
\<close>

theorem packet_delivered:
  assumes "received K (history s @ [Call ''recv'' [sock s, 2048]]) = Some (packet ms)"
    and "\<forall>m \<in> set ms. msg_ok m" and "length (concat (map msg_bytes ms)) < 256"
    and "frame_ok (frame s)"
  shows "irkbd_data_indication K s = seqs (map (deliver K) ms)
    (s\<lparr>history := history s @ [Call ''recv'' [sock s, 2048]],
       frame := packet ms @ drop (length (packet ms)) (frame s)\<rparr>)"
  by (rule packet_delivers [OF assms])

text \<open>
  C23. Whatever arrives, the handler for data returns: no read is outside the 4096 bytes of the frame
  buffer, though neither the number of bytes received nor the remaining length is looked at and the
  length wraps around. What makes it so is that only half of the buffer is ever filled. The count
  of idle polls must not be near the largest \<open>int\<close>.
\<close>

theorem data_indication_returns:
  assumes "frame_ok (frame s)" and "0 \<le> power_save s" and "power_save s < 2147479552"
  shows "wp (irkbd_data_indication K) (\<lambda>_ t. frame_ok (frame t)) never s"
proof -
  have "wp (subframes K 1 len) (\<lambda>_ t. frame_ok (frame t)) never t"
    if "frame_ok (frame t)" "power_save t = power_save s" for len t
    by (rule wp_weaken [OF subframes_return [OF that(1)]])
       (use that assms in \<open>auto simp: handles_def polls_left_def\<close>)
  moreover have "0 < length (take 2048 bs @ drop (length (take 2048 bs)) (frame s))" for bs
    using frame_ok_received [OF assms(1), of bs] by (simp add: frame_ok_def IRKBD_BUF_SIZE_def)
  moreover have "0 < length (frame s)" using assms(1) by (simp add: frame_ok_def IRKBD_BUF_SIZE_def)
  moreover have "min (length bs) 2048 = 0 \<longleftrightarrow> bs = []" for bs :: "byte list" by (auto simp: min_def)
  ultimately show ?thesis
    using frame_ok_received [OF assms(1)] assms(1)
    by (auto simp: irkbd_data_indication_def recv_frame_def wp_simps say_def Let_def split: option.split)
qed

section \<open>What the program never does\<close>

definition kbd_inv :: "irkbd_cb \<Rightarrow> bool" where
  "kbd_inv s \<longleftrightarrow> frame_ok (frame s) \<and> kstate s \<noteq> IRKBD_INIT_KBD \<and>
     Send IRKBD_CMD_INIT_KBD \<notin> set (history s)"

lemma kbd_inv_said [intro]:
  "a \<noteq> Send IRKBD_CMD_INIT_KBD \<Longrightarrow> kbd_inv s \<Longrightarrow> kbd_inv (s\<lparr>history := history s @ [a]\<rparr>)"
  by (simp add: kbd_inv_def)

abbreviation keeps_inv :: "'a km \<Rightarrow> irkbd_cb \<Rightarrow> bool" where
  "keeps_inv m s \<equiv> wp m (\<lambda>_. kbd_inv) (\<lambda>_ _. True) s"

lemma handlers_keep_inv:
  assumes "kbd_inv s"
  shows "keeps_inv (irkbd_handle_response b) s" and "keeps_inv (irkbd_handle_mouse b) s"
    and "keeps_inv (handle_scancode K b) s" and "keeps_inv (sigalrm K) s"
  using assms
  by (auto simp: irkbd_handle_response_def irkbd_handle_mouse_def handle_scancode_def wp_simps say_def
      kbd_inv_def sigalrm_def irkbd_watchdog_timer_expired_def irkbd_data_request_def split: kbd_state.split)

lemma subframe_keeps_inv:
  assumes "kbd_inv s"
  shows "keeps_inv (subframe K ty sublen n) s"
proof -
  have "kbd_inv t \<Longrightarrow> kbd_inv (t\<lparr>power_save := 0, watchdog_timer := w, timer_running := on, history := history t @ [Setitimer a b]\<rparr>)" for t w a b on
    by (simp add: kbd_inv_def)
  moreover have "kbd_inv (s\<lparr>history := history s @ [Say c]\<rparr>)" for c
    using assms by (simp add: kbd_inv_def)
  ultimately show ?thesis
    using assms
    by (auto simp: subframe_def wp_simps say_def
        intro!: wp_weaken [OF for_bytes_inv [where I = kbd_inv]] handlers_keep_inv)
qed

lemma subframes_keep_inv: "kbd_inv s \<Longrightarrow> keeps_inv (subframes K n len) s"
proof (induction K n len s rule: subframes.induct)
  case (1 K n len s)
  then show ?case
    using subframe_keeps_inv [of s K "frame s ! n AND SUBFRAME_MASK"
        "unat (frame s ! n AND NOT SUBFRAME_MASK)" "n + 1"]
    by (auto simp: subframes.simps [of K n len] wp_def split: prod.splits sum.splits)
qed

lemma recv_keeps_inv: "kbd_inv s \<Longrightarrow> keeps_inv (recv_frame K) s"
  using frame_ok_received
  by (auto simp: recv_frame_def wp_simps Let_def kbd_inv_def split: option.split)

lemma data_keeps_inv:
  assumes "kbd_inv s"
  shows "keeps_inv (irkbd_data_indication K) s"
proof -
  have "kbd_inv t \<Longrightarrow> kbd_inv (t\<lparr>history := history t @ [Say c], connected_flag := False\<rparr>)" for t c
    by (simp add: kbd_inv_def)
  then show ?thesis
    unfolding irkbd_data_indication_def wp_bnd wp_thn
    by (auto simp: wp_simps say_def intro!: wp_weaken [OF recv_keeps_inv [OF assms]] subframes_keep_inv)
qed

lemma look_keeps_inv: "kbd_inv s \<Longrightarrow> keeps_inv (look_at_devices ds) s"
  by (induction ds arbitrary: s rule: look_at_devices.induct)
     (auto simp: wp_simps say_def kbd_inv_def)

lemma main_turn_keeps_inv:
  assumes "kbd_inv s"
  shows "keeps_inv (irkbd_main_turn K) s"
proof -
  have "keeps_inv (irkbd_discover_devices K) s"
    using assms by (auto simp: irkbd_discover_devices_def wp_simps die_def say_def split: option.split
        intro!: look_keeps_inv) (simp_all add: kbd_inv_def)
  then have "keeps_inv (irkbd_connect_request K) s"
    by (auto simp: irkbd_connect_request_def wp_simps die_def call_def kbd_inv_def elim!: wp_weaken)
  then show ?thesis
    by (auto simp: irkbd_main_turn_def wp_simps kbd_inv_def elim!: wp_weaken)
qed

lemma init_inv:
  assumes "history s = []"
  shows "keeps_inv (irkbd_init K) s"
  using assms by (auto simp: irkbd_init_def wp_simps die_def call_def kbd_inv_def clear_cb_def frame_ok_zero)

inductive_cases irkbd_stepE: "irkbd_step K p q"

lemma step_keeps_inv: "irkbd_step K p q \<Longrightarrow> kbd_inv (snd p) \<Longrightarrow> kbd_inv (snd q)"
  by (erule irkbd_stepE)
     (auto simp: act_def say_def run_simps kbd_inv_said
       dest: wp_returned [OF main_turn_keeps_inv] wp_returned [OF data_keeps_inv]
         wp_returned [OF handlers_keep_inv(4)])

text \<open>
  C17. In every state the program reaches, by any interleaving of its main loop and its signals and
  any answers of the system, the keyboard has not been sent the command that initialises it: \<open>main\<close>
  overwrites the state in which that would happen with the next one at once. The frame buffer is in
  the state in which the handler for data is safe.
\<close>

theorem keyboard_never_initialised:
  assumes "irkbd_reaches K (pc, s)"
  shows "Send IRKBD_CMD_INIT_KBD \<notin> set (history s) \<and> kstate s \<noteq> IRKBD_INIT_KBD \<and> frame_ok (frame s)"
proof -
  have "kbd_inv (snd p)" if "irkbd_reaches K p" for p
    using that
  proof (induction rule: irkbd_reaches.induct)
    case (started s0 s)
    then show ?case using wp_returned [OF init_inv] by simp
  next
    case (stepped p q)
    then show ?case by (blast intro: step_keeps_inv)
  qed
  from this [OF assms] show ?thesis by (simp add: kbd_inv_def)
qed

section \<open>A keyboard that answers\<close>

text \<open>The commands sent so far, and a system on which every command is answered by the keyboard.\<close>

fun commands :: "kact list \<Rightarrow> byte list" where
  "commands [] = []"
| "commands (a # h) = (case a of Send b \<Rightarrow> b # commands h | _ \<Rightarrow> commands h)"

lemma commands_append [simp]: "commands (h @ h') = commands h @ commands h'"
  by (induction h) (auto split: kact.split)

definition reply :: "kact list \<Rightarrow> kbd_msg" where
  "reply h = Responses [if commands h \<noteq> [] \<and> last (commands h) = IRKBD_CMD_ENABLE
     then IRKBD_RSP_RSPN41 else IRKBD_RSP_MSOK]"

definition answering :: "kernel \<Rightarrow> bool" where
  "answering K \<longleftrightarrow> (\<forall>h. answer K h = 0 \<and> received K h = Some (packet [reply h]))"

definition polling :: "byte list \<Rightarrow> int \<Rightarrow> irkbd_cb \<Rightarrow> bool" where
  "polling cs p s \<longleftrightarrow> frame_ok (frame s) \<and> kstate s = IRKBD_POLLING \<and> commands (history s) = cs \<and>
     cs \<noteq> [] \<and> last cs = IRKBD_CMD_ENABLE \<and> power_save s = p"

text \<open>The answer to the last command arrives, and then the timer runs out if it was started.\<close>

definition answer_and_timer :: "kernel \<Rightarrow> unit km" where
  "answer_and_timer K = thn (irkbd_data_indication K) (sigalrm K)"

lemma reply_received:
  assumes "answering K" and "frame_ok (frame s)"
  shows "\<exists>f. frame_ok f \<and> irkbd_data_indication K s = deliver K (reply (history s))
       (s\<lparr>history := history s @ [Call ''recv'' [sock s, 2048]], frame := f\<rparr>)"
proof -
  let ?h = "history s @ [Call ''recv'' [sock s, 2048]]"
  have "reply ?h = reply (history s)" by (simp add: reply_def)
  moreover have "irkbd_data_indication K s = seqs (map (deliver K) [reply ?h])
      (s\<lparr>history := ?h, frame := packet [reply ?h] @ drop (length (packet [reply ?h])) (frame s)\<rparr>)"
    using assms by (intro packet_delivers) (auto simp: answering_def reply_def)
  moreover have "frame_ok (packet [reply ?h] @ drop (length (packet [reply ?h])) (frame s))"
    using frame_ok_received [OF assms(2), of "packet [reply ?h]"] by (simp add: reply_def packet_def)
  moreover have "seqs [m] u = m u" for m :: "unit km" and u
    by (simp add: run_simps split: prod.split sum.split)
  ultimately show ?thesis by auto
qed

lemma poll_round:
  assumes "answering K" and "polling cs p s" and "p < 2147483647"
  shows "wp (answer_and_timer K)
    (\<lambda>_ t. polling (cs @ [IRKBD_CMD_ENABLE]) (p + 1) t \<and> timer_running t) never s"
proof -
  obtain f where "frame_ok f" "irkbd_data_indication K s = deliver K (reply (history s))
       (s\<lparr>history := history s @ [Call ''recv'' [sock s, 2048]], frame := f\<rparr>)"
    using reply_received [OF assms(1), of s] assms(2) by (auto simp: polling_def)
  then have "wp (irkbd_data_indication K) (\<lambda>_ t. polling cs (p + 1) t \<and> timer_running t) never s"
    using assms(2,3) by (simp add: wp_def polling_def reply_def run_simps irkbd_handle_response_def
        irkbd_start_watchdog_timer_def act_def)
  then show ?thesis
    unfolding answer_and_timer_def wp_thn
    by (rule wp_weaken)
       (use assms(1) in \<open>auto simp: polling_def sigalrm_def irkbd_watchdog_timer_expired_def irkbd_data_request_def
         wp_simps answering_def say_def\<close>)
qed

lemma poll_rounds:
  assumes "answering K"
  shows "polling cs p s \<Longrightarrow> p + int n \<le> 2147483647 \<Longrightarrow>
    wp (seqs (replicate n (answer_and_timer K)))
      (\<lambda>_ t. polling (cs @ replicate n IRKBD_CMD_ENABLE) (p + int n) t \<and> (0 < n \<longrightarrow> timer_running t)) never s"
proof (induction n arbitrary: cs p s)
  case 0
  then show ?case by (simp add: wp_simps)
next
  case (Suc n)
  have "wp (seqs (replicate n (answer_and_timer K)))
      (\<lambda>_ t. polling (cs @ replicate (Suc n) IRKBD_CMD_ENABLE) (p + int (Suc n)) t \<and> (0 < Suc n \<longrightarrow> timer_running t)) never t"
    if t: "polling (cs @ [IRKBD_CMD_ENABLE]) (p + 1) t" "timer_running t" for t
  proof (cases n)
    case 0
    with t show ?thesis by (simp add: wp_simps)
  next
    case (Suc m)
    with Suc.IH [OF t(1)] Suc.prems(2) show ?thesis by (simp add: algebra_simps)
  qed
  then show ?case
    using Suc.prems by (simp add: wp_simps) (auto intro!: wp_weaken [OF poll_round [OF assms]])
qed

text \<open>A turn of the outer loop that made a connection.\<close>

lemma connected_turn:
  "wp (irkbd_main_turn K) (\<lambda>ok t. ok \<longrightarrow> kstate t = IRKBD_INIT_MOUSE \<and> timer_running t) (\<lambda>_ _. True) s"
proof -
  have "wp (irkbd_connect_request K) (\<lambda>_ _. True) (\<lambda>_ _. True) s"
    by (simp add: wp_def split: prod.split sum.split)
  then show ?thesis
    unfolding irkbd_main_turn_def wp_bnd by (rule wp_weaken) (simp add: wp_simps)
qed

text \<open>
  C24. With a keyboard that answers every command, a new connection comes up and the polling goes on, although the timer runs
  out only once each time it is started: from the state in which \<open>main\<close> leaves it, with its timer started, the alarm, the answer
  and the alarm again send one command that initialises the mouse and the first poll, and each of any number of further
  rounds of answer and alarm sends exactly one more poll, stays in the polling state and leaves the timer running. (The
  number of rounds is limited by the count of idle polls, an \<open>int\<close>.)
\<close>

theorem polling_goes_on:
  assumes "answering K" and "frame_ok (frame s)" and "kstate s = IRKBD_INIT_MOUSE" and "timer_running s"
    and "commands (history s) = []" and "power_save s = 0" and "n \<le> 2147483647"
  shows "wp (seqs ([sigalrm K, irkbd_data_indication K, sigalrm K] @ replicate n (answer_and_timer K)))
    (\<lambda>_ t. kstate t = IRKBD_POLLING \<and> (0 < n \<longrightarrow> timer_running t) \<and>
       commands (history t) = IRKBD_CMD_INIT_MOUSE # replicate (n + 1) IRKBD_CMD_ENABLE) never s"
proof -
  define s1 where "s1 = s\<lparr>timer_running := False, history := history s @ [Say (Term ''Initializing mouse: '' []), Send IRKBD_CMD_INIT_MOUSE]\<rparr>"
  have alarm: "sigalrm K s = (Inr (), s1)"
    using assms(1,3,4) by (simp add: sigalrm_def irkbd_watchdog_timer_expired_def irkbd_data_request_def run_simps say_def
        act_def answering_def s1_def)
  obtain f where f: "frame_ok f" "irkbd_data_indication K s1 = deliver K (reply (history s1))
       (s1\<lparr>history := history s1 @ [Call ''recv'' [sock s1, 2048]], frame := f\<rparr>)"
    using reply_received [OF assms(1), of s1] assms(2) by (auto simp: s1_def)
  have up: "wp (answer_and_timer K)
      (\<lambda>_. polling [IRKBD_CMD_INIT_MOUSE, IRKBD_CMD_ENABLE] 0) never s1"
    using f assms by (simp add: wp_def answer_and_timer_def run_simps reply_def irkbd_handle_response_def say_def act_def s1_def
        irkbd_start_watchdog_timer_def sigalrm_def irkbd_watchdog_timer_expired_def irkbd_data_request_def
        answering_def polling_def)
  have "wp (thn (answer_and_timer K) (seqs (replicate n (answer_and_timer K))))
      (\<lambda>_ t. polling ([IRKBD_CMD_INIT_MOUSE, IRKBD_CMD_ENABLE] @ replicate n IRKBD_CMD_ENABLE) (0 + int n) t \<and>
        (0 < n \<longrightarrow> timer_running t)) never s1"
    unfolding wp_thn
    by (rule wp_weaken [OF up]) (rule poll_rounds [OF assms(1)], use assms(7) in simp_all)
  then show ?thesis
    using alarm by (auto simp: wp_def run_simps answer_and_timer_def polling_def split: prod.splits sum.splits)
qed

lemma sample_frame_ok: "frame_ok (frame sample_cb)"
  by (simp add: sample_cb_def frame_ok_zero)

theorem packet_delivered_witness:
  "\<exists>t. irkbd_data_indication (sample_kernel (Some (packet [Mouse [8, 1, 2], Keys [0x1e]]))) sample_cb = (Inr (), t) \<and>
     history t = [Call ''recv'' [3, 2048], Fifo 8, Fifo 1, Fifo 2, Setitimer 0 15000,
       Say (Term (ln ''Test!'') []), Inject 0x1e, Setitimer 0 15000]"
  by (subst packet_delivered [where ms = "[Mouse [8, 1, 2], Keys [0x1e]]"])
     (simp_all add: sample_frame_ok numeral_3_eq_3 [symmetric], simp_all add: sample_cb_def sample_kernel_def
       run_simps irkbd_handle_mouse_def handle_scancode_def keyboard_alive_def irkbd_start_watchdog_timer_def act_def say_def)

theorem data_indication_returns_witness:
  "wp (irkbd_data_indication (sample_kernel (Some [3, 0x7f]))) (\<lambda>_ t. frame_ok (frame t)) never sample_cb"
  by (rule data_indication_returns) (simp_all add: sample_frame_ok, simp_all add: sample_cb_def)

theorem keyboard_never_initialised_witness:
  "\<exists>s. irkbd_reaches (sample_kernel None) (Connecting, s) \<and> Send IRKBD_CMD_INIT_KBD \<notin> set (history s)"
proof -
  have "\<exists>s. irkbd_init (sample_kernel None) sample_cb = (Inr (), s)"
    by (simp add: irkbd_init_def run_simps call_def act_def sample_kernel_def)
  then obtain s where "irkbd_init (sample_kernel None) sample_cb = (Inr (), s)" ..
  then have "irkbd_reaches (sample_kernel None) (Connecting, s)"
    by (rule irkbd_reaches.started) (simp add: sample_cb_def)
  with keyboard_never_initialised [OF this] show ?thesis by blast
qed

theorem polling_goes_on_witness:
  "let K = sample_kernel None\<lparr>received := \<lambda>h. Some (packet [reply h])\<rparr> in
   wp (seqs ([sigalrm K, irkbd_data_indication K, sigalrm K] @ replicate 200 (answer_and_timer K)))
    (\<lambda>_ t. kstate t = IRKBD_POLLING \<and> (0 < (200::nat) \<longrightarrow> timer_running t) \<and>
       commands (history t) = IRKBD_CMD_INIT_MOUSE # replicate (200 + 1) IRKBD_CMD_ENABLE) never sample_cb"
  unfolding Let_def
  by (rule polling_goes_on) (simp_all add: sample_frame_ok,
      simp_all add: sample_cb_def sample_kernel_def answering_def)

text \<open>
  C25. When the connection is lost, the frame received before is handled once more: after a failed
  \<open>recv\<close> the handler goes on with what the buffer holds, so the last key presses and mouse movements
  are delivered twice.
\<close>

theorem lost_connection_replays_frame:
  assumes "received K (history s @ [Call ''recv'' [sock s, 2048]]) = None"
    and "\<forall>m \<in> set ms. msg_ok m" and "length (concat (map msg_bytes ms)) < 256"
    and "frame s = packet ms @ rest"
  shows "irkbd_data_indication K s = seqs (map (deliver K) ms)
    (s\<lparr>history := history s @ [Call ''recv'' [sock s, 2048], Say (Term (ln ''Disconnected!'') [])],
       connected_flag := False\<rparr>)"
proof -
  let ?t = "s\<lparr>history := history s @ [Call ''recv'' [sock s, 2048], Say (Term (ln ''Disconnected!'') [])],
       connected_flag := False\<rparr>"
  let ?c = "concat (map msg_bytes ms)"
  have "subframes K 1 (of_nat (length ?c)) ?t = seqs (map (deliver K) ms) ?t"
    by (rule subframes_deliver [OF assms(2,3)]) (simp add: assms(4) packet_def)
  then show ?thesis
    using assms(1,4)
    by (simp add: irkbd_data_indication_def recv_frame_def run_simps act_def say_def frame_at_def packet_def)
qed

theorem lost_connection_replays_frame_witness:
  "\<exists>t. irkbd_data_indication (sample_kernel None) (sample_cb\<lparr>frame := packet [Keys [0x1e]]\<rparr>) = (Inr (), t) \<and>
     Inject 0x1e \<in> set (history t) \<and> \<not> connected_flag t"
  by (subst lost_connection_replays_frame [where ms = "[Keys [0x1e]]" and rest = "[]"])
     (simp_all add: sample_cb_def sample_kernel_def run_simps
       handle_scancode_def keyboard_alive_def irkbd_start_watchdog_timer_def act_def say_def)

end
