(* ===== verification/Port_Io.thy ===== *)
theory Port_Io
  imports Prelude
begin

text \<open>
  What the three chip probes of findchip share (\<open>findchip/findchip.h\<close> and \<open>print_info\<close> of
  \<open>findchip/findchip.c\<close>): access to I/O ports, debug output, the description of a chip. The
  hardware is a parameter: what a read of a port gives may depend on all port accesses before it.
\<close>

section \<open>State\<close>

text \<open>\<open>struct chip_info\<close>.\<close>

record chip_info =
  manufacturer :: string
  chip_name :: string
  chip_id :: int
  revision :: int
  cfg_base :: int
  sir_base :: int
  fir_base :: int
  irq :: int
  dma :: int
  uart_comp :: int
  enabled :: int
  suspended :: int
  delay :: int

text \<open>\<open>memset(&info, 0, sizeof(struct chip_info))\<close>.\<close>

definition clear_info :: chip_info where
  "clear_info = \<lparr>manufacturer = [], chip_name = [], chip_id = 0, revision = 0, cfg_base = 0,
     sir_base = 0, fir_base = 0, irq = 0, dma = 0, uart_comp = 0, enabled = 0, suspended = 0,
     delay = 0\<rparr>"

text \<open>A port access: a byte written to a port, a byte read from a port.\<close>

datatype io = Out byte u16 | In byte u16

type_synonym hardware = "io list \<Rightarrow> u16 \<Rightarrow> byte"

text \<open>
  \<open>infos\<close> are the descriptions handed to \<open>print_info\<close>, \<open>printed\<close> is everything printed.
\<close>

record probing =
  ios :: "io list"
  infos :: "chip_info list"
  printed :: "tcall list"
  verbose_flag :: bool
  debug_flag :: bool

type_synonym 'a pm = "(probing, 'a) cm"

section \<open>Ports\<close>

text \<open>
  \<open>main\<close> calls \<open>ioperm(0, 0x3ff, 1)\<close>, which gives access to the 0x3ff ports from 0 to 0x3fe. An
  access to another port is a segmentation fault.
\<close>

definition allowed :: "u16 \<Rightarrow> bool" where
  "allowed p \<longleftrightarrow> unat p < 0x3ff"

definition outb :: "byte \<Rightarrow> int \<Rightarrow> unit pm" where
  "outb v port = (let p = word_of_int port in
     thn (check Oob_write (allowed p)) (modify (\<lambda>s. s\<lparr>ios := ios s @ [Out v p]\<rparr>)))"

definition inb :: "hardware \<Rightarrow> int \<Rightarrow> byte pm" where
  "inb H port = (let p = word_of_int port in
     thn (check Oob_read (allowed p)) (
     bnd (gets (\<lambda>s. H (ios s) p)) (\<lambda>v.
     thn (modify (\<lambda>s. s\<lparr>ios := ios s @ [In v p]\<rparr>)) (ret v))))"

text \<open>\<open>outb(reg, base); inb(data)\<close>: what all chips are read with.\<close>

definition rd_cfg :: "hardware \<Rightarrow> byte \<Rightarrow> int \<Rightarrow> int \<Rightarrow> byte pm" where
  "rd_cfg H reg index_port data_port = thn (outb reg index_port) (inb H data_port)"

section \<open>Output\<close>

definition prt :: "string \<Rightarrow> varg list \<Rightarrow> unit pm" where
  "prt fmt args = modify (\<lambda>s. s\<lparr>printed := printed s @ [Term fmt args]\<rparr>)"

definition DEBUG :: "string \<Rightarrow> varg list \<Rightarrow> unit pm" where
  "DEBUG fmt args = bnd (gets debug_flag) (\<lambda>d. doif d (prt fmt args))"

definition yes_no :: "int \<Rightarrow> varg" where
  "yes_no n = Sl (if n \<noteq> 0 then ''yes'' else ''no'')"

definition info_lines :: "bool \<Rightarrow> chip_info \<Rightarrow> tcall list" where
  "info_lines v info =
    (if v then [
       Term (ln ''Found %s %s Controller at 0x%x, DevID=0x%02x, Rev. %d'')
         [Sl (manufacturer info), Sl (chip_name info), Ii (cfg_base info), Ii (chip_id info), Ii (revision info)],
       Term (ln ''    SIR Base 0x%x, FIR Base 0x%x'') [Ii (sir_base info), Ii (fir_base info)],
       Term (ln ''    IRQ = %d, DMA = %d'') [Ii (irq info), Ii (dma info)],
       Term (ln ''    Enabled: %s, Suspended: %s'') [yes_no (enabled info), yes_no (suspended info)],
       Term (ln ''    UART compatible: %s'') [yes_no (uart_comp info)],
       Term (ln ''    Half duplex delay = %d us'') [Ii (delay info)]]
     else [
       Term (ln ''%s,%s,%d.%d,0x%x,0x%x,0x%x,%d,%d,%d,%d,%d'')
         [Sl (manufacturer info), Sl (chip_name info), Ii (chip_id info), Ii (revision info),
          Ii (cfg_base info), Ii (sir_base info), Ii (fir_base info), Ii (irq info), Ii (dma info),
          Ii (enabled info), Ii (suspended info), Ii (uart_comp info)]])"

definition print_info :: "chip_info \<Rightarrow> unit pm" where
  "print_info info = bnd (gets verbose_flag) (\<lambda>v. modify (\<lambda>s.
     s\<lparr>infos := infos s @ [info], printed := printed s @ info_lines v info\<rparr>))"

section \<open>Reasoning about probes\<close>

lemma wp_outb [wp_simps]:
  "wp (outb v port) Q E s =
    (if allowed (word_of_int port) then Q () (s\<lparr>ios := ios s @ [Out v (word_of_int port)]\<rparr>) else E Oob_write s)"
  by (simp add: outb_def Let_def wp_simps)

lemma wp_inb [wp_simps]:
  "wp (inb H port) Q E s =
    (let p = word_of_int port; v = H (ios s) p in
     if allowed p then Q v (s\<lparr>ios := ios s @ [In v p]\<rparr>) else E Oob_read s)"
  by (simp add: inb_def Let_def wp_simps)

lemma wp_rd_cfg [wp_simps]: "wp (rd_cfg H reg i d) Q E = wp (outb reg i) (\<lambda>_. wp (inb H d) Q E) E"
  by (simp add: rd_cfg_def wp_simps)

lemma wp_prt [wp_simps]: "wp (prt f a) Q E s = Q () (s\<lparr>printed := printed s @ [Term f a]\<rparr>)"
  by (simp add: prt_def wp_simps)

lemma wp_DEBUG [wp_simps]:
  "wp (DEBUG f a) Q E s = Q () (s\<lparr>printed := printed s @ (if debug_flag s then [Term f a] else [])\<rparr>)"
  by (simp add: DEBUG_def wp_simps)

lemma wp_print_info [wp_simps]:
  "wp (print_info info) Q E s =
     Q () (s\<lparr>infos := infos s @ [info], printed := printed s @ info_lines (verbose_flag s) info\<rparr>)"
  by (simp add: print_info_def wp_simps)

text \<open>The bytes written, each with its port.\<close>

definition outs :: "io list \<Rightarrow> (byte \<times> u16) list" where
  "outs h = concat (map (\<lambda>a. case a of Out v p \<Rightarrow> [(v, p)] | In _ _ \<Rightarrow> []) h)"

lemma outs_simps [simp]:
  "outs [] = []" "outs (h @ h') = outs h @ outs h'" "outs (Out v p # h) = (v, p) # outs h"
  "outs (In v p # h) = outs h"
  by (simp_all add: outs_def)

text \<open>
  A chip with a register file behind an index and a data port: what is written to the index port
  selects the register that the data port reads, and can be read back. No other port answers.
\<close>

fun selected :: "u16 \<Rightarrow> byte \<Rightarrow> io list \<Rightarrow> byte" where
  "selected base i [] = i"
| "selected base i (Out v p # h) = selected base (if p = base then v else i) h"
| "selected base i (In v p # h) = selected base i h"

lemma selected_append [simp]: "selected base i (h @ h') = selected base (selected base i h) h'"
  by (induction base i h rule: selected.induct) simp_all

definition chip_at :: "u16 \<Rightarrow> byte \<Rightarrow> (byte \<Rightarrow> byte) \<Rightarrow> hardware" where
  "chip_at base i0 regs h p =
    (if p = base then selected base i0 h
     else if p = base + 1 then regs (selected base i0 h) else 0xff)"

text \<open>The state at the start of the program.\<close>

definition start_probing :: probing where
  "start_probing = \<lparr>ios = [], infos = [], printed = [], verbose_flag = False, debug_flag = False\<rparr>"

section \<open>Configuration modes\<close>

text \<open>
  A chip shows its configuration registers after a key was written to a port, until a closing value is written there. At 0x3f0
  and 0x370 the keys are 0x55 (SMC chips), 0x86 and 0x87 (Winbond chips), and 0xAA closes. At 0x250 the table of the Winbond
  probe has the keys 0x88 and 0x89, and for each of them the same value as the one that closes. \<open>in_config p\<close> is the key with
  which the accesses leave the registers at \<open>p\<close> open, \<open>None\<close> when they are closed.
\<close>

definition config_write :: "u16 \<Rightarrow> byte \<Rightarrow> byte option \<Rightarrow> byte option" where
  "config_write p v on =
     (if p = 0x250 then (case on of None \<Rightarrow> if v = 0x88 \<or> v = 0x89 then Some v else None
        | Some key \<Rightarrow> if v = key then None else on)
      else if v = 0x55 \<or> v = 0x86 \<or> v = 0x87 then Some v else if v = 0xAA then None else on)"

fun in_config :: "u16 \<Rightarrow> byte option \<Rightarrow> io list \<Rightarrow> byte option" where
  "in_config p on [] = on"
| "in_config p on (Out v q # h) = in_config p (if q = p then config_write p v on else on) h"
| "in_config p on (In v q # h) = in_config p on h"

lemma in_config_append [simp]: "in_config p on (h @ h') = in_config p (in_config p on h) h'"
  by (induction p on h rule: in_config.induct) simp_all

definition is_open :: "u16 \<Rightarrow> probing \<Rightarrow> bool" where
  "is_open p s \<longleftrightarrow> in_config p None (ios s) \<noteq> None"

lemma is_open_print [simp]:
  "is_open p (s\<lparr>printed := x\<rparr>) = is_open p s" "is_open p (s\<lparr>infos := i\<rparr>) = is_open p s"
  by (simp_all add: is_open_def)

abbreviation closed_at :: "u16 \<Rightarrow> probing \<Rightarrow> bool" where
  "closed_at q s \<equiv> \<not> is_open q s"

text \<open>The registers at \<open>q\<close> are open with a key, or closed.\<close>

abbreviation config_at :: "u16 \<Rightarrow> byte option \<Rightarrow> probing \<Rightarrow> bool" where
  "config_at q on s \<equiv> in_config q None (ios s) = on"

lemma closed_config: "closed_at q = config_at q None"
  by (simp add: is_open_def fun_eq_iff)

lemma print_keeps [keeps_rules]:
  "keeps (config_at q on) E (DEBUG f a)" "keeps (config_at q on) E (print_info i)"
  by (simp_all add: keeps_def wp_simps)

text \<open>Every port at which a probe opens registers is closed.\<close>

definition config_ports :: "u16 set" where
  "config_ports = {0x3f0, 0x370, 0x250}"

definition all_closed :: "probing \<Rightarrow> bool" where
  "all_closed s \<longleftrightarrow> (\<forall>p \<in> config_ports. \<not> is_open p s)"

lemma all_closed_iff: "all_closed s \<longleftrightarrow> \<not> is_open 0x3f0 s \<and> \<not> is_open 0x370 s \<and> \<not> is_open 0x250 s"
  by (simp add: all_closed_def config_ports_def)

lemma keeps_all_closed:
  assumes "\<And>p. p \<in> config_ports \<Longrightarrow> keeps (closed_at p) E m"
  shows "keeps all_closed E m"
proof (rule keepsI)
  fix s
  assume s: "all_closed s"
  have "wp m (\<lambda>_. closed_at p) E s" if "p \<in> config_ports" for p
    by (rule keepsD [OF assms [OF that]]) (use s that in \<open>simp add: all_closed_def\<close>)
  then have "wp m (\<lambda>_. closed_at 0x3f0) E s" "wp m (\<lambda>_. closed_at 0x370) E s" "wp m (\<lambda>_. closed_at 0x250) E s"
    by (simp_all add: config_ports_def)
  from wp_conj [OF this(1) wp_conj [OF this(2,3)]] show "wp m (\<lambda>_. all_closed) E s"
    by (rule wp_mono) (simp_all add: all_closed_iff)
qed

lemma all_closed_print [simp]:
  "all_closed (s\<lparr>printed := x\<rparr>) = all_closed s" "all_closed (s\<lparr>infos := i\<rparr>) = all_closed s"
  by (simp_all add: all_closed_iff)

lemma prints_keep_both [keeps_rules]:
  "keeps all_closed E (DEBUG f a)" "keeps all_closed E (prt f a)" "keeps all_closed E (print_info i)"
  by (simp_all add: keeps_def wp_simps all_closed_iff is_open_def)

abbreviation port_fault :: "fault \<Rightarrow> 's \<Rightarrow> bool" where
  "port_fault e s \<equiv> e = Oob_read \<or> e = Oob_write"

section \<open>The contract of a probe\<close>

text \<open>
  What \<open>main\<close> relies on when it calls one probe after the other: a probe that is started with all
  configuration registers hidden hides them again before it returns, and stops only at a port it has
  no permission for. Each of the three probes interprets the locale.
\<close>

locale chip_probe =
  fixes probe :: "hardware \<Rightarrow> unit pm" and may_stop :: "fault \<Rightarrow> probing \<Rightarrow> bool"
  assumes hides: "keeps all_closed may_stop (probe H)"
    and faults: "may_stop e s \<Longrightarrow> port_fault e s"
begin

lemma guarded: "keeps all_closed port_fault (probe H)"
  by (rule keeps_weaken [OF hides]) (rule faults)

lemma chosen: "keeps all_closed port_fault (doif c (probe H))"
  by (intro keeps_doif guarded)

lemma from_start:
  assumes "ios s = []"
  shows "wp (probe H) (\<lambda>_ t. \<forall>p \<in> config_ports. \<not> is_open p t) port_fault s"
proof -
  have "all_closed s" using assms by (simp add: all_closed_iff is_open_def)
  from keepsD [OF guarded this] show ?thesis
    by (rule wp_weaken) (simp add: all_closed_def)
qed

end

end
