(* ===== verification/Smc.thy ===== *)
theory Smc
  imports Port_Io
begin

text \<open>
  The probe for the infrared controllers of SMC (\<open>findchip/smc.c\<close>). These chips show their
  configuration registers only after a key has been written to the configuration port, until they
  are told to hide them again.
\<close>

abbreviation IRCC_MASTER :: int where "IRCC_MASTER \<equiv> 0x07"
abbreviation IRCC_CHIP_ID :: int where "IRCC_CHIP_ID \<equiv> 0x02"
abbreviation IRCC_VERSION :: int where "IRCC_VERSION \<equiv> 0x03"
abbreviation SMC_DISCONF :: byte where "SMC_DISCONF \<equiv> 0xAA"
abbreviation CR02 :: byte where "CR02 \<equiv> 0x02"
abbreviation CR25 :: byte where "CR25 \<equiv> 0x25"
abbreviation CR28 :: byte where "CR28 \<equiv> 0x28"
abbreviation CR2B :: byte where "CR2B \<equiv> 0x2b"
abbreviation CR2C :: byte where "CR2C \<equiv> 0x2c"
abbreviation CR2D :: byte where "CR2D \<equiv> 0x2d"

datatype smc_probe = Probe_69 | Probe_58

record smc_chip_info_t =
  smc_name :: string
  smc_cfg :: "int list"
  entr1 :: byte
  entr2 :: byte
  smc_cid_index :: byte
  smc_cid_value :: byte
  smc_probe_of :: smc_probe

definition smc_chips :: "smc_chip_info_t list" where
  "smc_chips = [
    \<lparr>smc_name = ''FDC37C669'', smc_cfg = [0x3f0, 0x370], entr1 = 0x55, entr2 = 0x55,
      smc_cid_index = 0x0d, smc_cid_value = 0x03, smc_probe_of = Probe_69\<rparr>,
    \<lparr>smc_name = ''FDC37C669FR'', smc_cfg = [0x3f0, 0x370], entr1 = 0x55, entr2 = 0x55,
      smc_cid_index = 0x0d, smc_cid_value = 0x04, smc_probe_of = Probe_69\<rparr>,
    \<lparr>smc_name = ''FDC37N869'', smc_cfg = [0x3f0, 0x370], entr1 = 0x55, entr2 = 0x00,
      smc_cid_index = 0x0d, smc_cid_value = 0x29, smc_probe_of = Probe_69\<rparr>,
    \<lparr>smc_name = ''FDC37C93xFR'', smc_cfg = [0x3f0, 0x370], entr1 = 0x55, entr2 = 0x55,
      smc_cid_index = 0x20, smc_cid_value = 0x03, smc_probe_of = Probe_58\<rparr>,
    \<lparr>smc_name = ''FDC37N957FR'', smc_cfg = [0x3f0, 0x370], entr1 = 0x55, entr2 = 0x55,
      smc_cid_index = 0x20, smc_cid_value = 0x07, smc_probe_of = Probe_58\<rparr>,
    \<lparr>smc_name = ''FDC37N958FR'', smc_cfg = [0x3f0, 0x370], entr1 = 0x55, entr2 = 0x55,
      smc_cid_index = 0x20, smc_cid_value = 0x09, smc_probe_of = Probe_58\<rparr>]"

definition register_bank :: "hardware \<Rightarrow> int \<Rightarrow> byte \<Rightarrow> unit pm" where
  "register_bank H port bank =
    bnd (inb H (port + IRCC_MASTER)) (\<lambda>v.
    outb ((v AND 0xF0) OR (bank AND 0x07)) (port + IRCC_MASTER))"

text \<open>
  The common part of both probes when there is a FIR base: the delay, from register \<open>reg\<close>, and
  identification and version of the infrared block.
\<close>

definition fir_block :: "hardware \<Rightarrow> byte \<Rightarrow> int \<Rightarrow> int \<Rightarrow> chip_info \<Rightarrow> chip_info pm" where
  "fir_block H reg confreg fir info =
    (if fir \<noteq> 0 then
       bnd (rd_cfg H reg confreg (confreg + 1)) (\<lambda>d.
       thn (register_bank H fir 3) (
       bnd (inb H (fir + IRCC_CHIP_ID)) (\<lambda>cid.
       bnd (inb H (fir + IRCC_VERSION)) (\<lambda>ver.
       ret (info\<lparr>delay := uint d, chip_id := uint (cid AND 0x0f), revision := uint ver\<rparr>)))))
     else ret info)"

definition probe_69 :: "hardware \<Rightarrow> string \<Rightarrow> int \<Rightarrow> int pm" where
  "probe_69 H name confreg =
    bnd (rd_cfg H CR25 confreg (confreg + 1)) (\<lambda>cr25.
    bnd (rd_cfg H CR2C confreg (confreg + 1)) (\<lambda>cr2c.
    bnd (rd_cfg H CR28 confreg (confreg + 1)) (\<lambda>cr28.
    bnd (rd_cfg H CR2B confreg (confreg + 1)) (\<lambda>cr2b.
    let fir = push_bit 3 (uint cr2b) in
    bnd (fir_block H CR2D confreg fir
      (clear_info\<lparr>sir_base := push_bit 2 (uint cr25), dma := uint cr2c, irq := uint (cr28 AND 0x0F)\<rparr>)) (\<lambda>info.
    bnd (rd_cfg H CR02 confreg (confreg + 1)) (\<lambda>cr02.
    thn (print_info (info\<lparr>manufacturer := ''SMC'', chip_name := name, cfg_base := confreg,
      fir_base := fir, enabled := uint (cr02 AND 0x80), uart_comp := 1\<rparr>))
    (ret fir)))))))"

definition probe_58 :: "hardware \<Rightarrow> string \<Rightarrow> int \<Rightarrow> int pm" where
  "probe_58 H name confreg =
    thn (outb 0x07 confreg) (
    thn (outb 0x05 (confreg + 1)) (
    bnd (rd_cfg H 0x60 confreg (confreg + 1)) (\<lambda>sir_hi.
    bnd (rd_cfg H 0x61 confreg (confreg + 1)) (\<lambda>sir_lo.
    bnd (rd_cfg H 0x74 confreg (confreg + 1)) (\<lambda>r74.
    bnd (rd_cfg H 0x70 confreg (confreg + 1)) (\<lambda>r70.
    bnd (rd_cfg H 0x62 confreg (confreg + 1)) (\<lambda>fir_hi.
    bnd (rd_cfg H 0x63 confreg (confreg + 1)) (\<lambda>fir_lo.
    let fir = push_bit 8 (uint fir_hi) OR uint fir_lo in
    bnd (fir_block H 0xf2 confreg fir
      (clear_info\<lparr>sir_base := push_bit 8 (uint sir_hi) OR uint sir_lo, dma := uint r74,
         irq := uint (r70 AND 0x0F)\<rparr>)) (\<lambda>info.
    bnd (rd_cfg H 0x22 confreg (confreg + 1)) (\<lambda>r22.
    thn (print_info (info\<lparr>manufacturer := ''SMC'', chip_name := name, cfg_base := confreg,
      fir_base := fir, enabled := uint (r22 AND 0x20), uart_comp := 1\<rparr>))
    (ret fir)))))))))))"

text \<open>
  One chip of the table at one configuration port; the result is the FIR base, 0 when none was
  found. The search goes on while it is 0.
\<close>

definition probe_smc_at :: "hardware \<Rightarrow> smc_chip_info_t \<Rightarrow> int \<Rightarrow> int pm" where
  "probe_smc_at H chp port =
    thn (outb (entr1 chp) port) (
    thn (doif (entr2 chp \<noteq> 0) (outb (entr2 chp) port)) (
    bnd (rd_cfg H (smc_cid_index chp) port (port + 1)) (\<lambda>devid.
    bnd (if devid = smc_cid_value chp
         then (case smc_probe_of chp of Probe_69 \<Rightarrow> probe_69 H | Probe_58 \<Rightarrow> probe_58 H) (smc_name chp) port
         else thn (DEBUG (ln ''Wrong chip id=0x%02x'') [Ib devid]) (ret 0)) (\<lambda>fir.
    thn (outb SMC_DISCONF port) (ret fir)))))"

fun probe_smc_cfgs :: "hardware \<Rightarrow> smc_chip_info_t \<Rightarrow> int list \<Rightarrow> int pm" where
  "probe_smc_cfgs H chp [] = ret 0"
| "probe_smc_cfgs H chp (p # ps) =
    bnd (probe_smc_at H chp p) (\<lambda>fir. if fir = 0 then probe_smc_cfgs H chp ps else ret fir)"

fun probe_smc_chips :: "hardware \<Rightarrow> smc_chip_info_t list \<Rightarrow> unit pm" where
  "probe_smc_chips H [] = ret ()"
| "probe_smc_chips H (chp # cs) =
    thn (DEBUG (ln ''Probing for %s ...'') [Sl (smc_name chp)]) (
    bnd (probe_smc_cfgs H chp (smc_cfg chp)) (\<lambda>fir.
      if fir = 0 then probe_smc_chips H cs else ret ()))"

definition probe_smc :: "hardware \<Rightarrow> unit pm" where
  "probe_smc H = probe_smc_chips H smc_chips"

section \<open>Properties\<close>

lemma bank_value:
  "(v AND 0xF0) OR 3 \<noteq> (0x55 :: byte)" "(v AND 0xF0) OR 3 \<noteq> (0x86 :: byte)" "(v AND 0xF0) OR 3 \<noteq> (0x87 :: byte)"
  "(v AND 0xF0) OR 3 \<noteq> (0x88 :: byte)" "(v AND 0xF0) OR 3 \<noteq> (0x89 :: byte)"
  by (auto simp: byte_eq_iff bit_simps)

lemma fir_block_elsewhere:
  assumes "word_of_int confreg \<noteq> q"
  shows "keeps (closed_at q) port_fault (fir_block H reg confreg fir info)"
  by (rule keepsI)
    (use assms in \<open>auto simp: fir_block_def register_bank_def wp_simps Let_def is_open_def bank_value config_write_def\<close>)

lemma port_elsewhere:
  assumes "word_of_int a \<noteq> q"
  shows "keeps (closed_at q) port_fault (outb v a)" "keeps (closed_at q) port_fault (rd_cfg H r a d)"
  using assms by (auto simp: keeps_def wp_simps is_open_def Let_def)

lemma print_elsewhere: "keeps (closed_at q) E (DEBUG f a)" "keeps (closed_at q) E (print_info i)"
  by (simp_all add: closed_config print_keeps)

lemma probes_elsewhere:
  assumes "word_of_int confreg \<noteq> q" and "word_of_int (confreg + 1) \<noteq> q"
  shows "keeps (closed_at q) port_fault (probe_69 H name confreg)" and "keeps (closed_at q) port_fault (probe_58 H name confreg)"
  unfolding probe_69_def probe_58_def
  by (intro keeps_bnd keeps_thn keeps_ret keeps_Let port_elsewhere print_elsewhere fir_block_elsewhere assms)+

text \<open>A chip at the port \<open>p\<close>: other ports stay closed, and the last write closes \<open>p\<close>.\<close>

lemma probe_smc_at_elsewhere:
  assumes "word_of_int p \<noteq> q" and "word_of_int (p + 1) \<noteq> q"
  shows "keeps (closed_at q) port_fault (probe_smc_at H chp p)"
proof -
  have "keeps (closed_at q) port_fault ((case smc_probe_of chp of Probe_69 \<Rightarrow> probe_69 H | Probe_58 \<Rightarrow> probe_58 H) name p)" for name
    using probes_elsewhere [OF assms] by (simp split: smc_probe.split)
  then show ?thesis
    unfolding probe_smc_at_def
    by (intro keeps_bnd keeps_thn keeps_ret keeps_doif keeps_if port_elsewhere print_elsewhere assms)
qed

lemma probe_smc_at_shuts:
  assumes "p \<in> {0x3f0, 0x370}"
  shows "keeps (closed_at (word_of_int p)) port_fault (probe_smc_at H chp p)"
proof (rule keepsI)
  fix s
  have fine: "keeps (\<lambda>_. True) port_fault (outb v a)" "keeps (\<lambda>_. True) port_fault (rd_cfg H r a d)"
    "keeps (\<lambda>_. True) port_fault (DEBUG f x)" "keeps (\<lambda>_. True) port_fault (print_info i)" for v a r d f x i
    by (simp_all add: keeps_def wp_simps Let_def)
  have block: "keeps (\<lambda>_. True) port_fault (fir_block H r c fir info)" for r c fir info
    by (simp add: keeps_def fir_block_def register_bank_def wp_simps Let_def)
  have "keeps (\<lambda>_. True) port_fault (probe_69 H name p)" "keeps (\<lambda>_. True) port_fault (probe_58 H name p)" for name
    unfolding probe_69_def probe_58_def by (intro keeps_bnd keeps_thn keeps_ret keeps_Let fine block)+
  then have probe: "keeps (\<lambda>_. True) port_fault ((case smc_probe_of chp of Probe_69 \<Rightarrow> probe_69 H | Probe_58 \<Rightarrow> probe_58 H) name p)" for name
    by (simp split: smc_probe.split)
  have shut: "wp (outb SMC_DISCONF p) (\<lambda>_. closed_at (word_of_int p)) port_fault t" for t
    using assms by (auto simp: wp_simps is_open_def config_write_def)
  show "wp (probe_smc_at H chp p) (\<lambda>_. closed_at (word_of_int p)) port_fault s"
    unfolding probe_smc_at_def
    by (rule wp_thn_any, rule fine, rule wp_thn_any, intro keeps_doif fine, rule wp_bnd_any, rule fine,
        rule wp_bnd_any, intro keeps_if keeps_thn keeps_ret fine probe) (simp add: wp_thn wp_ret shut)
qed

lemma probe_smc_at_closes:
  assumes "p \<in> {0x3f0, 0x370}"
  shows "keeps all_closed port_fault (probe_smc_at H chp p)"
proof (rule keeps_all_closed)
  fix q
  assume q: "q \<in> config_ports"
  show "keeps (closed_at q) port_fault (probe_smc_at H chp p)"
  proof (cases "word_of_int p = q")
    case True
    then show ?thesis
      using probe_smc_at_shuts [OF assms] by simp
  next
    case False
    then show ?thesis
      by (rule probe_smc_at_elsewhere) (use assms q in \<open>auto simp: config_ports_def\<close>)
  qed
qed

lemma smc_cfg_ports: "chp \<in> set smc_chips \<Longrightarrow> set (smc_cfg chp) \<subseteq> {0x3f0, 0x370}"
  by (auto simp: smc_chips_def)

lemma probe_smc_cfgs_keeps:
  "set ps \<subseteq> {0x3f0, 0x370} \<Longrightarrow> chp \<in> set smc_chips \<Longrightarrow> keeps all_closed port_fault (probe_smc_cfgs H chp ps)"
  by (induction ps) (auto intro!: keeps_if keeps_ret keeps_bnd [OF probe_smc_at_closes])

lemma probe_smc_chips_keeps:
  "set cs \<subseteq> set smc_chips \<Longrightarrow> keeps all_closed port_fault (probe_smc_chips H cs)"
proof (induction cs)
  case Nil
  show ?case by (simp add: keeps_rules)
next
  case (Cons chp cs)
  then have "keeps all_closed port_fault (probe_smc_cfgs H chp (smc_cfg chp))"
    by (intro probe_smc_cfgs_keeps smc_cfg_ports) auto
  moreover have "keeps all_closed port_fault (probe_smc_chips H cs)" using Cons by simp
  ultimately show ?case by (auto intro!: keeps_rules)
qed

lemma probe_smc_keeps: "keeps all_closed port_fault (probe_smc H)"
  unfolding probe_smc_def by (rule probe_smc_chips_keeps) simp

text \<open>
  Every port of an SMC chip that the probe opens it closes again: on any hardware, when the probe
  returns, the configuration registers are hidden at all ports, whichever chips were tried and
  found. The only way not to return is an access outside the permitted ports.
\<close>

interpretation smcp: chip_probe probe_smc port_fault
  by unfold_locales (rule probe_smc_keeps)

text \<open>
  An FDC37C669 whose infrared block is at 0x3f8 or above ends the program: its last register is
  outside the ports that \<open>main\<close> got permission for (0x3ff of them, where 0x400 are meant), and the
  chip is left with its configuration registers open.
\<close>

theorem smc_high_block_crashes:
  assumes "regs 0x0d = 0x03" and "0x7f \<le> unat (regs 0x2b)" and "ios s = []"
  shows "wp (probe_smc (chip_at 0x3f0 i0 regs)) (\<lambda>_ _. False) (\<lambda>e t. e = Oob_read \<and> is_open 0x3f0 t) s"
proof -
  have fir: "push_bit 3 (uint (regs 0x2b)) = 8 * uint (regs 0x2b)"
    by (simp add: push_bit_eq_mult)
  have k: "8 * unat (regs 0x2b) + 7 < 65536" using unat_byte_less [of "regs 0x2b"] by linarith
  then have "unat (of_nat (8 * unat (regs 0x2b) + 7) :: u16) = 8 * unat (regs 0x2b) + 7"
    by (subst unat_of_nat) simp
  moreover have "(of_nat (8 * unat (regs 0x2b) + 7) :: u16) = word_of_int (8 * uint (regs 0x2b) + 7)"
    by simp
  ultimately have out: "\<not> allowed (word_of_int (8 * uint (regs 0x2b) + 7))"
    using assms(2) by (simp only: allowed_def)
  have "regs 0x2b \<noteq> 0" using assms(2) by auto
  then have nz: "uint (regs 0x2b) \<noteq> 0" by (simp add: unsigned_eq_0_iff)
  let ?H = "chip_at 0x3f0 i0 regs" and ?chp = "smc_chips ! 0"
  let ?E = "\<lambda>e t. e = Oob_read \<and> is_open 0x3f0 t"
  have sel: "wp (rd_cfg ?H r 0x3f0 0x3f1) Q E t = Q (regs r) (t\<lparr>ios := ios t @ [Out r 0x3f0, In (regs r) 0x3f1]\<rparr>)" for r Q E t
    by (simp add: wp_simps Let_def chip_at_def allowed_def)
  have bank: "wp (register_bank ?H (8 * uint (regs 0x2b)) 3) Q E t = E Oob_read t" for Q E t
    using out by (simp add: register_bank_def wp_simps)
  have block: "wp (fir_block ?H r 0x3f0 (8 * uint (regs 0x2b)) info) (\<lambda>_ _. False) ?E t"
    if "is_open 0x3f0 t" "r \<noteq> 0x55" "r \<noteq> 0xAA" for r info t
    using that nz by (auto simp: fir_block_def wp_bnd wp_thn sel bank is_open_def config_write_def)
  have probe: "wp (probe_69 ?H name 0x3f0) (\<lambda>_ _. False) ?E t" if "is_open 0x3f0 t" for name t
    unfolding probe_69_def Let_def wp_bnd wp_thn
    by (simp add: sel fir, rule wp_weaken [OF block]) (use that in \<open>auto simp: is_open_def config_write_def\<close>)
  have first: "wp (probe_smc_at ?H ?chp 0x3f0) (\<lambda>_ _. False) ?E (s\<lparr>printed := x\<rparr>)" for x
    using assms(1,3)
    by (simp add: smc_chips_def probe_smc_at_def wp_bnd wp_thn wp_doif wp_outb sel allowed_def)
       (rule wp_weaken [OF probe], simp_all add: is_open_def config_write_def)
  have chips: "smc_chips = ?chp # tl smc_chips" and cfg: "smc_cfg ?chp = [0x3f0, 0x370]"
    by (simp_all add: smc_chips_def)
  show ?thesis
    unfolding probe_smc_def
    by (subst chips) (simp only: probe_smc_chips.simps probe_smc_cfgs.simps cfg wp_thn wp_DEBUG wp_bnd,
      rule wp_mono [OF first], simp_all)
qed

theorem smc_high_block_crashes_witness:
  "wp (probe_smc (chip_at 0x3f0 0 (\<lambda>r. if r = 0x0d then 0x03 else 0x7f)))
    (\<lambda>_ _. False) (\<lambda>e t. e = Oob_read \<and> is_open 0x3f0 t) start_probing"
  by (rule smc_high_block_crashes) (simp_all add: start_probing_def)

end
