(* ===== verification/Nsc.thy ===== *)
theory Nsc
  imports Port_Io
begin

text \<open>The probe for the infrared controllers of National Semiconductor (\<open>findchip/nsc.c\<close>).\<close>

abbreviation CFG_BAIC :: byte where "CFG_BAIC \<equiv> 0x00"
abbreviation CFG_CSRT :: byte where "CFG_CSRT \<equiv> 0x01"
abbreviation CFG_MCTL :: byte where "CFG_MCTL \<equiv> 0x02"
abbreviation CFG_FER :: byte where "CFG_FER \<equiv> 0x00"
abbreviation CFG_FAR :: byte where "CFG_FAR \<equiv> 0x01"
abbreviation CFG_PTR :: byte where "CFG_PTR \<equiv> 0x02"
abbreviation CFG_PNP0 :: byte where "CFG_PNP0 \<equiv> 0x1b"
abbreviation CFG_PNP1 :: byte where "CFG_PNP1 \<equiv> 0x1c"
abbreviation CFG_PNP3 :: byte where "CFG_PNP3 \<equiv> 0x4f"

datatype nsc_probe = Probe_108 | Probe_338

record nsc_chip =
  nsc_name :: string
  nsc_cfg :: "int list"
  cid_index :: byte
  cid_value :: byte
  cid_mask :: byte
  nsc_probe_of :: nsc_probe

definition nsc_chips :: "nsc_chip list" where
  "nsc_chips = [
    \<lparr>nsc_name = ''PC87108'', nsc_cfg = [0x150, 0x398, 0xea], cid_index = 0x05, cid_value = 0x10,
      cid_mask = 0xf0, nsc_probe_of = Probe_108\<rparr>,
    \<lparr>nsc_name = ''PC87338'', nsc_cfg = [0x398, 0x15c, 0x2e], cid_index = 0x08, cid_value = 0xb0,
      cid_mask = 0xf0, nsc_probe_of = Probe_338\<rparr>]"

section \<open>What the registers of the 108 mean\<close>

definition baic_base :: "byte \<Rightarrow> int" where
  "baic_base reg =
    (if reg AND 0x03 = 0 then 0x3e8 else if reg AND 0x03 = 1 then 0x2e8
     else if reg AND 0x03 = 2 then 0x3f8 else 0x2f8)"

definition csrt_irq :: "byte \<Rightarrow> int" where
  "csrt_irq reg =
    (if reg AND 0x07 = 0 then -1 else if reg AND 0x07 = 1 then 3 else if reg AND 0x07 = 2 then 4
     else if reg AND 0x07 = 3 then 5 else if reg AND 0x07 = 4 then 7 else if reg AND 0x07 = 5 then 9
     else if reg AND 0x07 = 6 then 11 else 15)"

definition csrt_dma :: "byte \<Rightarrow> int" where
  "csrt_dma reg = (let n = drop_bit 3 reg AND 0x03 in
     if n = 0 then -1 else if n = 1 then 0 else if n = 2 then 1 else 3)"

definition nsc_probe_108 :: "hardware \<Rightarrow> nsc_chip \<Rightarrow> int \<Rightarrow> int \<Rightarrow> int \<Rightarrow> unit pm" where
  "nsc_probe_108 H chip base cid rv =
    bnd (rd_cfg H CFG_BAIC base (base + 1)) (\<lambda>baic.
    bnd (rd_cfg H CFG_CSRT base (base + 1)) (\<lambda>csrt.
    bnd (rd_cfg H CFG_MCTL base (base + 1)) (\<lambda>mctl.
    print_info (clear_info\<lparr>
      sir_base := baic_base baic, fir_base := baic_base baic,
      irq := csrt_irq csrt, dma := csrt_dma csrt,
      enabled := uint (mctl AND 0x01),
      suspended := of_bool (drop_bit 1 mctl AND 0x01 = 0),
      manufacturer := ''NSC'', chip_name := nsc_name chip, revision := rv, chip_id := cid,
      cfg_base := base, uart_comp := 1\<rparr>))))"

section \<open>What the registers of the 338 mean\<close>

text \<open>
  The base in legacy mode. For the addresses shared by COM3 and COM4 the upper two bits choose a
  pair.
\<close>

definition far_com :: "byte \<Rightarrow> int" where
  "far_com reg = (let n = drop_bit 4 reg AND 0x03 in if n = 2 then 3 else if n = 3 then 4 else 0)"

definition far_base :: "byte \<Rightarrow> int" where
  "far_base reg =
    (let com = far_com reg; n = drop_bit 4 reg AND 0x03; pair = drop_bit 6 reg AND 0x03 in
     if com = 0 then (if n = 0 then 0x3f8 else 0x2f8)
     else if pair = 0 then (if com = 3 then 0x3e8 else 0x2e8)
     else if pair = 1 then (if com = 3 then 0x338 else 0x238)
     else if pair = 2 then (if com = 3 then 0x2e8 else 0x2e0)
     else (if com = 3 then 0x220 else 0x228))"

definition base_338 :: "hardware \<Rightarrow> int \<Rightarrow> bool \<Rightarrow> int pm" where
  "base_338 H base pnp =
    (if pnp then
       thn (DEBUG (ln ''Chip is in PnP mode'') []) (
       bnd (rd_cfg H 0x46 base (base + 1)) (\<lambda>lo.
       bnd (rd_cfg H 0x47 base (base + 1)) (\<lambda>hi.
       ret (push_bit 2 (uint (lo AND 0xfe)) OR push_bit 8 (uint (hi AND 0xfc))))))
     else
       thn (DEBUG (ln ''Chip is in Legacy mode'') []) (
       bnd (rd_cfg H CFG_FAR base (base + 1)) (\<lambda>reg.
       thn (prt (ln ''reg=0x%03x'') [Ib reg]) (ret (far_base reg)))))"

definition nsc_probe_338 :: "hardware \<Rightarrow> nsc_chip \<Rightarrow> int \<Rightarrow> int \<Rightarrow> int \<Rightarrow> unit pm" where
  "nsc_probe_338 H chip base cid rv =
    bnd (rd_cfg H CFG_FER base (base + 1)) (\<lambda>fer.
    bnd (rd_cfg H CFG_PNP0 base (base + 1)) (\<lambda>pnp0.
    bnd (base_338 H base (drop_bit 4 pnp0 AND 0x01 \<noteq> 0)) (\<lambda>sir.
    bnd (rd_cfg H CFG_PNP1 base (base + 1)) (\<lambda>pnp1.
    bnd (rd_cfg H CFG_PNP3 base (base + 1)) (\<lambda>pnp3.
    bnd (rd_cfg H CFG_PTR base (base + 1)) (\<lambda>ptr.
    print_info (clear_info\<lparr>
      enabled := uint (drop_bit 2 fer AND 0x01),
      sir_base := sir, fir_base := sir,
      irq := uint (drop_bit 4 pnp1), dma := uint (pnp3 AND 0x07) - 1,
      suspended := uint (ptr AND 0x01),
      manufacturer := ''NSC'', chip_name := nsc_name chip, revision := rv, chip_id := cid,
      uart_comp := 1, cfg_base := base\<rparr>)))))))"

section \<open>The search\<close>

text \<open>One chip at one configuration address. A zero address is an unused place in the table.\<close>

definition probe_nsc_at :: "hardware \<Rightarrow> nsc_chip \<Rightarrow> int \<Rightarrow> unit pm" where
  "probe_nsc_at H chip base =
    (if base = 0 then ret () else
     bnd (inb H base) (\<lambda>index.
     if index = 0xff then DEBUG (ln ''no chip at 0x%03x'') [Ii base] else
     bnd (rd_cfg H (cid_index chip) base (base + 1)) (\<lambda>cid.
     if cid AND cid_mask chip = cid_value chip then
       thn (DEBUG (ln ''Found %s chip, revision=%d'') [Sl (nsc_name chip), Ib (cid AND NOT (cid_mask chip))])
         ((case nsc_probe_of chip of Probe_108 \<Rightarrow> nsc_probe_108 H chip | Probe_338 \<Rightarrow> nsc_probe_338 H chip)
            base (uint (drop_bit 4 (cid AND cid_mask chip))) (uint (cid AND NOT (cid_mask chip))))
     else DEBUG (ln ''Wrong chip id=0x%02x'') [Ib cid])))"

definition probe_nsc :: "hardware \<Rightarrow> unit pm" where
  "probe_nsc H = seqs (map (\<lambda>chip.
     thn (DEBUG (ln ''Probing for %s ...'') [Sl (nsc_name chip)])
       (seqs (map (probe_nsc_at H chip) (nsc_cfg chip)))) nsc_chips)"

section \<open>Properties\<close>

text \<open>
  What every write of the probe keeps: only the index registers are written, so a probe changes no
  register of a chip, and of a device that is not a chip it writes at most the index port.
\<close>

definition index_ports :: "u16 set" where
  "index_ports = {0x150, 0x398, 0xea, 0x15c, 0x2e}"

definition only_index_writes :: "probing \<Rightarrow> bool" where
  "only_index_writes s \<longleftrightarrow> snd ` set (outs (ios s)) \<subseteq> index_ports"

lemma probe_nsc_at_safe:
  assumes "base \<in> {0x150, 0x398, 0xea, 0x15c, 0x2e}" and "only_index_writes s"
  shows "wp (probe_nsc_at H chip base) (\<lambda>_. only_index_writes) never s"
  using assms
  by (auto simp: probe_nsc_at_def wp_simps Let_def allowed_def only_index_writes_def index_ports_def
      nsc_probe_108_def nsc_probe_338_def base_338_def unat_word_ariths split: nsc_probe.split)

text \<open>
  On any hardware, whatever the ports answer, the NSC probe stays within the ports it has
  permission for and writes to nothing but the five index ports of the chips it knows: it selects
  registers and reads them, and changes none.
\<close>

theorem nsc_probe_only_reads:
  assumes "ios s = []"
  shows "wp (probe_nsc H) (\<lambda>_ t. \<forall>(v, p) \<in> set (outs (ios t)). p \<in> {0x150, 0x398, 0xea, 0x15c, 0x2e}) never s"
proof -
  have said: "only_index_writes (t\<lparr>printed := x\<rparr>) = only_index_writes t" for t x
    by (simp add: only_index_writes_def)
  have cfg: "set (nsc_cfg chip) \<subseteq> {0x150, 0x398, 0xea, 0x15c, 0x2e}" if "chip \<in> set nsc_chips" for chip
    using that by (auto simp: nsc_chips_def)
  have "wp (thn (DEBUG f a) (seqs (map (probe_nsc_at H chip) (nsc_cfg chip)))) (\<lambda>_. only_index_writes) never t"
    if "chip \<in> set nsc_chips" "only_index_writes t" for f a chip t
    unfolding wp_thn wp_DEBUG
    by (rule wp_seqs_inv)
       (use that cfg in \<open>auto simp: said intro!: probe_nsc_at_safe\<close>)
  then have "wp (probe_nsc H) (\<lambda>_. only_index_writes) never s"
    unfolding probe_nsc_def
    by (intro wp_seqs_inv) (use assms in \<open>auto simp: only_index_writes_def [of s]\<close>)
  then show ?thesis
    by (rule wp_weaken) (auto simp: only_index_writes_def index_ports_def)
qed

text \<open>The probe leaves the configuration ports of the other chips alone.\<close>

lemma probe_nsc_keeps: "keeps all_closed never (probe_nsc H)"
proof -
  have "keeps all_closed never (probe_nsc_at H chip base)" if base: "base \<in> {0x150, 0x398, 0xea, 0x15c, 0x2e}" for chip base
  proof -
    have inb: "keeps all_closed never (inb H base)"
      and cfg: "keeps all_closed never (rd_cfg H r base (base + 1))" for r
      using base by (auto simp: keeps_def wp_simps Let_def allowed_def all_closed_iff is_open_def)
    have "keeps all_closed never (nsc_probe_108 H chip base cid rv)"
      and "keeps all_closed never (nsc_probe_338 H chip base cid rv)" for cid rv
      unfolding nsc_probe_108_def nsc_probe_338_def base_338_def by (intro keeps_rules cfg)+
    then have "keeps all_closed never ((case nsc_probe_of chip of Probe_108 \<Rightarrow> nsc_probe_108 H chip
        | Probe_338 \<Rightarrow> nsc_probe_338 H chip) base cid rv)" for cid rv
      by (simp split: nsc_probe.split)
    then show ?thesis
      unfolding probe_nsc_at_def by (intro keeps_rules inb cfg)
  qed
  moreover have "set (nsc_cfg chip) \<subseteq> {0x150, 0x398, 0xea, 0x15c, 0x2e}" if "chip \<in> set nsc_chips" for chip
    using that by (auto simp: nsc_chips_def)
  ultimately have each: "keeps all_closed never (seqs (map (probe_nsc_at H chip) (nsc_cfg chip)))"
    if "chip \<in> set nsc_chips" for chip
    using that by (intro keeps_seqs) (fastforce simp: subset_eq)
  show ?thesis
    unfolding probe_nsc_def by (intro keeps_seqs) (auto intro!: keeps_thn prints_keep_both each)
qed

interpretation nscp: chip_probe probe_nsc never
  by unfold_locales (simp_all add: probe_nsc_keeps)

lemma two_bits: "(r :: byte) AND 3 = 0 \<or> r AND 3 = 1 \<or> r AND 3 = 2 \<or> r AND 3 = 3"
  by (simp add: byte_eq_iff bit_simps) blast

lemma three_bits: "(r :: byte) AND 7 = 0 \<or> r AND 7 = 1 \<or> r AND 7 = 2 \<or> r AND 7 = 3 \<or>
    r AND 7 = 4 \<or> r AND 7 = 5 \<or> r AND 7 = 6 \<or> r AND 7 = 7"
  by (simp add: byte_eq_iff bit_simps) blast

text \<open>The three decodings as the tables they are.\<close>

lemma baic_base_table: "baic_base r = [0x3e8, 0x2e8, 0x3f8, 0x2f8] ! unat (r AND 3)"
  using two_bits [of r] by (auto simp: baic_base_def)

lemma csrt_irq_table: "csrt_irq r = [-1, 3, 4, 5, 7, 9, 11, 15] ! unat (r AND 7)"
  using three_bits [of r] by (elim disjE) (simp_all add: csrt_irq_def)

lemma csrt_dma_table: "csrt_dma r = [-1, 0, 1, 3] ! unat (drop_bit 3 r AND 3)"
  using two_bits [of "drop_bit 3 r"] by (elim disjE) (simp_all add: csrt_dma_def)

definition info_108 :: "int \<Rightarrow> (byte \<Rightarrow> byte) \<Rightarrow> chip_info" where
  "info_108 base regs = \<lparr>manufacturer = ''NSC'', chip_name = ''PC87108'', chip_id = 1,
     revision = uint (regs 5 AND 0x0f), cfg_base = base,
     sir_base = [0x3e8, 0x2e8, 0x3f8, 0x2f8] ! unat (regs 0 AND 3),
     fir_base = [0x3e8, 0x2e8, 0x3f8, 0x2f8] ! unat (regs 0 AND 3),
     irq = [-1, 3, 4, 5, 7, 9, 11, 15] ! unat (regs 1 AND 7),
     dma = [-1, 0, 1, 3] ! unat (drop_bit 3 (regs 1) AND 3), uart_comp = 1,
     enabled = of_bool (bit (regs 2) 0), suspended = of_bool (\<not> bit (regs 2) 1), delay = 0\<rparr>"

lemma low_bit: "uint ((r :: byte) AND 1) = of_bool (bit r 0)"
  by (cases "bit r 0") (simp_all add: and_one_eq bit_0 odd_iff_mod_2_eq_one)

text \<open>
  The state of a probe on a machine with one chip: what has been printed, and an index register
  that can be read back.
\<close>

definition on_chip :: "u16 \<Rightarrow> byte \<Rightarrow> chip_info list \<Rightarrow> probing \<Rightarrow> bool" where
  "on_chip b i0 found s \<longleftrightarrow> infos s = found \<and> selected b i0 (ios s) \<noteq> 0xff"

lemma probe_elsewhere:
  assumes "on_chip b i0 L s" and "a \<in> {0x150, 0x398, 0xea, 0x15c, 0x2e}"
    and "word_of_int a \<noteq> b" and "word_of_int a \<noteq> b + 1"
  shows "wp (probe_nsc_at (chip_at b i0 regs) chip a) (\<lambda>_. on_chip b i0 L) never s"
  using assms by (auto simp: probe_nsc_at_def wp_simps Let_def chip_at_def allowed_def on_chip_def)

lemma probe_other_chip:
  assumes "on_chip (word_of_int a) i0 L s" and "a \<in> {0x150, 0x398, 0xea, 0x15c, 0x2e}"
    and "regs (cid_index chip) AND cid_mask chip \<noteq> cid_value chip" and "cid_index chip \<noteq> 0xff"
  shows "wp (probe_nsc_at (chip_at (word_of_int a) i0 regs) chip a) (\<lambda>_. on_chip (word_of_int a) i0 L) never s"
  using assms by (auto simp: probe_nsc_at_def wp_simps Let_def chip_at_def allowed_def on_chip_def)

abbreviation pc87108 :: nsc_chip where "pc87108 \<equiv> nsc_chips ! 0"

lemma probe_108_chip:
  assumes "on_chip (word_of_int a) i0 L s" and "a \<in> {0x150, 0x398, 0xea, 0x15c, 0x2e}"
    and "regs 5 AND 0xf0 = 0x10"
  shows "wp (probe_nsc_at (chip_at (word_of_int a) i0 regs) pc87108 a)
    (\<lambda>_. on_chip (word_of_int a) i0 (L @ [info_108 a regs])) never s"
proof -
  have id: "drop_bit 4 (0x10 :: byte) = 1" by (simp add: byte_eq_iff bit_simps)
  have id': "regs 5 AND NOT 0xf0 = regs 5 AND 0x0f" by (simp add: byte_eq_iff bit_simps)
  have b1: "(drop_bit 1 (regs 2) AND 1 = 0) = (\<not> bit (regs 2) 1)"
    by (simp add: byte_eq_iff bit_simps)
  have run: "wp (nsc_probe_108 (chip_at (word_of_int a) i0 regs) pc87108 a 1 (uint (regs 5 AND 0x0f)))
      (\<lambda>_. on_chip (word_of_int a) i0 (L @ [info_108 a regs])) never t"
    if "infos t = L" for t
    using that assms(2) b1
    by (auto simp: nsc_probe_108_def wp_simps Let_def chip_at_def allowed_def on_chip_def
        clear_info_def info_108_def baic_base_table csrt_irq_table csrt_dma_table low_bit nsc_chips_def)
  show ?thesis
    using assms id' id run
    by (auto simp: probe_nsc_at_def wp_simps Let_def chip_at_def allowed_def on_chip_def nsc_chips_def)
qed

text \<open>
  Where a PC87108 sits at one of its three configuration addresses, the probe of the whole NSC
  table prints exactly one description, with the address, and with base, interrupt, DMA channel and
  mode that the tables of the chip give for its registers. (At 0x398, which the other chip of the
  table can have too, its identification must not look like that chip's.)
\<close>

theorem pc87108_found:
  assumes "base \<in> {0x150, 0x398, 0xea}" and "i0 \<noteq> 0xff" and "regs 5 AND 0xf0 = 0x10"
    and "regs 8 AND 0xf0 \<noteq> 0xb0" and "ios s = []"
  shows "wp (probe_nsc (chip_at (word_of_int base) i0 regs)) (\<lambda>_ t. infos t = infos s @ [info_108 base regs]) never s"
proof -
  let ?H = "chip_at (word_of_int base) i0 regs" and ?J = "on_chip (word_of_int base) i0"
  have said: "?J L (t\<lparr>printed := x\<rparr>) = ?J L t" for L t x by (simp add: on_chip_def)
  have one: "wp (seqs (map (probe_nsc_at ?H pc87108) [0x150, 0x398, 0xea])) (\<lambda>_. ?J (infos s @ [info_108 base regs])) never t"
    if "?J (infos s) t" for t
    using that assms(1,3) unfolding list.map wp_seqs_Cons wp_seqs_Nil
    by (auto intro!: wp_weaken [OF probe_elsewhere] wp_weaken [OF probe_108_chip])
  have two: "wp (probe_nsc_at ?H (nsc_chips ! 1) a) (\<lambda>_. ?J L) never t"
    if "?J L t" "a \<in> {0x398, 0x15c, 0x2e}" for L t a
    using that assms(1,4) probe_other_chip [of base i0 L t regs "nsc_chips ! 1"]
      probe_elsewhere [of "word_of_int base" i0 L t a regs "nsc_chips ! 1"]
    by (auto simp: nsc_chips_def)
  have two': "wp (seqs (map (probe_nsc_at ?H (nsc_chips ! 1)) [0x398, 0x15c, 0x2e])) (\<lambda>_. ?J L) never t"
    if "?J L t" for L t
    by (rule wp_seqs_inv) (use that two in auto)
  have chips: "map f nsc_chips = [f pc87108, f (nsc_chips ! 1)]" "nsc_cfg pc87108 = [0x150, 0x398, 0xea]"
    "nsc_cfg (nsc_chips ! 1) = [0x398, 0x15c, 0x2e]" for f :: "nsc_chip \<Rightarrow> 'z"
    by (simp_all add: nsc_chips_def)
  have "wp (probe_nsc ?H) (\<lambda>_. ?J (infos s @ [info_108 base regs])) never s"
    unfolding probe_nsc_def chips wp_seqs_Cons wp_seqs_Nil wp_thn wp_DEBUG
    by (rule wp_weaken [OF one])
       (use assms(2,5) two' in \<open>simp_all add: said del: list.map\<close>, simp add: on_chip_def)
  then show ?thesis
    by (rule wp_weaken) (simp add: on_chip_def)
qed

theorem pc87108_found_witness:
  "wp (probe_nsc (chip_at 0xea 0 (\<lambda>r. if r = 5 then 0x12 else if r = 1 then 0x0b else 0x03)))
    (\<lambda>_ t. infos t = [\<lparr>manufacturer = ''NSC'', chip_name = ''PC87108'', chip_id = 1, revision = 2,
       cfg_base = 0xea, sir_base = 0x2f8, fir_base = 0x2f8, irq = 5, dma = 0, uart_comp = 1,
       enabled = 1, suspended = 0, delay = 0\<rparr>]) never start_probing"
  using pc87108_found [of "0xea" 0 "\<lambda>r. if r = 5 then 0x12 else if r = 1 then 0x0b else 0x03" start_probing]
  by (simp add: start_probing_def info_108_def)

theorem nsc_probe_only_reads_witness:
  "wp (probe_nsc (\<lambda>_ p. ucast p)) (\<lambda>_ t. \<forall>(v, p) \<in> set (outs (ios t)). p \<in> {0x150, 0x398, 0xea, 0x15c, 0x2e}) never
     start_probing"
  by (rule nsc_probe_only_reads) (simp add: start_probing_def)

end
