(* ===== verification/Winbond.thy ===== *)
theory Winbond
  imports Port_Io
begin

text \<open>
  The probe for the infrared controllers of Winbond (\<open>findchip/winbond.c\<close>). The registers of these
  chips are reached through an extended function enable register (EFER), which is opened with a
  flag and closed with another; where it is, and with which flag it opens, is set by straps of the
  board, so the probe tries all combinations and looks whether the chip says the same.
\<close>

abbreviation W83977_DEVICE_ID :: byte where "W83977_DEVICE_ID \<equiv> 0x97"
abbreviation W83877_HEFRAS_MASK :: byte where "W83877_HEFRAS_MASK \<equiv> 0x01"
abbreviation W83877_HEFERE_MASK :: byte where "W83877_HEFERE_MASK \<equiv> 0x20"
abbreviation W83977_HEFRAS_MASK :: byte where "W83977_HEFRAS_MASK \<equiv> 0x40"
abbreviation CHIPID :: byte where "CHIPID \<equiv> 0x0F"
abbreviation IRTXDRQSEL :: byte where "IRTXDRQSEL \<equiv> 0xF0"
abbreviation IRRXDRQSEL :: byte where "IRRXDRQSEL \<equiv> 0x0F"
abbreviation URBIQS :: byte where "URBIQS \<equiv> 0x0F"
abbreviation URBAD :: byte where "URBAD \<equiv> 0xFE"
abbreviation TXW4C :: byte where "TXW4C \<equiv> 0x40"
abbreviation RXW4C :: byte where "RXW4C \<equiv> 0x20"
abbreviation RXW4C_977 :: byte where "RXW4C_977 \<equiv> 0x08"
abbreviation TXW4C_977 :: byte where "TXW4C_977 \<equiv> 0x04"
abbreviation ENBKIRSL :: byte where "ENBKIRSL \<equiv> 0x10"
abbreviation URIRSEL :: byte where "URIRSEL \<equiv> 0x08"
abbreviation HDUPLX :: byte where "HDUPLX \<equiv> 0x08"
abbreviation IRMODE :: byte where "IRMODE \<equiv> 0x07"
abbreviation ENBNKSEL :: byte where "ENBNKSEL \<equiv> 0x08"
abbreviation ENBNKSEL_977 :: byte where "ENBNKSEL_977 \<equiv> 0x01"
abbreviation W83877_HEFRAS_INDEX :: int where "W83877_HEFRAS_INDEX \<equiv> 0x16"
abbreviation W83877_HEFERE_INDEX :: int where "W83877_HEFERE_INDEX \<equiv> 0x0C"
abbreviation W83977_HEFRAS_INDEX :: int where "W83977_HEFRAS_INDEX \<equiv> 0x26"
abbreviation NOT_EXIST :: int where "NOT_EXIST \<equiv> -1"

datatype chip_type = W83977_PNP | W83977 | W83877

record winbond_chip =
  w_name :: string
  w_chip_id :: int
  fir_support :: bool

record winbond_efer =
  w_type :: chip_type
  efer_addr :: int
  writes_flag :: nat
  start_flag :: byte
  end_flag :: byte
  efir_addr :: int
  efdr_addr :: int
  hefras_index :: int
  hefras_mask :: byte
  hefras_val :: int
  hefere_index :: int
  hefere_mask :: byte
  hefere_val :: int

definition winbond_chips :: "winbond_chip list" where
  "winbond_chips = [
    \<lparr>w_name = ''W83977TF'', w_chip_id = 0x73, fir_support = False\<rparr>,
    \<lparr>w_name = ''W83977ATF'', w_chip_id = 0x74, fir_support = True\<rparr>,
    \<lparr>w_name = ''W83877AF'', w_chip_id = 0x0b, fir_support = True\<rparr>,
    \<lparr>w_name = ''W83877TF'', w_chip_id = 0x0c, fir_support = False\<rparr>,
    \<lparr>w_name = ''W83877ATF'', w_chip_id = 0x0d, fir_support = True\<rparr>]"

definition efer_977 :: "int \<Rightarrow> int \<Rightarrow> winbond_efer" where
  "efer_977 port hefras = \<lparr>w_type = W83977, efer_addr = port, writes_flag = 2, start_flag = 0x87,
     end_flag = 0xAA, efir_addr = port, efdr_addr = port + 1, hefras_index = W83977_HEFRAS_INDEX,
     hefras_mask = W83977_HEFRAS_MASK, hefras_val = hefras, hefere_index = NOT_EXIST,
     hefere_mask = 0, hefere_val = 0\<rparr>"

definition efer_877 :: "int \<Rightarrow> nat \<Rightarrow> byte \<Rightarrow> byte \<Rightarrow> int \<Rightarrow> int \<Rightarrow> int \<Rightarrow> winbond_efer" where
  "efer_877 port n on off ind hefras hefere = \<lparr>w_type = W83877, efer_addr = port, writes_flag = n,
     start_flag = on, end_flag = off, efir_addr = ind, efdr_addr = ind + 1,
     hefras_index = W83877_HEFRAS_INDEX, hefras_mask = W83877_HEFRAS_MASK, hefras_val = hefras,
     hefere_index = W83877_HEFERE_INDEX, hefere_mask = W83877_HEFERE_MASK, hefere_val = hefere\<rparr>"

definition efers :: "winbond_efer list" where
  "efers = [
     efer_977 0x3F0 0, efer_977 0x370 1,
     efer_877 0x250 1 0x88 0x88 0x251 0 0, efer_877 0x250 1 0x89 0x89 0x251 0 1,
     efer_877 0x3F0 2 0x86 0xAA 0x3F0 1 0, efer_877 0x3F0 2 0x87 0xAA 0x3F0 1 1]"

definition find_chip :: "int \<Rightarrow> winbond_chip option" where
  "find_chip n = find (\<lambda>c. w_chip_id c = n) winbond_chips"

text \<open>A register of the chip.\<close>

definition reg_of :: "hardware \<Rightarrow> winbond_efer \<Rightarrow> byte \<Rightarrow> byte pm" where
  "reg_of H e r = rd_cfg H r (efir_addr e) (efdr_addr e)"

definition say_delays :: "bool \<Rightarrow> bool \<Rightarrow> unit pm" where
  "say_delays tx rx = seqs [
     (if tx then DEBUG (ln '' RX->TX Turn around delay(4 char time) is enabled'') []
      else DEBUG (ln '' RX->TX Turn around delay(4 char time) is disabled'') []),
     (if rx then DEBUG (ln '' TX->RX Turn around delay(4 char time) is enabled'') []
      else DEBUG (ln '' TX->RX Turn around delay(4 char time) is disabled'') [])]"

text \<open>
  The two functions that read the settings of a chip. The local \<open>info\<close> is not cleared; \<open>junk\<close> is what
  it holds. The result is whether a chip was found.
\<close>

definition w83977_read_info :: "hardware \<Rightarrow> chip_info \<Rightarrow> winbond_efer \<Rightarrow> bool pm" where
  "w83977_read_info H junk e =
    bnd (reg_of H e 0x20) (\<lambda>devid.
    bnd (reg_of H e 0x21) (\<lambda>rv.
    thn (DEBUG (ln ''chip id = 0x%02x, revision = 0x%02x'') [Ib devid, Ib rv]) (
    if devid \<noteq> W83977_DEVICE_ID then thn (DEBUG (ln ''Wrong device ID = 0x%02x'') [Ib devid]) (ret False) else
    case find_chip (uint rv) of
      None \<Rightarrow> thn (DEBUG (ln ''Device Revision is 0x%02x :no known chip was detected.'') [Ib rv]) (ret False)
    | Some chip \<Rightarrow>
    thn (DEBUG (ln ''Device Revision 0x%02x : %s is detected!'') [Ib devid, Sl (w_name chip)]) (
    thn (doif (\<not> fir_support chip) (DEBUG ''this chip does not have FIR block.n'' [])) (
    thn (outb 0x07 (efir_addr e)) (
    thn (outb 0x06 (efdr_addr e)) (
    bnd (reg_of H e 0x74) (\<lambda>rxdma.
    thn (doif (rxdma > 3) (DEBUG (ln '' RX DMA is inactive'') [])) (
    bnd (reg_of H e 0x75) (\<lambda>txdma.
    thn (doif (txdma > 3) (DEBUG (ln '' TX DMA is inactive, or single DMA mode'') [])) (
    bnd (reg_of H e 0x70) (\<lambda>cr70.
    bnd (reg_of H e 0x60) (\<lambda>cr60.
    bnd (reg_of H e 0x61) (\<lambda>cr61.
    let base = push_bit 8 (uint cr60) OR uint cr61 in
    bnd (reg_of H e 0xF0) (\<lambda>misc.
    thn (say_delays (misc AND TXW4C_977 \<noteq> 0) (misc AND RXW4C_977 \<noteq> 0)) (
    thn (if misc AND ENBNKSEL_977 \<noteq> 0 then DEBUG (ln '' Bank selection si enabled.'') []
         else DEBUG (ln '' Bank selection is disabled(CRF0 = 0x%02x).'') [Ib misc]) (
    thn (print_info (junk\<lparr>chip_id := uint devid, revision := uint rv,
      dma := (if rxdma > 3 then -1 else uint rxdma), irq := uint (cr70 AND 0x0f),
      sir_base := base, fir_base := base, manufacturer := ''WINBOND'', chip_name := w_name chip,
      cfg_base := efer_addr e, uart_comp := 1, enabled := of_bool (misc AND ENBNKSEL_977 \<noteq> 0),
      suspended := 0\<rparr>))
    (ret True))))))))))))))))))"

text \<open>The switch over the mode of the infrared part; the result is whether it disables it.\<close>

definition say_mode :: "byte \<Rightarrow> bool pm" where
  "say_mode m =
    (if m = 0 \<or> m = 1 then thn (DEBUG (ln '' IR support are disabled. bad.'') []) (ret True)
     else if m = 2 then thn (DEBUG (ln '' Configured for IrDA. (SIR pulse width = 1.6us)'') []) (ret False)
     else if m = 3 then thn (DEBUG (ln '' Configured for IrDA. (SIR pulse width = 3/16)'') []) (ret False)
     else thn (DEBUG (ln '' Configured for ASK-IR(0x%02x). '') [Ib m]) (ret True))"

text \<open>The checks of the settings at the end; the result is \<open>disabled\<close>.\<close>

definition w83877_disabled :: "hardware \<Rightarrow> winbond_efer \<Rightarrow> bool pm" where
  "w83877_disabled H e =
    bnd (reg_of H e 0x0C) (\<lambda>cr0c.
    thn (if cr0c AND ENBKIRSL \<noteq> 0 then DEBUG (ln '' Config Registers for IR functions are activated. good.'') []
         else DEBUG (ln '' Config Registers for IR functions are inactivated(CR0C = 0x%02x).'') [Ib cr0c]) (
    thn (if cr0c AND URIRSEL \<noteq> 0 then DEBUG (ln '' UART B is IR mode. '') []
         else DEBUG (ln '' UART B is not IR mode(CR0C = 0x%02x). '') [Ib cr0c]) (
    bnd (reg_of H e 0x0D) (\<lambda>cr0d.
    thn (if cr0d AND HDUPLX \<noteq> 0 then DEBUG (ln '' Configured for Half-Duplex'') []
         else DEBUG (ln '' Configured for Full-Duplex'') []) (
    bnd (say_mode (cr0d AND IRMODE)) (\<lambda>bad_mode.
    bnd (reg_of H e 0x2C) (\<lambda>cr2c.
    thn (if cr2c AND ENBNKSEL \<noteq> 0 then DEBUG (ln '' Bank selection is enabled. '') []
         else DEBUG (ln '' Bank selection is disabled(CR2C = 0x%02x)'') [Ib cr2c]) (
    ret (cr0c AND ENBKIRSL = 0 \<or> cr0c AND URIRSEL = 0 \<or> bad_mode \<or> cr2c AND ENBNKSEL = 0)))))))))"

definition w83877_read_info :: "hardware \<Rightarrow> chip_info \<Rightarrow> winbond_efer \<Rightarrow> bool pm" where
  "w83877_read_info H junk e =
    bnd (reg_of H e 0x09) (\<lambda>cr09.
    let chipid = uint (cr09 AND CHIPID) in
    case find_chip chipid of
      None \<Rightarrow> thn (DEBUG (ln ''chip ID is 0x%02x : no known chip was detected.'') [Ii chipid]) (ret False)
    | Some chip \<Rightarrow>
    thn (DEBUG (ln ''chip ID is 0x%02x : %s is detected!'') [Ii chipid, Sl (w_name chip)]) (
    thn (doif (\<not> fir_support chip) (DEBUG ''this chip does not have FIR block.n'' [])) (
    bnd (reg_of H e 0x2A) (\<lambda>cr2a.
    let txdma = uint (drop_bit 4 (cr2a AND IRTXDRQSEL)); rxdma = uint (cr2a AND IRRXDRQSEL);
        d = (if txdma = rxdma then txdma else dma junk) in
    thn (DEBUG (ln '' RX DMA = %d, TX DMA = %d'') [Ii rxdma, Ii txdma]) (
    thn (doif (txdma \<noteq> rxdma \<and> txdma \<noteq> 0) (DEBUG (ln '' -- Configured for Dual DMA mode'') [])) (
    thn (doif (d = 0) (DEBUG (ln ''  -- DMA is disabled.'') [])) (
    bnd (reg_of H e 0x28) (\<lambda>cr28.
    bnd (reg_of H e 0x25) (\<lambda>cr25.
    let base = push_bit 2 (uint (cr25 AND URBAD)) in
    bnd (reg_of H e 0x0B) (\<lambda>cr0b.
    thn (say_delays (cr0b AND TXW4C \<noteq> 0) (cr0b AND RXW4C \<noteq> 0)) (
    bnd (w83877_disabled H e) (\<lambda>disabled.
    thn (print_info (junk\<lparr>chip_id := chipid, dma := d, irq := uint (cr28 AND URBIQS),
      sir_base := base, fir_base := base, manufacturer := ''WINBOND'', chip_name := w_name chip,
      cfg_base := efer_addr e, uart_comp := 1, enabled := of_bool (\<not> disabled), revision := -1,
      suspended := 0\<rparr>))
    (ret True)))))))))))))"

section \<open>The search\<close>

text \<open>A strap is as the entry of the table says, or the entry does not look at it.\<close>

definition strap :: "hardware \<Rightarrow> winbond_efer \<Rightarrow> string \<Rightarrow> int \<Rightarrow> byte \<Rightarrow> int \<Rightarrow> bool pm" where
  "strap H e msg ind m val =
    (if ind \<ge> 0 then
       bnd (reg_of H e (word_of_int ind)) (\<lambda>v.
       thn (DEBUG (ln msg) [Ib v]) (ret ((if v AND m \<noteq> 0 then 1 else 0) = val)))
     else ret True)"

definition winbond_entry :: "hardware \<Rightarrow> chip_info \<Rightarrow> winbond_efer \<Rightarrow> bool pm" where
  "winbond_entry H junk e =
    bnd (strap H e ''hefras = 0x%02x '' (hefras_index e) (hefras_mask e) (hefras_val e)) (\<lambda>ok.
    if \<not> ok then ret False else
    bnd (strap H e ''hefere = 0x%02x '' (hefere_index e) (hefere_mask e) (hefere_val e)) (\<lambda>ok.
    if \<not> ok then ret False else
    thn (DEBUG (ln ''EFER seems to be probed at 0x%04x'') [Ii (efer_addr e)]) (
    case w_type e of
      W83877 \<Rightarrow> w83877_read_info H junk e
    | W83977 \<Rightarrow> w83977_read_info H junk e
    | W83977_PNP \<Rightarrow> thn (DEBUG ''BUG in the source code.. :('' []) (ret False))))"

fun probe_efers :: "hardware \<Rightarrow> chip_info \<Rightarrow> winbond_efer list \<Rightarrow> unit pm" where
  "probe_efers H junk [] = DEBUG (ln (''Couldn'' @ [CHR 0x27] @ ''t find Winbond superI/O chip.'')) []"
| "probe_efers H junk (e # es) =
    thn (DEBUG (ln ''Probing for EFER at 0x%04x ...'') [Ii (efer_addr e)]) (
    thn (seqs (replicate (writes_flag e) (outb (start_flag e) (efer_addr e)))) (
    bnd (winbond_entry H junk e) (\<lambda>found.
    thn (outb (end_flag e) (efer_addr e)) (
    if found then ret () else probe_efers H junk es))))"

definition probe_winbond :: "hardware \<Rightarrow> chip_info \<Rightarrow> unit pm" where
  "probe_winbond H junk = probe_efers H junk efers"

section \<open>Properties\<close>

text \<open>An entry of the table whose ports are permitted and are not the port \<open>q\<close>.\<close>

definition apart :: "u16 \<Rightarrow> winbond_efer \<Rightarrow> bool" where
  "apart q e \<longleftrightarrow> word_of_int (efir_addr e) \<noteq> q \<and> word_of_int (efdr_addr e) \<noteq> q \<and>
     allowed (word_of_int (efir_addr e)) \<and> allowed (word_of_int (efdr_addr e))"

lemma access_keeps [keeps_rules]:
  assumes "apart q e"
  shows "keeps (config_at q on) never (reg_of H e r)" "keeps (config_at q on) never (outb v (efir_addr e))"
    "keeps (config_at q on) never (outb v (efdr_addr e))"
  using assms by (simp_all add: keeps_def reg_of_def wp_simps Let_def apart_def)

lemma say_keeps [keeps_rules]:
  "keeps (config_at q on) never (say_delays a b)" "keeps (config_at q on) never (say_mode m)"
  by (auto simp: say_delays_def say_mode_def intro!: keeps_rules)

lemma w83877_keeps [keeps_rules]:
  "apart q e \<Longrightarrow> keeps (config_at q on) never (w83877_read_info H junk e)"
  unfolding w83877_read_info_def w83877_disabled_def by (intro keeps_rules)

lemma w83977_keeps [keeps_rules]:
  "apart q e \<Longrightarrow> keeps (config_at q on) never (w83977_read_info H junk e)"
  unfolding w83977_read_info_def by (intro keeps_rules)

lemma winbond_entry_keeps:
  assumes "apart q e"
  shows "keeps (config_at q on) never (winbond_entry H junk e)"
proof -
  have "keeps (config_at q on) never (strap H e msg ind m val)" for msg ind m val
    unfolding strap_def by (intro keeps_rules assms)
  moreover have "keeps (config_at q on) never (case w_type e of W83877 \<Rightarrow> w83877_read_info H junk e
      | W83977 \<Rightarrow> w83977_read_info H junk e | W83977_PNP \<Rightarrow> thn (DEBUG ''BUG in the source code.. :('' []) (ret False))"
    using assms by (auto split: chip_type.split intro!: keeps_rules)
  ultimately show ?thesis
    unfolding winbond_entry_def by (intro keeps_rules)
qed

text \<open>What an entry does between the knock and the last write; the last write closes what the knock opened.\<close>

lemma knock_keeps:
  assumes "apart q e" and "word_of_int (efer_addr e) \<noteq> q" and "allowed (word_of_int (efer_addr e))"
  shows "keeps (config_at q on) never (thn (seqs (replicate (writes_flag e) (outb (start_flag e) (efer_addr e)))) (winbond_entry H junk e))"
proof -
  have "keeps (config_at q on) never (outb v (efer_addr e))" for v
    using assms(2,3) by (simp add: keeps_def wp_simps)
  then show ?thesis
    by (intro keeps_thn keeps_seqs winbond_entry_keeps assms(1)) auto
qed

lemma entry_shuts:
  assumes "e \<in> set efers" and "closed_at (word_of_int (efer_addr e)) s"
  shows "wp (thn (seqs (replicate (writes_flag e) (outb (start_flag e) (efer_addr e)))) (winbond_entry H junk e))
    (\<lambda>_. wp (outb (end_flag e) (efer_addr e)) (\<lambda>_. closed_at (word_of_int (efer_addr e))) never) never s"
proof (cases "efer_addr e = 0x250")
  case True
  have e: "writes_flag e = 1" "start_flag e = end_flag e" "start_flag e = 0x88 \<or> start_flag e = 0x89" "apart 0x250 e"
    using assms(1) True by (auto simp: efers_def efer_977_def efer_877_def apart_def allowed_def)
  have close: "wp (outb (end_flag e) 0x250) (\<lambda>_. closed_at 0x250) never t" if "config_at 0x250 (Some (start_flag e)) t" for t
    using that e(2) by (simp add: wp_simps allowed_def is_open_def config_write_def)
  have "config_at 0x250 (Some (start_flag e)) (s\<lparr>ios := ios s @ [Out (start_flag e) 0x250]\<rparr>)"
    using assms(2) e(3) True by (auto simp: is_open_def config_write_def)
  from keepsD [OF winbond_entry_keeps [OF e(4), where H = H and junk = junk] this] show ?thesis
    unfolding True e(1) by (simp add: wp_simps allowed_def) (erule wp_weaken, rule close)
next
  case False
  have efer: "efer_addr e \<in> {0x3f0, 0x370}" "end_flag e = 0xAA"
    using assms(1) False by (auto simp: efers_def efer_977_def efer_877_def)
  have "apart 0 e" "word_of_int (efer_addr e) \<noteq> (0 :: u16)" "allowed (word_of_int (efer_addr e))"
    using assms(1) by (auto simp: efers_def efer_977_def efer_877_def apart_def allowed_def)
  from keepsD [OF knock_keeps [OF this] refl] show ?thesis
    by (rule wp_weaken) (use efer in \<open>auto simp: wp_simps allowed_def is_open_def config_write_def\<close>)
qed

lemma entry_closes:
  assumes e: "e \<in> set efers"
  shows "keeps all_closed never (thn (seqs (replicate (writes_flag e) (outb (start_flag e) (efer_addr e))))
      (bnd (winbond_entry H junk e) (\<lambda>found. thn (outb (end_flag e) (efer_addr e)) (ret found))))"
proof (rule keeps_all_closed, rule keepsI)
  fix q s
  assume q: "q \<in> config_ports" and s: "closed_at q s"
  have ports: "efer_addr e \<in> {0x3f0, 0x370, 0x250}" "allowed (word_of_int (efer_addr e))"
    using e by (auto simp: efers_def efer_977_def efer_877_def allowed_def)
  have "wp (thn (seqs (replicate (writes_flag e) (outb (start_flag e) (efer_addr e)))) (winbond_entry H junk e))
    (\<lambda>_. wp (outb (end_flag e) (efer_addr e)) (\<lambda>_. closed_at q) never) never s"
  proof (cases "word_of_int (efer_addr e) = q")
    case True
    then show ?thesis
      using entry_shuts [OF e, of s H junk] s by simp
  next
    case False
    have "apart q e"
      using e q False by (auto simp: efers_def efer_977_def efer_877_def apart_def allowed_def config_ports_def)
    then have "keeps (closed_at q) never (thn (seqs (replicate (writes_flag e) (outb (start_flag e) (efer_addr e)))) (winbond_entry H junk e))"
      unfolding closed_config using False ports(2) by (rule knock_keeps)
    from keepsD [OF this s] show ?thesis
      by (rule wp_weaken) (use False ports(2) in \<open>simp add: wp_simps is_open_def\<close>)
  qed
  then show "wp (thn (seqs (replicate (writes_flag e) (outb (start_flag e) (efer_addr e))))
      (bnd (winbond_entry H junk e) (\<lambda>found. thn (outb (end_flag e) (efer_addr e)) (ret found)))) (\<lambda>_. closed_at q) never s"
    by (simp add: wp_thn wp_bnd wp_ret)
qed

text \<open>
  The probe for Winbond chips stays within the permitted ports on any hardware and closes every
  function enable register that it opens.
\<close>

lemma probe_winbond_closes: "keeps all_closed never (probe_winbond H junk)"
proof -
  have "set es \<subseteq> set efers \<Longrightarrow> all_closed s \<Longrightarrow> wp (probe_efers H junk es) (\<lambda>_. all_closed) never s" for es s
  proof (induction es arbitrary: s)
    case Nil
    then show ?case by (simp add: wp_simps all_closed_iff)
  next
    case (Cons e es)
    have "all_closed (s\<lparr>printed := x\<rparr>)" for x using Cons.prems(2) by (simp add: all_closed_iff)
    with Cons.prems(1) have "wp (thn (seqs (replicate (writes_flag e) (outb (start_flag e) (efer_addr e))))
        (bnd (winbond_entry H junk e) (\<lambda>found. thn (outb (end_flag e) (efer_addr e)) (ret found))))
        (\<lambda>_. all_closed) never (s\<lparr>printed := x\<rparr>)" for x
      by (intro keepsD [OF entry_closes]) auto
    from wp_weaken [OF this, of "\<lambda>found t. wp (if found then ret () else probe_efers H junk es) (\<lambda>_. all_closed) never t"]
    show ?case
      using Cons by (simp add: wp_thn wp_bnd wp_ret wp_DEBUG)
  qed
  then show ?thesis by (simp add: keeps_def probe_winbond_def)
qed

interpretation winp: chip_probe "\<lambda>H. bnd (gets stack) (\<lambda>junk. probe_winbond H junk)" never for stack
  by unfold_locales (auto intro!: keeps_bnd keeps_gets probe_winbond_closes)

section \<open>A chip that is found\<close>

text \<open>
  Rules for what has been reported, in which the state after a step is any state with the same
  reports: neither the text printed nor the port accesses are carried along.
\<close>

named_theorems report_rules

lemma report_flow [report_rules]:
  "wp m (\<lambda>a. wp (f a) Q E) E s \<Longrightarrow> wp (bnd m f) Q E s"
  "wp m' (\<lambda>_. wp k Q E) E s \<Longrightarrow> wp (thn m' k) Q E s"
  "Q' a s \<Longrightarrow> wp (ret a) Q' E s"
  by (simp_all add: wp_simps)

lemma report_DEBUG [report_rules]:
  "(\<And>t. infos t = infos s \<Longrightarrow> Q () t) \<Longrightarrow> wp (DEBUG f a) Q E s"
  "(\<And>t. infos t = infos s \<Longrightarrow> Q () t) \<Longrightarrow> wp (doif c (DEBUG f a)) Q E s"
  "(\<And>t. infos t = infos s \<Longrightarrow> Q () t) \<Longrightarrow> wp (if c then DEBUG f a else DEBUG g b) Q E s"
  "(\<And>t. infos t = infos s \<Longrightarrow> Q () t) \<Longrightarrow> wp (say_delays x y) Q E s"
  by (simp_all add: say_delays_def wp_simps)

lemma report_mode [report_rules]:
  assumes "\<And>t. infos t = infos s \<Longrightarrow> Q (m \<notin> {2, 3}) t"
  shows "wp (say_mode m) Q E s"
proof -
  have "Q False t" if "infos t = infos s" "m = 2 \<or> m = 3" for t using assms that by fastforce
  moreover have "Q True t" if "infos t = infos s" "m \<noteq> 2" "m \<noteq> 3" for t using assms that by fastforce
  ultimately show ?thesis unfolding say_mode_def by (auto intro!: report_rules)
qed

lemma report_some: "x = Some y \<Longrightarrow> wp (f y) Q E s \<Longrightarrow> wp (case x of None \<Rightarrow> m | Some y \<Rightarrow> f y) Q E s"
  by simp

lemma report_info [report_rules]:
  "(\<And>t. infos t = infos s @ [i] \<Longrightarrow> Q () t) \<Longrightarrow> wp (print_info i) Q E s"
  by (simp add: wp_simps)

lemma report_out [report_rules]:
  "allowed (word_of_int p) \<Longrightarrow> (\<And>t. infos t = infos s \<Longrightarrow> Q () t) \<Longrightarrow> wp (outb v p) Q E s"
  by (simp add: wp_simps)

text \<open>The registers of the chip at \<open>b\<close>, and of anything else on that machine.\<close>

lemma report_reg:
  assumes "efir_addr e = b" and "efdr_addr e = b + 1" and "b \<in> {0x3f0, 0x370, 0x251}"
    and "\<And>t. infos t = infos s \<Longrightarrow> Q (regs r) t"
  shows "wp (reg_of (chip_at (word_of_int b) i0 regs) e r) Q E s"
  using assms by (auto simp: reg_of_def wp_simps Let_def chip_at_def allowed_def)

lemma report_no_reg:
  assumes "e \<in> set efers" and "efir_addr e \<noteq> b" and "b \<in> {0x3f0, 0x370, 0x251}"
    and "\<And>t. infos t = infos s \<Longrightarrow> Q 0xff t"
  shows "wp (reg_of (chip_at (word_of_int b) i0 regs) e r) Q E s"
  using assms by (auto simp: efers_def efer_977_def efer_877_def reg_of_def wp_simps Let_def chip_at_def allowed_def)

definition ir_mode_on :: "(byte \<Rightarrow> byte) \<Rightarrow> bool" where
  "ir_mode_on regs \<longleftrightarrow> bit (regs 0x0C) 4 \<and> bit (regs 0x0C) 3 \<and> regs 0x0D AND 7 \<in> {2, 3} \<and> bit (regs 0x2C) 3"

definition info_877 :: "chip_info \<Rightarrow> int \<Rightarrow> winbond_chip \<Rightarrow> (byte \<Rightarrow> byte) \<Rightarrow> chip_info" where
  "info_877 junk base chip regs = \<lparr>manufacturer = ''WINBOND'', chip_name = w_name chip,
     chip_id = w_chip_id chip, revision = -1, cfg_base = base,
     sir_base = 4 * uint (regs 0x25 AND 0xfe), fir_base = 4 * uint (regs 0x25 AND 0xfe),
     irq = uint (regs 0x28 AND 0x0f),
     dma = (if drop_bit 4 (regs 0x2A) = regs 0x2A AND 0x0F then uint (drop_bit 4 (regs 0x2A)) else dma junk),
     uart_comp = 1,
     enabled = of_bool (ir_mode_on regs),
     suspended = 0, delay = delay junk\<rparr>"

lemma bit_mask:
  "(v AND 0x10 = 0) = (\<not> bit (v :: byte) 4)" "(v AND 0x08 = 0) = (\<not> bit (v :: byte) 3)"
  "(v AND 0x20 = 0) = (\<not> bit (v :: byte) 5)" "(v AND 0x01 = 0) = (\<not> bit (v :: byte) 0)"
  by (simp_all add: byte_eq_iff bit_simps)

lemma high_nibble: "drop_bit 4 (v :: byte) AND 0x0F = drop_bit 4 v"
proof -
  have "\<not> bit v 8" "\<not> bit v 9" "\<not> bit v 10" "\<not> bit v 11" by (auto dest: bit_imp_le_length)
  then show ?thesis by (simp add: byte_eq_iff bit_simps)
qed

lemma uint_same: "uint (v :: byte) = uint w \<longleftrightarrow> v = w"
  by (simp add: word_uint_eq_iff)

lemma w83877_info:
  assumes e: "efir_addr e = b" "efdr_addr e = b + 1" "b \<in> {0x3f0, 0x370, 0x251}"
    and chip: "find_chip (uint (regs 0x09 AND 0x0F)) = Some chip" "w_chip_id chip = uint (regs 0x09 AND 0x0F)"
  shows "wp (w83877_read_info (chip_at (word_of_int b) i0 regs) junk e)
    (\<lambda>found t. found \<and> infos t = infos s @ [info_877 junk (efer_addr e) chip regs]) never s"
proof -
  have info: "info_877 junk (efer_addr e) chip regs = junk\<lparr>chip_id := uint (regs 0x09 AND CHIPID),
      dma := (if uint (drop_bit 4 (regs 0x2A AND IRTXDRQSEL)) = uint (regs 0x2A AND IRRXDRQSEL)
              then uint (drop_bit 4 (regs 0x2A AND IRTXDRQSEL)) else dma junk),
      irq := uint (regs 0x28 AND URBIQS),
      sir_base := push_bit 2 (uint (regs 0x25 AND URBAD)), fir_base := push_bit 2 (uint (regs 0x25 AND URBAD)),
      manufacturer := ''WINBOND'', chip_name := w_name chip, cfg_base := efer_addr e, uart_comp := 1,
      enabled := of_bool (\<not> (regs 0x0C AND ENBKIRSL = 0 \<or> regs 0x0C AND URIRSEL = 0 \<or>
        regs 0x0D AND IRMODE \<notin> {2, 3} \<or> regs 0x2C AND ENBNKSEL = 0)),
      revision := -1, suspended := 0\<rparr>"
    using chip(2)
    by (simp add: info_877_def ir_mode_on_def bit_mask high_nibble uint_same push_bit_eq_mult mult.commute
        del: if_split)
  show ?thesis
    unfolding w83877_read_info_def w83877_disabled_def Let_def info
    by (intro report_rules report_some [OF chip(1)] report_reg [OF e] conjI TrueI) (simp only:)
qed

lemma report_knock:
  assumes "allowed (word_of_int p)" and "\<And>t. infos t = infos s \<Longrightarrow> Q () t"
  shows "wp (seqs (replicate n (outb v p))) Q E s"
  using assms
proof (induction n arbitrary: s)
  case 0
  then show ?case by (simp add: wp_simps)
next
  case (Suc n)
  have "wp (seqs (replicate n (outb v p))) Q E t" if "infos t = infos s" for t
    using Suc.IH [of t] Suc.prems that by simp
  then show ?case
    unfolding replicate_Suc wp_seqs_Cons by (intro report_out Suc.prems(1))
qed

lemma find_chip_id: "find_chip n = Some c \<Longrightarrow> w_chip_id c = n"
  by (auto simp: find_chip_def find_Some_iff)

lemma report_strap:
  assumes "\<And>R u. (\<And>t. infos t = infos u \<Longrightarrow> R v t) \<Longrightarrow> wp (reg_of H e (word_of_int ind)) R E u"
    and "ind \<ge> 0" and "((if v AND m \<noteq> 0 then 1 else 0) = val) = ok"
  shows "wp (strap H e msg ind m val) (\<lambda>ok' t. ok' = ok \<and> infos t = infos s) E s"
proof -
  have "wp (bnd (reg_of H e (word_of_int ind)) (\<lambda>v. thn (DEBUG (ln msg) [Ib v])
      (ret ((if v AND m \<noteq> 0 then 1 else 0) = val)))) (\<lambda>ok' t. ok' = ok \<and> infos t = infos s) E s"
    by (intro report_rules assms(1)) (simp add: assms(3))
  with assms(2) show ?thesis by (simp add: strap_def)
qed

lemma report_entry:
  assumes first: "wp (strap H e ''hefras = 0x%02x '' (hefras_index e) (hefras_mask e) (hefras_val e))
      (\<lambda>ok t. ok = b \<and> infos t = infos s) E s"
    and none: "\<And>t. \<not> b \<Longrightarrow> infos t = infos s \<Longrightarrow> Q False t"
    and second: "\<And>t. b \<Longrightarrow> infos t = infos s \<Longrightarrow>
      wp (strap H e ''hefere = 0x%02x '' (hefere_index e) (hefere_mask e) (hefere_val e)) (\<lambda>ok u. ok \<and> infos u = infos s) E t"
    and read: "\<And>t. b \<Longrightarrow> infos t = infos s \<Longrightarrow> wp (case w_type e of
      W83877 \<Rightarrow> w83877_read_info H junk e | W83977 \<Rightarrow> w83977_read_info H junk e
    | W83977_PNP \<Rightarrow> thn (DEBUG ''BUG in the source code.. :('' []) (ret False)) Q E t"
  shows "wp (winbond_entry H junk e) Q E s"
  unfolding winbond_entry_def
proof (rule report_flow(1), rule wp_weaken [OF first])
  fix ok :: bool and t :: probing assume "ok = b \<and> infos t = infos s"
  moreover have "wp (bnd (strap H e ''hefere = 0x%02x '' (hefere_index e) (hefere_mask e) (hefere_val e)) (\<lambda>ok.
      if \<not> ok then ret False else
      thn (DEBUG (ln ''EFER seems to be probed at 0x%04x'') [Ii (efer_addr e)]) (case w_type e of
        W83877 \<Rightarrow> w83877_read_info H junk e | W83977 \<Rightarrow> w83977_read_info H junk e
      | W83977_PNP \<Rightarrow> thn (DEBUG ''BUG in the source code.. :('' []) (ret False)))) Q E t" if b "infos t = infos s" for t
    by (rule report_flow(1), rule wp_weaken [OF second [OF that]])
       (simp, intro report_rules, rule read, simp_all add: that)
  ultimately show "wp (if \<not> ok then ret False else
      bnd (strap H e ''hefere = 0x%02x '' (hefere_index e) (hefere_mask e) (hefere_val e)) (\<lambda>ok.
      if \<not> ok then ret False else
      thn (DEBUG (ln ''EFER seems to be probed at 0x%04x'') [Ii (efer_addr e)]) (case w_type e of
        W83877 \<Rightarrow> w83877_read_info H junk e | W83977 \<Rightarrow> w83977_read_info H junk e
      | W83977_PNP \<Rightarrow> thn (DEBUG ''BUG in the source code.. :('' []) (ret False)))) Q E t"
    using none by (simp add: wp_ret)
qed

text \<open>On a machine whose only chip is at 0x251, the first two entries of the table find nothing.\<close>

lemma no_chip:
  assumes "e = efer_977 0x3F0 0 \<or> e = efer_977 0x370 1"
  shows "(\<And>t. infos t = infos u \<Longrightarrow> R 0xff t) \<Longrightarrow> wp (reg_of (chip_at 0x251 i0 regs) e r) R E u"
  using report_no_reg [where e = e and b = "0x251" and s = u and Q = R and r = r] assms
  by (auto simp: efers_def efer_977_def)

lemma nothing_977:
  assumes "e = efer_977 0x3F0 0 \<or> e = efer_977 0x370 1" and "\<And>t. infos t = infos u \<Longrightarrow> Q False t"
  shows "wp (w83977_read_info (chip_at 0x251 i0 regs) junk e) Q E u"
  unfolding w83977_read_info_def
  by (intro report_rules no_chip [OF assms(1)]) (simp, intro report_rules, simp add: assms(2))

lemma entry_0:
  assumes "\<And>t. infos t = infos s \<Longrightarrow> Q False t"
  shows "wp (winbond_entry (chip_at 0x251 i0 regs) junk (efer_977 0x3F0 0)) Q E s"
proof (rule report_entry [where b = False], rule report_strap [OF no_chip])
  show "((if (255 :: byte) AND hefras_mask (efer_977 0x3F0 0) \<noteq> 0 then 1 else 0) = hefras_val (efer_977 0x3F0 0)) = False"
    by (simp add: efer_977_def)
qed (auto simp: assms efer_977_def)

lemma entry_1:
  assumes "\<And>t. infos t = infos s \<Longrightarrow> Q False t"
  shows "wp (winbond_entry (chip_at 0x251 i0 regs) junk (efer_977 0x370 1)) Q E s"
proof (rule report_entry [where b = True])
  let ?H = "chip_at 0x251 i0 regs" and ?e = "efer_977 0x370 1"
  show "wp (strap ?H ?e ''hefras = 0x%02x '' (hefras_index ?e) (hefras_mask ?e) (hefras_val ?e))
      (\<lambda>ok t. ok = True \<and> infos t = infos s) E s"
  proof (rule report_strap [OF no_chip])
    show "((if (255 :: byte) AND hefras_mask ?e \<noteq> 0 then 1 else 0) = hefras_val ?e) = True"
      by (simp add: efer_977_def)
  qed (auto simp: efer_977_def)
  show "wp (strap ?H ?e ''hefere = 0x%02x '' (hefere_index ?e) (hefere_mask ?e) (hefere_val ?e))
      (\<lambda>ok u. ok \<and> infos u = infos s) E t" if "infos t = infos s" for t
    using that by (simp add: strap_def efer_977_def wp_ret)
  have "w_type ?e = W83977" by (simp add: efer_977_def)
  then show "wp (case w_type ?e of W83877 \<Rightarrow> w83877_read_info ?H junk ?e | W83977 \<Rightarrow> w83977_read_info ?H junk ?e
    | W83977_PNP \<Rightarrow> thn (DEBUG ''BUG in the source code.. :('' []) (ret False)) Q E t" if "infos t = infos s" for t
    using that assms by (simp only: chip_type.case) (rule nothing_977, simp_all)
qed simp

lemma entry_2:
  assumes strap: "\<not> bit (regs 0x16) 0" "\<not> bit (regs 0x0C) 5"
    and chip: "find_chip (uint (regs 0x09 AND 0x0F)) = Some chip"
    and Q: "\<And>t. infos t = infos s @ [info_877 junk 0x250 chip regs] \<Longrightarrow> Q True t"
  shows "wp (winbond_entry (chip_at 0x251 i0 regs) junk (efer_877 0x250 1 0x88 0x88 0x251 0 0)) Q never s"
proof (rule report_entry [where b = True])
  let ?H = "chip_at 0x251 i0 regs" and ?e = "efer_877 0x250 1 0x88 0x88 0x251 0 0"
  have e: "efir_addr ?e = 0x251" "efdr_addr ?e = 0x251 + 1" "efer_addr ?e = 0x250" by (simp_all add: efer_877_def)
  have yes: "(\<And>t. infos t = infos u \<Longrightarrow> R (regs r) t) \<Longrightarrow> wp (reg_of ?H ?e r) R never u" for R u r
    using report_reg [OF e(1,2), where s = u and Q = R and r = r] by simp
  show "wp (strap ?H ?e ''hefras = 0x%02x '' (hefras_index ?e) (hefras_mask ?e) (hefras_val ?e))
      (\<lambda>ok t. ok = True \<and> infos t = infos s) never s"
    using strap by (intro report_strap [OF yes]) (auto simp: efer_877_def bit_mask)
  show "wp (strap ?H ?e ''hefere = 0x%02x '' (hefere_index ?e) (hefere_mask ?e) (hefere_val ?e))
      (\<lambda>ok u. ok \<and> infos u = infos s) never t" if "infos t = infos s" for t
  proof -
    have "wp (strap ?H ?e ''hefere = 0x%02x '' (hefere_index ?e) (hefere_mask ?e) (hefere_val ?e))
      (\<lambda>ok u. ok = True \<and> infos u = infos t) never t"
      using strap by (intro report_strap [OF yes]) (auto simp: efer_877_def bit_mask)
    then show ?thesis by (rule wp_weaken) (simp_all add: that)
  qed
  have type: "w_type ?e = W83877" by (simp add: efer_877_def)
  show "wp (case w_type ?e of W83877 \<Rightarrow> w83877_read_info ?H junk ?e | W83977 \<Rightarrow> w83977_read_info ?H junk ?e
    | W83977_PNP \<Rightarrow> thn (DEBUG ''BUG in the source code.. :('' []) (ret False)) Q never t" if "infos t = infos s" for t
  proof -
    have "wp (w83877_read_info (chip_at (word_of_int 0x251) i0 regs) junk ?e) Q never t"
      by (rule wp_weaken [OF w83877_info [where regs = regs and chip = chip and b = "0x251" and e = ?e,
            OF e(1,2) _ chip find_chip_id [OF chip]]], simp)
         (simp only: e(3) that Q simp_thms)
    then show ?thesis unfolding type by simp
  qed
qed simp

lemma report_turn:
  assumes "allowed (word_of_int (efer_addr e))"
    and "\<And>u. infos u = infos s \<Longrightarrow> wp (winbond_entry H junk e) (\<lambda>found t. \<forall>t'. infos t' = infos t \<longrightarrow>
      wp (if found then ret () else probe_efers H junk es) Q E t') E u"
  shows "wp (probe_efers H junk (e # es)) Q E s"
  unfolding probe_efers.simps
  by (intro report_rules report_knock assms(1)) (rule wp_weaken [OF assms(2)], simp, intro report_rules assms(1), simp)

text \<open>
  C27. Where a W83877 answers at 0x251 with the straps of its first place in the table, the probe of
  the whole Winbond table reports exactly one chip, with the settings its registers hold; but the
  DMA channel is whatever was on the stack when the channels for sending and receiving differ, and
  the half duplex delay always is: the structure that describes the chip is not cleared first.
\<close>

theorem w83877_found:
  assumes "\<not> bit (regs 0x16) 0" and "\<not> bit (regs 0x0C) 5"
    and "find_chip (uint (regs 0x09 AND 0x0F)) = Some chip"
  shows "wp (probe_winbond (chip_at 0x251 i0 regs) junk)
    (\<lambda>_ t. infos t = infos s @ [info_877 junk 0x250 chip regs]) never s"
proof -
  have "allowed (word_of_int (efer_addr e))" if "e \<in> set efers" for e
    using that by (auto simp: efers_def efer_977_def efer_877_def allowed_def)
  then have ok: "allowed (word_of_int (efer_addr (efer_977 0x3F0 0)))"
    "allowed (word_of_int (efer_addr (efer_977 0x370 1)))"
    "allowed (word_of_int (efer_addr (efer_877 0x250 1 0x88 0x88 0x251 0 0)))"
    by (simp_all add: efers_def)
  show ?thesis
    unfolding probe_winbond_def efers_def
    by (rule report_turn [OF ok(1)], rule entry_0, simp only: simp_thms if_False, intro allI impI,
        rule report_turn [OF ok(2)], rule entry_1, simp only: simp_thms if_False, intro allI impI,
        rule report_turn [OF ok(3)], rule entry_2 [OF assms], simp add: wp_ret)
qed

theorem w83877_found_witness:
  "wp (probe_winbond (chip_at 0x251 0 (\<lambda>r. if r = 0x09 then 0x0b else if r = 0x2A then 0x31
      else if r = 0x0C then 0x18 else if r = 0x0D then 2 else 0x08)) (clear_info\<lparr>dma := 77\<rparr>))
    (\<lambda>_ t. \<exists>i. infos t = [i] \<and> chip_name i = ''W83877AF'' \<and> sir_base i = 0x20 \<and> enabled i = 1 \<and> dma i = 77)
    never start_probing"
proof -
  let ?r = "\<lambda>r :: byte. if r = 0x09 then 0x0b else if r = 0x2A then 0x31
      else if r = 0x0C then 0x18 else if r = 0x0D then 2 else 0x08 :: byte"
  have "find_chip (uint (?r 0x09 AND 0x0F)) = Some (winbond_chips ! 2)"
    by (simp add: find_chip_def winbond_chips_def)
  from w83877_found [where regs = ?r, OF _ _ this, of 0 "clear_info\<lparr>dma := 77\<rparr>" start_probing] show ?thesis
    by (rule wp_weaken) (simp_all add: info_877_def ir_mode_on_def start_probing_def winbond_chips_def bit_simps)
qed

end
