(* ===== verification/Findchip.thy ===== *)
theory Findchip
  imports Smc Nsc Winbond
begin

text \<open>
  The program findchip (\<open>findchip/findchip.c\<close>): options, permission for the ports, and the choice of
  the probes by the names on the command line. The results of \<open>getopt\<close>, the arguments it leaves at
  \<open>optind\<close> and the answer of \<open>ioperm\<close> are arguments of the model, as is the hardware, and what the
  local structure of the Winbond probe holds before it is filled.
\<close>

definition to_lower :: "byte \<Rightarrow> byte" where
  "to_lower b = (if 0x41 \<le> b \<and> b \<le> 0x5a then b + 0x20 else b)"

text \<open>\<open>strcasecmp(a, b) == 0\<close>\<close>

definition same_nocase :: "byte list \<Rightarrow> byte list \<Rightarrow> bool" where
  "same_nocase a b = (map to_lower a = map to_lower b)"

definition allchips :: "hardware \<Rightarrow> (probing \<Rightarrow> chip_info) \<Rightarrow> (string \<times> unit pm) list" where
  "allchips H stack =
    [(''SMC'', probe_smc H), (''NSC'', probe_nsc H),
     (''WINBOND'', bnd (gets stack) (\<lambda>junk. probe_winbond H junk))]"

definition list_chips :: "unit pm" where
  "list_chips = seqs (map (\<lambda>chip. prt (ln ''%s'') [Sl chip]) [''SMC'', ''NSC'', ''WINBOND''])"

definition findchip_usage :: "unit pm" where
  "findchip_usage = seqs (map (\<lambda>l. prt (ln l) [])
    [''Usage: findchip [-d] [-v] [-l] [chip1 ...  chipN]'', '''', ''-d     Enable debug output'',
     ''-v     Be verbose'', ''-l     List supported chipsets'', ''-h     Print help (this message)''])"

text \<open>One result of \<open>getopt\<close>; other characters (the question mark of an unknown option) do nothing.\<close>

definition findchip_option :: "char \<Rightarrow> unit pm" where
  "findchip_option c =
    (if c = CHR ''v'' then modify (\<lambda>s. s\<lparr>verbose_flag := True\<rparr>)
     else if c = CHR ''d'' then modify (\<lambda>s. s\<lparr>debug_flag := True\<rparr>)
     else if c = CHR ''h'' then thn findchip_usage (stop (Exit 0))
     else if c = CHR ''l'' then thn list_chips (stop (Exit 0))
     else ret ())"

text \<open>The inner loop over the table; \<open>None\<close> is the null pointer behind the last argument.\<close>

definition probe_named :: "hardware \<Rightarrow> (probing \<Rightarrow> chip_info) \<Rightarrow> byte list option \<Rightarrow> unit pm" where
  "probe_named H stack arg = seqs (map (\<lambda>(chip, probe).
     doif (case arg of None \<Rightarrow> True | Some a \<Rightarrow> same_nocase a (bytes_of chip)) probe) (allchips H stack))"

text \<open>The outer loop runs once even when there is no argument.\<close>

definition probe_all :: "hardware \<Rightarrow> (probing \<Rightarrow> chip_info) \<Rightarrow> byte list list \<Rightarrow> unit pm" where
  "probe_all H stack args =
    seqs (map (probe_named H stack) (if args = [] then [None] else map Some args))"

definition findchip_main ::
  "hardware \<Rightarrow> (probing \<Rightarrow> chip_info) \<Rightarrow> bool \<Rightarrow> char list \<Rightarrow> byte list list \<Rightarrow> int pm" where
  "findchip_main H stack permitted chars args =
    thn (seqs (map findchip_option chars)) (
    thn (doif (\<not> permitted) (thn (prt ''Set i/o permission'' []) (stop (Exit 0)))) (
    thn (probe_all H stack args)
    (ret 0)))"

section \<open>Properties\<close>

text \<open>What a run may stop with: an end before the first port access, or a fault.\<close>

abbreviation run_stop :: "fault \<Rightarrow> probing \<Rightarrow> bool" where
  "run_stop e s \<equiv> port_fault e s \<or> e = Exit 0 \<and> ios s = []"

lemma probe_all_keeps: "keeps all_closed port_fault (probe_all H stack args)"
proof -
  have "keeps all_closed port_fault (doif c p)" if "(n, p) \<in> set (allchips H stack)" for c n p
    using that smcp.chosen nscp.chosen winp.chosen by (auto simp: allchips_def)
  then show ?thesis
    unfolding probe_all_def probe_named_def by (fastforce intro!: keeps_seqs)
qed

lemma text_keeps:
  "keeps (\<lambda>s. ios s = []) E findchip_usage" "keeps (\<lambda>s. ios s = []) E list_chips"
  unfolding findchip_usage_def list_chips_def
  by (auto simp: keeps_def [where m = "prt _ _"] wp_simps intro!: keeps_seqs)

lemma option_keeps: "keeps (\<lambda>s. ios s = []) run_stop (findchip_option c)"
proof -
  have "keeps (\<lambda>s. ios s = []) run_stop (stop (Exit 0) :: unit pm)"
    by (simp add: keeps_def wp_simps)
  moreover have "keeps (\<lambda>s. ios s = []) run_stop (modify f)" if "\<And>s. ios (f s) = ios s" for f
    using that by (simp add: keeps_def wp_simps)
  ultimately show ?thesis
    unfolding findchip_option_def by (auto intro!: keeps_rules text_keeps)
qed

text \<open>
  C26. Whatever the hardware answers, whatever the options and names: findchip ends with status 0
  and has closed the configuration registers again at each of the three ports at which it opens them:
  0x3f0 and 0x370 with 0xAA, 0x250 with the value the table has for the key used. The only other end is the fault of an access to a port outside the range that
  \<open>ioperm\<close> was asked for; help, list and a refused permission end it before any port is touched.
\<close>

theorem every_run_closes:
  assumes "ios s = []"
  shows "wp (findchip_main H stack permitted chars args) (\<lambda>r t. r = 0 \<and> all_closed t) run_stop s"
proof -
  have chars: "keeps (\<lambda>s. ios s = []) run_stop (seqs (map findchip_option chars))"
    by (rule keeps_seqs) (use option_keeps in auto)
  have perm: "wp (doif (\<not> permitted) (thn (prt f a) (stop (Exit 0)))) (\<lambda>_ t. ios t = []) run_stop t"
    if "ios t = []" for f a t
    using that by (simp add: wp_simps)
  have all: "wp (probe_all H stack args) (\<lambda>_. all_closed) run_stop t" if "ios t = []" for t
    by (rule keepsD [OF keeps_weaken [OF probe_all_keeps]]) (use that in \<open>auto simp: all_closed_iff is_open_def\<close>)
  show ?thesis
    unfolding findchip_main_def wp_thn wp_ret
    by (rule wp_weaken [OF keepsD [OF chars assms]], rule wp_weaken [OF perm], simp, rule wp_weaken [OF all]) simp_all
qed

theorem every_run_closes_witness:
  "wp (findchip_main (\<lambda>h p. 0x55) (\<lambda>_. clear_info) True ''vd'' [bytes_of ''smc'', bytes_of ''Winbond''])
    (\<lambda>r t. r = 0 \<and> all_closed t) run_stop start_probing"
  by (rule every_run_closes) (simp add: start_probing_def)

text \<open>
  A name that is not in the table is ignored without a word: findchip touches no port, prints
  nothing and exits with status 0.
\<close>

theorem unknown_names_ignored:
  assumes "args \<noteq> []" and "\<And>a. a \<in> set args \<Longrightarrow>
    map to_lower a \<notin> {bytes_of ''smc'', bytes_of ''nsc'', bytes_of ''winbond''}"
  shows "findchip_main H stack True [] args s = (Inr 0, s)"
proof -
  have low: "map to_lower (bytes_of ''SMC'') = bytes_of ''smc''" "map to_lower (bytes_of ''NSC'') = bytes_of ''nsc''"
    "map to_lower (bytes_of ''WINBOND'') = bytes_of ''winbond''"
    by (simp_all add: to_lower_def bytes_of_def)
  have none: "wp (probe_named H stack (Some a)) (\<lambda>_ t. t = s) never s" if "a \<in> set args" for a
    using assms(2) [OF that] by (simp add: probe_named_def allchips_def same_nocase_def low wp_simps)
  have "wp (probe_all H stack args) (\<lambda>_ t. t = s) never s"
    unfolding probe_all_def by (rule wp_seqs_inv) (use assms(1) none in auto)
  then have "wp (findchip_main H stack True [] args) (\<lambda>r t. r = 0 \<and> t = s) never s"
    by (simp add: findchip_main_def wp_simps)
  then show ?thesis by (auto dest: wp_neverD)
qed

theorem unknown_names_ignored_witness:
  "findchip_main (\<lambda>_ _. 0) (\<lambda>_. clear_info) True [] [bytes_of ''VIA''] start_probing = (Inr 0, start_probing)"
  by (rule unknown_names_ignored) (auto simp: to_lower_def bytes_of_def)

end
