(* ===== verification/Irpsion5.thy ===== *)
theory Irpsion5
  imports C_Library
begin

text \<open>
  The program that exchanges files with a Psion 5 (\<open>psion/irpsion5.c\<close>). It works by system calls,
  so its state is small: three options, the buffer of the current transfer, and the history of what
  was asked of the system. What the system answers is a function of that history.
\<close>

section \<open>State and system\<close>

abbreviation MAX_DEVICES :: nat where "MAX_DEVICES \<equiv> 10"
abbreviation EPERM :: int where "EPERM \<equiv> 1"
abbreviation EAGAIN :: int where "EAGAIN \<equiv> 11"
abbreviation EINVAL :: int where "EINVAL \<equiv> 22"
abbreviation ENETUNREACH :: int where "ENETUNREACH \<equiv> 101"

text \<open>
  \<open>Sys\<close>: a call of the system or of the C library on files, with its integer and string arguments.
  \<open>Shown\<close>: a line for the user. \<open>Progress\<close>: a line with bytes done, bytes in all and seconds; its
  floating point numbers are not modelled.
\<close>

datatype pact =
    Sys string "int list" "byte list list"
  | Shown tcall
  | Failed "byte list"       \<comment> \<open>\<open>perror\<close>\<close>
  | Progress string int int int

record psion =
  slot_timeout :: int
  debug_level :: int
  verbose :: int
  pbuf :: "byte list"
  pacts :: "pact list"

text \<open>
  \<open>p_answer\<close> is the result of the last call, \<open>p_data\<close> what it stores: at most as many bytes as it
  is asked for, which \<open>read_into\<close> cuts off. \<open>p_ferror\<close> tells a short \<open>fread\<close> at an error from
  one at the end. \<open>p_heap\<close> is what a new block holds.
\<close>

record psion_system =
  p_answer :: "pact list \<Rightarrow> int"
  p_errno :: "pact list \<Rightarrow> int"
  p_data :: "pact list \<Rightarrow> byte list"
  p_ferror :: "pact list \<Rightarrow> bool"
  p_mtu :: "pact list \<Rightarrow> int"
  p_size :: "pact list \<Rightarrow> int"
  p_writable :: "pact list \<Rightarrow> bool"
  p_mtime :: "pact list \<Rightarrow> int"
  p_time :: "pact list \<Rightarrow> int"
  p_heap :: "pact list \<Rightarrow> nat \<Rightarrow> byte"
  p_host :: endian
  p_date :: "u32 \<Rightarrow> byte list"   \<comment> \<open>\<open>asctime(gmtime(...))\<close>\<close>
  p_wide_time :: bool            \<comment> \<open>\<open>time_t\<close> has 64 bits\<close>

type_synonym 'a em = "(psion, 'a) cm"

definition pdo :: "pact \<Rightarrow> unit em" where
  "pdo a = modify (\<lambda>s. s\<lparr>pacts := pacts s @ [a]\<rparr>)"

definition ask :: "(pact list \<Rightarrow> 'a) \<Rightarrow> 'a em" where
  "ask f = gets (\<lambda>s. f (pacts s))"

definition sysc :: "psion_system \<Rightarrow> string \<Rightarrow> int list \<Rightarrow> byte list list \<Rightarrow> int em" where
  "sysc K name ints strs = thn (pdo (Sys name ints strs)) (ask (p_answer K))"

definition shown :: "string \<Rightarrow> varg list \<Rightarrow> unit em" where
  "shown fmt args = pdo (Shown (Term fmt args))"

definition failed :: "string \<Rightarrow> unit em" where
  "failed what = pdo (Failed (bytes_of what))"

definition dbg :: "int \<Rightarrow> string \<Rightarrow> varg list \<Rightarrow> unit em" where
  "dbg n fmt args = bnd (gets debug_level) (\<lambda>d. doif (n \<le> d) (shown fmt args))"

text \<open>\<open>malloc\<close>; \<open>None\<close> is the null pointer. \<open>put\<close> stores at the start of the buffer.\<close>

definition new_block :: "psion_system \<Rightarrow> nat \<Rightarrow> byte list option em" where
  "new_block K n = bnd (sysc K ''malloc'' [int n] []) (\<lambda>p.
     if p = 0 then ret None else ask (\<lambda>h. Some (map (p_heap K h) [0..<n])))"

definition put :: "byte list \<Rightarrow> unit em" where
  "put bs = bnd (gets pbuf) (\<lambda>buf.
     thn (check Oob_write (length bs \<le> length buf))
       (modify (\<lambda>s. s\<lparr>pbuf := bs @ drop (length bs) buf\<rparr>)))"

text \<open>The buffer as a C string.\<close>

definition buf_string :: "byte list em" where
  "buf_string = bnd (gets pbuf) (\<lambda>buf. thn (check Oob_read (0 \<in> set buf)) (ret (cstring buf)))"

definition dbg_buf :: "int \<Rightarrow> string \<Rightarrow> unit em" where
  "dbg_buf n fmt = bnd (gets debug_level) (\<lambda>d. doif (n \<le> d) (bnd buf_string (\<lambda>b. shown fmt [AS b])))"

text \<open>\<open>read(fd, buf, n)\<close>: -1, or the number of bytes stored.\<close>

definition read_into :: "psion_system \<Rightarrow> int \<Rightarrow> nat \<Rightarrow> int em" where
  "read_into K fd n = bnd (sysc K ''read'' [fd, int n] []) (\<lambda>r.
     if r < 0 then ret (-1)
     else bnd (ask (p_data K)) (\<lambda>bs. thn (put (take n bs)) (ret (int (length (take n bs))))))"

definition time_now :: "psion_system \<Rightarrow> int em" where
  "time_now K = thn (pdo (Sys ''time'' [] [])) (ask (p_time K))"

section \<open>Discovery\<close>

definition set_slot_timeout :: "psion_system \<Rightarrow> int \<Rightarrow> int em" where
  "set_slot_timeout K ms = (let varpath = ''/proc/sys/net/irda/slot_timeout'' in
     bnd (sysc K ''fopen'' [] [bytes_of varpath, bytes_of ''w'']) (\<lambda>fp.
     if fp = 0 then thn (failed varpath) (ret 1)
     else
       bnd (gets slot_timeout) (\<lambda>t.
       thn (dbg 1 (ln ''Setting slot_timeout to %d'') [Ii t]) (
       bnd (sysc K ''fprintf'' [ms] []) (\<lambda>n.
       thn (doif (n \<le> 0) (failed varpath)) (
       bnd (sysc K ''fclose'' [] []) (\<lambda>r.
       thn (doif (r \<noteq> 0) (failed varpath)) (ret 0))))))))"

text \<open>
  \<open>struct irda_device_list\<close> in the buffer: the number of devices, then 36 bytes for each, with
  \<open>saddr\<close> at 0, \<open>daddr\<close> at 4, the name at 8 and two hint bytes at 31.
\<close>

definition list_size :: nat where
  "list_size = 40 + 36 * (MAX_DEVICES - 1)"

definition dev_field :: "psion_system \<Rightarrow> byte list \<Rightarrow> nat \<Rightarrow> nat \<Rightarrow> u32" where
  "dev_field K buf i off = word32 (p_host K) (drop (4 + 36 * i + off) buf)"

definition dev_info :: "byte list \<Rightarrow> nat \<Rightarrow> byte list" where
  "dev_info buf i = drop (4 + 36 * i + 8) buf"

definition in_list :: "nat \<Rightarrow> unit em" where
  "in_list i = check Oob_read (i < MAX_DEVICES)"

definition info_string :: "byte list \<Rightarrow> nat \<Rightarrow> byte list em" where
  "info_string buf i = thn (check Oob_read (0 \<in> set (dev_info buf i))) (ret (cstring (dev_info buf i)))"

text \<open>
  The loop that asks for the list, from the \<open>i\<close>-th try on. \<open>len\<close> is given to the system with
  the size of the buffer and comes back with the size of the answer; it is not set again before the
  next try.
\<close>

function ask_devices :: "psion_system \<Rightarrow> int \<Rightarrow> nat \<Rightarrow> nat \<Rightarrow> byte list \<Rightarrow> (nat \<times> byte list) em" where
  "ask_devices K fd i len buf =
    (if i < 5 then
       bnd (sysc K ''getsockopt IRLMP_ENUMDEVICES'' [fd, int len] []) (\<lambda>r.
       if r = 0 then
         bnd (ask (p_data K)) (\<lambda>bs.
         let bs = take len bs; len' = length bs; buf' = bs @ drop len' buf in
         thn (dbg 1 (ln ''getsockopt IRLMP_ENUMDEVICES ok, len=%d'') [Ii (int len')]) (
         if i = 0 \<and> len' = 4 then
           thn (dbg 1 (ln ''Ignoring first empty reply'') []) (
           thn (pdo (Sys ''sleep'' [1] [])) (
           ask_devices K fd (i + 1) len' buf'))
         else ret (len', buf')))
       else
         bnd (ask (p_errno K)) (\<lambda>e.
         if e = EAGAIN then
           thn (dbg 1 (ln ''Waiting for discovery to finish.'') []) (
           thn (pdo (Sys ''sleep'' [1] [])) (
           ask_devices K fd (i + 1) len buf))
         else thn (failed ''getsockopt'') (stop (Exit (-1)))))
     else ret (len, buf))"
  by pat_completeness auto
termination by (relation "measure (\<lambda>(K, fd, i, len, buf). 5 - i)") auto

declare ask_devices.simps [simp del]

text \<open>The loop of the debug output.\<close>

function show_devices :: "psion_system \<Rightarrow> byte list \<Rightarrow> nat \<Rightarrow> nat \<Rightarrow> unit em" where
  "show_devices K buf n i =
    (if i < n \<and> i < MAX_DEVICES then
       bnd (gets debug_level) (\<lambda>d.
       thn (doif (1 \<le> d) (bnd (info_string buf i) (\<lambda>name.
         shown (ln ''  daddr: %08x  saddr: %08x  hints: %02x%02x  name: %s'')
           [AI (dev_field K buf i 4), AI (dev_field K buf i 0), Ib (buf ! (4 + 36 * i + 31)),
            Ib (buf ! (4 + 36 * i + 32)), AS name])))
       (show_devices K buf n (i + 1)))
     else if i < n then
       bnd (gets debug_level) (\<lambda>d. check Oob_read (d < 1))
     else ret ())"
  by pat_completeness auto
termination by (relation "measure (\<lambda>(K, buf, n, i). MAX_DEVICES - i)") auto

declare show_devices.simps [simp del]

text \<open>The first device from the \<open>i\<close>-th on whose name starts with \<open>name\<close>.\<close>

function find_device :: "byte list \<Rightarrow> nat \<Rightarrow> byte list \<Rightarrow> nat \<Rightarrow> nat option em" where
  "find_device buf n name i =
    (if i < n then
       thn (in_list i) (
       if i < MAX_DEVICES \<and> take (length name) (dev_info buf i) \<noteq> name then find_device buf n name (i + 1)
       else ret (Some i))
     else ret None)"
  by pat_completeness auto
termination by (relation "measure (\<lambda>(buf, n, name, i). MAX_DEVICES - i)") auto

declare find_device.simps [simp del]

definition select_device :: "psion_system \<Rightarrow> byte list \<Rightarrow> nat \<Rightarrow> string \<Rightarrow> u32 em" where
  "select_device K buf i text =
     thn (dbg 1 (ln text) []) (
     bnd (gets verbose) (\<lambda>v.
     thn (doif (v \<noteq> 0) (bnd (info_string buf i) (\<lambda>name. shown (ln ''Sending to %s'') [AS name])))
     (ret (dev_field K buf i 4))))"

definition discover_devices :: "psion_system \<Rightarrow> int \<Rightarrow> u32 em" where
  "discover_devices K fd =
    bnd (gets slot_timeout) (\<lambda>t.
    thn (doif (0 < t) (thn (set_slot_timeout K t) (ret ()))) (
    bnd (new_block K list_size) (\<lambda>b. case b of
      None \<Rightarrow> thn (shown (ln ''Could not allocate discovery buffer.'') []) (stop (Exit 1))
    | Some blk \<Rightarrow>
    bnd (ask_devices K fd 0 list_size blk) (\<lambda>(len, buf).
    if len < 4 then thn (shown (ln ''Unexpected len value: %d'') [Ii (int len)]) (stop (Exit 1)) else
    let n = unat (word32 (p_host K) buf) in
    if n = 0 then thn (dbg 1 (ln ''No devices discovered.'') []) (ret 0) else
    thn (dbg 1 (ln ''Discovered: (%d,%d)'') [Ii (int len), AI (word32 (p_host K) buf)]) (
    thn (show_devices K buf n 0) (
    bnd (find_device buf n (bytes_of ''Symbian EPOC'') 0) (\<lambda>epoc. case epoc of
      Some i \<Rightarrow> select_device K buf i ''Selecting first EPOC device.''
    | None \<Rightarrow>
    bnd (find_device buf n (bytes_of ''Psion Series 5'') 0) (\<lambda>psion. case psion of
      Some i \<Rightarrow> select_device K buf i ''Selecting first Psion Series 5 device.''
    | None \<Rightarrow> select_device K buf 0 ''Selecting first IRDA device.''))))))))"

definition irttp_get_mtu :: "psion_system \<Rightarrow> int \<Rightarrow> int em" where
  "irttp_get_mtu K fd =
    bnd (sysc K ''getsockopt IRTTP_MAX_SDU_SIZE'' [fd] []) (\<lambda>r.
    if r \<noteq> 0 then thn (failed ''getsockopt IRTTP_MAX_SDU_SIZE'') (ret (-1))
    else bnd (ask (p_mtu K)) (\<lambda>mtu.
      thn (dbg 1 (ln ''max_sdu_size = %d'') [Ii mtu]) (ret mtu)))"

section \<open>Sending\<close>

text \<open>
  The header: \<open>FILE size mode date name\<close>, where the date is in microseconds since the year 0 and
  is sent as its upper and lower 32 bits.
\<close>

definition epoc_date :: "int \<Rightarrow> u64" where
  "epoc_date mtime = 62168263200000000 + 1000000 * (word_of_int mtime AND 0x00000000FFFFFFFF)"

definition file_header :: "int \<Rightarrow> bool \<Rightarrow> int \<Rightarrow> byte list \<Rightarrow> byte list" where
  "file_header sz writable mtime name =
    (let d = epoc_date mtime in
     bytes_of ''FILE '' @ dec_int (sint (word_of_int sz :: u32)) @ bytes_of '' '' @
     dec_int (if writable then 32 else 33) @ bytes_of '' '' @
     dec (unat (drop_bit 32 d)) @ bytes_of '' '' @
     dec (unat (d AND 0x00000000FFFFFFFF)) @ bytes_of '' '' @ name)"

text \<open>\<open>buflen\<close>, after it has been set\<close>

definition buflen :: nat where
  "buflen = 2044"

definition show_mtu :: "int \<Rightarrow> unit em" where
  "show_mtu mtu = seqs [
     doif (mtu \<noteq> 2045 \<and> mtu \<noteq> 2044) (shown (ln ''Expecting mtu to be 2045, investigate!'') []),
     dbg 1 (ln ''Setting mtu to 2044'') []]"

text \<open>
  The line that is shown at most once in a second. \<open>t\<close> is the time that was read last, \<open>tx\<close> the
  time of the last line; the result are their new values.
\<close>

definition progress :: "psion_system \<Rightarrow> string \<Rightarrow> int \<Rightarrow> int \<Rightarrow> int \<Rightarrow> int \<times> int \<Rightarrow> (int \<times> int) em" where
  "progress K what cnt sz t0 clock =
    bnd (gets verbose) (\<lambda>v. if v = 0 then ret clock else
    bnd (time_now K) (\<lambda>t.
    if t - t0 = 0 \<or> cnt = 0 \<or> snd clock = t then ret (t, snd clock)
    else thn (pdo (Progress what cnt sz (t - t0))) (ret (t, t))))"

definition to_socket :: "psion_system \<Rightarrow> int \<Rightarrow> byte list \<Rightarrow> int em" where
  "to_socket K fd bs = sysc K ''write'' [fd] [bs]"

text \<open>
  The loop that sends the file, with \<open>cnt\<close> bytes sent. A short \<open>fread\<close> is the last one: it means
  the end of the file or an error. The result is \<open>cnt\<close> at the end.
\<close>

function send_blocks :: "psion_system \<Rightarrow> int \<Rightarrow> int \<Rightarrow> int \<Rightarrow> int \<times> int \<Rightarrow> int \<Rightarrow> int em" where
  "send_blocks K fd sz t0 clock cnt =
    bnd (sysc K ''fread'' [int buflen] []) (\<lambda>_.
    bnd (ask (p_data K)) (\<lambda>data.
    let bs = take buflen data; rc = int (length bs) in
    thn (put bs) (
    if rc = 0 then ret cnt else
    bnd (to_socket K fd bs) (\<lambda>wrc.
    if wrc < 0 then thn (failed ''write'') (stop (Exit 1)) else
    if wrc < rc then thn (shown (ln ''Problem: only sent %d of %d'') [Ii wrc, Ii rc]) (stop (Exit 1)) else
    if 2147483647 < cnt + rc then stop Impl_defined else
    bnd (progress K ''sent'' (cnt + rc) sz t0 clock) (\<lambda>clock.
    if length bs < buflen then ret (cnt + rc) else send_blocks K fd sz t0 clock (cnt + rc))))))"
  by pat_completeness auto
termination
  by (relation "measure (\<lambda>(K, fd, sz, t0, clock, cnt). nat (2147483648 - cnt))") (auto simp: buflen_def)

declare send_blocks.simps [simp del]

definition connect_psion :: "psion_system \<Rightarrow> int em" where
  "connect_psion K =
    bnd (sysc K ''socket'' [] []) (\<lambda>fd.
    if fd < 0 then
      thn (failed ''socket'') (
      bnd (ask (p_errno K)) (\<lambda>e.
      thn (doif (e = EINVAL) (shown (ln ''Is IrDA active?, perhaps run irmanager'') [])) (stop (Exit (-1)))))
    else
    bnd (discover_devices K fd) (\<lambda>daddr.
    if daddr = 0 then thn (shown (ln ''No IRDA device found'') []) (stop (Exit 1)) else
    bnd (sysc K ''connect'' [fd, uint daddr] [bytes_of ''Epoc32:EikonIr:v1.0'']) (\<lambda>r.
    if r \<noteq> 0 then
      thn (failed ''connect'') (
      bnd (ask (p_errno K)) (\<lambda>e.
      thn (doif (e = ENETUNREACH) (shown (ln ''No Psion5 or IR-receive is not selected'') [])) (stop (Exit (-1)))))
    else thn (dbg 1 (ln ''Connected to %x'') [AI daddr]) (ret fd))))"

text \<open>The header goes out and the answer must be \<open>ACK Y\<close>.\<close>

definition offer_file :: "psion_system \<Rightarrow> int \<Rightarrow> byte list \<Rightarrow> int \<Rightarrow> bool \<Rightarrow> int \<Rightarrow> unit em" where
  "offer_file K fd filename sz writable mtime =
    thn (dbg 1 (ln ''date: %Ld'') [AL (word_of_int mtime)]) (
    thn (dbg 1 (ln ''date: %Ld'') [AL (epoc_date mtime)]) (
    let header = file_header sz writable mtime filename in
    thn (put (header @ [0])) (
    bnd (to_socket K fd header) (\<lambda>rc.
    if rc \<noteq> int (length header) then
      thn (failed ''write'') (
      thn (shown (ln ''rc = %d, strlen=%d'') [Ii rc, Ii (int (length header))]) (stop (Exit 1)))
    else
    thn (dbg_buf 1 (ln ''sent: %s'')) (
    bnd (read_into K fd (buflen - 1)) (\<lambda>rc.
    thn (dbg 1 (ln ''Received (%d)'') [Ii rc]) (
    if rc < 0 then thn (failed ''reply error'') (stop (Exit 1)) else
    if rc = 0 then thn (shown (ln ''EOF on reply?'') []) (stop (Exit 1)) else
    thn (modify (\<lambda>s. s\<lparr>pbuf := (pbuf s)[nat rc := 0]\<rparr>)) (
    bnd buf_string (\<lambda>reply.
    if reply = bytes_of ''ACK N'' then
      thn (shown (ln ''Psion refused the file, disk full?'') []) (stop (Exit 1)) else
    if reply \<noteq> bytes_of ''ACK Y'' then
      thn (shown (ln ''Unexpected response: %s'') [AS reply]) (stop (Exit 1)) else
    dbg_buf 1 (ln ''ack received: %s''))))))))))"

text \<open>After the last block the other side closes the connection.\<close>

definition await_close :: "psion_system \<Rightarrow> int \<Rightarrow> unit em" where
  "await_close K fd =
    bnd (read_into K fd buflen) (\<lambda>rc.
    if 0 < rc then
      thn (shown (ln ''Strange: the other side responded.'') []) (
      bnd buf_string (\<lambda>b. thn (shown (ln ''rc=%d, data:%s'') [Ii rc, AS b]) (stop (Exit 1))))
    else if rc = 0 then shown (ln ''Received end of file.'') []
    else
      bnd (ask (p_errno K)) (\<lambda>e.
      if e = EPERM then dbg 1 (ln ''Other side closed connection, OK'') []
      else thn (failed ''last read'') (stop (Exit 1))))"

definition sendfile :: "psion_system \<Rightarrow> byte list \<Rightarrow> int em" where
  "sendfile K filename =
    bnd (connect_psion K) (\<lambda>fd.
    bnd (irttp_get_mtu K fd) (\<lambda>mtu.
    thn (show_mtu mtu) (
    bnd (new_block K buflen) (\<lambda>b. case b of
      None \<Rightarrow> thn (failed ''malloc'') (stop (Exit 1))
    | Some blk \<Rightarrow>
    thn (modify (\<lambda>s. s\<lparr>pbuf := blk\<rparr>)) (
    bnd (sysc K ''fopen'' [] [filename, bytes_of ''rb'']) (\<lambda>f.
    if f = 0 then thn (pdo (Failed filename)) (stop (Exit 1)) else
    bnd (sysc K ''stat'' [] [filename]) (\<lambda>rc.
    if rc \<noteq> 0 then thn (failed ''stat'') (stop (Exit 1)) else
    bnd (ask (p_size K)) (\<lambda>sz.
    bnd (ask (p_writable K)) (\<lambda>writable.
    bnd (ask (p_mtime K)) (\<lambda>mtime.
    thn (offer_file K fd filename sz writable mtime) (
    bnd (time_now K) (\<lambda>t0.
    bnd (send_blocks K fd sz t0 (t0, t0) 0) (\<lambda>cnt.
    bnd (ask (p_ferror K)) (\<lambda>err.
    if err then thn (failed ''ferror'') (stop (Exit 1)) else
    thn (doif (cnt \<noteq> sz) (shown (ln ''Warning: file size changed: initial: %lu, actual: %d'')
      [AL (word_of_int sz), Ii cnt])) (
    thn (await_close K fd) (
    bnd (gets verbose) (\<lambda>v.
    thn (doif (v \<noteq> 0) (bnd (time_now K) (\<lambda>t.
      pdo (Progress ''Sent'' cnt cnt (if t = t0 then 1 else t - t0))))) (
    thn (pdo (Sys ''close'' [fd] [])) (ret 0)))))))))))))))))))"

section \<open>Receiving\<close>

text \<open>
  \<open>sscanf(buf, "FILE %u %u %u %u %n", ...)\<close>: the result of \<open>sscanf\<close>, the numbers, and what
  starts at \<open>cnt\<close>. At the end of the string before the first conversion the result is -1.
\<close>

definition scan_file :: "byte list \<Rightarrow> fault + int \<times> int list \<times> byte list" where
  "scan_file str = (case scan_numbers (- 4294967295) 4294967295 4 (drop 5 str) of
     Inl e \<Rightarrow> Inl e
   | Inr (vs, rest) \<Rightarrow>
       let rest' = dropWhile is_space rest in
       Inr (if vs = [] \<and> rest' = [] then -1 else int (length vs), vs, rest'))"

text \<open>\<open>sscanf(buf, "DATA %d", &fsize)\<close>\<close>

definition scan_data :: "byte list \<Rightarrow> fault + int \<times> int list" where
  "scan_data str = (case scan_numbers (- 2147483648) 2147483647 1 (drop 5 str) of
     Inl e \<Rightarrow> Inl e
   | Inr (vs, rest) \<Rightarrow> Inr (if vs = [] \<and> dropWhile is_space rest = [] then -1 else int (length vs), vs))"

definition unix_date :: "u32 \<Rightarrow> u32 \<Rightarrow> u32" where
  "unix_date fdate1 fdate2 =
    ucast ((push_bit 32 (ucast fdate1 :: u64) + ucast fdate2 - 62168263200000000) div 1000000)"

definition show_header :: "psion_system \<Rightarrow> byte list \<Rightarrow> u32 \<Rightarrow> u32 \<Rightarrow> u32 \<Rightarrow> u32 \<Rightarrow> unit em" where
  "show_header K fname fsize fmode fdate1 fdate2 =
    (let fdate = unix_date fdate1 fdate2 in
     seqs [
       dbg 1 (ln ''filename: %s'') [AS fname],
       dbg 1 (ln ''filesize: %d'') [AI fsize],
       dbg 1 ''Filemode: %d'' [AI fmode],
       dbg 1 ''%s'' [Sl (if fmode AND 1 \<noteq> 0 then '', Readonly'' else [])],
       dbg 1 ''%s'' [Sl (if fmode AND 2 \<noteq> 0 then '', Hidden'' else [])],
       dbg 1 ''%s'' [Sl (if fmode AND 32 \<noteq> 0 then '', Modified'' else [])],
       dbg 1 ''%s'' [Sl (if fmode AND NOT 35 \<noteq> 0 then '', Unknown'' else [])],
       dbg 1 (ln []) [],
       dbg 1 (ln ''fdate1:   %u = 0x%x'') [AI fdate1, AI fdate1],
       dbg 1 (ln ''fdate2:   %u = 0x%x'') [AI fdate2, AI fdate2],
       dbg 1 (ln ''filedate: %Ld'') [AL (push_bit 32 (ucast fdate1) + ucast fdate2)],
       bnd (gets debug_level) (\<lambda>d. check Oob_read (d < 1 \<or> \<not> p_wide_time K)),
       dbg 1 ''filedate: %d = %s'' [AI fdate, AS (p_date K fdate)]])"

definition open_for_writing :: "psion_system \<Rightarrow> byte list \<Rightarrow> unit em" where
  "open_for_writing K fname =
    bnd (sysc K ''fopen'' [] [fname, bytes_of ''wb'']) (\<lambda>f.
    doif (f = 0) (thn (pdo (Failed fname)) (stop (Exit 1))))"

text \<open>What the header says: the name, the size, and the date or 0.\<close>

definition open_received :: "psion_system \<Rightarrow> byte list \<Rightarrow> (byte list \<times> u32 \<times> u32) em" where
  "open_received K hdr =
    (if take 5 hdr = bytes_of ''FILE '' then
       (case scan_file hdr of
          Inl e \<Rightarrow> stop e
        | Inr (rc, vs, name) \<Rightarrow>
            if \<not> (rc = 4 \<or> rc = 5) then
              thn (shown (ln ''sscanf \"%s\" rc=%d'') [AS hdr, Ii rc]) (stop (Exit 1))
            else
              let fsize = word_of_int (vs ! 0); fmode = word_of_int (vs ! 1);
                  fdate1 = word_of_int (vs ! 2); fdate2 = word_of_int (vs ! 3) in
              thn (show_header K name fsize fmode fdate1 fdate2) (
              thn (open_for_writing K name) (ret (name, fsize, unix_date fdate1 fdate2))))
     else if take 5 hdr = bytes_of ''DATA '' then
       (case scan_data hdr of
          Inl e \<Rightarrow> stop e
        | Inr (rc, vs) \<Rightarrow>
            if rc \<noteq> 1 then thn (shown (ln ''sscanf rc=%d'') [Ii rc]) (stop (Exit 1))
            else
              let fname = bytes_of ''/tmp/psion5-data'' in
              thn (open_for_writing K fname) (ret (fname, word_of_int (vs ! 0), 0)))
     else thn (shown (ln ''Unknown data type: %s'') [AS hdr]) (stop (Exit 1)))"

text \<open>
  The loop that receives the data, with \<open>cnt\<close> bytes received. The comparison of \<open>cnt\<close> with the
  size is unsigned. The result is \<open>cnt\<close> at the end, and the time that was read last.
\<close>

function receive_blocks ::
  "psion_system \<Rightarrow> int \<Rightarrow> u32 \<Rightarrow> int \<Rightarrow> int \<times> int \<Rightarrow> int \<Rightarrow> (int \<times> int) em" where
  "receive_blocks K fd fsize t0 clock cnt =
    (if uint (word_of_int cnt :: u32) < uint fsize then
       bnd (read_into K fd buflen) (\<lambda>rc.
       if rc < 0 then thn (failed ''data read'') (stop (Exit 1)) else
       if rc = 0 then thn (failed ''data read 0'') (stop (Exit 1)) else
       bnd (gets pbuf) (\<lambda>buf.
       bnd (sysc K ''fwrite'' [rc] [take (nat rc) buf]) (\<lambda>wrc.
       if wrc \<noteq> 1 then thn (failed ''fwrite'') (stop (Exit 1)) else
       if 2147483647 < cnt + rc then stop Impl_defined else
       bnd (progress K ''got'' (cnt + rc) (uint fsize) t0 clock) (\<lambda>clock.
       receive_blocks K fd fsize t0 clock (cnt + rc)))))
     else ret (cnt, fst clock))"
  by pat_completeness auto
termination
  by (relation "measure (\<lambda>(K, fd, fsize, t0, clock, cnt). nat (2147483648 - cnt))") auto

declare receive_blocks.simps [simp del]

definition first_read :: "psion_system \<Rightarrow> int \<Rightarrow> byte list em" where
  "first_read K cfd =
    bnd (read_into K cfd buflen) (\<lambda>rc.
    if rc < 0 then thn (failed ''1st read'') (stop (Exit 1)) else
    if rc = 0 then thn (failed ''1st read 0'') (stop (Exit 1)) else
    thn (check (Exit 134) (rc < int buflen)) (
    thn (modify (\<lambda>s. s\<lparr>pbuf := (pbuf s)[nat rc := 0]\<rparr>)) (
    thn (dbg_buf 1 (ln ''%s''))
    buf_string)))"

text \<open>The second part of \<open>handle_client\<close>, from the acknowledgement on.\<close>

definition store_received :: "psion_system \<Rightarrow> int \<Rightarrow> byte list \<Rightarrow> u32 \<Rightarrow> u32 \<Rightarrow> int em" where
  "store_received K cfd fname fsize fdate =
    bnd (to_socket K cfd (bytes_of ''ACK Y'')) (\<lambda>rc.
    if rc \<noteq> 5 then
      thn (failed ''1st write'') (thn (shown (ln ''1st write rc = %d'') [Ii rc]) (stop (Exit 1)))
    else
    bnd (time_now K) (\<lambda>t0.
    bnd (receive_blocks K cfd fsize t0 (t0, t0) 0) (\<lambda>(cnt, t).
    thn (doif (word_of_int cnt \<noteq> fsize)
      (shown (ln ''Warning: file size changed: initial: %u, actual: %d'') [AI fsize, Ii cnt])) (
    bnd (gets verbose) (\<lambda>v.
    thn (doif (v \<noteq> 0) (pdo (Progress ''Received'' cnt cnt (if t = t0 then 1 else t - t0)))) (
    bnd (sysc K ''fclose'' [] [fname]) (\<lambda>rc.
    if rc \<noteq> 0 then thn (failed ''fclose'') (stop (Exit 1)) else
    thn (doif (fdate \<noteq> 0) (bnd (sysc K ''utime'' [uint fdate, uint fdate] [fname]) (\<lambda>rc.
      doif (rc \<noteq> 0) (pdo (Failed fname))))) (
    thn (pdo (Sys ''close'' [cfd] [])) (ret 0)))))))))"

text \<open>\<open>assert\<close> ends the program by a signal; the status that a shell shows for it is 134.\<close>

definition handle_client :: "psion_system \<Rightarrow> int \<Rightarrow> int em" where
  "handle_client K cfd =
    bnd (irttp_get_mtu K cfd) (\<lambda>mtu.
    thn (dbg 1 (ln ''mtu=%d'') [Ii mtu]) (
    thn (show_mtu mtu) (
    bnd (new_block K buflen) (\<lambda>b. if b = None then thn (failed ''malloc'') (stop (Exit 1)) else
    bnd (new_block K buflen) (\<lambda>b. case b of
      None \<Rightarrow> thn (shown (ln ''malloc buf failed'') []) (stop (Exit 1))
    | Some blk \<Rightarrow>
    thn (modify (\<lambda>s. s\<lparr>pbuf := blk\<rparr>)) (
    bnd (first_read K cfd) (\<lambda>hdr.
    bnd (open_received K hdr) (\<lambda>(fname, fsize, fdate).
    store_received K cfd fname fsize fdate))))))))"

text \<open>
  The loop over clients, for at most \<open>n\<close> of them; \<open>None\<close> is that it goes on. \<open>handle_client\<close>
  returns 0 only.
\<close>

fun serve_clients :: "psion_system \<Rightarrow> int \<Rightarrow> int \<Rightarrow> nat \<Rightarrow> int option em" where
  "serve_clients K fd mode 0 = ret None"
| "serve_clients K fd mode (Suc n) =
    bnd (sysc K ''accept'' [fd] []) (\<lambda>cfd.
    if cfd < 0 then thn (failed ''accept'') (ret (Some (-1))) else
    bnd (handle_client K cfd) (\<lambda>r.
    if r \<noteq> 0 \<or> mode = 1 then thn (pdo (Sys ''close'' [fd] [])) (ret (Some 0))
    else serve_clients K fd mode n))"

definition receivefile :: "psion_system \<Rightarrow> int \<Rightarrow> nat \<Rightarrow> int option em" where
  "receivefile K mode n =
    bnd (sysc K ''socket'' [] []) (\<lambda>fd.
    if fd < 0 then thn (failed ''socket'') (stop (Exit (-1))) else
    bnd (sysc K ''bind'' [fd] [bytes_of ''Epoc32:EikonIr:v1.0'']) (\<lambda>r.
    if r \<noteq> 0 then thn (failed ''bind'') (ret (Some (-1))) else
    bnd (sysc K ''listen'' [fd, 2] []) (\<lambda>r.
    if r \<noteq> 0 then thn (failed ''listen'') (ret (Some (-1))) else
    serve_clients K fd mode n)))"

section \<open>Arguments\<close>

text \<open>
  The arguments are walked with a pointer into \<open>argv\<close>, here the list of what is at and behind it:
  the remaining arguments, the null pointer at the end, and whatever is stored behind that, which
  is the environment. \<open>argc\<close> is counted separately. The part of \<open>sendfile\<close> calls in the loops
  returns the new \<open>argc\<close> and \<open>argv\<close>.
\<close>

type_synonym argv = "byte list option list"

fun send_any :: "psion_system \<Rightarrow> int \<Rightarrow> argv \<Rightarrow> (int \<times> argv) em" where
  "send_any K argc (a # Some f # rest) =
     bnd (sendfile K f) (\<lambda>_. send_any K (argc - 1) (Some f # rest))"
| "send_any K argc (a # None # rest) = ret (argc, a # None # rest)"
| "send_any K argc _ = stop Oob_read"

definition is_switch :: "byte list \<Rightarrow> bool" where
  "is_switch a \<longleftrightarrow> take 1 a = bytes_of ''-''"

fun send_until_switch :: "psion_system \<Rightarrow> int \<Rightarrow> argv \<Rightarrow> (int \<times> argv) em" where
  "send_until_switch K argc (a # Some f # rest) =
     (if is_switch f then ret (argc, a # Some f # rest)
      else bnd (sendfile K f) (\<lambda>_. send_until_switch K (argc - 1) (Some f # rest)))"
| "send_until_switch K argc (a # None # rest) = ret (argc, a # None # rest)"
| "send_until_switch K argc _ = stop Oob_read"

definition psion_usage :: "byte list \<Rightarrow> unit em" where
  "psion_usage argv0 = seqs [
     shown (ln ''Usage: %s [-S ms] [-D n] [-v] [-q] [-s file] [-r] [-b]'') [AS argv0],
     shown (ln (CHR 0x09 # ''-s file'' @ CHR 0x09 # ''Send file to the Psion'')) [],
     shown (ln (CHR 0x09 # ''-r'' @ CHR 0x09 # ''Receive a file from the Psion'')) [],
     shown (ln (CHR 0x09 # ''-b'' @ CHR 0x09 # ''Receive multiple files (batch mode)'')) [],
     shown (ln (CHR 0x09 # ''-v'' @ CHR 0x09 # ''Verbose mode, progress indication'')) [],
     shown (ln (CHR 0x09 # ''-q'' @ CHR 0x09 # ''quiet mode, no progress indication'')) [],
     shown (CHR 0x09 # ''-S ms'' @ CHR 0x09 # ''Set discovery slot timeout,'') [],
     shown (ln '' standard 80ms, default 120ms'') [],
     shown (ln (CHR 0x09 # ''-D n'' @ CHR 0x09 # ''Debug level'')) []]"

text \<open>The number after \<open>-D\<close> and \<open>-S\<close>; \<open>atoi\<close> reads through the pointer.\<close>

definition arg_number :: "argv \<Rightarrow> int em" where
  "arg_number rest = (case rest of
     [] \<Rightarrow> stop Oob_read
   | None # _ \<Rightarrow> stop Null_deref
   | Some a # _ \<Rightarrow> (case atoi a of Inl e \<Rightarrow> stop e | Inr n \<Rightarrow> ret n))"

text \<open>The \<open>-s\<close> branch, with \<open>argv\<close> at the \<open>-s\<close>.\<close>

definition send_option :: "psion_system \<Rightarrow> int \<Rightarrow> argv \<Rightarrow> (int \<times> argv) em" where
  "send_option K argc argv =
    (if take 1 (tl argv) = [Some (bytes_of ''--'')] then send_any K argc (drop 2 argv)
     else send_until_switch K argc argv)"

text \<open>
  One turn of the loop: what the argument \<open>a\<close> does. The result is \<open>argc\<close> and \<open>argv\<close> before
  they move on. \<open>n\<close> bounds the clients of one \<open>-r\<close> or \<open>-b\<close>.
\<close>

definition psion_arg :: "psion_system \<Rightarrow> nat \<Rightarrow> byte list \<Rightarrow> int \<Rightarrow> byte list \<Rightarrow> argv \<Rightarrow> (int \<times> argv) option em" where
  "psion_arg K n argv0 argc a rest =
    (if a = bytes_of ''-s'' then bnd (send_option K argc (Some a # rest)) (\<lambda>r. ret (Some r))
     else if a = bytes_of ''-D'' then
       bnd (arg_number rest) (\<lambda>k. thn (modify (\<lambda>s. s\<lparr>debug_level := k\<rparr>)) (ret (Some (argc - 1, rest))))
     else if a = bytes_of ''-S'' then
       bnd (arg_number rest) (\<lambda>k. thn (modify (\<lambda>s. s\<lparr>slot_timeout := k\<rparr>)) (ret (Some (argc - 1, rest))))
     else if a = bytes_of ''-r'' then
       bnd (receivefile K 1 n) (\<lambda>r. ret (map_option (\<lambda>_. (argc, Some a # rest)) r))
     else if a = bytes_of ''-b'' then
       bnd (receivefile K 0 n) (\<lambda>r. ret (map_option (\<lambda>_. (argc, Some a # rest)) r))
     else if a = bytes_of ''-v'' then thn (modify (\<lambda>s. s\<lparr>verbose := 1\<rparr>)) (ret (Some (argc, Some a # rest)))
     else if a = bytes_of ''-q'' then thn (modify (\<lambda>s. s\<lparr>verbose := 0\<rparr>)) (ret (Some (argc, Some a # rest)))
     else
       thn (shown (ln ''Error: unknown switch %s'') [AS a]) (
       thn (shown (ln ''Call without args for usage: %s'') [AS argv0]) (stop (Exit 1))))"

text \<open>
  The loop over the arguments, at most \<open>k\<close> turns; \<open>None\<close>: it goes on. Every turn moves \<open>argv\<close>
  on, so the length of what is behind it is enough for \<open>k\<close>.
\<close>

fun psion_args :: "psion_system \<Rightarrow> nat \<Rightarrow> byte list \<Rightarrow> nat \<Rightarrow> int \<Rightarrow> argv \<Rightarrow> int option em" where
  "psion_args K n argv0 0 argc argv = ret None"
| "psion_args K n argv0 (Suc k) argc argv =
    (if argc \<le> 0 then ret (Some 0) else
     case argv of
       [] \<Rightarrow> stop Oob_read
     | None # _ \<Rightarrow> ret (Some 0)
     | Some a # rest \<Rightarrow>
         bnd (psion_arg K n argv0 argc a rest) (\<lambda>r. case r of
           None \<Rightarrow> ret None
         | Some (argc', argv') \<Rightarrow> psion_args K n argv0 k (argc' - 1) (tl argv')))"

text \<open>\<open>env\<close>: the strings of the environment, which lie behind the arguments.\<close>

definition psion_main :: "psion_system \<Rightarrow> nat \<Rightarrow> byte list \<Rightarrow> byte list list \<Rightarrow> byte list list \<Rightarrow> int option em" where
  "psion_main K n argv0 args env =
    (if args = [] then thn (psion_usage argv0) (stop (Exit 1))
     else let argv = map Some args @ None # map Some env @ [None] in
       psion_args K n argv0 (length argv) (int (length args)) argv)"

section \<open>The header\<close>

lemma bytes_of_append: "bytes_of (a @ b) = bytes_of a @ bytes_of b"
  by (simp add: bytes_of_def)

lemma scan_numbers_dec:
  assumes "int n \<le> hi" and "lo \<le> 0" and "\<And>b. b \<in> set sp \<Longrightarrow> is_space b" and "is_space c"
  shows "scan_numbers lo hi (Suc k) (sp @ dec n @ c # bs) =
    (case scan_numbers lo hi k (c # bs) of Inl e \<Rightarrow> Inl e | Inr (vs, r) \<Rightarrow> Inr (int n # vs, r))"
proof -
  have "\<not> is_digit c" using assms(4) is_digit_not_space by blast
  then have "scan_number lo hi (sp @ dec n @ c # bs) = Some (Inr (int n, c # bs))"
    using assms by (intro scan_number_dec) auto
  then show ?thesis by simp
qed

lemma scan_four:
  assumes "\<And>n. n \<in> {a, b, c, d} \<Longrightarrow> int n \<le> hi" and "lo \<le> 0"
  shows "scan_numbers lo hi 4 (dec a @ 32 # dec b @ 32 # dec c @ 32 # dec d @ 32 # bs) =
    Inr ([int a, int b, int c, int d], 32 # bs)"
proof -
  have sp: "is_space 32" by (simp add: is_space_def)
  have first: "scan_numbers lo hi (Suc k) (dec n @ 32 # bs) =
      (case scan_numbers lo hi k (32 # bs) of Inl e \<Rightarrow> Inl e | Inr (vs, r) \<Rightarrow> Inr (int n # vs, r))"
    if "n \<in> {a, b, c, d}" for k n bs
    using scan_numbers_dec [of n hi lo "[]" 32 k bs] that assms sp by simp
  have more: "scan_numbers lo hi (Suc k) (32 # dec n @ 32 # bs) =
      (case scan_numbers lo hi k (32 # bs) of Inl e \<Rightarrow> Inl e | Inr (vs, r) \<Rightarrow> Inr (int n # vs, r))"
    if "n \<in> {a, b, c, d}" for k n bs
    using scan_numbers_dec [of n hi lo "[32]" 32 k bs] that assms sp by simp
  have "(4 :: nat) = Suc (Suc (Suc (Suc 0)))" by simp
  then show ?thesis by (simp only: first more insert_iff simp_thms) simp
qed

lemma epoc_date_halves:
  "push_bit 32 (ucast (word_of_int (int (unat (drop_bit 32 d))) :: u32)) +
     ucast (word_of_int (int (unat (d AND 0xFFFFFFFF))) :: u32) = (d :: u64)"
proof -
  let ?hi = "word_of_int (int (unat (drop_bit 32 d))) :: u32" and ?lo = "word_of_int (int (unat (d AND 0xFFFFFFFF))) :: u32"
  have "?hi = ucast (drop_bit 32 d)" "?lo = ucast (d AND 0xFFFFFFFF)"
    by (simp_all only: uint_nat [symmetric] ucast_eq)
  moreover have m: "(0xFFFFFFFF :: u64) = mask 32" by (simp add: mask_eq_decr_exp)
  ultimately have hi: "bit (push_bit 32 (ucast ?hi) :: u64) n = (32 \<le> n \<and> bit d n)"
    and lo: "bit (ucast ?lo :: u64) n = (n < 32 \<and> bit d n)" if "n < 64" for n
    using that by (auto simp: bit_simps m)
  have "push_bit 32 (ucast ?hi) AND (ucast ?lo :: u64) = 0"
    by (rule bit_word_eqI) (use hi lo in \<open>auto simp: bit_and_iff\<close>)
  then have "push_bit 32 (ucast ?hi) + ucast ?lo = push_bit 32 (ucast ?hi) OR (ucast ?lo :: u64)"
    by (simp add: disjunctive_add_eq_or)
  also have "\<dots> = d"
    by (rule bit_word_eqI) (use hi lo in \<open>auto simp: bit_or_iff\<close>)
  finally show ?thesis .
qed

lemma unix_date_epoc_date:
  "unix_date (word_of_int (int (unat (drop_bit 32 (epoc_date mtime)))))
     (word_of_int (int (unat (epoc_date mtime AND 0xFFFFFFFF)))) = word_of_int mtime"
proof -
  let ?x = "word_of_int mtime AND 0xFFFFFFFF :: u64"
  have x: "?x = take_bit 32 (word_of_int mtime)"
    by (simp add: take_bit_eq_mask mask_eq_decr_exp)
  have small: "unat ?x < 2 ^ 32"
    unfolding x unsigned_take_bit_eq by (rule take_bit_nat_less_exp)
  have "unat (1000000 * ?x) = 1000000 * unat ?x"
    using small by (subst unat_mult_lem [THEN iffD1]) auto
  then have "unat (1000000 * ?x div 1000000) = unat ?x"
    by (simp add: unat_div)
  then have "1000000 * ?x div 1000000 = ?x"
    by (simp only: word_unat_eq_iff)
  moreover have "ucast ?x = (word_of_int mtime :: u32)"
    unfolding x by (rule bit_word_eqI) (simp add: bit_simps)
  ultimately show ?thesis
    unfolding unix_date_def epoc_date_halves by (simp add: epoc_date_def)
qed

lemma halves_bound:
  "unat (drop_bit 32 (d :: u64)) \<le> 4294967295" "unat (d AND 0xFFFFFFFF) \<le> 4294967295"
proof -
  have "unat (drop_bit 32 d) = unat d div 2 ^ 32" by (simp add: drop_bit_eq_div unat_div)
  also have "\<dots> < 2 ^ 32" using unsigned_less [of d, where ?'a = nat] by (simp add: less_mult_imp_div_less)
  finally show "unat (drop_bit 32 d) \<le> 4294967295" by simp
  have "unat (d AND 0xFFFFFFFF) \<le> unat (0xFFFFFFFF :: u64)" by (simp only: word_le_nat_alt [symmetric] word_and_le1)
  then show "unat (d AND 0xFFFFFFFF) \<le> 4294967295" by simp
qed

lemma dec_int_size:
  "0 \<le> sz \<Longrightarrow> sz < 2147483648 \<Longrightarrow> dec_int (sint (word_of_int sz :: u32)) = dec (nat sz)"
  by (simp add: signed_of_int signed_take_bit_int_eq_self dec_int_def)

text \<open>A header is at most 41 bytes longer than the name in it.\<close>

lemma file_header_length:
  assumes "0 \<le> sz" and "sz < 2147483648"
  shows "length (file_header sz writable mtime name) \<le> 41 + length name"
proof -
  have "length (dec (nat sz)) \<le> 10" "length (dec (unat (drop_bit 32 d))) \<le> 10"
    "length (dec (unat (d AND 0xFFFFFFFF))) \<le> 10" for d :: u64
    using assms halves_bound [of d] by (auto intro!: length_dec)
  moreover have "length (dec_int (if writable then 32 else 33)) \<le> 2"
    by (auto simp: dec_int_def intro!: length_dec)
  ultimately have "length (dec (nat sz)) + length (dec_int (if writable then 32 else 33)) +
      length (dec (unat (drop_bit 32 (epoc_date mtime)))) +
      length (dec (unat (epoc_date mtime AND 0xFFFFFFFF))) \<le> 10 + 2 + 10 + 10"
    by (intro add_mono)
  then show ?thesis
    unfolding file_header_def Let_def dec_int_size [OF assms] by (simp add: bytes_of_def)
qed

lemma scan_file_header:
  assumes "0 \<le> sz" and "sz < 2147483648" and "name = [] \<or> \<not> is_space (hd name)"
  shows "scan_file (file_header sz writable mtime name) =
    Inr (4, [sz, if writable then 32 else 33, int (unat (drop_bit 32 (epoc_date mtime))),
      int (unat (epoc_date mtime AND 0xFFFFFFFF))], name)"
proof -
  have sp: "bytes_of '' '' = [32]" "is_space 32" by (simp_all add: bytes_of_def is_space_def)
  have mode: "dec_int (if writable then 32 else 33) = dec (if writable then 32 else 33)"
    by (simp add: dec_int_def)
  have drop: "drop 5 (bytes_of ''FILE '' @ x) = x" for x by (simp add: bytes_of_def)
  note hi = halves_bound(1) and lo = halves_bound(2)
  have name: "dropWhile is_space (32 # name) = name"
    using assms(3) sp(2) by (cases name) auto
  have "scan_numbers (- 4294967295) 4294967295 4 (drop 5 (file_header sz writable mtime name)) =
      Inr ([sz, if writable then 32 else 33, int (unat (drop_bit 32 (epoc_date mtime))),
        int (unat (epoc_date mtime AND 0xFFFFFFFF))], 32 # name)"
    unfolding file_header_def Let_def drop dec_int_size [OF assms(1,2)] mode sp(1) append_Cons append_Nil
    using assms(1,2) hi lo by (subst scan_four) auto
  then show ?thesis
    using name by (simp add: scan_file_def)
qed

section \<open>A file that is received\<close>

text \<open>
  What the history says about files and the socket, and how many reads it has. The quiet rules
  below need only that these, the buffer and the options are as before.
\<close>

fun is_effect :: "pact \<Rightarrow> bool" where
  "is_effect (Sys name _ _) = (name \<in> {''fopen'', ''fwrite'', ''fclose'', ''utime'', ''write''})"
| "is_effect _ = False"

fun is_read :: "pact \<Rightarrow> bool" where
  "is_read (Sys name _ _) = (name = ''read'')"
| "is_read _ = False"

definition effects :: "pact list \<Rightarrow> pact list" where
  "effects h = filter is_effect h"

definition reads_done :: "pact list \<Rightarrow> nat" where
  "reads_done h = length (filter is_read h)"

definition view :: "psion \<Rightarrow> pact list \<times> nat \<times> byte list \<times> int" where
  "view s = (effects (pacts s), reads_done (pacts s), pbuf s, debug_level s)"

lemma view_pdo: "\<not> is_effect a \<Longrightarrow> \<not> is_read a \<Longrightarrow> view (s\<lparr>pacts := pacts s @ [a]\<rparr>) = view s"
  by (simp add: view_def effects_def reads_done_def)

named_theorems quiet

lemma quiet_flow [quiet]:
  "wp m (\<lambda>a. wp (f a) Q E) E s \<Longrightarrow> wp (bnd m f) Q E s"
  "wp m' (\<lambda>_. wp k Q E) E s \<Longrightarrow> wp (thn m' k) Q E s"
  "Q' a s \<Longrightarrow> wp (ret a) Q' E s"
  by (simp_all add: wp_simps)

lemma quiet_read [quiet]:
  "Q (f s) s \<Longrightarrow> wp (gets f) Q E s" "b \<Longrightarrow> R () s \<Longrightarrow> wp (check e b) R E s"
  by (simp_all add: wp_simps)

lemma wp_pdo: "wp (pdo a) Q E s = Q () (s\<lparr>pacts := pacts s @ [a]\<rparr>)"
  by (simp add: pdo_def wp_simps)

lemma wp_ask: "wp (ask f) Q E s = Q (f (pacts s)) s"
  by (simp add: ask_def wp_simps)

lemma quiet_pdo [quiet]:
  "(\<And>t. view t = view s \<Longrightarrow> Q () t) \<Longrightarrow> wp (shown f a) Q E s"
  "(\<And>t. view t = view s \<Longrightarrow> Q () t) \<Longrightarrow> wp (failed x) Q E s"
  "(\<And>t. view t = view s \<Longrightarrow> Q () t) \<Longrightarrow> wp (pdo (Progress w i j k)) Q E s"
  "(\<And>t. view t = view s \<Longrightarrow> Q () t) \<Longrightarrow> wp (dbg n f a) Q E s"
  by (simp_all add: shown_def failed_def dbg_def wp_simps wp_pdo view_pdo)

lemma quiet_doif [quiet]:
  "(\<And>t. view t = view s \<Longrightarrow> Q () t) \<Longrightarrow> wp (doif c (shown f a)) Q E s"
  "(\<And>t. view t = view s \<Longrightarrow> Q () t) \<Longrightarrow> wp (doif c (pdo (Progress w i j k))) Q E s"
  by (simp_all add: wp_doif quiet_pdo)

lemma quiet_time [quiet]:
  "(\<And>x t. view t = view s \<Longrightarrow> Q x t) \<Longrightarrow> wp (time_now K) Q E s"
  by (simp add: time_now_def wp_simps wp_pdo wp_ask view_pdo)

lemma quiet_progress [quiet]:
  assumes "\<And>x t. view t = view s \<Longrightarrow> Q x t"
  shows "wp (progress K w i j k c) Q E s"
  using assms by (auto simp: progress_def time_now_def wp_simps wp_pdo wp_ask view_def effects_def reads_done_def)

lemma quiet_mtu [quiet]:
  assumes "\<And>t. view t = view s \<Longrightarrow> Q () t"
  shows "wp (show_mtu mtu) Q E s"
  using assms by (auto simp: show_mtu_def shown_def dbg_def wp_simps wp_pdo view_def effects_def reads_done_def)

lemma quiet_get_mtu [quiet]:
  assumes "\<And>m t. view t = view s \<Longrightarrow> Q m t"
  shows "wp (irttp_get_mtu K fd) Q E s"
  using assms
  by (auto simp: irttp_get_mtu_def sysc_def failed_def dbg_def shown_def wp_simps wp_pdo wp_ask view_def
      effects_def reads_done_def)

text \<open>
  A system on which nothing fails and whose reads from the socket give one element of \<open>rs\<close> after
  the other.
\<close>

definition works :: "psion_system \<Rightarrow> byte list list \<Rightarrow> bool" where
  "works K rs \<longleftrightarrow> (\<forall>h is ss.
     p_answer K (h @ [Sys ''malloc'' is ss]) \<noteq> 0 \<and>
     p_answer K (h @ [Sys ''fopen'' is ss]) \<noteq> 0 \<and>
     p_answer K (h @ [Sys ''fwrite'' is ss]) = 1 \<and>
     p_answer K (h @ [Sys ''fclose'' is ss]) = 0 \<and>
     (\<forall>bs. p_answer K (h @ [Sys ''write'' is [bs]]) = int (length bs)) \<and>
     0 \<le> p_answer K (h @ [Sys ''read'' is ss]) \<and>
     (reads_done h < length rs \<longrightarrow> p_data K (h @ [Sys ''read'' is ss]) = rs ! reads_done h))"

lemma works_read:
  assumes "works K rs" and "view s = (A, k, buf, d)" and "k < length rs" and "length (rs ! k) \<le> n"
    and "n \<le> length buf"
    and "\<And>t. view t = (A, k + 1, rs ! k @ drop (length (rs ! k)) buf, d) \<Longrightarrow> Q (int (length (rs ! k))) t"
  shows "wp (read_into K fd n) Q E s"
proof -
  let ?h = "pacts s @ [Sys ''read'' [fd, int n] []]"
  have "p_data K ?h = rs ! k" "\<not> p_answer K ?h < 0"
    using assms(1-3) by (auto simp: works_def view_def not_less)
  with assms(2-) show ?thesis
    by (simp add: read_into_def sysc_def put_def wp_simps wp_pdo wp_ask view_def effects_def reads_done_def)
qed

lemma works_call:
  assumes "works K rs" and "view s = (A, k, buf, d)"
  shows "name \<in> {''fwrite'', ''fclose''} \<Longrightarrow>
      (\<And>t. view t = (A @ [Sys name is ss], k, buf, d) \<Longrightarrow> Q (if name = ''fwrite'' then 1 else 0) t) \<Longrightarrow>
      wp (sysc K name is ss) Q E s"
    and "(\<And>t. view t = (A @ [Sys ''write'' [fd] [bs]], k, buf, d) \<Longrightarrow> Q' (int (length bs)) t) \<Longrightarrow>
      wp (to_socket K fd bs) Q' E s"
    and "(\<And>t. view t = (A @ [Sys ''fopen'' [] [n, bytes_of ''wb'']], k, buf, d) \<Longrightarrow> R () t) \<Longrightarrow>
      wp (open_for_writing K n) R E s"
    and "(\<And>b t. view t = view s \<Longrightarrow> S (Some (map b [0..<m])) t) \<Longrightarrow> wp (new_block K m) S E s"
    and "(\<And>x t. view t = (A @ [Sys ''utime'' is ss], k, buf, d) \<Longrightarrow> Q x t) \<Longrightarrow>
      wp (sysc K ''utime'' is ss) Q E s"
  using assms
  by (auto simp: works_def sysc_def to_socket_def open_for_writing_def new_block_def wp_simps wp_pdo wp_ask
      view_def effects_def reads_done_def)

lemma receive_blocks_works:
  assumes "works K (rs @ cs)" and "view s = (A, length rs, buf, d)" and "length buf = buflen"
    and "\<And>c. c \<in> set cs \<Longrightarrow> c \<noteq> [] \<and> length c \<le> buflen"
    and "0 \<le> cnt" and "cnt + int (length (concat cs)) = uint fsize" and "uint fsize \<le> 2147483647"
    and "\<And>t clock' buf'. view t = (A @ map (\<lambda>c. Sys ''fwrite'' [int (length c)] [c]) cs, length rs + length cs, buf', d) \<Longrightarrow>
      Q (uint fsize, clock') t"
  shows "wp (receive_blocks K fd fsize t0 clock cnt) Q E s"
  using assms
proof (induction cs arbitrary: rs s A buf clock cnt)
  case Nil
  then show ?case
    by (subst receive_blocks.simps) (simp add: wp_simps take_bit_int_eq_self unsigned_of_int)
next
  case (Cons c cs)
  have c: "c \<noteq> []" "length c \<le> buflen" using Cons.prems(4) by auto
  have cnt: "cnt + int (length c) + int (length (concat cs)) = uint fsize" using Cons.prems(6) by simp
  have less: "uint (word_of_int cnt :: u32) < uint fsize"
    using c(1) cnt Cons.prems(5,7) by (cases c) (simp_all add: unsigned_of_int take_bit_int_eq_self)
  have read: "wp (read_into K fd buflen) (\<lambda>rc t. rc = int (length c) \<and>
      view t = (A, length rs + 1, c @ drop (length c) buf, d)) E s"
    using Cons.prems(1-3) c by (intro works_read [where rs = "rs @ c # cs"]) auto
  have fwrite: "wp (sysc K ''fwrite'' [int (length c)] [c]) (\<lambda>wrc t. wrc = 1 \<and>
      view t = (A @ [Sys ''fwrite'' [int (length c)] [c]], length rs + 1, b, d)) E t"
    if "view t = (A, length rs + 1, b, d)" for t b
    using that by (intro works_call(1) [OF Cons.prems(1)]) auto
  have rest: "wp (receive_blocks K fd fsize t0 clock' (cnt + int (length c))) Q E t"
    if "view t = (A @ [Sys ''fwrite'' [int (length c)] [c]], length rs + 1, b, d)" "length b = buflen" for t b clock'
    using that Cons.prems cnt
    by (intro Cons.IH [where rs = "rs @ [c]" and A = "A @ [Sys ''fwrite'' [int (length c)] [c]]" and buf = b]) auto
  have small: "\<not> 2147483647 < cnt + int (length c)" "length (c @ drop (length c) buf) = buflen"
    using cnt Cons.prems(3,7) c by auto
  have after: "wp (bnd (sysc K ''fwrite'' [int (length c)] [c]) (\<lambda>wrc.
       if wrc \<noteq> 1 then thn (failed ''fwrite'') (stop (Exit 1)) else
       if 2147483647 < cnt + int (length c) then stop Impl_defined else
       bnd (progress K ''got'' (cnt + int (length c)) (uint fsize) t0 clock) (\<lambda>clock.
       receive_blocks K fd fsize t0 clock (cnt + int (length c))))) Q E t"
    if "view t = (A, length rs + 1, c @ drop (length c) buf, d)" for t
    by (rule quiet_flow(1), rule wp_weaken [OF fwrite [OF that]])
       (simp add: small(1), intro quiet, rule rest, simp, simp only: small)
  show ?case
    by (subst receive_blocks.simps, simp only: less if_True, rule quiet_flow(1), rule wp_weaken [OF read])
       (use c after in \<open>simp add: wp_bnd [of "gets _"] wp_gets view_def\<close>)
qed


lemma quiet_show_header [quiet]:
  assumes "debug_level s < 1" and "\<And>t. view t = view s \<Longrightarrow> Q () t"
  shows "wp (show_header K n a b c e) Q E s"
proof -
  have level: "view t = view s \<Longrightarrow> debug_level t < 1" for t
    using assms(1) by (simp add: view_def)
  show ?thesis
    unfolding show_header_def Let_def wp_seqs_Cons wp_seqs_Nil
    by (intro quiet) (simp_all add: level assms(2))
qed

lemma file_header_no_nul: "0 \<notin> set name \<Longrightarrow> 0 \<notin> set (file_header sz writable mtime name)"
proof -
  have "0 \<notin> set (dec n)" for n using dec_digits [of 0 n] by (auto simp: is_digit_def)
  moreover have "0 \<notin> set (dec_int k)" for k using calculation by (simp add: dec_int_def)
  ultimately show "0 \<notin> set name \<Longrightarrow> ?thesis" by (simp add: file_header_def Let_def bytes_of_def)
qed

lemma first_read_works:
  assumes "works K rs" and "view s = (A, k, buf, d)" and "k < length rs" and "rs ! k = hdr"
    and "hdr \<noteq> []" and "length hdr < buflen" and "length buf = buflen" and "0 \<notin> set hdr"
    and "\<And>t. view t = (A, k + 1, hdr @ 0 # drop (length hdr + 1) buf, d) \<Longrightarrow> Q hdr t"
  shows "wp (first_read K cfd) Q E s"
proof -
  have buf: "(hdr @ drop (length hdr) buf)[length hdr := 0] = hdr @ 0 # drop (length hdr + 1) buf"
    using assms(6,7) by (simp add: list_update_append Cons_nth_drop_Suc [symmetric])
  have cstr: "cstring (hdr @ 0 # x) = hdr" for x
    using assms(8) by (simp add: cstring_append_nul) (auto simp: cstring_def takeWhile_eq_all_conv)
  have "wp (read_into K cfd buflen) (\<lambda>rc t. rc = int (length hdr) \<and>
      view t = (A, k + 1, hdr @ drop (length hdr) buf, d)) E s"
    using assms by (intro works_read [OF assms(1,2)]) auto
  then show ?thesis
    unfolding first_read_def
    by (intro quiet_flow(1), elim wp_weaken)
       (use assms buf cstr in \<open>simp add: dbg_buf_def buf_string_def shown_def wp_simps wp_pdo view_def
         effects_def reads_done_def\<close>)
qed

text \<open>What \<open>handle_client\<close> does with a file: it is opened, acknowledged, written, closed and dated.\<close>

definition file_effects :: "int \<Rightarrow> byte list \<Rightarrow> u32 \<Rightarrow> byte list list \<Rightarrow> pact list" where
  "file_effects cfd name date cs =
     [Sys ''fopen'' [] [name, bytes_of ''wb''], Sys ''write'' [cfd] [bytes_of ''ACK Y'']] @
     map (\<lambda>c. Sys ''fwrite'' [int (length c)] [c]) cs @ [Sys ''fclose'' [] [name]] @
     (if date = 0 then [] else [Sys ''utime'' [uint date, uint date] [name]])"

lemma new_block_works:
  assumes "works K rs" and "\<And>b t. view t = view s \<Longrightarrow> length b = m \<Longrightarrow> Q (Some b) t"
  shows "wp (new_block K m) Q E s"
  using assms by (auto simp: works_def sysc_def new_block_def wp_simps wp_pdo wp_ask view_def effects_def reads_done_def)

lemma open_received_works:
  assumes "works K rs" and "view s = (A, k, buf, d)" and "d < 1"
    and "0 \<le> sz" and "sz < 2147483648" and "name = [] \<or> \<not> is_space (hd name)"
    and "\<And>t. view t = (A @ [Sys ''fopen'' [] [name, bytes_of ''wb'']], k, buf, d) \<Longrightarrow>
      Q (name, word_of_int sz, word_of_int mtime) t"
  shows "wp (open_received K (file_header sz writable mtime name)) Q E s"
proof -
  have five: "take 5 (file_header sz writable mtime name) = bytes_of ''FILE ''"
    by (simp add: file_header_def Let_def bytes_of_def)
  have level: "debug_level s < 1" using assms(2,3) by (simp add: view_def)
  have nth: "[a, b, c, e] ! 0 = a" "[a, b, c, e] ! 1 = b" "[a, b, c, e] ! 2 = c" "[a, b, c, e] ! 3 = e"
    for a b c e :: int by simp_all
  show ?thesis
    unfolding open_received_def five scan_file_header [OF assms(4-6)]
    by (simp only: if_True if_False simp_thms sum.case prod.case Let_def nth unix_date_epoc_date)
       (intro quiet quiet_show_header level works_call(3) [OF assms(1)], simp add: assms(2), simp add: assms(7))
qed

lemma store_received_works:
  assumes works: "works K (hdr # cs)" and view: "view s = (A, 1, buf, d)" and "length buf = buflen"
    and "\<And>c. c \<in> set cs \<Longrightarrow> c \<noteq> [] \<and> length c \<le> buflen"
    and "int (length (concat cs)) = uint fsize" and "uint fsize \<le> 2147483647"
    and Q: "\<And>t. effects (pacts t) = A @ tl (file_effects cfd name date cs) \<Longrightarrow> Q 0 t"
  shows "wp (store_received K cfd name fsize date) Q E s"
proof -
  let ?ack = "Sys ''write'' [cfd] [bytes_of ''ACK Y'']" and ?close = "Sys ''fclose'' [] [name]"
  let ?data = "map (\<lambda>c. Sys ''fwrite'' [int (length c)] [c]) cs"
  let ?utime = "Sys ''utime'' [uint date, uint date] [name]"
  have fsize: "word_of_int (uint fsize) = fsize" by simp
  have last: "wp (thn (doif (date \<noteq> 0) (bnd (sysc K ''utime'' [uint date, uint date] [name]) (\<lambda>rc.
      doif (rc \<noteq> 0) (pdo (Failed name))))) (thn (pdo (Sys ''close'' [cfd] [])) (ret 0))) Q E t"
    if "view t = (A @ ?ack # ?data @ [?close], k, b, d)" for t k b
    using that Q
    by (auto simp: sysc_def wp_simps wp_pdo wp_ask view_def effects_def file_effects_def)
  have close: "wp (sysc K ''fclose'' [] [name]) (\<lambda>r t. r = 0 \<and> view t = (A @ ?ack # ?data @ [?close], k, b, d)) E t"
    if "view t = (A @ ?ack # ?data, k, b, d)" for t k b
    using that by (intro works_call(1) [OF works]) auto
  have blocks: "wp (receive_blocks K cfd fsize t0 (t0, t0) 0) (\<lambda>r t. fst r = uint fsize \<and>
      (\<exists>k b. view t = (A @ ?ack # ?data, k, b, d))) E t"
    if "view t = (A @ [?ack], 1, buf, d)" for t t0
    using assms(3-6) that works
    by (intro receive_blocks_works [where rs = "[hdr]" and A = "A @ [?ack]"]) auto
  have finish: "wp (bnd (receive_blocks K cfd fsize t0 (t0, t0) 0) (\<lambda>(cnt, t).
    thn (doif (word_of_int cnt \<noteq> fsize)
      (shown (ln ''Warning: file size changed: initial: %u, actual: %d'') [AI fsize, Ii cnt])) (
    bnd (gets verbose) (\<lambda>v.
    thn (doif (v \<noteq> 0) (pdo (Progress ''Received'' cnt cnt (if t = t0 then 1 else t - t0)))) (
    bnd (sysc K ''fclose'' [] [name]) (\<lambda>rc.
    if rc \<noteq> 0 then thn (failed ''fclose'') (stop (Exit 1)) else
    thn (doif (date \<noteq> 0) (bnd (sysc K ''utime'' [uint date, uint date] [name]) (\<lambda>rc.
      doif (rc \<noteq> 0) (pdo (Failed name))))) (
    thn (pdo (Sys ''close'' [cfd] [])) (ret 0)))))))) Q E t"
    if "view t = (A @ [?ack], 1, buf, d)" for t t0
    by (rule quiet_flow(1), rule wp_weaken [OF blocks [OF that]], elim conjE exE, simp only: split_beta,
        intro quiet, rule wp_weaken [OF close], simp, simp only: simp_thms if_False, rule last, simp)
  have ack: "wp (to_socket K cfd (bytes_of ''ACK Y'')) (\<lambda>rc t. rc = 5 \<and> view t = (A @ [?ack], 1, buf, d)) E s"
    using view by (intro works_call(2) [OF works]) (auto simp: bytes_of_def)
  show ?thesis
    unfolding store_received_def
    by (rule quiet_flow(1), rule wp_weaken [OF ack], simp only: simp_thms if_False,
        rule quiet_flow(1), rule quiet_time, rule finish, simp)
qed

text \<open>
  C28. A file that \<open>sendfile\<close> of this program describes in a header arrives: on a system where
  nothing fails and where the blocks add up to the size of the header, \<open>handle_client\<close> opens a
  file of the name sent, acknowledges the header, writes exactly the blocks in their order, closes
  the file and gives it the modification time of the sender, through the conversion of the date to
  the Psion's and back. The name may be any string of less than 2003 bytes, none of them zero, that does not start with white
  space, also one with directories in it; the size is less than 2 to the 31 and a block has 1 to 2044 bytes, as much as the buffer
  of the receiver takes. The debug level is 0 or less, as it is without the option \<open>-D\<close>: at level 1 \<open>gmtime\<close> reads the
  \<open>int\<close> of the date as a \<open>time_t\<close>, outside of it when that is wider.
\<close>

theorem sent_file_received:
  assumes "works K (file_header sz writable mtime name # cs)" and "reads_done (pacts s) = 0"
    and "0 \<le> sz" and "sz < 2147483648" and "name = [] \<or> \<not> is_space (hd name)" and "0 \<notin> set name"
    and "length name < 2003"
    and "\<forall>c \<in> set cs. c \<noteq> [] \<and> length c \<le> 2044" and "int (length (concat cs)) = sz"
    and "debug_level s < 1"
  shows "wp (handle_client K cfd) (\<lambda>r t. r = 0 \<and>
    effects (pacts t) = effects (pacts s) @ file_effects cfd name (word_of_int mtime) cs) never s"
proof -
  let ?hdr = "file_header sz writable mtime name" and ?A = "effects (pacts s)" and ?d = "debug_level s"
  let ?open = "Sys ''fopen'' [] [name, bytes_of ''wb'']" and ?Q = "\<lambda>r t. r = 0 \<and>
    effects (pacts t) = effects (pacts s) @ file_effects cfd name (word_of_int mtime) cs"
  note works = assms(1)
  have hdr: "?hdr \<noteq> []" "0 \<notin> set ?hdr" "length ?hdr < buflen"
    using file_header_no_nul [OF assms(6)] assms(7) file_header_length [OF assms(3,4), of writable mtime name]
    by (auto simp: buflen_def) (simp add: file_header_def Let_def bytes_of_def)
  have fsize: "uint (word_of_int sz :: u32) = sz"
    using assms(3,4) by (simp add: unsigned_of_int take_bit_int_eq_self)
  have stored: "wp (store_received K cfd name (word_of_int sz) (word_of_int mtime)) ?Q never t"
    if "view t = (?A @ [?open], 1, buf, ?d)" "length buf = buflen" for t buf
    by (rule store_received_works [OF works that])
       (use assms(4,8,9) fsize in \<open>simp_all add: buflen_def file_effects_def\<close>)
  have opened: "wp (open_received K ?hdr) (\<lambda>r t. r = (name, word_of_int sz, word_of_int mtime) \<and>
      view t = (?A @ [?open], 1, buf, ?d)) never t"
    if "view t = (?A, 1, buf, ?d)" for t buf
    by (rule open_received_works [OF works that assms(10) assms(3-5)]) simp
  have first: "wp (first_read K cfd) (\<lambda>r t. r = ?hdr \<and> (\<exists>b. length b = buflen \<and> view t = (?A, 1, b, ?d))) never t"
    if "view t = (?A, 0, buf, ?d)" "length buf = buflen" for t buf
    by (rule first_read_works [OF works that(1)]) (use hdr that(2) in auto)
  have start: "view s = (?A, 0, pbuf s, ?d)" using assms(2) by (simp add: view_def)
  have main: "wp (thn (modify (\<lambda>s. s\<lparr>pbuf := blk\<rparr>)) (
    bnd (first_read K cfd) (\<lambda>hdr.
    bnd (open_received K hdr) (\<lambda>(fname, fsize, fdate).
    store_received K cfd fname fsize fdate)))) ?Q never t"
    if "view t = view s" "length blk = buflen" for t blk
  proof -
    have "view (t\<lparr>pbuf := blk\<rparr>) = (?A, 0, blk, ?d)" using that start by (simp add: view_def)
    from first [OF this that(2)] show ?thesis
      unfolding wp_thn wp_modify wp_bnd
      by (rule wp_weaken) (elim conjE exE, hypsubst, rule wp_weaken [OF opened], auto intro: stored)
  qed
  show ?thesis
    unfolding handle_client_def
    apply (intro quiet, rule new_block_works [OF works], simp only: option.simps if_False)
    apply (rule quiet_flow(1), rule new_block_works [OF works], simp only: option.simps)
    by (rule main) simp_all
qed

text \<open>A system on which everything works, for given reads.\<close>

definition sample_psion :: "byte list list \<Rightarrow> psion_system" where
  "sample_psion rs = \<lparr>
     p_answer = \<lambda>h. (case last h of
         Sys name _ ss \<Rightarrow> if name = ''write'' then int (length (hd ss))
           else if name \<in> {''malloc'', ''fopen'', ''fwrite''} then 1 else 0
       | _ \<Rightarrow> 0),
     p_errno = \<lambda>_. 0, p_data = \<lambda>h. rs ! (reads_done h - 1), p_ferror = \<lambda>_. False, p_mtu = \<lambda>_. 2045,
     p_size = \<lambda>_. 0, p_writable = \<lambda>_. True, p_mtime = \<lambda>_. 0, p_time = \<lambda>_. 0, p_heap = \<lambda>_ _. 0xa5,
     p_host = Little, p_date = \<lambda>_. [], p_wide_time = True\<rparr>"

lemma sample_works: "works (sample_psion rs) rs"
  by (auto simp: works_def sample_psion_def reads_done_def)

definition psion_start :: psion where
  "psion_start = \<lparr>slot_timeout = 120, debug_level = 0, verbose = 1, pbuf = [], pacts = []\<rparr>"

theorem sent_file_received_witness:
  "wp (handle_client (sample_psion [file_header 4 True 1000000000 (bytes_of ''Data''), [1, 2, 3], [4]]) 3) (\<lambda>r t. r = 0 \<and>
    effects (pacts t) = [Sys ''fopen'' [] [bytes_of ''Data'', bytes_of ''wb''],
      Sys ''write'' [3] [bytes_of ''ACK Y''], Sys ''fwrite'' [3] [[1, 2, 3]], Sys ''fwrite'' [1] [[4]],
      Sys ''fclose'' [] [bytes_of ''Data''], Sys ''utime'' [1000000000, 1000000000] [bytes_of ''Data'']]) never psion_start"
proof -
  show ?thesis
    using sent_file_received [OF sample_works, where s = psion_start and sz = 4 and writable = True and mtime = 1000000000 and
      name = "bytes_of ''Data''" and cs = "[[1, 2, 3], [4]]" and cfd = 3]
    by (simp add: psion_start_def reads_done_def effects_def file_effects_def bytes_of_def is_space_def)
qed

section \<open>Arguments\<close>

text \<open>
  \<open>-s -- file\<close>, which is meant for names that start with a dash, skips the file: the pointer
  goes over the first name, and the loop looks at the one behind it. With one name nothing is sent
  and the program ends as if all had gone well. With none the pointer stands on the end of the
  arguments, and what lies behind it is sent: the strings of the environment, starting with the
  first; if that fails the program fails.
\<close>

theorem dash_dash_skips_file:
  "psion_main K n argv0 [bytes_of ''-s'', bytes_of ''--'', name] env s = (Inr (Some 0), s) \<and>
   (\<forall>e x t. sendfile K e s = (Inl x, t) \<longrightarrow>
      psion_main K n argv0 [bytes_of ''-s'', bytes_of ''--''] (e # env) s = (Inl x, t))"
  by (simp add: psion_main_def psion_arg_def send_option_def bytes_of_def run_simps)

theorem dash_dash_skips_file_witness:
  "psion_main (sample_psion [] \<lparr>p_answer := \<lambda>_. -1\<rparr>) 1 (bytes_of ''irpsion5'') [bytes_of ''-s'', bytes_of ''--'']
     [bytes_of ''HOME=/root''] psion_start =
   (Inl (Exit (-1)), psion_start\<lparr>pacts := [Sys ''socket'' [] [], Failed (bytes_of ''socket'')]\<rparr>)"
proof -
  have "sendfile (sample_psion [] \<lparr>p_answer := \<lambda>_. -1\<rparr>) (bytes_of ''HOME=/root'') psion_start =
      (Inl (Exit (-1)), psion_start\<lparr>pacts := [Sys ''socket'' [] [], Failed (bytes_of ''socket'')]\<rparr>)"
    by (simp add: sendfile_def connect_psion_def sysc_def failed_def pdo_def ask_def psion_start_def
        sample_psion_def run_simps)
  with dash_dash_skips_file show ?thesis by blast
qed

section \<open>Discovery\<close>

lemma ask_devices_short:
  "len \<le> 4 \<Longrightarrow> wp (ask_devices K fd i len buf) (\<lambda>(l, b) t. drop 4 b = drop 4 buf) (\<lambda>_ _. True) s"
proof (induction K fd i len buf arbitrary: s rule: ask_devices.induct)
  case (1 K fd i len buf)
  have same: "drop 4 (take len bs @ drop (length (take len bs)) buf) = drop 4 buf" for bs
    using 1(3) by (auto simp: min_def)
  have short: "length (take len bs) \<le> 4" for bs :: "byte list" using 1(3) by simp
  show ?case
    by (subst ask_devices.simps)
       (use 1 same short in \<open>auto simp: sysc_def dbg_def shown_def failed_def wp_simps wp_pdo wp_ask Let_def\<close>)
qed

definition asked :: "pact list \<Rightarrow> bool" where
  "asked h \<longleftrightarrow> (\<exists>is ss. Sys ''getsockopt IRLMP_ENUMDEVICES'' is ss \<in> set h)"

abbreviation anything :: "fault \<Rightarrow> psion \<Rightarrow> bool" where
  "anything \<equiv> \<lambda>_ _. True"

lemma asked_append [simp]:
  "asked (h @ [a]) \<longleftrightarrow> asked h \<or> (\<exists>is ss. a = Sys ''getsockopt IRLMP_ENUMDEVICES'' is ss)"
  by (auto simp: asked_def)

abbreviation unasked :: "psion \<Rightarrow> bool" where
  "unasked s \<equiv> \<not> asked (pacts s)"

lemma set_slot_timeout_unasked: "keeps unasked anything (set_slot_timeout K ms)"
proof -
  have "keeps unasked anything (dbg n f a)" "keeps unasked anything (failed x)"
    "name \<noteq> ''getsockopt IRLMP_ENUMDEVICES'' \<Longrightarrow> keeps unasked anything (sysc K name is ss)" for n f a x name "is" ss
    by (auto simp: keeps_def dbg_def shown_def failed_def sysc_def wp_simps wp_pdo wp_ask)
  then show ?thesis
    unfolding set_slot_timeout_def Let_def by (auto intro!: keeps_rules)
qed

lemma new_block_unasked:
  "unasked s \<Longrightarrow> wp (new_block K n) (\<lambda>b t. unasked t \<and>
    (\<forall>blk. b = Some blk \<longrightarrow> (\<exists>h. blk = map (p_heap K h) [0..<n]))) anything s"
  by (auto simp: new_block_def sysc_def wp_simps wp_pdo wp_ask)

text \<open>A device that is found is one of the ten there is room for.\<close>

lemma find_device_room: "wp (find_device buf n name i) (\<lambda>r t. \<forall>j. r = Some j \<longrightarrow> j < MAX_DEVICES) anything s"
proof (induction buf n name i arbitrary: s rule: find_device.induct)
  case (1 buf n name i)
  then show ?case by (subst find_device.simps) (auto simp: in_list_def wp_simps)
qed

lemma select_device_returns:
  "wp (select_device K buf i text) (\<lambda>r t. r = dev_field K buf i 4) anything s"
  by (auto simp: select_device_def info_string_def dbg_def shown_def wp_simps wp_pdo)

lemma show_devices_any: "wp (show_devices K buf n i) (\<lambda>_ _. True) anything s"
proof (induction K buf n i arbitrary: s rule: show_devices.induct)
  case (1 K buf n i)
  then show ?case
    by (subst show_devices.simps) (auto simp: info_string_def shown_def wp_simps wp_pdo)
qed

lemma dev_field_behind: "drop 4 buf = drop 4 buf' \<Longrightarrow> dev_field K buf i 4 = dev_field K buf' i 4"
proof -
  assume "drop 4 buf = drop 4 buf'"
  then have "drop (4 + 36 * i) (drop 4 buf) = drop (4 + 36 * i) (drop 4 buf')" by simp
  then show ?thesis by (simp add: dev_field_def add.commute add.left_commute)
qed

text \<open>
  The work-around for an empty first answer makes things worse. \<open>getsockopt\<close> returns the size
  of its answer in \<open>len\<close>, and \<open>len\<close> is not set again before the next try: after a first answer of
  4 bytes every later one is cut to its first 4 bytes, which is the number of devices. The devices
  themselves are then what \<open>malloc\<close> left in the buffer: the address that is returned, if any, is
  made of such bytes.
\<close>

theorem empty_reply_breaks_discovery:
  assumes "\<not> asked (pacts s)"
    and "\<And>h is. \<not> asked h \<Longrightarrow> p_answer K (h @ [Sys ''getsockopt IRLMP_ENUMDEVICES'' is []]) = 0 \<and>
      length (p_data K (h @ [Sys ''getsockopt IRLMP_ENUMDEVICES'' is []])) = 4"
  shows "wp (discover_devices K fd) (\<lambda>r t. r = 0 \<or>
    (\<exists>h i. i < MAX_DEVICES \<and> r = dev_field K (map (p_heap K h) [0..<list_size]) i 4)) anything s"
proof -
  have again: "wp (ask_devices K fd (Suc 0) 4 (bs @ drop 4 blk)) (\<lambda>(l, b) t. drop 4 b = drop 4 blk) anything t"
    if "length bs = 4" for bs blk t
    using ask_devices_short [of 4 K fd "Suc 0" "bs @ drop 4 blk" t] that by simp
  have first: "wp (ask_devices K fd 0 list_size blk) (\<lambda>(l, b) t. drop 4 b = drop 4 blk) anything t"
    if "unasked t" for t blk
    using assms(2) [OF that] again
    by (subst ask_devices.simps)
       (auto simp: sysc_def dbg_def shown_def wp_simps wp_pdo wp_ask Let_def list_size_def)
  let ?Q = "\<lambda>r t. r = 0 \<or> (\<exists>h i. i < MAX_DEVICES \<and> r = dev_field K (map (p_heap K h) [0..<list_size]) i 4)"
  have chosen: "wp (select_device K buf i msg) ?Q anything t"
    if "i < MAX_DEVICES" "drop 4 buf = drop 4 (map (p_heap K h) [0..<list_size])" for buf i h msg t
    by (rule wp_mono [OF select_device_returns]) (use that dev_field_behind in blast)+
  have look: "wp (bnd (find_device buf n (bytes_of ''Symbian EPOC'') 0) (\<lambda>epoc. case epoc of
      Some i \<Rightarrow> select_device K buf i ''Selecting first EPOC device.''
    | None \<Rightarrow>
    bnd (find_device buf n (bytes_of ''Psion Series 5'') 0) (\<lambda>psion. case psion of
      Some i \<Rightarrow> select_device K buf i ''Selecting first Psion Series 5 device.''
    | None \<Rightarrow> select_device K buf 0 ''Selecting first IRDA device.''))) ?Q anything t"
    if "drop 4 buf = drop 4 (map (p_heap K h) [0..<list_size])" for buf n h t
    unfolding wp_bnd
    by (rule wp_mono [OF find_device_room])
       (auto split: option.split simp: wp_bnd intro!: chosen [OF _ that] wp_mono [OF find_device_room])
  have listed: "wp (if len < 4 then thn (shown (ln ''Unexpected len value: %d'') [Ii (int len)]) (stop (Exit 1)) else
    let n = unat (word32 (p_host K) buf) in
    if n = 0 then thn (dbg 1 (ln ''No devices discovered.'') []) (ret 0) else
    thn (dbg 1 (ln ''Discovered: (%d,%d)'') [Ii (int len), AI (word32 (p_host K) buf)]) (
    thn (show_devices K buf n 0) (
    bnd (find_device buf n (bytes_of ''Symbian EPOC'') 0) (\<lambda>epoc. case epoc of
      Some i \<Rightarrow> select_device K buf i ''Selecting first EPOC device.''
    | None \<Rightarrow>
    bnd (find_device buf n (bytes_of ''Psion Series 5'') 0) (\<lambda>psion. case psion of
      Some i \<Rightarrow> select_device K buf i ''Selecting first Psion Series 5 device.''
    | None \<Rightarrow> select_device K buf 0 ''Selecting first IRDA device.''))))) ?Q anything t"
    if from_heap: "\<exists>h. drop 4 buf = drop 4 (map (p_heap K h) [0..<list_size])" for len buf t
  proof -
    from from_heap obtain h where "drop 4 buf = drop 4 (map (p_heap K h) [0..<list_size])" ..
    note look = look [OF this, unfolded wp_bnd]
    show ?thesis
      unfolding Let_def wp_if wp_thn
      by (auto simp: shown_def wp_pdo dbg_def wp_simps intro!: wp_mono [OF show_devices_any] look)
  qed
  have timeout: "wp (doif c (thn (set_slot_timeout K x) (ret ()))) (\<lambda>_. unasked) anything s" for c x
    using keepsD [OF set_slot_timeout_unasked assms(1)] assms(1) by (auto simp: wp_simps elim: wp_mono)
  show ?thesis
    unfolding discover_devices_def
    by (simp only: wp_bnd wp_thn wp_gets, rule wp_mono [OF timeout],
        rule wp_mono [OF new_block_unasked], assumption)
       (auto split: option.split simp: wp_bnd shown_def wp_pdo wp_simps intro!: wp_mono [OF first] listed)
qed

theorem empty_reply_breaks_discovery_witness:
  "wp (discover_devices (sample_psion [] \<lparr>p_data := \<lambda>h. [1, 0, 0, 0]\<rparr>) 3)
     (\<lambda>r t. r \<in> {0, 0xa5a5a5a5}) anything psion_start"
proof -
  let ?K = "sample_psion [] \<lparr>p_data := \<lambda>h. [1, 0, 0, 0]\<rparr>"
  have "dev_field ?K (map (p_heap ?K h) [0..<list_size]) i 4 = 0xa5a5a5a5" if "i < 10" for h i
    using that by (simp add: dev_field_def sample_psion_def word32_def list_size_def be32_def)
  moreover have "wp (discover_devices ?K 3) (\<lambda>r t. r = 0 \<or>
      (\<exists>h i. i < MAX_DEVICES \<and> r = dev_field ?K (map (p_heap ?K h) [0..<list_size]) i 4)) anything psion_start"
    by (rule empty_reply_breaks_discovery) (auto simp: asked_def psion_start_def sample_psion_def)
  ultimately show ?thesis by (elim wp_weaken) auto
qed

section \<open>The end of a run\<close>

lemma wp_any: "wp m (\<lambda>_ _. True) anything s"
  by (simp add: wp_def split: prod.splits sum.splits)

lemma wp_ifI: "(b \<Longrightarrow> wp m Q E s) \<Longrightarrow> (\<not> b \<Longrightarrow> wp k Q E s) \<Longrightarrow> wp (if b then m else k) Q E s"
  by simp

lemma receive_one_returns: "wp (receivefile K 1 (Suc n)) (\<lambda>r _. r \<noteq> None) anything s"
  by (auto simp: receivefile_def sysc_def failed_def wp_simps wp_pdo wp_ask intro!: wp_mono [OF wp_any [of "handle_client _ _"]])

text \<open>
  The arguments before the null pointer do not ask for batch mode, and there is a null pointer.
\<close>

definition no_batch :: "argv \<Rightarrow> bool" where
  "no_batch av \<longleftrightarrow> None \<in> set av \<and> Some (bytes_of ''-b'') \<notin> set (takeWhile (\<lambda>x. x \<noteq> None) av)"

lemma no_batch_Cons: "no_batch (Some a # av) \<longleftrightarrow> a \<noteq> bytes_of ''-b'' \<and> no_batch av"
  by (auto simp: no_batch_def)

lemma no_batch_None [simp]: "no_batch (None # av)"
  by (simp add: no_batch_def)

definition moved :: "argv \<Rightarrow> int \<times> argv \<Rightarrow> bool" where
  "moved av r \<longleftrightarrow> no_batch (tl (snd r)) \<and> length (snd r) \<le> length av"

lemma send_any_moves: "wp (send_any K argc av) (\<lambda>r _. moved av r) anything s"
proof (induction K argc av arbitrary: s rule: send_any.induct)
  case (1 K argc a f rest)
  have "wp (send_any K (argc - 1) (Some f # rest)) (\<lambda>r _. moved (a # Some f # rest) r) anything t" for t
    by (rule wp_weaken [OF 1]) (auto simp: moved_def)
  then show ?case by (simp only: send_any.simps wp_bnd) (rule wp_mono [OF wp_any], simp_all)
qed (auto simp: wp_simps moved_def)

lemma send_until_switch_moves:
  "no_batch (tl av) \<Longrightarrow> wp (send_until_switch K argc av) (\<lambda>r _. moved av r) anything s"
proof (induction K argc av arbitrary: s rule: send_until_switch.induct)
  case (1 K argc a f rest)
  then have "wp (send_until_switch K (argc - 1) (Some f # rest)) (\<lambda>r _. moved (a # Some f # rest) r) anything t"
    if "\<not> is_switch f" for t
    using that by (intro wp_weaken [OF 1(1)]) (auto simp: moved_def no_batch_Cons)
  then have "wp (bnd (sendfile K f) (\<lambda>_. send_until_switch K (argc - 1) (Some f # rest)))
      (\<lambda>r _. moved (a # Some f # rest) r) anything t" if "\<not> is_switch f" for t
    unfolding wp_bnd by (rule wp_mono [OF wp_any]) (use that in simp_all)
  with 1(2) show ?case by (simp add: wp_ret moved_def)
qed (auto simp: wp_simps moved_def)

lemma psion_arg_moves:
  assumes "no_batch (Some a # rest)"
  shows "wp (psion_arg K (Suc n) argv0 argc a rest) (\<lambda>r _. \<exists>r'. r = Some r' \<and> moved (Some a # rest) r') anything s"
proof -
  have rest: "no_batch rest" "a \<noteq> bytes_of ''-b''" using assms by (auto simp: no_batch_Cons)
  have sent: "wp (send_option K argc (Some a # rest)) (\<lambda>r _. moved (Some a # rest) r) anything t" for t
    using send_until_switch_moves [of "Some a # rest"] rest
    by (auto simp: send_option_def moved_def intro!: wp_weaken [OF send_any_moves])
  have number: "wp (arg_number rest) (\<lambda>_ _. \<exists>x y. rest = Some x # y) anything t" for t
    by (auto simp: arg_number_def wp_simps split: list.split option.split sum.split)
  have tail: "rest = Some x # y \<Longrightarrow> moved (Some a # rest) (k, rest)" for x y k
    using rest(1) by (auto simp: moved_def no_batch_Cons)
  have stay: "moved (Some a # rest) (argc, Some a # rest)" using rest(1) by (simp add: moved_def)
  have numbered: "wp (bnd (arg_number rest) (\<lambda>k. thn (modify (f k)) (ret (Some (argc - 1, rest)))))
      (\<lambda>r _. \<exists>r'. r = Some r' \<and> moved (Some a # rest) r') anything s" for f
    by (simp only: wp_bnd wp_thn wp_modify wp_ret, rule wp_weaken [OF number])
       (elim exE, drule tail [of _ _ "argc - 1"], simp add: wp_modify)
  have served: "wp (bnd (receivefile K 1 (Suc n)) (\<lambda>r. ret (map_option (\<lambda>_. (argc, Some a # rest)) r)))
      (\<lambda>r _. \<exists>r'. r = Some r' \<and> moved (Some a # rest) r') anything s"
    unfolding wp_bnd wp_ret by (rule wp_weaken [OF receive_one_returns]) (use stay in auto)
  have send: "wp (bnd (send_option K argc (Some a # rest)) (\<lambda>r. ret (Some r)))
      (\<lambda>r _. \<exists>r'. r = Some r' \<and> moved (Some a # rest) r') anything s"
    unfolding wp_bnd wp_ret by (rule wp_weaken [OF sent]) blast
  show ?thesis
    unfolding psion_arg_def
    by (intro wp_ifI numbered served send) (use rest(2) stay in \<open>simp_all add: shown_def wp_pdo wp_simps\<close>)
qed

lemma psion_args_returns:
  "no_batch av \<Longrightarrow> length av \<le> k \<Longrightarrow>
    wp (psion_args K (Suc n) argv0 k argc av) (\<lambda>r _. r = Some 0) anything s"
proof (induction k arbitrary: argc av s)
  case 0
  then show ?case by (simp add: no_batch_def)
next
  case (Suc k)
  show ?case
  proof (cases av)
    case Nil
    with Suc show ?thesis by (simp add: no_batch_def)
  next
    case (Cons x rest)
    show ?thesis
    proof (cases x)
      case None
      with Cons show ?thesis by (simp add: wp_simps)
    next
      case (Some a)
      have "wp (psion_args K (Suc n) argv0 k (fst r - 1) (tl (snd r))) (\<lambda>r _. r = Some 0) anything t"
        if "moved av r" for r t
        using that Suc.prems Cons by (intro Suc.IH) (auto simp: moved_def)
      with Suc.prems Cons Some show ?thesis
        by (auto simp: wp_simps split_beta intro!: wp_weaken [OF psion_arg_moves])
    qed
  qed
qed

text \<open>
  C29. Without \<open>-b\<close> the program ends: whatever the system answers and the arguments are, it returns
  0 or stops with an exit status or a fault. The bounds of the model, one client for \<open>-r\<close> and as
  many turns of the loop over the arguments as there are strings behind \<open>argv\<close>, are never reached.
\<close>

theorem psion_main_returns:
  assumes "bytes_of ''-b'' \<notin> set args"
  shows "wp (psion_main K (Suc n) argv0 args env) (\<lambda>r _. r = Some 0) anything s"
proof -
  have "no_batch (map Some args @ None # map Some env @ [None])"
    using assms by (induction args) (auto simp: no_batch_Cons)
  then show ?thesis
    using psion_args_returns wp_any [of "psion_usage argv0"]
    by (simp add: psion_main_def wp_thn wp_stop Let_def del: psion_args.simps)
qed

theorem psion_main_returns_witness:
  "wp (psion_main (sample_psion []) 1 (bytes_of ''irpsion5'') [bytes_of ''-q'', bytes_of ''-s'', bytes_of ''a''] [])
     (\<lambda>r _. r = Some 0) anything psion_start"
  using psion_main_returns [of "[bytes_of ''-q'', bytes_of ''-s'', bytes_of ''a'']" "sample_psion []" 0]
  by (simp add: bytes_of_def)

end
