(* ===== verification/Attach_State.thy ===== *)
theory Attach_State
  imports C_Library
begin

text \<open>
  The state of irattach and the helpers of \<open>irattach/util.c\<close>. The globals of \<open>irattach.c\<close> are in a
  record, together with what the program changes outside of it: the serial line (flags of the
  file, line discipline, terminal settings) and the flags of the network interfaces. Whether a call
  of the system succeeds is a function of the history of calls; a call that fails changes nothing.
\<close>

section \<open>Globals and system\<close>

abbreviation O_NONBLOCK :: u32 where "O_NONBLOCK \<equiv> 0x800"
abbreviation IFF_UP :: u16 where "IFF_UP \<equiv> 0x1"
abbreviation IFF_RUNNING :: u16 where "IFF_RUNNING \<equiv> 0x40"
abbreviation (input) N_IRDA :: int where "N_IRDA \<equiv> 11"
abbreviation (input) SIGHUP :: int where "SIGHUP \<equiv> 1"
abbreviation (input) SIGINT :: int where "SIGINT \<equiv> 2"
abbreviation (input) SIGTERM :: int where "SIGTERM \<equiv> 15"

record termios =
  c_iflag :: u32
  c_oflag :: u32
  c_cflag :: u32
  c_lflag :: u32
  c_vmin :: byte
  c_vtime :: byte
  c_cc_rest :: "byte list"

text \<open>
  \<open>Do\<close>: a system call with its integer and string arguments; \<open>Log\<close>: \<open>syslog\<close>; \<open>Tell\<close>: output to
  the terminal.
\<close>

datatype aact =
    Do string "int list" "byte list list"
  | Log string "varg list"
  | Tell string "varg list"

record attach =
  devfd :: int
  fdflags :: u32
  initfdflags :: u32
  initdisc :: int
  termsave :: termios
  termvalid :: int
  device :: "byte list"       \<comment> \<open>20 bytes\<close>
  behind_device :: byte       \<comment> \<open>the byte behind them\<close>
  tty_flags :: u32
  tty_disc :: int
  tty_term :: termios
  if_flags :: "byte list \<Rightarrow> u16"
  aacts :: "aact list"

record attach_system =
  a_ok :: "aact list \<Rightarrow> bool"
  a_val :: "aact list \<Rightarrow> int"
  a_lines :: "aact list \<Rightarrow> byte list list option"

type_synonym 'a am = "(attach, 'a) cm"

definition doing :: "aact \<Rightarrow> unit am" where
  "doing a = modify (\<lambda>s. s\<lparr>aacts := aacts s @ [a]\<rparr>)"

definition syslog :: "string \<Rightarrow> varg list \<Rightarrow> unit am" where
  "syslog fmt args = doing (Log fmt args)"

definition tell :: "string \<Rightarrow> varg list \<Rightarrow> unit am" where
  "tell fmt args = doing (Tell fmt args)"

text \<open>
  A call: whether it succeeds, its number, or the lines that can be read from what it opens
  (\<open>None\<close> when it fails). One call of \<open>fgets\<close> gives one of the lines.
\<close>

definition succeeds :: "attach_system \<Rightarrow> string \<Rightarrow> int list \<Rightarrow> byte list list \<Rightarrow> bool am" where
  "succeeds K name ints strs = thn (doing (Do name ints strs)) (gets (\<lambda>s. a_ok K (aacts s)))"

definition number_of :: "attach_system \<Rightarrow> string \<Rightarrow> int list \<Rightarrow> byte list list \<Rightarrow> int am" where
  "number_of K name ints strs = thn (doing (Do name ints strs)) (gets (\<lambda>s. a_val K (aacts s)))"

definition lines_of :: "attach_system \<Rightarrow> string \<Rightarrow> int list \<Rightarrow> byte list list \<Rightarrow> byte list list option am" where
  "lines_of K name ints strs = thn (doing (Do name ints strs)) (gets (\<lambda>s. a_lines K (aacts s)))"

text \<open>\<open>succeeds\<close>, and what a success changes.\<close>

definition attempt ::
  "attach_system \<Rightarrow> string \<Rightarrow> int list \<Rightarrow> byte list list \<Rightarrow> (attach \<Rightarrow> attach) \<Rightarrow> bool am" where
  "attempt K name ints strs f =
    bnd (succeeds K name ints strs) (\<lambda>ok. thn (doif ok (modify f)) (ret ok))"

section \<open>util.c\<close>

definition beep :: "attach_system \<Rightarrow> bool \<Rightarrow> u32 \<Rightarrow> u32 \<Rightarrow> unit am" where
  "beep K be_quiet ms freq =
    (if be_quiet then ret () else
     bnd (succeeds K ''open'' [] [bytes_of ''/dev/console'']) (\<lambda>ok.
     if \<not> ok then ret () else
     thn (doing (Do ''KDMKTONE'' [sint (push_bit 16 ms OR freq)] [])) (
     thn (doing (Do ''close'' [] []))
     (doing (Do ''usleep'' [uint (ms * 1000)] [])))))"

text \<open>
  The lines of \<open>/proc/misc\<close>: a number and a name. \<open>n\<close> and \<open>t\<close> are not set before the loop and
  keep what the last line that has them says.
\<close>

fun lookup_lines :: "byte list \<Rightarrow> int \<Rightarrow> byte list \<Rightarrow> byte list list \<Rightarrow> fault + int \<times> byte list" where
  "lookup_lines name n t [] = Inr (n, t)"
| "lookup_lines name n t (l # ls) =
    (case scan_number (- 2147483648) 2147483647 (cstring (take 31 l)) of
       None \<Rightarrow> lookup_lines name n t ls
     | Some (Inl e) \<Rightarrow> Inl e
     | Some (Inr (n', rest)) \<Rightarrow>
         let t' = takeWhile (\<lambda>b. \<not> is_space b) (dropWhile is_space rest) in
         if t' = [] then lookup_lines name n' t ls
         else if name = t' then Inr (n', t')
         else lookup_lines name n' t' ls)"

definition lookup_dev :: "attach_system \<Rightarrow> int \<Rightarrow> byte list \<Rightarrow> byte list \<Rightarrow> int am" where
  "lookup_dev K n t name =
    bnd (lines_of K ''fopen'' [] [bytes_of ''/proc/misc'']) (\<lambda>f. case f of
      None \<Rightarrow> bnd (gets (\<lambda>s. a_val K (aacts s))) (\<lambda>errno. ret (- errno))
    | Some ls \<Rightarrow>
        (case lookup_lines name n t ls of
           Inl e \<Rightarrow> stop e
         | Inr (n, t) \<Rightarrow> thn (doing (Do ''fclose'' [] [])) (ret (if name = t then n else -19))))"

text \<open>\<open>line[strlen(line)-1] = '\0'\<close>, then the line is logged.\<close>

fun log_lines :: "byte list list \<Rightarrow> unit am" where
  "log_lines [] = ret ()"
| "log_lines (l # ls) =
    (let line = cstring (take 254 l) in
     thn (check Oob_write (line \<noteq> [])) (
     thn (syslog ''+ %s'' [AS (butlast line)]) (log_lines ls)))"

text \<open>\<open>cmd\<close> is in a buffer of 512 bytes, and the shell that runs it is given all of it.\<close>

definition execute :: "attach_system \<Rightarrow> byte list \<Rightarrow> byte list \<Rightarrow> int am" where
  "execute K msg cmd =
    thn (syslog (''executing: '' @ [CHR 0x27] @ ''%s'' @ [CHR 0x27]) [AS cmd]) (
    let cmd = cmd @ bytes_of '' 2>&1'' in
    thn (check Oob_write (length cmd < 512)) (
    bnd (lines_of K ''popen'' [] [cmd]) (\<lambda>f. case f of
      None \<Rightarrow> stop Null_deref
    | Some ls \<Rightarrow>
        thn (log_lines ls) (
        bnd (number_of K ''pclose'' [] []) (\<lambda>r.
        let status = word_of_int r :: u32; code = uint (drop_bit 8 status AND 0xff) in
        if status AND 0x7f = 0 then
          thn (doif (code \<noteq> 0) (syslog ''%s exited with status %d'' [AS msg, Ii code])) (ret code)
        else
          thn (syslog ''%s exited on signal %d'' [AS msg, AI (status AND 0x7f)]) (ret (-1)))))))"

text \<open>\<open>sprintf\<close> into the two buffers.\<close>

definition execute_texts :: "attach_system \<Rightarrow> byte list \<Rightarrow> byte list \<Rightarrow> int am" where
  "execute_texts K msg cmd =
    thn (check Oob_write (length msg < 128)) (
    thn (check Oob_write (length cmd < 512)) (execute K msg cmd))"

definition execute_on_dev :: "attach_system \<Rightarrow> byte list \<Rightarrow> byte list \<Rightarrow> byte list \<Rightarrow> int \<Rightarrow> int am" where
  "execute_on_dev K action class dev minor =
    execute_texts K (action @ bytes_of '' cmd'')
      (bytes_of ''./'' @ class @ bytes_of '' '' @ action @ bytes_of '' '' @ dev @ bytes_of '' '' @ dec_int minor)"

definition set_sysctl_param :: "attach_system \<Rightarrow> string \<Rightarrow> byte list \<Rightarrow> int am" where
  "set_sysctl_param K name val =
    execute_texts K (bytes_of ''Setting '' @ bytes_of name @ bytes_of '' to '' @ val)
      (bytes_of ''echo '' @ val @ bytes_of '' > /proc/sys/net/irda/'' @ bytes_of name)"

definition pidfile :: "byte list" where
  "pidfile = bytes_of ''/var/run/irattach.pid''"

definition write_pid :: "attach_system \<Rightarrow> unit am" where
  "write_pid K =
    bnd (succeeds K ''fopen'' [] [pidfile, bytes_of ''w'']) (\<lambda>ok.
    if \<not> ok then syslog ''could not open %s: %m'' [AS pidfile]
    else
      bnd (number_of K ''getpid'' [] []) (\<lambda>pid.
      thn (doing (Do ''fprintf'' [pid] []))
      (doing (Do ''fclose'' [] []))))"

definition fork_now :: "attach_system \<Rightarrow> int \<Rightarrow> unit am" where
  "fork_now K ttyfd =
    bnd (number_of K ''fork'' [] []) (\<lambda>r.
    if 0 < r then stop (Exit 0) else
    thn (doif (r = -1) (syslog ''forking: %m'' [])) (
    bnd (succeeds K ''setsid'' [] []) (\<lambda>ok.
    thn (doif (\<not> ok) (syslog ''detaching from tty: %m'' [])) (
    bnd (number_of K ''fork'' [] []) (\<lambda>r.
    if 0 < r then stop (Exit 0) else
    thn (seqs (map (\<lambda>i. doif (i \<noteq> ttyfd) (doing (Do ''close'' [i] []))) [0..63]))
    (write_pid K))))))"

end
