(* ===== verification/Irattach.thy ===== *)
theory Irattach
  imports Attach_State
begin

text \<open>
  The daemon that turns a serial line into an infrared interface, or brings up the interface of a
  driver (\<open>irattach/irattach.c\<close>). It changes the serial line and must leave it as it found it,
  whenever it ends: when a step fails, and when a signal arrives.
\<close>

abbreviation (input) IRDA_TEKRAM_DONGLE :: int where "IRDA_TEKRAM_DONGLE \<equiv> 0"
abbreviation (input) IRDA_ESI_DONGLE :: int where "IRDA_ESI_DONGLE \<equiv> 1"
abbreviation (input) IRDA_ACTISYS_DONGLE :: int where "IRDA_ACTISYS_DONGLE \<equiv> 2"
abbreviation (input) IRDA_ACTISYS_PLUS_DONGLE :: int where "IRDA_ACTISYS_PLUS_DONGLE \<equiv> 3"
abbreviation (input) IRDA_GIRBIL_DONGLE :: int where "IRDA_GIRBIL_DONGLE \<equiv> 4"
abbreviation (input) IRDA_LITELINK_DONGLE :: int where "IRDA_LITELINK_DONGLE \<equiv> 5"
abbreviation (input) IRDA_AIRPORT_DONGLE :: int where "IRDA_AIRPORT_DONGLE \<equiv> 6"
abbreviation (input) IRDA_OLD_BELKIN_DONGLE :: int where "IRDA_OLD_BELKIN_DONGLE \<equiv> 7"
abbreviation (input) IRDA_EP7211_IR :: int where "IRDA_EP7211_IR \<equiv> 8"
abbreviation (input) IRDA_MCP2120_DONGLE :: int where "IRDA_MCP2120_DONGLE \<equiv> 9"
abbreviation (input) IRDA_ACT200L_DONGLE :: int where "IRDA_ACT200L_DONGLE \<equiv> 10"
abbreviation (input) IRDA_MA600_DONGLE :: int where "IRDA_MA600_DONGLE \<equiv> 11"
abbreviation (input) IRDA_TOIM3232_DONGLE :: int where "IRDA_TOIM3232_DONGLE \<equiv> 12"

definition dongle_list :: "(int \<times> string) list" where
  "dongle_list = [
     (IRDA_ESI_DONGLE, ''esi''), (IRDA_TEKRAM_DONGLE, ''tekram''), (IRDA_ACTISYS_DONGLE, ''actisys''),
     (IRDA_ACTISYS_PLUS_DONGLE, ''actisys+''), (IRDA_GIRBIL_DONGLE, ''girbil''),
     (IRDA_LITELINK_DONGLE, ''litelink''), (IRDA_AIRPORT_DONGLE, ''airport''),
     (IRDA_OLD_BELKIN_DONGLE, ''old_belkin''), (IRDA_EP7211_IR, ''ep7211''),
     (IRDA_MCP2120_DONGLE, ''mcp2120''), (IRDA_ACT200L_DONGLE, ''act200l''),
     (IRDA_MA600_DONGLE, ''ma600''), (IRDA_TOIM3232_DONGLE, ''toim3232'')]"

section \<open>Interfaces\<close>

text \<open>\<open>ifr_name\<close> takes 16 bytes of a name.\<close>

definition if_name :: "byte list \<Rightarrow> byte list" where
  "if_name dev = take 16 dev"

definition modify_flags :: "attach_system \<Rightarrow> byte list \<Rightarrow> u16 \<Rightarrow> u16 \<Rightarrow> int am" where
  "modify_flags K dev on off =
    bnd (succeeds K ''socket'' [] []) (\<lambda>ok.
    if \<not> ok then thn (syslog ''socket(AF_IRDA): %m'' []) (ret (-1)) else
    bnd (succeeds K ''SIOCGIFFLAGS'' [] [if_name dev]) (\<lambda>ok.
    if \<not> ok then
      thn (syslog ''ioctl(SIOCGIFFLAGS): %m'' []) (thn (doing (Do ''close'' [] [])) (ret (-1))) else
    bnd (gets (\<lambda>s. (if_flags s (if_name dev) OR on) AND NOT off)) (\<lambda>flags.
    bnd (attempt K ''SIOCSIFFLAGS'' [uint flags] [if_name dev]
      (\<lambda>s. s\<lparr>if_flags := (if_flags s)(if_name dev := flags)\<rparr>)) (\<lambda>ok.
    if \<not> ok then
      thn (syslog ''ioctl(SIOCSIFFLAGS): %m'' []) (thn (doing (Do ''close'' [] [])) (ret (-1)))
    else thn (doing (Do ''close'' [] [])) (ret 0)))))"

definition ifup :: "attach_system \<Rightarrow> byte list \<Rightarrow> int am" where
  "ifup K dev = thn (syslog ''Starting device %s'' [AS dev]) (modify_flags K dev (IFF_UP OR IFF_RUNNING) 0)"

definition ifdown :: "attach_system \<Rightarrow> byte list \<Rightarrow> int am" where
  "ifdown K dev = thn (syslog ''Stopping device %s'' [AS dev]) (modify_flags K dev 0 IFF_UP)"

text \<open>The name in \<open>device\<close> ends at the byte behind it at the latest, which \<open>main\<close> sets to 0.\<close>

definition device_name :: "byte list am" where
  "device_name = gets (\<lambda>s. cstring (device s @ [behind_device s]))"

section \<open>Cleaning up\<close>

text \<open>The serial line, when there is one: flags, line discipline, settings, flags.\<close>

definition restore_tty :: "attach_system \<Rightarrow> unit am" where
  "restore_tty K = seqs [
     modify (\<lambda>s. s\<lparr>fdflags := fdflags s AND NOT O_NONBLOCK\<rparr>),
     bnd (gets (\<lambda>s. (devfd s, fdflags s))) (\<lambda>(fd, flags).
       bnd (attempt K ''F_SETFL'' [fd, uint flags] [] (\<lambda>s. s\<lparr>tty_flags := flags\<rparr>)) (\<lambda>ok.
       doif (\<not> ok) (syslog ''fcntl: fdflags: %m'' []))),
     bnd (gets (\<lambda>s. (devfd s, initdisc s))) (\<lambda>(fd, disc).
       doif (disc \<noteq> -1) (bnd (attempt K ''TIOCSETD'' [fd, disc] [] (\<lambda>s. s\<lparr>tty_disc := disc\<rparr>)) (\<lambda>ok.
       doif (\<not> ok) (
         thn (tell (ln (''Oups ! Can'' @ [CHR 0x27] @ ''t set back original link discipline...'')) [])
         (syslog ''ioctl: set_inidisc: %m'' []))))),
     bnd (gets (\<lambda>s. (devfd s, termvalid s, termsave s))) (\<lambda>(fd, valid, term).
       doif (valid \<noteq> -1) (bnd (attempt K ''TCSANOW'' [fd] [] (\<lambda>s. s\<lparr>tty_term := term\<rparr>)) (\<lambda>ok.
       doif (\<not> ok) (syslog ''tcsetattr: %m'' [])))),
     bnd (gets (\<lambda>s. (devfd s, initfdflags s))) (\<lambda>(fd, flags).
       bnd (attempt K ''F_SETFL'' [fd, uint flags] [] (\<lambda>s. s\<lparr>tty_flags := flags\<rparr>)) (\<lambda>ok.
       doif (\<not> ok) (syslog ''fcntl: initfdflags: %m'' []))),
     bnd (gets devfd) (\<lambda>fd. doing (Do ''close'' [fd] [])),
     modify (\<lambda>s. s\<lparr>devfd := -1\<rparr>)]"

definition attach_cleanup :: "attach_system \<Rightarrow> int \<Rightarrow> unit am" where
  "attach_cleanup K signo =
    thn (if signo = SIGTERM \<or> signo = SIGINT then syslog (ln ''got SIGTERM or SIGINT'') []
         else if signo = SIGHUP then syslog (ln ''got SIGHUP'') [] else ret ()) (
    bnd device_name (\<lambda>dev.
    bnd (ifdown K dev) (\<lambda>_.
    bnd (gets devfd) (\<lambda>fd.
    thn (doif (fd \<noteq> -1) (restore_tty K)) (
    thn (doing (Do ''unlink'' [] [pidfile])) (
    thn (syslog (ln ''exiting ...'') []) (
    stop (Exit (if signo = -1 then 1 else 0)))))))))"

definition clean_exit :: "attach_system \<Rightarrow> int \<Rightarrow> unit am" where
  "clean_exit K status = attach_cleanup K status"

definition print_usage :: "unit am" where
  "print_usage = seqs (
     [tell (ln ''Usage: irattach <dev> [-d dongle] [-s] [-b] [-v] [-h]'') [],
      tell (ln ''       <dev> is tty name, device name or module name'') [],
      tell (ln ''Dongles supported :'') []] @
     map (\<lambda>(_, name). tell (ln (CHR 0x09 # ''%s'')) [Sl name]) dongle_list @
     [tell (ln []) []])"

section \<open>Modules\<close>

definition load_module :: "attach_system \<Rightarrow> byte list \<Rightarrow> int am" where
  "load_module K name =
    execute_texts K (bytes_of ''Trying to load module '' @ name) (bytes_of ''/sbin/modprobe '' @ name)"

text \<open>
  The name of an infrared interface at the start of a line of \<open>/proc/net/dev\<close>, when it fits in
  \<open>nsize\<close> bytes.
\<close>

definition get_irdevname :: "nat \<Rightarrow> byte list \<Rightarrow> byte list option" where
  "get_irdevname nsize line =
    (let buf = dropWhile is_space line; name = takeWhile (\<lambda>b. b \<noteq> of_char CHR '':'') buf in
     if take 4 buf \<noteq> bytes_of ''irda'' then None
     else if length name = length buf \<or> length name + 1 > nsize then None
     else Some name)"

text \<open>
  The device lines; \<open>room\<close> is how many names the array has room for, which is what the callers pass
  as \<open>maxnames\<close> too. The next name goes to \<open>ifnames[ifnum]\<close> before \<open>ifnum\<close> is compared.
\<close>

fun dev_lines :: "nat \<Rightarrow> nat \<Rightarrow> byte list list \<Rightarrow> byte list list \<Rightarrow> (int \<times> byte list list) am" where
  "dev_lines maxchars room names [] = ret (int (length names), names)"
| "dev_lines maxchars room names (l # ls) =
    (case get_irdevname maxchars (cstring (take 1023 l)) of
       None \<Rightarrow> if length names > room then ret (-1, names) else dev_lines maxchars room names ls
     | Some name \<Rightarrow>
         thn (check Oob_write (length names < room)) (
         if length names + 1 > room then ret (-1, names)
         else dev_lines maxchars room (names @ [name]) ls))"

definition get_devlist :: "attach_system \<Rightarrow> nat \<Rightarrow> nat \<Rightarrow> (int \<times> byte list list) am" where
  "get_devlist K maxchars room =
    bnd (lines_of K ''fopen'' [] [bytes_of ''/proc/net/dev'', bytes_of ''r'']) (\<lambda>f. case f of
      None \<Rightarrow> ret (-1, [])
    | Some ls \<Rightarrow>
        bnd (dev_lines maxchars room [] (drop 2 ls)) (\<lambda>r.
        thn (doing (Do ''fclose'' [] [])) (ret r)))"

text \<open>\<open>strcpy(device, name)\<close>\<close>

definition set_device :: "byte list \<Rightarrow> unit am" where
  "set_device name = thn (check Oob_write (length name < 20))
     (modify (\<lambda>s. s\<lparr>device := name @ 0 # drop (length name + 1) (device s)\<rparr>))"

text \<open>
  The loop over the interfaces there are after the module was loaded: the first new one is managed
  by this process, every further one by a child. \<open>found\<close>: one was found.
\<close>

fun new_devices :: "attach_system \<Rightarrow> byte list list \<Rightarrow> bool \<Rightarrow> byte list list \<Rightarrow> int am" where
  "new_devices K before found [] = ret 0"
| "new_devices K before found (name # names) =
    (if name \<in> set before then new_devices K before found names
     else if found then
       thn (tell (ln ''Found additional interface [%s]'') [AS name]) (
       bnd (number_of K ''fork'' [] []) (\<lambda>pid.
       if pid = 0 then thn (set_device name) (ret 0)
       else new_devices K before found names))
     else
       thn (set_device name) (
       thn (tell (ln ''Found interface [%s]'') [AS name])
       (new_devices K before True names)))"

definition get_module_devices :: "attach_system \<Rightarrow> byte list \<Rightarrow> int am" where
  "get_module_devices K modname =
    bnd (get_devlist K 17 10) (\<lambda>(before_num, before).
    if before_num < 0 then thn (tell (ln ''Could not get device name list.'') []) (stop (Exit (-1))) else
    bnd (load_module K modname) (\<lambda>r.
    if r \<noteq> 0 then
      bnd device_name (\<lambda>dev.
      thn (tell (ln ''Invalid module name [%s] !'') [AS dev]) (
      thn print_usage (stop (Exit (-1))))) else
    bnd (get_devlist K 17 15) (\<lambda>(after_num, after).
    if after_num \<le> 0 then thn (tell (ln ''Could not get device name list.'') []) (stop (Exit (-1)))
    else new_devices K before False after)))"

section \<open>The serial line\<close>

text \<open>
  \<open>establish_irda\<close>, \<open>init_irda_ldisc\<close> and \<open>start_tty\<close> are lists of steps: a signal can arrive
  between any two of them. The settings that are read go to \<open>termsave\<close> in the step after; between the two
  they are in a local variable, here the argument of the steps.
\<close>

definition establish_irda_steps :: "attach_system \<Rightarrow> int \<Rightarrow> unit am list" where
  "establish_irda_steps K ttyfd = [
     bnd (succeeds K ''TIOCEXCL'' [ttyfd] []) (\<lambda>ok. doif (\<not> ok) (syslog ''ioctl(TIOCEXCL): %m'' [])),
     bnd (gets tty_disc) (\<lambda>disc.
       bnd (attempt K ''TIOCGETD'' [ttyfd] [] (\<lambda>s. s\<lparr>initdisc := disc\<rparr>)) (\<lambda>ok.
       doif (\<not> ok) (thn (syslog ''ioctl(TIOCGETD): %m'' []) (clean_exit K (-1))))),
     bnd (attempt K ''TIOCSETD'' [ttyfd, N_IRDA] [] (\<lambda>s. s\<lparr>tty_disc := N_IRDA\<rparr>)) (\<lambda>ok.
       doif (\<not> ok) (
         thn (tell (ln (''Maybe you don'' @ [CHR 0x27] @ ''t have IrDA support in your kernel?'')) []) (
         thn (syslog (ln ''irattach: tty: set_disc(%d): %s'') [Ii N_IRDA]) (clean_exit K (-1)))))]"

definition tty_configure :: "termios \<Rightarrow> termios" where
  "tty_configure tios = tios\<lparr>c_cflag := 0x30 OR 0x80 OR 0x0d OR 0x800, c_iflag := 1 OR 4, c_oflag := 0,
     c_lflag := 0, c_vmin := 1, c_vtime := 0\<rparr>"

definition init_irda_ldisc_steps :: "attach_system \<Rightarrow> int \<Rightarrow> unit am list" where
  "init_irda_ldisc_steps K ttyfd = [
     bnd (gets tty_term) (\<lambda>tios.
       bnd (succeeds K ''tcgetattr'' [ttyfd] []) (\<lambda>ok.
       if \<not> ok then thn (syslog ''tcgetattr: %m'' []) (clean_exit K (-1))
       else modify (\<lambda>s. s\<lparr>termsave := tios\<rparr>))),
     modify (\<lambda>s. s\<lparr>termvalid := 0\<rparr>),
     bnd (gets termsave) (\<lambda>tios.
       bnd (attempt K ''TCSAFLUSH'' [ttyfd] [] (\<lambda>s. s\<lparr>tty_term := tty_configure tios\<rparr>)) (\<lambda>ok.
       doif (\<not> ok) (thn (syslog ''tcsetattr: %m'' []) (clean_exit K (-1)))))]"

definition start_tty_steps :: "attach_system \<Rightarrow> int \<Rightarrow> unit am list" where
  "start_tty_steps K ttyfd = [
     modify (\<lambda>s. s\<lparr>fdflags := fdflags s AND NOT O_NONBLOCK\<rparr>),
     bnd (gets fdflags) (\<lambda>flags.
       bnd (attempt K ''F_SETFL'' [ttyfd, uint flags] [] (\<lambda>s. s\<lparr>tty_flags := flags\<rparr>)) (\<lambda>ok.
       doif (\<not> ok) (syslog (''Couldn'' @ [CHR 0x27] @ ''t set device fd flags: %m'') []))),
     bnd (succeeds K ''F_GETFD'' [ttyfd] []) (\<lambda>ok.
       doif (\<not> ok) (
         thn (syslog (''Couldn'' @ [CHR 0x27] @ ''t get device fd close-on-exec flag: %m'') [])
         (clean_exit K (-1)))),
     bnd (succeeds K ''F_SETFD'' [ttyfd] []) (\<lambda>ok.
       doif (\<not> ok) (
         thn (syslog (''Couldn'' @ [CHR 0x27] @ ''t set device fd close-on-exec flag: %m'') [])
         (clean_exit K (-1))))] @
     init_irda_ldisc_steps K ttyfd @ establish_irda_steps K ttyfd @ [
     doing (Do ''sleep'' [1] []),
     bnd (gets (\<lambda>s. fdflags s OR O_NONBLOCK)) (\<lambda>flags.
       bnd (attempt K ''F_SETFL'' [ttyfd, uint flags] [] (\<lambda>s. s\<lparr>tty_flags := flags\<rparr>)) (\<lambda>ok.
       doif (\<not> ok) (
         thn (syslog (''Couldn'' @ [CHR 0x27] @ ''t set device to non-blocking mode: %m'') [])
         (clean_exit K (-1)))))]"

definition start_tty :: "attach_system \<Rightarrow> int \<Rightarrow> unit am" where
  "start_tty K ttyfd = seqs (start_tty_steps K ttyfd)"

definition open_tty :: "attach_system \<Rightarrow> byte list \<Rightarrow> int am" where
  "open_tty K dev =
    bnd (number_of K ''open'' [] [dev]) (\<lambda>ttyfd.
    if ttyfd < 0 then thn (tell (ln ''Failed to open device %s: %s'') [AS dev]) (stop (Exit (-1))) else
    bnd (gets tty_flags) (\<lambda>flags.
    bnd (attempt K ''F_GETFL'' [ttyfd] [] (\<lambda>s. s\<lparr>fdflags := flags\<rparr>)) (\<lambda>ok.
    if \<not> ok then
      thn (tell (ln (''Couldn'' @ [CHR 0x27] @ ''t get device %s flags: %s'')) [AS dev]) (
      thn (doing (Do ''close'' [ttyfd] [])) (stop (Exit (-1))))
    else thn (modify (\<lambda>s. s\<lparr>initfdflags := fdflags s\<rparr>)) (ret ttyfd))))"

section \<open>Dongles\<close>

definition attach_dongle :: "attach_system \<Rightarrow> int \<Rightarrow> byte list \<Rightarrow> int \<Rightarrow> unit am" where
  "attach_dongle K ttyfd dev dongle =
    (if ttyfd \<noteq> -1 then doing (Do ''IRTTY_IOCTDONGLE'' [ttyfd, dongle] [])
     else
       bnd (succeeds K ''socket'' [] []) (\<lambda>ok.
       if \<not> ok then thn (tell ''socket'' []) (clean_exit K (-1)) else
       bnd (succeeds K ''SIOCSDONGLE'' [dongle] [if_name dev]) (\<lambda>ok.
       if \<not> ok then
         thn (tell ''ioctl'' []) (thn (doing (Do ''close'' [] [])) (clean_exit K (-1)))
       else doing (Do ''close'' [] []))))"

definition get_dongle :: "byte list \<Rightarrow> int" where
  "get_dongle dongle = (case find (\<lambda>(_, name). bytes_of name = dongle) dongle_list of
     None \<Rightarrow> -1 | Some (n, _) \<Rightarrow> n)"

section \<open>main\<close>

record attach_options =
  o_dongle :: int
  o_discovery :: int
  o_daemonize :: bool

text \<open>One result of \<open>getopt\<close>, with \<open>optarg\<close>; other characters are the question mark.\<close>

definition attach_option :: "attach_options \<Rightarrow> char \<times> byte list \<Rightarrow> attach_options am" where
  "attach_option opt p =
    (case p of (c, optarg) \<Rightarrow>
       if c = CHR ''s'' then ret (opt\<lparr>o_discovery := 1\<rparr>)
       else if c = CHR ''d'' then
         (let n = get_dongle optarg in
          if n = -1 then
            thn (tell (ln ''Sorry, dongle not supported yet!'') []) (thn print_usage (stop (Exit (-1))))
          else ret (opt\<lparr>o_dongle := n\<rparr>))
       else if c = CHR ''v'' then
         thn (tell (ln ''Version: %s'') [Sl ''0.9.17 (19.02.2006) Dag Brattli/Jean Tourrilhes'']) (stop (Exit 0))
       else if c = CHR ''h'' then thn print_usage (stop (Exit 0))
       else if c = CHR ''b'' then ret (opt\<lparr>o_daemonize := False\<rparr>)
       else thn print_usage (stop (Exit (-1))))"

fun attach_option_list :: "attach_options \<Rightarrow> (char \<times> byte list) list \<Rightarrow> attach_options am" where
  "attach_option_list opt [] = ret opt"
| "attach_option_list opt (p # ps) = bnd (attach_option opt p) (\<lambda>opt. attach_option_list opt ps)"

text \<open>
  \<open>strncpy(device, argv[1], 20); device[20] = '\0'\<close>. The second statement writes behind the array,
  into the byte \<open>behind_device\<close>.
\<close>

definition strncpy20 :: "byte list \<Rightarrow> byte list" where
  "strncpy20 t = take 20 (cstring t @ replicate 20 0)"

definition save_device :: "byte list \<Rightarrow> unit am" where
  "save_device arg = thn (modify (\<lambda>s. s\<lparr>device := strncpy20 arg\<rparr>)) (modify (\<lambda>s. s\<lparr>behind_device := 0\<rparr>))"

text \<open>A serial line, the name of an interface, or the name of a module. The result is whether it is a line.\<close>

definition find_port :: "attach_system \<Rightarrow> bool am" where
  "find_port K =
    bnd device_name (\<lambda>dev.
    if take 4 dev = bytes_of ''/dev'' then
      bnd (open_tty K dev) (\<lambda>fd. thn (modify (\<lambda>s. s\<lparr>devfd := fd\<rparr>)) (ret True))
    else if take 4 dev = bytes_of ''irda'' \<and> drop 4 dev \<noteq> [] \<and> is_digit (dev ! 4) then
      bnd (load_module K dev) (\<lambda>_. ret False)
    else bnd (get_module_devices K dev) (\<lambda>_. ret False))"

text \<open>\<open>info.name\<close> has 6 bytes; \<open>strncpy\<close> reads on behind them when there is no zero in them.\<close>

definition tty_device :: "attach_system \<Rightarrow> int \<Rightarrow> unit am" where
  "tty_device K fd =
    bnd (lines_of K ''IRTTY_IOCGNAME'' [fd] []) (\<lambda>r. case r of
      None \<Rightarrow> thn (syslog ''Are you using an old kernel?'' []) (clean_exit K (-1))
    | Some ls \<Rightarrow>
        let name = take 6 (concat ls @ replicate 6 0) in
        thn (check Oob_read (0 \<in> set name)) (modify (\<lambda>s. s\<lparr>device := strncpy20 name\<rparr>)))"

definition trap :: "attach_system \<Rightarrow> int \<Rightarrow> string \<Rightarrow> unit am" where
  "trap K signo msg = bnd (succeeds K ''signal'' [signo] []) (\<lambda>ok. doif (\<not> ok) (syslog msg []))"

text \<open>The first part of the name of the host, for the discovery.\<close>

definition set_devname :: "attach_system \<Rightarrow> unit am" where
  "set_devname K =
    bnd (lines_of K ''uname'' [] []) (\<lambda>r. case r of
      None \<Rightarrow> ret ()
    | Some ls \<Rightarrow>
        let dot = of_char CHR ''.''; name = takeWhile (\<lambda>b. b \<noteq> dot) (dropWhile (\<lambda>b. b = dot) (cstring (concat ls @ [0]))) in
        thn (check Null_deref (name \<noteq> [])) (
        bnd (set_sysctl_param K ''devname'' name) (\<lambda>_. ret ())))"

text \<open>Up to the loop that waits for signals.\<close>

definition start_interface :: "attach_system \<Rightarrow> attach_options \<Rightarrow> unit am" where
  "start_interface K opt =
    bnd (gets devfd) (\<lambda>fd.
    bnd device_name (\<lambda>dev.
    thn (doif (o_dongle opt \<noteq> -1) (attach_dongle K fd dev (o_dongle opt))) (
    thn (set_devname K) (
    thn (doif (0 < o_discovery opt) (bnd (set_sysctl_param K ''discovery'' (bytes_of ''1'')) (\<lambda>_. ret ()))) (
    bnd (ifup K dev) (\<lambda>r.
    doif (r < 0) (clean_exit K (-1))))))))"

definition attach_main :: "attach_system \<Rightarrow> nat \<Rightarrow> byte list \<Rightarrow> (char \<times> byte list) list \<Rightarrow> unit am" where
  "attach_main K argc arg1 options =
    (if argc < 2 \<or> argc > 5 then thn print_usage (stop (Exit (-1))) else
     thn (save_device arg1) (
     bnd (attach_option_list \<lparr>o_dongle = -1, o_discovery = -1, o_daemonize = True\<rparr> options) (\<lambda>opt.
     bnd (find_port K) (\<lambda>tty.
     bnd (gets devfd) (\<lambda>fd.
     thn (doif (o_daemonize opt) (fork_now K fd)) (
     thn (trap K SIGHUP ''signal(SIGHUP): %m'') (
     thn (trap K SIGTERM ''signal(SIGTERM): %m'') (
     thn (trap K SIGINT ''signal(SIGINT): %m'') (
     thn (doif tty (thn (start_tty K fd) (tty_device K fd)))
     (start_interface K opt))))))))))"

section \<open>The serial line is left as it was found\<close>

text \<open>
  \<open>F\<close>, \<open>D\<close> and \<open>T\<close> are flags, line discipline and settings of the serial line before the program
  changes them. \<open>phase i\<close>: what holds before the \<open>i\<close>-th step of \<open>start_tty\<close>.
\<close>

definition as_found :: "u32 \<Rightarrow> int \<Rightarrow> termios \<Rightarrow> attach \<Rightarrow> bool" where
  "as_found F D T s \<longleftrightarrow> tty_flags s = F \<and> tty_disc s = D \<and> tty_term s = T"

definition phase :: "u32 \<Rightarrow> int \<Rightarrow> termios \<Rightarrow> nat \<Rightarrow> attach \<Rightarrow> bool" where
  "phase F D T i s \<longleftrightarrow> devfd s \<noteq> -1 \<and> initfdflags s = F \<and>
     (i \<le> 8 \<longrightarrow> initdisc s = -1 \<and> tty_disc s = D) \<and> (9 \<le> i \<longrightarrow> initdisc s = D) \<and>
     (i \<le> 5 \<longrightarrow> termvalid s = -1 \<and> tty_term s = T) \<and> (5 \<le> i \<longrightarrow> termsave s = T) \<and>
     (6 \<le> i \<longrightarrow> termvalid s = 0)"

definition settled :: "u32 \<Rightarrow> int \<Rightarrow> termios \<Rightarrow> attach \<Rightarrow> bool" where
  "settled F D T s \<longleftrightarrow> (devfd s = -1 \<and> as_found F D T s) \<or> (\<exists>i. phase F D T i s)"

text \<open>The calls that put the line back succeed; all others may fail.\<close>

definition restoring :: "attach_system \<Rightarrow> u32 \<Rightarrow> int \<Rightarrow> bool" where
  "restoring K F D \<longleftrightarrow> (\<forall>h fd.
     a_ok K (h @ [Do ''F_SETFL'' [fd, uint F] []]) \<and> a_ok K (h @ [Do ''TIOCSETD'' [fd, D] []]) \<and>
     a_ok K (h @ [Do ''TCSANOW'' [fd] []]))"

abbreviation ends_as_found :: "u32 \<Rightarrow> int \<Rightarrow> termios \<Rightarrow> fault \<Rightarrow> attach \<Rightarrow> bool" where
  "ends_as_found F D T e t \<equiv> (\<exists>c. e = Exit c) \<longrightarrow> as_found F D T t"

text \<open>Everything the program knows of the line, and the line itself.\<close>

definition line :: "attach \<Rightarrow> (int \<times> u32 \<times> u32 \<times> int) \<times> (termios \<times> int \<times> u32 \<times> int \<times> termios)" where
  "line s = ((devfd s, fdflags s, initfdflags s, initdisc s),
     (termsave s, termvalid s, tty_flags s, tty_disc s, tty_term s))"

lemma line_simps [simp]:
  "line (s\<lparr>aacts := x\<rparr>) = line s" "line (s\<lparr>if_flags := f\<rparr>) = line s"
  "line (s\<lparr>device := d\<rparr>) = line s" "line (s\<lparr>behind_device := b\<rparr>) = line s"
  by (simp_all add: line_def)

lemma settled_line: "line s = line t \<Longrightarrow> settled F D T s = settled F D T t"
  by (simp add: settled_def phase_def as_found_def line_def)

lemma as_found_line: "line s = line t \<Longrightarrow> as_found F D T s = as_found F D T t"
  by (simp add: as_found_def line_def)

lemma phase_line: "line s = line t \<Longrightarrow> phase F D T i s = phase F D T i t"
  by (simp add: phase_def line_def)

abbreviation same_line :: "attach \<Rightarrow> attach \<Rightarrow> bool" where
  "same_line s t \<equiv> line t = line s"

text \<open>What does not touch the line.\<close>

abbreviation no_exit :: "fault \<Rightarrow> attach \<Rightarrow> bool" where
  "no_exit e t \<equiv> \<forall>c. e \<noteq> Exit c"

lemma calm_doing [keeps_rules]:
  "keeps (same_line s) E (doing a)" "keeps (same_line s) E (syslog f x)" "keeps (same_line s) E (tell f x)"
  "keeps (same_line s) E (succeeds K n i b)" "keeps (same_line s) E (number_of K n i b)"
  "keeps (same_line s) E (lines_of K n i b)" "keeps (same_line s) E device_name"
  by (simp_all add: keeps_def doing_def syslog_def tell_def succeeds_def number_of_def lines_of_def
      device_name_def wp_simps)

lemma calm_check [keeps_rules]: "f \<in> {Oob_read, Oob_write, Null_deref} \<Longrightarrow> keeps (same_line s) no_exit (check f b)"
  by (auto simp: keeps_def wp_simps)

lemma calm_fault: "f \<in> {Oob_read, Oob_write, Null_deref} \<Longrightarrow> keeps (same_line s) no_exit (stop f)"
  by (auto simp: keeps_def wp_simps)

lemma calm_usage [keeps_rules]: "keeps (same_line s) E print_usage"
  unfolding print_usage_def by (rule keeps_seqs) (auto intro!: keeps_rules)

lemma calm_modify_flags [keeps_rules]: "keeps (same_line s) E (modify_flags K dev on off)"
  by (auto simp: keeps_def modify_flags_def attempt_def succeeds_def doing_def syslog_def wp_simps)

lemma calm_log_lines: "keeps (same_line s) no_exit (log_lines ls)"
  by (induction ls) (auto simp: Let_def intro!: keeps_rules)

lemma calm_execute [keeps_rules]:
  "keeps (same_line s) no_exit (execute K msg cmd)" "keeps (same_line s) no_exit (execute_texts K msg cmd)"
  "keeps (same_line s) no_exit (set_sysctl_param K name val)" "keeps (same_line s) no_exit (load_module K m)"
proof -
  show ex: "keeps (same_line s) no_exit (execute K msg cmd)" for msg cmd
    unfolding execute_def Let_def by (auto split: option.split intro!: keeps_rules calm_log_lines calm_fault)
  show texts: "keeps (same_line s) no_exit (execute_texts K msg cmd)" for msg cmd
    unfolding execute_texts_def by (auto intro!: keeps_rules ex)
  show "keeps (same_line s) no_exit (set_sysctl_param K name val)" "keeps (same_line s) no_exit (load_module K m)"
    unfolding set_sysctl_param_def load_module_def by (rule texts)+
qed

section \<open>Cleaning up restores the line\<close>

text \<open>What the restoring statements have achieved after each of them.\<close>

definition restored :: "u32 \<Rightarrow> int \<Rightarrow> termios \<Rightarrow> bool \<times> bool \<times> bool \<Rightarrow> attach \<Rightarrow> bool" where
  "restored F D T done s \<longleftrightarrow> initfdflags s = F \<and>
     (case done of (disc, term, flags) \<Rightarrow>
       (if disc then tty_disc s = D else initdisc s = -1 \<and> tty_disc s = D \<or> initdisc s = D) \<and>
       (if term then tty_term s = T else termvalid s = -1 \<and> tty_term s = T \<or> termvalid s = 0 \<and> termsave s = T) \<and>
       (flags \<longrightarrow> tty_flags s = F))"

lemma restored_act [simp]: "restored F D T d (s\<lparr>aacts := x\<rparr>) = restored F D T d s"
  by (simp add: restored_def split: prod.split)

lemma phase_restored: "phase F D T i s \<Longrightarrow> restored F D T (False, False, False) s"
  by (auto simp: phase_def restored_def)

lemma wp_attempt:
  "wp (attempt K n i b f) Q E s = (let t = s\<lparr>aacts := aacts s @ [Do n i b]\<rparr> in
     if a_ok K (aacts t) then Q True (f t) else Q False t)"
  by (simp add: attempt_def succeeds_def doing_def wp_simps Let_def)

lemma restored_all: "restored F D T (True, True, True) s \<Longrightarrow> as_found F D T s"
  by (simp add: restored_def as_found_def)

lemma restored_step:
  assumes "wp m (\<lambda>_. restored F D T d) never s"
    and "\<And>t. restored F D T d t \<Longrightarrow> wp (seqs ms) Q never t"
  shows "wp (seqs (m # ms)) Q never s"
  unfolding wp_seqs_Cons by (rule wp_weaken [OF assms(1)]) (rule assms(2))

lemma settled_restored:
  assumes "settled F D T s" and K: "restoring K F D" and "devfd s \<noteq> -1" and "D \<noteq> -1"
  shows "wp (restore_tty K) (\<lambda>_. as_found F D T) never s"
proof -
  have start: "restored F D T (False, False, False) s"
    using assms by (auto simp: settled_def intro: phase_restored)
  note run = wp_simps wp_attempt syslog_def tell_def doing_def Let_def
  show ?thesis
    unfolding restore_tty_def
    apply (rule restored_step [of _ F D T "(False, False, False)"])
     apply (use start in \<open>simp add: run restored_def\<close>)
    apply (rule restored_step [of _ F D T "(False, False, False)"])
     apply (simp add: run, simp add: restored_def)
    apply (rule restored_step [of _ F D T "(True, False, False)"])
     apply (use K assms(4) in \<open>auto simp: run restoring_def restored_def\<close>)[1]
    apply (rule restored_step [of _ F D T "(True, True, False)"])
     apply (use K in \<open>auto simp: run restoring_def restored_def\<close>)[1]
    apply (rule restored_step [of _ F D T "(True, True, True)"])
     apply (use K in \<open>auto simp: run restoring_def restored_def\<close>)[1]
    apply (simp add: run restored_def as_found_def)
    done
qed

lemma settled_closed: "settled F D T s \<Longrightarrow> devfd s = -1 \<Longrightarrow> as_found F D T s"
  by (auto simp: settled_def phase_def)

lemma cleanup_restores:
  assumes "settled F D T s" and "restoring K F D" and "D \<noteq> -1"
  shows "wp (attach_cleanup K signo) (\<lambda>_ _. False)
    (\<lambda>e t. e = Exit (if signo = -1 then 1 else 0) \<and> as_found F D T t) s"
proof -
  have end_part: "wp (thn (doing (Do ''unlink'' [] [pidfile])) (thn (syslog (ln ''exiting ...'') [])
      (stop (Exit c)))) (\<lambda>_ _. False) (\<lambda>e t. e = Exit c \<and> as_found F D T t) t"
    if "as_found F D T t" for c and t :: attach
    using that by (simp add: wp_simps doing_def syslog_def as_found_def)
  have line_part: "wp (doif (fd \<noteq> -1) (restore_tty K)) (\<lambda>_. as_found F D T) E t"
    if "same_line s t" "fd = devfd t" for fd E t
  proof (cases "fd = -1")
    case True
    then show ?thesis
      using that assms(1) by (simp add: wp_simps settled_closed settled_line [OF that(1)])
  next
    case False
    then have "wp (restore_tty K) (\<lambda>_. as_found F D T) never t"
      using that assms by (intro settled_restored) (simp_all add: settled_line [OF that(1)])
    then show ?thesis
      using False by (auto simp: wp_simps intro: wp_mono)
  qed
  have down: "keeps (same_line s) E (ifdown K dev)" for E dev
    unfolding ifdown_def by (auto intro!: keeps_rules)
  have first: "keeps (same_line s) E (if signo = SIGTERM \<or> signo = SIGINT then syslog (ln ''got SIGTERM or SIGINT'') []
         else if signo = SIGHUP then syslog (ln ''got SIGHUP'') [] else ret ())" for E
    by (auto intro!: keeps_rules)
  show ?thesis
    unfolding attach_cleanup_def wp_thn [of "if _ then _ else _"] wp_bnd
    apply (rule wp_weaken [OF keepsD [OF first]], simp)
    apply (rule wp_weaken [OF keepsD [OF calm_doing(7)]], simp)
    apply (rule wp_weaken [OF keepsD [OF down]], simp)
    apply (simp only: wp_gets wp_thn [of "doif _ _"])
    apply (rule wp_weaken [OF line_part], simp, simp)
    apply (rule end_part, simp)
    done
qed

section \<open>Starting the serial line\<close>

abbreviation exits_as_found :: "u32 \<Rightarrow> int \<Rightarrow> termios \<Rightarrow> fault \<Rightarrow> attach \<Rightarrow> bool" where
  "exits_as_found F D T e t \<equiv> (\<exists>c. e = Exit c) \<and> as_found F D T t"

lemma phase_simps [simp]:
  "phase F D T i (s\<lparr>aacts := x\<rparr>) = phase F D T i s" "phase F D T i (s\<lparr>fdflags := f\<rparr>) = phase F D T i s"
  "phase F D T i (s\<lparr>tty_flags := f\<rparr>) = phase F D T i s"
  by (simp_all add: phase_def)

lemma cleanup_exits:
  assumes "phase F D T i s" and "restoring K F D" and "D \<noteq> -1"
  shows "wp (attach_cleanup K signo) Q (exits_as_found F D T) s"
  using assms by (intro wp_mono [OF cleanup_restores [where F = F and D = D and T = T]])
    (auto simp: settled_def)

lemma wp_say: "wp (syslog f x) Q E s = Q () (s\<lparr>aacts := aacts s @ [Log f x]\<rparr>)"
  "wp (tell f x) Q E s = Q () (s\<lparr>aacts := aacts s @ [Tell f x]\<rparr>)"
  "wp (doing a) Q E s = Q () (s\<lparr>aacts := aacts s @ [a]\<rparr>)"
  by (simp_all add: syslog_def tell_def doing_def wp_simps)

lemma wp_succeeds:
  "wp (succeeds K n i b) Q E s = (let t = s\<lparr>aacts := aacts s @ [Do n i b]\<rparr> in Q (a_ok K (aacts t)) t)"
  by (simp add: succeeds_def wp_simps wp_say)

lemmas line_runs = wp_simps wp_say wp_succeeds wp_attempt Let_def clean_exit_def

lemma start_step:
  assumes "phase F D T i s" and "i < 12" and K: "restoring K F D" and "D \<noteq> -1"
  shows "wp (start_tty_steps K fd ! i) (\<lambda>_. phase F D T (i + 1)) (exits_as_found F D T) s"
proof -
  have out: "wp (attach_cleanup K signo) Q (exits_as_found F D T) t" if "phase F D T i t" for signo Q t
    using that assms by (intro cleanup_exits)
  have cases: "i \<in> {0, 1, 2, 3, 4, 5, 6, 7, 8, 9, 10, 11}"
    using assms(2) by (simp only: insert_iff empty_iff) presburger
  show ?thesis
    using cases assms(1) out
    unfolding start_tty_steps_def init_irda_ldisc_steps_def establish_irda_steps_def
    by (auto simp: line_runs) (auto simp: phase_def)
qed

text \<open>A block whose \<open>i\<close>-th statement leads from \<open>P i\<close> to \<open>P (i + 1)\<close>.\<close>

lemma wp_seqs_nth:
  assumes "\<And>i t. i < length ms \<Longrightarrow> P i t \<Longrightarrow> wp (ms ! i) (\<lambda>_. P (Suc i)) E t" and "P 0 s"
  shows "wp (seqs ms) (\<lambda>_. P (length ms)) E s"
  using assms
proof (induction ms arbitrary: P s)
  case Nil
  then show ?case by (simp add: wp_seqs_Nil)
next
  case (Cons m ms)
  have "wp m (\<lambda>_. P (Suc 0)) E s"
    using Cons.prems(1) [of 0 s] Cons.prems(2) by simp
  moreover have "wp (seqs ms) (\<lambda>_. P (Suc (length ms))) E t" if "P (Suc 0) t" for t
    using Cons.prems(1) [of "Suc _"] that by (intro Cons.IH [where P = "\<lambda>i. P (Suc i)"]) auto
  ultimately show ?case
    unfolding wp_seqs_Cons by (auto intro: wp_weaken)
qed

lemma length_start_tty [simp]: "length (start_tty_steps K fd) = 12"
  by (simp add: start_tty_steps_def init_irda_ldisc_steps_def establish_irda_steps_def)

lemma start_steps:
  assumes "phase F D T 0 s" and "restoring K F D" and "D \<noteq> -1"
  shows "wp (seqs (take k (start_tty_steps K fd))) (\<lambda>_. phase F D T (min 12 k)) (exits_as_found F D T) s"
proof -
  have "wp (seqs (take k (start_tty_steps K fd))) (\<lambda>_. phase F D T (length (take k (start_tty_steps K fd))))
      (exits_as_found F D T) s"
    by (rule wp_seqs_nth [where P = "phase F D T"])
      (use assms(1) in \<open>auto intro: start_step [OF _ _ assms(2,3), simplified]\<close>)
  then show ?thesis by simp
qed

text \<open>
  C30. Whenever a signal arrives while \<open>irattach\<close> starts the serial line, that is after any number of
  its steps, and whichever calls of the system fail, the program exits with the flags, the line discipline and
  the settings of the line as they were found, if only the calls that set these values succeed.
\<close>

theorem line_restored_after_signal:
  assumes "devfd s \<noteq> -1" and "initfdflags s = F" and "initdisc s = -1" and "termvalid s = -1"
    and "tty_disc s = D" and "tty_term s = T" and "restoring K F D" and "D \<noteq> -1"
  shows "wp (thn (seqs (take k (start_tty_steps K fd))) (attach_cleanup K signo)) (\<lambda>_ _. False)
    (\<lambda>e t. (\<exists>c. e = Exit c) \<and> tty_flags t = F \<and> tty_disc t = D \<and> tty_term t = T) s"
proof -
  have "phase F D T 0 s"
    using assms by (simp add: phase_def)
  from start_steps [OF this assms(7,8), of k fd]
  have "wp (thn (seqs (take k (start_tty_steps K fd))) (attach_cleanup K signo)) (\<lambda>_ _. False)
      (exits_as_found F D T) s"
    unfolding wp_thn by (rule wp_weaken) (rule cleanup_exits [OF _ assms(7,8)])
  then show ?thesis
    by (rule wp_mono) (auto simp: as_found_def)
qed

section \<open>The whole program\<close>

text \<open>\<open>untouched\<close>: the line was not changed yet, and what is known of it is right.\<close>

definition untouched :: "u32 \<Rightarrow> int \<Rightarrow> termios \<Rightarrow> attach \<Rightarrow> bool" where
  "untouched F D T s \<longleftrightarrow> as_found F D T s \<and> (devfd s \<noteq> -1 \<longrightarrow> initfdflags s = F) \<and>
     initdisc s = -1 \<and> termvalid s = -1"

lemma untouched_line: "line s = line t \<Longrightarrow> untouched F D T s = untouched F D T t"
  by (simp add: untouched_def as_found_def line_def)

lemma untouched_found: "untouched F D T s \<Longrightarrow> as_found F D T s"
  by (simp add: untouched_def)

lemma untouched_phase: "untouched F D T s \<Longrightarrow> devfd s \<noteq> -1 \<Longrightarrow> phase F D T 0 s"
  by (simp add: untouched_def phase_def as_found_def)

lemma untouched_settled: "untouched F D T s \<Longrightarrow> settled F D T s"
  by (cases "devfd s = -1") (auto simp: settled_def untouched_found intro: untouched_phase)

lemma calm_keeps:
  assumes "\<And>s. keeps (same_line s) no_exit m" and "\<And>s t. line s = line t \<Longrightarrow> I s = I t"
  shows "keeps I (ends_as_found F D T) m"
proof (rule keepsI)
  fix s assume "I s"
  have "wp m (\<lambda>_. same_line s) no_exit s"
    using keepsD [OF assms(1)] by simp
  then show "wp m (\<lambda>_. I) (ends_as_found F D T) s"
    by (rule wp_mono) (use \<open>I s\<close> assms(2) in blast)+
qed

lemma calm_untouched:
  "(\<And>s. keeps (same_line s) no_exit m) \<Longrightarrow> keeps (untouched F D T) (ends_as_found F D T) m"
  by (rule calm_keeps [OF _ untouched_line])

lemma calm_settled:
  "(\<And>s. keeps (same_line s) no_exit m) \<Longrightarrow> keeps (settled F D T) (ends_as_found F D T) m"
  by (rule calm_keeps [OF _ settled_line])

text \<open>Before the line is changed, the program may exit anywhere.\<close>

lemma untouched_stop [keeps_rules]: "keeps (untouched F D T) (ends_as_found F D T) (stop e)"
  by (simp add: keeps_def wp_simps untouched_found)

lemma calm_set_device [keeps_rules]: "keeps (same_line s) no_exit (set_device name)"
  by (auto simp: set_device_def keeps_def wp_simps)

lemma calm_dev_lines: "keeps (same_line s) no_exit (dev_lines m r names ls)"
  by (induction ls arbitrary: names) (auto split: option.split intro!: keeps_rules)

lemma calm_get_devlist [keeps_rules]: "keeps (same_line s) no_exit (get_devlist K m r)"
  unfolding get_devlist_def by (auto split: option.split intro!: keeps_rules calm_dev_lines)

lemma calm_new_devices [keeps_rules]: "keeps (same_line s) no_exit (new_devices K before found names)"
  by (induction names arbitrary: found) (auto intro!: keeps_rules)

lemma untouched_basic [keeps_rules]:
  "keeps (untouched F D T) (ends_as_found F D T) (tell f x)"
  "keeps (untouched F D T) (ends_as_found F D T) (syslog f x)"
  "keeps (untouched F D T) (ends_as_found F D T) device_name"
  "keeps (untouched F D T) (ends_as_found F D T) print_usage"
  "keeps (untouched F D T) (ends_as_found F D T) (succeeds K n i b)"
  "keeps (untouched F D T) (ends_as_found F D T) (number_of K n i b)"
  "keeps (untouched F D T) (ends_as_found F D T) (doing a)"
  "keeps (untouched F D T) (ends_as_found F D T) (get_devlist K m r)"
  "keeps (untouched F D T) (ends_as_found F D T) (load_module K name)"
  "keeps (untouched F D T) (ends_as_found F D T) (new_devices K before found names)"
  by (rule calm_untouched, rule keeps_rules)+

lemma untouched_module [keeps_rules]:
  "keeps (untouched F D T) (ends_as_found F D T) (get_module_devices K name)"
  unfolding get_module_devices_def by (auto split: prod.split intro!: keeps_rules)

lemma untouched_option_list [keeps_rules]:
  "keeps (untouched F D T) (ends_as_found F D T) (attach_option_list opt ps)"
proof (induction ps arbitrary: opt)
  case (Cons p ps)
  have "keeps (untouched F D T) (ends_as_found F D T) (attach_option opt p)"
    unfolding attach_option_def Let_def by (cases p) (auto intro!: keeps_rules)
  with Cons.IH show ?case
    by (auto intro: keeps_rules)
qed (simp add: keeps_rules)

lemma untouched_fork [keeps_rules]:
  "keeps (untouched F D T) (ends_as_found F D T) (fork_now K fd)"
  unfolding fork_now_def write_pid_def by (auto intro!: keeps_rules)

lemma untouched_save [keeps_rules]:
  "keeps (untouched F D T) (ends_as_found F D T) (save_device arg)"
  by (auto simp: save_device_def keeps_def wp_simps untouched_def as_found_def)

lemma untouched_trap [keeps_rules]:
  "keeps (untouched F D T) (ends_as_found F D T) (trap K n msg)"
  unfolding trap_def by (auto intro!: keeps_rules)

lemma untouched_find_port:
  assumes "untouched F D T s"
  shows "wp (find_port K) (\<lambda>tty t. untouched F D T t \<and> (tty \<longrightarrow> devfd t \<noteq> -1)) (ends_as_found F D T) s"
proof -
  have plain: "wp m (\<lambda>_. untouched F D T) (ends_as_found F D T) s"
    if "keeps (untouched F D T) (ends_as_found F D T) m" for m
    using that assms by (rule keepsD)
  have tty: "wp (bnd (open_tty K dev) (\<lambda>fd. thn (modify (\<lambda>s. s\<lparr>devfd := fd\<rparr>)) (ret True)))
      (\<lambda>tty t. untouched F D T t \<and> (tty \<longrightarrow> devfd t \<noteq> -1)) (ends_as_found F D T) s" for dev
    using assms
    by (auto simp: open_tty_def number_of_def line_runs untouched_def as_found_def)
  have module: "wp (bnd (m :: int am) (\<lambda>_. ret False))
      (\<lambda>tty t. untouched F D T t \<and> (tty \<longrightarrow> devfd t \<noteq> -1)) (ends_as_found F D T) s"
    if "keeps (untouched F D T) (ends_as_found F D T) m" for m
    using plain [OF that] by (simp add: wp_simps)
  show ?thesis
    unfolding find_port_def
    by (subst wp_bnd) (auto simp: device_name_def wp_gets wp_if intro!: tty module keeps_rules)
qed

lemma settled_clean_exit:
  "restoring K F D \<Longrightarrow> D \<noteq> -1 \<Longrightarrow> keeps (settled F D T) (ends_as_found F D T) (clean_exit K c)"
  unfolding clean_exit_def
  by (rule keepsI, rule wp_mono [OF cleanup_restores]) auto

lemma settled_basic [keeps_rules]:
  "keeps (settled F D T) (ends_as_found F D T) (tell f x)"
  "keeps (settled F D T) (ends_as_found F D T) (syslog f x)"
  "keeps (settled F D T) (ends_as_found F D T) device_name"
  "keeps (settled F D T) (ends_as_found F D T) (succeeds K n i b)"
  "keeps (settled F D T) (ends_as_found F D T) (lines_of K n i b)"
  "keeps (settled F D T) (ends_as_found F D T) (doing a)"
  "keeps (settled F D T) (ends_as_found F D T) (modify_flags K dev on off)"
  "keeps (settled F D T) (ends_as_found F D T) (set_sysctl_param K name val)"
  "e \<in> {Oob_read, Oob_write, Null_deref} \<Longrightarrow> keeps (settled F D T) (ends_as_found F D T) (check e c)"
  by (rule calm_settled, (rule keeps_rules; assumption?))+

lemma settled_set_device [keeps_rules]:
  "keeps (settled F D T) (ends_as_found F D T) (modify (\<lambda>s. s\<lparr>device := f s\<rparr>))"
  by (simp add: keeps_def wp_simps settled_def phase_def as_found_def)

lemma settled_interface [keeps_rules]:
  assumes "restoring K F D" and "D \<noteq> -1"
  shows "keeps (settled F D T) (ends_as_found F D T) (start_interface K opt)"
    and "keeps (settled F D T) (ends_as_found F D T) (tty_device K fd)"
  unfolding start_interface_def tty_device_def attach_dongle_def set_devname_def ifup_def Let_def
  by (auto split: option.split intro!: keeps_rules settled_clean_exit assms)

lemma start_tty_settles:
  assumes "phase F D T 0 s" and "restoring K F D" and "D \<noteq> -1"
  shows "wp (start_tty K fd) (\<lambda>_. settled F D T) (ends_as_found F D T) s"
proof -
  have "wp (start_tty K fd) (\<lambda>_. phase F D T 12) (exits_as_found F D T) s"
    using start_steps [OF assms, of 12 fd] by (simp add: start_tty_def)
  then show ?thesis
    by (rule wp_mono) (auto simp: settled_def)
qed

text \<open>The same with the knowledge that a serial line is open.\<close>

definition opened :: "u32 \<Rightarrow> int \<Rightarrow> termios \<Rightarrow> bool \<Rightarrow> attach \<Rightarrow> bool" where
  "opened F D T tty s \<longleftrightarrow> untouched F D T s \<and> (tty \<longrightarrow> devfd s \<noteq> -1)"

lemma opened_line: "line s = line t \<Longrightarrow> opened F D T tty s = opened F D T tty t"
  by (simp add: opened_def untouched_def as_found_def line_def)

lemma opened_basic [keeps_rules]:
  "keeps (opened F D T tty) (ends_as_found F D T) (syslog f x)"
  "keeps (opened F D T tty) (ends_as_found F D T) (succeeds K n i b)"
  "keeps (opened F D T tty) (ends_as_found F D T) (number_of K n i b)"
  "keeps (opened F D T tty) (ends_as_found F D T) (doing a)"
  by (rule calm_keeps [OF _ opened_line], rule keeps_rules, assumption)+

lemma opened_stop [keeps_rules]: "keeps (opened F D T tty) (ends_as_found F D T) (stop e)"
  by (simp add: keeps_def wp_simps opened_def untouched_found)

lemma opened_daemon [keeps_rules]:
  "keeps (opened F D T tty) (ends_as_found F D T) (fork_now K fd)"
  "keeps (opened F D T tty) (ends_as_found F D T) (trap K n msg)"
  unfolding fork_now_def write_pid_def trap_def by (auto intro!: keeps_rules)

lemma line_settles:
  assumes "opened F D T tty t" and K: "restoring K F D" "D \<noteq> -1"
  shows "wp (thn (doif tty (thn (start_tty K fd) (tty_device K fd))) (start_interface K opt))
    (\<lambda>_. settled F D T) (ends_as_found F D T) t"
proof -
  have "wp (doif tty (thn (start_tty K fd) (tty_device K fd))) (\<lambda>_. settled F D T) (ends_as_found F D T) t"
    using assms(1) unfolding wp_doif wp_thn opened_def
    by (auto intro: untouched_settled wp_weaken [OF start_tty_settles [OF untouched_phase K]]
        keepsD [OF settled_interface(2) [OF K]])
  then show ?thesis
    unfolding wp_thn [of "doif _ _"] by (rule wp_weaken) (rule keepsD [OF settled_interface(1) [OF K]])
qed

lemma main_settles:
  assumes "untouched F D T s" and K: "restoring K F D" "D \<noteq> -1"
  shows "wp (attach_main K argc arg1 options) (\<lambda>_. settled F D T) (ends_as_found F D T) s"
proof -
  let ?E = "ends_as_found F D T"
  have daemon: "wp (thn (doif b (fork_now K fd)) (thn (trap K n1 m1) (thn (trap K n2 m2) (thn (trap K n3 m3)
      (thn (doif tty (thn (start_tty K fd) (tty_device K fd))) (start_interface K opt))))))
      (\<lambda>_. settled F D T) ?E t"
    if "opened F D T tty t" for b fd n1 m1 n2 m2 n3 m3 tty opt t
  proof -
    have "keeps (opened F D T tty) ?E (thn (doif b (fork_now K fd)) (thn (trap K n1 m1) (thn (trap K n2 m2) (trap K n3 m3))))"
      by (auto intro!: keeps_rules)
    from keepsD [OF this that] show ?thesis
      unfolding wp_thn [of "doif b _"] wp_thn [of "trap _ _ _"]
      by (rule wp_mono) (auto elim!: wp_mono intro: line_settles [OF _ K])
  qed
  show ?thesis
    unfolding attach_main_def wp_if
  proof (split if_split, intro conjI impI)
    have "keeps (untouched F D T) ?E (thn print_usage (stop (Exit (- 1))) :: unit am)"
      by (auto intro!: keeps_rules)
    from keepsD [OF this assms(1)]
    show "wp (thn print_usage (stop (Exit (- 1))) :: unit am) (\<lambda>_. settled F D T) ?E s"
      by (rule wp_weaken) (rule untouched_settled)
  next
    show "wp (thn (save_device arg1) (bnd (attach_option_list \<lparr>o_dongle = -1, o_discovery = -1, o_daemonize = True\<rparr> options) (\<lambda>opt.
      bnd (find_port K) (\<lambda>tty. bnd (gets devfd) (\<lambda>fd. thn (doif (o_daemonize opt) (fork_now K fd)) (
      thn (trap K SIGHUP ''signal(SIGHUP): %m'') (thn (trap K SIGTERM ''signal(SIGTERM): %m'') (
      thn (trap K SIGINT ''signal(SIGINT): %m'') (thn (doif tty (thn (start_tty K fd) (tty_device K fd)))
      (start_interface K opt))))))))) ) (\<lambda>_. settled F D T) ?E s"
      unfolding wp_thn [of "save_device _"] wp_bnd [of "attach_option_list _ _"] wp_bnd [of "find_port _"]
        wp_bnd [of "gets _"] wp_gets
      by (rule wp_weaken [OF keepsD [OF untouched_save assms(1)]],
          rule wp_weaken [OF keepsD [OF untouched_option_list]], assumption,
          rule wp_weaken [OF untouched_find_port], assumption, rule daemon, simp add: opened_def)
  qed
qed

text \<open>
  C31. However \<open>irattach\<close> ends once it runs on a serial line it has not changed yet -- because of an argument, a
  call that fails, a parent process that leaves, or a signal while it waits for signals -- it exits with flags,
  line discipline and settings of the line as they were, if only the calls that set them back succeed.
\<close>

theorem line_restored_at_exit:
  assumes "devfd s = -1" and "initdisc s = -1" and "termvalid s = -1"
    and "restoring K (tty_flags s) (tty_disc s)" and "tty_disc s \<noteq> -1"
  shows "wp (thn (attach_main K argc arg1 options) (attach_cleanup K signo)) (\<lambda>_ _. False)
    (\<lambda>e t. (\<exists>c. e = Exit c) \<longrightarrow> tty_flags t = tty_flags s \<and> tty_disc t = tty_disc s \<and> tty_term t = tty_term s) s"
proof -
  let ?F = "tty_flags s" and ?D = "tty_disc s" and ?T = "tty_term s"
  have "untouched ?F ?D ?T s"
    using assms by (simp add: untouched_def as_found_def)
  from main_settles [OF this assms(4,5)]
  have "wp (thn (attach_main K argc arg1 options) (attach_cleanup K signo)) (\<lambda>_ _. False)
      (ends_as_found ?F ?D ?T) s"
    unfolding wp_thn
    by (rule wp_weaken) (auto intro: wp_mono [OF cleanup_restores [OF _ assms(4,5)]])
  then show ?thesis
    by (rule wp_mono) (auto simp: as_found_def)
qed

text \<open>A system where every call succeeds but the one that asks for exclusive use of the line.\<close>

definition fair_system :: attach_system where
  "fair_system = \<lparr>a_ok = (\<lambda>h. last h \<noteq> Do ''TIOCEXCL'' [3] []),
     a_val = (\<lambda>h. if h \<noteq> [] \<and> last h = Do ''pclose'' [] [] then 0 else 3), a_lines = (\<lambda>_. Some [])\<rparr>"

definition plain_termios :: termios where
  "plain_termios = \<lparr>c_iflag = 0, c_oflag = 0, c_cflag = 0, c_lflag = 0, c_vmin = 0, c_vtime = 0, c_cc_rest = []\<rparr>"

definition attach_start :: attach where
  "attach_start = \<lparr>devfd = -1, fdflags = 0, initfdflags = 0, initdisc = -1, termsave = plain_termios,
     termvalid = -1, device = replicate 20 0, behind_device = 0, tty_flags = 2, tty_disc = 0,
     tty_term = plain_termios, if_flags = (\<lambda>_. 0), aacts = []\<rparr>"

lemma restoring_fair: "restoring fair_system F D"
  by (simp add: restoring_def fair_system_def)

lemma line_restored_after_signal_witness:
  "wp (thn (seqs (take 7 (start_tty_steps fair_system 3))) (attach_cleanup fair_system SIGTERM)) (\<lambda>_ _. False)
    (\<lambda>e t. (\<exists>c. e = Exit c) \<and> tty_flags t = 2 \<and> tty_disc t = 0 \<and> tty_term t = plain_termios)
    (attach_start\<lparr>devfd := 3, initfdflags := 2\<rparr>)"
  by (rule line_restored_after_signal [OF _ _ _ _ _ _ restoring_fair]) (simp_all add: attach_start_def)

lemma line_restored_at_exit_witness:
  "wp (thn (attach_main fair_system 2 (bytes_of ''/dev/ttyS1'') []) (attach_cleanup fair_system SIGHUP))
    (\<lambda>_ _. False)
    (\<lambda>e t. (\<exists>c. e = Exit c) \<longrightarrow> tty_flags t = tty_flags attach_start \<and> tty_disc t = tty_disc attach_start \<and>
      tty_term t = tty_term attach_start) attach_start"
  by (rule line_restored_at_exit [OF _ _ _ restoring_fair]) (simp_all add: attach_start_def)

text \<open>Whatever it finds, the clean-up ends in an exit.\<close>

abbreviation exits :: "fault \<Rightarrow> attach \<Rightarrow> bool" where
  "exits e t \<equiv> \<exists>c. e = Exit c"

lemma any_basic [keeps_rules]:
  "keeps (\<lambda>_. True) E (doing a)" "keeps (\<lambda>_. True) E (syslog f x)" "keeps (\<lambda>_. True) E (tell f x)"
  "keeps (\<lambda>_. True) E (succeeds K n i b)" "keeps (\<lambda>_. True) E (attempt K n i b g)"
  "keeps (\<lambda>_. True) E device_name" "keeps (\<lambda>_. True) E (modify h)"
  by (simp_all add: keeps_def line_runs device_name_def)

lemma wp_whatever:
  assumes "keeps (\<lambda>_. True) E m" and "\<And>a t. Q a t"
  shows "wp m Q E s"
  using keepsD [OF assms(1), of s] by (rule wp_weaken) (simp_all add: assms(2))

lemma cleanup_ends: "wp (attach_cleanup K c) Q exits s"
proof -
  have restore: "keeps (\<lambda>_. True) exits (doif b (restore_tty K))" for b
    unfolding restore_tty_def by (auto intro!: keeps_rules)
  have down: "keeps (\<lambda>_. True) exits (ifdown K dev)" for dev
    unfolding ifdown_def modify_flags_def by (auto intro!: keeps_rules)
  show ?thesis
    unfolding attach_cleanup_def wp_thn wp_bnd wp_gets
    by (rule wp_whatever, (auto intro!: keeps_rules)[1], rule wp_whatever, rule keeps_rules, rule wp_whatever, rule down,
        rule wp_whatever, rule restore) (simp add: line_runs)
qed

definition configured :: "u32 \<Rightarrow> int \<Rightarrow> termios \<Rightarrow> nat \<Rightarrow> attach \<Rightarrow> bool" where
  "configured f D T i t \<longleftrightarrow> 
     fdflags t = (if i = 0 then f else f AND NOT O_NONBLOCK) \<and>
     (i \<le> 9 \<longrightarrow> tty_disc t = D) \<and> (9 \<le> i \<longrightarrow> initdisc t = D) \<and> (10 \<le> i \<longrightarrow> tty_disc t = N_IRDA) \<and>
     (i \<le> 6 \<longrightarrow> tty_term t = T) \<and> (5 \<le> i \<longrightarrow> termsave t = T) \<and> (6 \<le> i \<longrightarrow> termvalid t = 0) \<and>
     (7 \<le> i \<longrightarrow> tty_term t = tty_configure T) \<and> (12 \<le> i \<longrightarrow> tty_flags t = (f OR O_NONBLOCK))"

lemma mask_or: "(x AND NOT O_NONBLOCK) OR O_NONBLOCK = x OR O_NONBLOCK"
  by (rule bit_word_eqI) (auto simp: bit_simps)

lemma configured_step:
  assumes "configured f D T i s" and "i < 12"
  shows "wp (start_tty_steps K fd ! i) (\<lambda>_. configured f D T (Suc i)) exits s"
proof -
  have cases: "i \<in> {0, 1, 2, 3, 4, 5, 6, 7, 8, 9, 10, 11}"
    using assms(2) by (simp only: insert_iff empty_iff) presburger
  show ?thesis
    using cases assms(1)
    unfolding start_tty_steps_def init_irda_ldisc_steps_def establish_irda_steps_def
    by (auto simp: line_runs cleanup_ends) (auto simp: configured_def mask_or [simplified])
qed

text \<open>
  C28. When \<open>start_tty\<close> returns, the line has the infrared discipline, the settings of \<open>tty_configure\<close>
  on top of those found, and does not block; what was found is saved. Otherwise the program exits.
\<close>

theorem start_tty_configures:
  "wp (start_tty K fd)
    (\<lambda>_ t. tty_disc t = N_IRDA \<and> initdisc t = tty_disc s \<and> termsave t = tty_term s \<and> termvalid t = 0 \<and>
       tty_term t = tty_configure (tty_term s) \<and> tty_flags t = (fdflags s OR O_NONBLOCK))
    (\<lambda>e t. \<exists>c. e = Exit c) s"
proof -
  have "wp (seqs (start_tty_steps K fd))
      (\<lambda>_. configured (fdflags s) (tty_disc s) (tty_term s) (length (start_tty_steps K fd))) exits s"
    by (rule wp_seqs_nth [where P = "configured (fdflags s) (tty_disc s) (tty_term s)"])
      (auto intro: configured_step simp: configured_def)
  then show ?thesis
    unfolding start_tty_def by (rule wp_weaken) (simp add: configured_def)
qed

section \<open>Interfaces\<close>

text \<open>
  \<open>modify_flags\<close> sets and clears exactly the flags it is asked to when it returns 0, and changes nothing
  when it returns -1; it touches no other interface, and not the serial line.
\<close>

theorem modify_flags_sets:
  "wp (modify_flags K dev on off)
    (\<lambda>r t. (r = 0 \<and> if_flags t = (if_flags s)(take 16 dev := (if_flags s (take 16 dev) OR on) AND NOT off) \<or>
        r = -1 \<and> if_flags t = if_flags s) \<and> line t = line s) never s"
  by (auto simp: modify_flags_def line_runs if_name_def)

text \<open>
  The infrared interfaces among the lines of \<open>/proc/net/dev\<close>, as a function: what \<open>get_devlist\<close> collects.
\<close>

definition ir_names :: "nat \<Rightarrow> byte list list \<Rightarrow> byte list list" where
  "ir_names maxchars ls = List.map_filter (\<lambda>l. get_irdevname maxchars (cstring (take 1023 l))) ls"

lemma dev_lines_collect:
  assumes "length names \<le> room"
  shows "dev_lines maxchars room names ls =
    (let all = names @ ir_names maxchars ls in
     if length all \<le> room then ret (int (length all), all) else stop Oob_write)"
  using assms
proof (induction ls arbitrary: names)
  case Nil
  then show ?case by (simp add: ir_names_def)
next
  case (Cons l ls)
  show ?case
  proof (cases "get_irdevname maxchars (cstring (take 1023 l))")
    case None
    then show ?thesis using Cons by (simp add: ir_names_def)
  next
    case (Some name)
    show ?thesis
    proof (cases "length names < room")
      case True
      with Some Cons.IH [of "names @ [name]"] show ?thesis
        by (simp add: ir_names_def check_def thn_def Let_def)
    next
      case False
      with Some Cons.prems show ?thesis
        by (auto simp: ir_names_def check_def thn_def Let_def bnd_def stop_def)
    qed
  qed
qed

text \<open>
  \<open>get_devlist\<close> collects all infrared interfaces, in their order, when the array has room for them; the first
  one there is no room for is written behind the array, as the code compares the number of names with
  the size of the array only afterwards, and with the wrong comparison.
\<close>

theorem get_devlist_overruns:
  "wp (get_devlist K maxchars room)
    (\<lambda>r t. case a_lines K (aacts s @ [Do ''fopen'' [] [bytes_of ''/proc/net/dev'', bytes_of ''r'']]) of
       None \<Rightarrow> r = (-1, [])
     | Some ls \<Rightarrow> let all = ir_names maxchars (drop 2 ls) in
         length all \<le> room \<and> r = (int (length all), all))
    (\<lambda>e t. e = Oob_write \<and>
       (\<exists>ls. a_lines K (aacts s @ [Do ''fopen'' [] [bytes_of ''/proc/net/dev'', bytes_of ''r'']]) = Some ls \<and>
         room < length (ir_names maxchars (drop 2 ls)))) s"
  by (auto simp: get_devlist_def lines_of_def line_runs dev_lines_collect split: option.split)

text \<open>
  The names of the list of dongles are what option \<open>-d\<close> understands, each for the number of its entry;
  every other argument is refused.
\<close>

theorem get_dongle_inverse:
  "list_all (\<lambda>(n, name). get_dongle (bytes_of name) = n) dongle_list \<and>
   (get_dongle arg = -1 \<longleftrightarrow> arg \<notin> (\<lambda>(n, name). bytes_of name) ` set dongle_list)"
proof
  show "list_all (\<lambda>(n, name). get_dongle (bytes_of name) = n) dongle_list"
    by (simp add: dongle_list_def get_dongle_def bytes_of_def)
  show "get_dongle arg = -1 \<longleftrightarrow> arg \<notin> (\<lambda>(n, name). bytes_of name) ` set dongle_list"
    by (auto simp: dongle_list_def get_dongle_def)
qed

end
