(* ===== verification/Dongle_Attach.thy ===== *)
theory Dongle_Attach
  imports Irattach
begin

text \<open>
  \<open>dongle_attach\<close> sets the dongle of an interface once (\<open>irattach/dongle_attach.c\<close>). It runs on the
  same system as irattach, with a list of names of its own.
\<close>

definition attach_number :: "int \<Rightarrow> byte list \<Rightarrow> int" where
  "attach_number dongle optarg =
    (if optarg = bytes_of ''esi'' then IRDA_ESI_DONGLE
     else if optarg = bytes_of ''tekram'' then IRDA_TEKRAM_DONGLE
     else if optarg = bytes_of ''actisys'' then IRDA_ACTISYS_DONGLE
     else if optarg = bytes_of ''actisys+'' then IRDA_ACTISYS_PLUS_DONGLE
     else if optarg = bytes_of ''girbil'' then IRDA_GIRBIL_DONGLE
     else if optarg = bytes_of ''litelink'' then IRDA_LITELINK_DONGLE
     else if optarg = bytes_of ''airport'' then IRDA_AIRPORT_DONGLE
     else if optarg = bytes_of ''old_belkin'' then IRDA_OLD_BELKIN_DONGLE
     else if optarg = bytes_of ''ep7211'' then IRDA_EP7211_IR
     else if optarg = bytes_of ''mcp2120'' then IRDA_MCP2120_DONGLE
     else if optarg = bytes_of ''act200l'' then IRDA_ACT200L_DONGLE
     else if optarg = bytes_of ''ma600'' then IRDA_MA600_DONGLE
     else dongle)"

fun dongle_options :: "int \<Rightarrow> (char \<times> byte list) list \<Rightarrow> int am" where
  "dongle_options dongle [] = ret dongle"
| "dongle_options dongle ((c, optarg) # ps) =
    (if c = CHR ''d'' then
       (let n = attach_number dongle optarg in
        if n = -1 then thn (tell (ln ''Sorry, dongle not supported yet!'') []) (stop (Exit (-1)))
        else dongle_options n ps)
     else dongle_options dongle ps)"

definition dongle_main :: "attach_system \<Rightarrow> nat \<Rightarrow> byte list \<Rightarrow> (char \<times> byte list) list \<Rightarrow> int am" where
  "dongle_main K argc arg1 options =
    (if argc < 3 then
       thn (tell (ln ''Usage: dongle_attach <device> -d <dongle>'') []) (
       thn (tell (CHR 0x0A # ''Example: dongle_attach irda0 -d esi'' @ [CHR 0x0A, CHR 0x0A]) []) (stop (Exit (-1))))
     else
       thn (check Oob_write (length (cstring arg1) < 10)) (
       bnd (dongle_options (-1) options) (\<lambda>dongle.
       bnd (succeeds K ''socket'' [] []) (\<lambda>ok.
       if \<not> ok then thn (tell ''socket'' []) (stop (Exit (-1))) else
       bnd (succeeds K ''SIOCSDONGLE'' [dongle] [if_name (cstring arg1)]) (\<lambda>ok.
       if \<not> ok then thn (tell ''ioctl'' []) (stop (Exit (-1))) else ret 0)))))"

text \<open>
  \<open>dongle_attach\<close> gives every name the number irattach gives it, but for \<open>toim3232\<close>, which it
  does not know; a name it does not know leaves the dongle as it is, so that after a known one it is ignored
  instead of being refused.
\<close>

theorem dongle_numbers_agree:
  "attach_number dongle name =
    (if get_dongle name \<in> {-1, IRDA_TOIM3232_DONGLE} then dongle else get_dongle name)"
  by (auto simp: attach_number_def get_dongle_def dongle_list_def bytes_of_def)

end
