(* ===== verification/Super_Io.thy ===== *)
theory Super_Io
  imports C_Library
begin

text \<open>
  What the three programs of \<open>smcinit/\<close> share. They program a PCI bridge and the registers of an SMSC
  chip so that the kernel driver finds the infrared port. A register is written by writing its number to
  the index port of the chip and the value to the port behind it. Everything a program does is recorded in
  its history; the hardware and the kernel are functions of that history.
\<close>

section \<open>State\<close>

type_synonym pci_addr = "int \<times> int \<times> int"

text \<open>
  \<open>Put v p\<close>, \<open>Get p v\<close>: the value \<open>v\<close> written to or read from port \<open>p\<close>; \<open>Pci_get\<close>, \<open>Pci_put\<close>: a
  register of the configuration space of a device, with its width in bytes; \<open>Sys\<close>: a system call or a
  call of libpci; \<open>Show\<close>: output to the terminal; \<open>Note\<close>: \<open>syslog\<close>.
\<close>

datatype sact =
    Put byte u16
  | Get u16 byte
  | Pci_get pci_addr nat byte u16
  | Pci_put pci_addr nat byte u16
  | Sys string "int list" "byte list list"
  | Show string "varg list"
  | Note string "varg list"

record superio =
  sacts :: "sact list"
  permitted :: "u16 \<Rightarrow> bool"

record chip_system =
  s_port :: "sact list \<Rightarrow> u16 \<Rightarrow> byte"
  s_word :: "sact list \<Rightarrow> pci_addr \<Rightarrow> byte \<Rightarrow> u16"
  s_byte :: "sact list \<Rightarrow> pci_addr \<Rightarrow> byte \<Rightarrow> byte"
  s_int :: "sact list \<Rightarrow> int"
  s_found :: "sact list \<Rightarrow> int \<Rightarrow> int \<Rightarrow> pci_addr option"

type_synonym 'a sm = "(superio, 'a) cm"

definition done_so_far :: "sact \<Rightarrow> unit sm" where
  "done_so_far a = modify (\<lambda>s. s\<lparr>sacts := sacts s @ [a]\<rparr>)"

definition show_text :: "string \<Rightarrow> varg list \<Rightarrow> unit sm" where
  "show_text fmt args = done_so_far (Show fmt args)"

definition log_text :: "string \<Rightarrow> varg list \<Rightarrow> unit sm" where
  "log_text fmt args = done_so_far (Note fmt args)"

definition sys_call :: "chip_system \<Rightarrow> string \<Rightarrow> int list \<Rightarrow> byte list list \<Rightarrow> int sm" where
  "sys_call S name ints strs = thn (done_so_far (Sys name ints strs)) (gets (\<lambda>s. s_int S (sacts s)))"

section \<open>Ports and PCI registers\<close>

text \<open>\<open>outb\<close> and \<open>inb\<close>: without a permission for the port, a segmentation fault.\<close>

definition out_port :: "int \<Rightarrow> int \<Rightarrow> unit sm" where
  "out_port v port = (let p = word_of_int port in
     bnd (gets (\<lambda>s. permitted s p)) (\<lambda>ok.
     thn (check Oob_write ok) (done_so_far (Put (word_of_int v) p))))"

definition in_port :: "chip_system \<Rightarrow> int \<Rightarrow> byte sm" where
  "in_port S port = (let p = word_of_int port in
     bnd (gets (\<lambda>s. permitted s p)) (\<lambda>ok.
     thn (check Oob_read ok) (
     bnd (gets (\<lambda>s. s_port S (sacts s) p)) (\<lambda>v.
     thn (done_so_far (Get p v)) (ret v)))))"

definition ioperm :: "chip_system \<Rightarrow> int \<Rightarrow> int \<Rightarrow> int sm" where
  "ioperm S port n =
    bnd (sys_call S ''ioperm'' [port, n, 1] []) (\<lambda>r.
    thn (doif (r = 0) (modify (\<lambda>s. s\<lparr>permitted := (\<lambda>p. permitted s p \<or> port \<le> uint p \<and> uint p < port + n)\<rparr>)))
    (ret r))"

definition pci_read_word :: "chip_system \<Rightarrow> pci_addr \<Rightarrow> byte \<Rightarrow> u16 sm" where
  "pci_read_word S dev reg =
    bnd (gets (\<lambda>s. s_word S (sacts s) dev reg)) (\<lambda>v. thn (done_so_far (Pci_get dev 2 reg v)) (ret v))"

definition pci_read_byte :: "chip_system \<Rightarrow> pci_addr \<Rightarrow> byte \<Rightarrow> byte sm" where
  "pci_read_byte S dev reg =
    bnd (gets (\<lambda>s. s_byte S (sacts s) dev reg)) (\<lambda>v. thn (done_so_far (Pci_get dev 1 reg (ucast v))) (ret v))"

definition pci_write_word :: "pci_addr \<Rightarrow> byte \<Rightarrow> u16 \<Rightarrow> unit sm" where
  "pci_write_word dev reg v = done_so_far (Pci_put dev 2 reg v)"

definition pci_write_byte :: "pci_addr \<Rightarrow> byte \<Rightarrow> byte \<Rightarrow> unit sm" where
  "pci_write_byte dev reg v = done_so_far (Pci_put dev 1 reg (ucast v))"

section \<open>Options\<close>

text \<open>
  \<open>print_usage\<close> of the programs: the table of long options, each with its letter and whether it has an argument,
  and the explanations, which have a null pointer behind the last.
\<close>

fun option_lines :: "(string \<times> bool \<times> char) list \<Rightarrow> string option list \<Rightarrow> unit sm" where
  "option_lines [] expl = ret ()"
| "option_lines ((name, arg, letter) # os) [] = stop Oob_read"
| "option_lines ((name, arg, letter) # os) (e # es) =
    thn (show_text ''-%c, --%s%s'' [AI (ucast (of_char letter :: byte)), Sl name, Sl (if arg then ''=VALUE'' else [])]) (
    thn (case e of Some t \<Rightarrow> show_text (ln ''%s'') [Sl t] | None \<Rightarrow> show_text (ln [CHR 0x0A]) [])
    (option_lines os es))"


section \<open>The chip\<close>

text \<open>
  The configuration registers of an SMSC super I/O chip at the ports \<open>b\<close> and \<open>b + 1\<close>: 0x55 at the
  index port opens them, 0xAA there closes them; in between the index port selects the register the data port
  reads and writes.
\<close>

record smsc =
  c_open :: bool
  c_index :: byte
  c_regs :: "byte \<Rightarrow> byte"

fun chip_step :: "u16 \<Rightarrow> smsc \<Rightarrow> sact \<Rightarrow> smsc" where
  "chip_step b c (Put v p) =
    (if p = b then
       (if \<not> c_open c then c\<lparr>c_open := v = 0x55\<rparr>
        else if v = 0xAA then c\<lparr>c_open := False\<rparr> else c\<lparr>c_index := v\<rparr>)
     else if p = b + 1 \<and> c_open c then c\<lparr>c_regs := (c_regs c)(c_index c := v)\<rparr> else c)"
| "chip_step b c a = c"

definition chip_after :: "u16 \<Rightarrow> smsc \<Rightarrow> sact list \<Rightarrow> smsc" where
  "chip_after b c h = foldl (chip_step b) c h"

lemma chip_after_simps [simp]:
  "chip_after b c [] = c" "chip_after b c (h @ [a]) = chip_step b (chip_after b c h) a"
  by (simp_all add: chip_after_def)

text \<open>
  The ports show such a chip at \<open>b\<close>, which was closed and had the registers \<open>r\<close>, and nothing at
  other ports.
\<close>

definition smsc_at :: "chip_system \<Rightarrow> u16 \<Rightarrow> (byte \<Rightarrow> byte) \<Rightarrow> bool" where
  "smsc_at S b r \<longleftrightarrow> (\<forall>h p. s_port S h p =
    (let c = chip_after b \<lparr>c_open = False, c_index = 0, c_regs = r\<rparr> h
     in if p = b + 1 \<and> c_open c then c_regs c (c_index c) else 0xff))"

text \<open>What is known of the chip while a program runs: the registers, and whether they are open.\<close>

definition chip_is :: "u16 \<Rightarrow> (byte \<Rightarrow> byte) \<Rightarrow> bool \<Rightarrow> (byte \<Rightarrow> byte) \<Rightarrow> superio \<Rightarrow> bool" where
  "chip_is b r on r' s \<longleftrightarrow> (let c = chip_after b \<lparr>c_open = False, c_index = 0, c_regs = r\<rparr> (sacts s)
     in c_open c = on \<and> c_regs c = r' \<and> (on \<longrightarrow> permitted s b \<and> permitted s (b + 1)))"

definition chip_at_index :: "u16 \<Rightarrow> (byte \<Rightarrow> byte) \<Rightarrow> (byte \<Rightarrow> byte) \<Rightarrow> byte \<Rightarrow> superio \<Rightarrow> bool" where
  "chip_at_index b r r' i s \<longleftrightarrow> chip_is b r True r' s \<and>
     c_index (chip_after b \<lparr>c_open = False, c_index = 0, c_regs = r\<rparr> (sacts s)) = i"

named_theorems chip_rules

lemma wp_done_so_far [wp_simps]: "wp (done_so_far a) Q E s = Q () (s\<lparr>sacts := sacts s @ [a]\<rparr>)"
  by (simp add: done_so_far_def wp_simps)

lemma wp_texts [wp_simps]:
  "wp (show_text f x) Q E s = Q () (s\<lparr>sacts := sacts s @ [Show f x]\<rparr>)"
  "wp (log_text f x) Q E s = Q () (s\<lparr>sacts := sacts s @ [Note f x]\<rparr>)"
  by (simp_all add: show_text_def log_text_def wp_simps)

lemma wp_sys_call [wp_simps]:
  "wp (sys_call S n i b) Q E s = (let t = s\<lparr>sacts := sacts s @ [Sys n i b]\<rparr> in Q (s_int S (sacts t)) t)"
  by (simp add: sys_call_def wp_simps Let_def)

text \<open>Selecting, writing and reading a register of the open chip; closing it.\<close>

lemma select_register [chip_rules]:
  assumes "chip_is b r True r' s" and "word_of_int port = b" and "(word_of_int i :: byte) \<noteq> 0xAA"
    and "\<And>t. chip_at_index b r r' (word_of_int i) t \<Longrightarrow> Q () t"
  shows "wp (out_port i port) Q E s"
  using assms(1,2,3) by (auto simp: out_port_def wp_simps Let_def chip_is_def chip_at_index_def intro!: assms(4))

lemma write_register [chip_rules]:
  assumes "chip_at_index b r r' i s" and "word_of_int port = b + 1"
    and "\<And>t. chip_at_index b r (r'(i := word_of_int v)) i t \<Longrightarrow> Q () t"
  shows "wp (out_port v port) Q E s"
  using assms(1,2) by (auto simp: out_port_def wp_simps Let_def chip_is_def chip_at_index_def intro!: assms(3))

lemma read_register [chip_rules]:
  assumes "chip_at_index b r r' i s" and "smsc_at S b r" and "word_of_int port = b + 1"
    and "\<And>t. chip_at_index b r r' i t \<Longrightarrow> Q (r' i) t"
  shows "wp (in_port S port) Q E s"
proof -
  have "s_port S (sacts s) (b + 1) = r' i" and "permitted s (b + 1)"
    using assms(1,2) by (simp_all add: smsc_at_def chip_at_index_def chip_is_def Let_def)
  then show ?thesis
    using assms(1,3) by (auto simp: in_port_def wp_simps Let_def chip_is_def chip_at_index_def intro!: assms(4))
qed

lemma close_chip [chip_rules]:
  assumes "chip_is b r True r' s" and "word_of_int port = b" and "(word_of_int v :: byte) = 0xAA"
    and "\<And>t. chip_is b r False r' t \<Longrightarrow> Q () t"
  shows "wp (out_port v port) Q E s"
  using assms(1,2,3) by (auto simp: out_port_def wp_simps Let_def chip_is_def intro!: assms(4))

lemma open_chip [chip_rules]:
  assumes "chip_is b r False r' s" and "permitted s b" and "permitted s (b + 1)"
    and "word_of_int port = b" and "(word_of_int v :: byte) = 0x55"
    and "\<And>t. chip_is b r True r' t \<Longrightarrow> Q () t"
  shows "wp (out_port v port) Q E s"
  using assms(1,2,3,4,5) by (auto simp: out_port_def wp_simps Let_def chip_is_def intro!: assms(6))

lemma at_index_open: "chip_at_index b r r' i s \<Longrightarrow> chip_is b r True r' s"
  by (simp add: chip_at_index_def)


text \<open>Whatever is not a write to a port leaves the chip alone.\<close>

fun quiet_act :: "sact \<Rightarrow> bool" where
  "quiet_act (Put v p) = False"
| "quiet_act a = True"

lemma chip_after_quiet: "list_all quiet_act h \<Longrightarrow> chip_after b c (g @ h) = chip_after b c g"
proof (induction h rule: rev_induct)
  case (snoc a h)
  have "quiet_act a \<Longrightarrow> chip_step b d a = d" for d
    by (cases a) simp_all
  with snoc show ?case
    by (simp flip: append_assoc)
qed simp

lemma chip_quiet [simp]:
  assumes "list_all quiet_act h"
  shows "chip_is b r on r' (s\<lparr>sacts := sacts s @ h\<rparr>) = chip_is b r on r' s"
    and "chip_at_index b r r' i (s\<lparr>sacts := sacts s @ h\<rparr>) = chip_at_index b r r' i s"
  using assms by (simp_all add: chip_is_def chip_at_index_def chip_after_quiet Let_def)

text \<open>A register is read, and written with a value made from it.\<close>

definition change_register :: "chip_system \<Rightarrow> int \<Rightarrow> int \<Rightarrow> (byte \<Rightarrow> byte) \<Rightarrow> unit sm" where
  "change_register S base reg f =
    thn (out_port reg base) (bnd (in_port S (base + 1)) (\<lambda>i. out_port (uint (f i)) (base + 1)))"

lemma select_next:
  assumes "chip_at_index b r r' j s" and "word_of_int port = b" and "(word_of_int i :: byte) \<noteq> 0xAA"
    and "\<And>t. chip_at_index b r r' (word_of_int i) t \<Longrightarrow> Q () t"
  shows "wp (out_port i port) Q E s"
  by (rule select_register [OF at_index_open [OF assms(1)] assms(2,3)]) (rule assms(4))

lemma change_register_rule:
  assumes "chip_at_index b r r' i s" and "smsc_at S b r" and "word_of_int base = b" and "(word_of_int reg :: byte) \<noteq> 0xAA"
    and "\<And>t. chip_at_index b r (r'(word_of_int reg := f (r' (word_of_int reg)))) (word_of_int reg) t \<Longrightarrow> Q () t"
  shows "wp (change_register S base reg f) Q E s"
proof -
  have p: "word_of_int (base + 1) = b + 1" using assms(3) by simp
  show ?thesis
    unfolding change_register_def wp_thn wp_bnd
    by (rule select_register [OF at_index_open [OF assms(1)] assms(3,4)],
        rule read_register [OF _ assms(2) p], assumption,
        rule write_register [OF _ p], assumption, rule assms(5), simp)
qed

lemma chip_is_permitted [simp]: "chip_is b r False r' (s\<lparr>permitted := f\<rparr>) = chip_is b r False r' s"
  by (simp add: chip_is_def)

lemma chip_at_start: "sacts s = [] \<Longrightarrow> chip_is b r False r s"
  by (simp add: chip_is_def)


end
