(* ===== verification/Smcinit.thy ===== *)
theory Smcinit
  imports Super_Io
begin

text \<open>
  \<open>smcinit/smcinit.c\<close>: set-up of SMSC 47N227 chips behind an Intel bridge, at the ports, interrupt and
  DMA channel given as options.
\<close>

section \<open>Tables and output\<close>

abbreviation smc_prog :: string where "smc_prog \<equiv> ''smcinit''"
abbreviation smc_version :: string where "smc_version \<equiv> ''0.5cvs''"

definition tabs :: "nat \<Rightarrow> string \<Rightarrow> string option" where
  "tabs n t = Some (replicate n (CHR 0x09) @ t)"

definition smc_options :: "(string \<times> bool \<times> char) list" where
  "smc_options = [(''version'', False, CHR ''V''), (''help'', False, CHR ''h''), (''verbose'', False, CHR ''v''),
     (''sirio'', True, CHR ''s''), (''firio'', True, CHR ''f''), (''firirq'', True, CHR ''i''),
     (''firdma'', True, CHR ''d''), (''tty'', True, CHR ''t'')]"

definition smc_explications :: "string option list" where
  "smc_explications = [tabs 3 ''show program version'', tabs 3 ''show this help'',
     tabs 3 ''be verbose, show the compiled-in settings.'', tabs 2 ''set the SIR I/O port'',
     tabs 2 ''set the FIR I/O port'', tabs 2 ''set the FIR IRQ line'', tabs 2 ''set the FIR DMA channel'',
     tabs 2 ''specify the serial tty to unbind from serial driver'', None]"

definition smc_usage :: "unit sm" where
  "smc_usage =
    thn (show_text (ln (ln (ln ''%s %s %s'' @ ''Usage: %s [options]'') @ ''Options:''))
      [Sl smc_prog, Sl smc_version, Sl ''Thomas Pinz'', Sl smc_prog]) (
    thn (option_lines smc_options smc_explications)
    (show_text (ln ''Report suggestions and bugs to: %s'') [Sl ''Thomas Pinz <tom_p (at) gmx.net>'']))"

definition print_version :: "unit sm" where
  "print_version = show_text (ln ''%s %s'') [Sl smc_prog, Sl smc_version]"

definition print_settings :: "u32 \<Rightarrow> u32 \<Rightarrow> u32 \<Rightarrow> u32 \<Rightarrow> unit sm" where
  "print_settings sir_io fir_io fir_irq fir_dma = seqs [
     print_version,
     show_text (ln []) [],
     show_text (ln ''SIR ioport: 0x%x'') [AI sir_io],
     show_text (ln ''FIR ioport: 0x%x'') [AI fir_io],
     show_text (ln ''FIR interupt: %d'') [AI fir_irq],
     show_text (ln ''FIR DMA: %d'') [AI fir_dma],
     show_text (ln []) []]"

definition smc_die :: "string \<Rightarrow> 'a sm" where
  "smc_die message = thn (show_text (ln ''%s: %s'') [Sl smc_prog, Sl message]) (stop (Exit 1))"

section \<open>The serial driver\<close>

text \<open>\<open>perror\<close> prints its argument and the reason.\<close>

definition perror :: "byte list \<Rightarrow> unit sm" where
  "perror name = show_text ''perror'' [AS name]"

definition unbind_from_serial :: "chip_system \<Rightarrow> byte list \<Rightarrow> int sm" where
  "unbind_from_serial S dev =
    bnd (sys_call S ''open'' [] [dev]) (\<lambda>fd.
    if fd < 0 then
      bnd (gets (\<lambda>s. s_int S (sacts s @ [Sys ''errno'' [] []]))) (\<lambda>errno.
      if errno = 2 then stop (Exit 201) else thn (perror dev) (stop (Exit 201)))
    else
      bnd (sys_call S ''TIOCGSERIAL'' [fd] []) (\<lambda>r.
      if r < 0 then thn (perror (bytes_of ''Cannot get serial info'')) (stop (Exit 1)) else
      bnd (sys_call S ''TIOCSSERIAL PORT_UNKNOWN'' [fd] []) (\<lambda>r.
      if r < 0 then thn (perror (bytes_of ''Cannot set serial info'')) (stop (Exit 1)) else
      bnd (sys_call S ''close'' [fd] []) (\<lambda>_. ret 0))))"

section \<open>The bridge\<close>

abbreviation (input) VID :: byte where "VID \<equiv> 0x00"
abbreviation (input) DID :: byte where "DID \<equiv> 0x02"
abbreviation (input) PCI_DMA_C :: byte where "PCI_DMA_C \<equiv> 0x90"
abbreviation (input) COM_DEC :: byte where "COM_DEC \<equiv> 0xe0"
abbreviation (input) LPC_EN :: byte where "LPC_EN \<equiv> 0xe6"
abbreviation (input) GEN2_DEC :: byte where "GEN2_DEC \<equiv> 0xec"

abbreviation (input) lpc :: pci_addr where "lpc \<equiv> (0, 0x1f, 0)"

text \<open>False: another bridge.\<close>

definition setup_bridge :: "chip_system \<Rightarrow> bool \<Rightarrow> bool sm" where
  "setup_bridge S verbose =
    bnd (pci_read_word S lpc VID) (\<lambda>twobyte.
    if twobyte \<noteq> 0x8086 then
      thn (show_text (ln ''%s IO hub vendor %x not intel (0x8086)'') [Sl smc_prog, AI (ucast twobyte)]) (ret False)
    else
    thn (doif verbose (show_text (ln ''Detected IO hub vendor id: 0x%x'') [AI (ucast twobyte)])) (
    bnd (pci_read_word S lpc DID) (\<lambda>twobyte.
    if twobyte \<noteq> 0x24cc \<and> twobyte \<noteq> 0x248c then
      thn (show_text (ln ''%s IO hub device %x not 82801CAM (0x248c or 0x24cc)'') [Sl smc_prog, AI (ucast twobyte)])
      (ret False)
    else
    thn (doif verbose (show_text (ln ''Detected IO hub device id: 0x%x'') [AI (ucast twobyte)])) (
    thn (pci_write_byte lpc COM_DEC 0x10) (
    bnd (pci_read_word S lpc LPC_EN) (\<lambda>twobyte.
    thn (pci_write_word lpc LPC_EN ((twobyte AND 0xfffd) OR 0x0001)) (
    bnd (pci_read_word S lpc PCI_DMA_C) (\<lambda>twobyte.
    thn (pci_write_word lpc PCI_DMA_C 0xc0c0) (
    thn (pci_write_word lpc GEN2_DEC 0x131)
    (ret True))))))))))"

section \<open>The chip\<close>

text \<open>The base of the first chip with a known identification, and the last identification read.\<close>

fun find_smc :: "chip_system \<Rightarrow> int \<Rightarrow> int list \<Rightarrow> (int option \<times> int) sm" where
  "find_smc S i [] = ret (None, i)"
| "find_smc S i (base # bases) =
    bnd (ioperm S base 2) (\<lambda>_.
    thn (out_port 0x55 base) (
    thn (out_port 0x0d base) (
    bnd (in_port S (base + 1)) (\<lambda>v.
    if v = 0x5a \<or> v = 0x7a then ret (Some base, uint v) else find_smc S (uint v) bases))))"

definition possible_cfgbase :: "int list" where
  "possible_cfgbase = [0x2e, 0x4e]"

text \<open>\<open>%s register ... write: ... read: ...\<close>, and the message when the value read is another one.\<close>

definition written_line :: "string \<Rightarrow> string \<Rightarrow> string \<Rightarrow> string" where
  "written_line name w r = name @ CHR 0x09 # '' write: '' @ w @ '' '' @ CHR 0x09 # ln ('' read: '' @ r @ '' '')"

definition read_back :: "chip_system \<Rightarrow> int \<Rightarrow> bool \<Rightarrow> int \<Rightarrow> string \<Rightarrow> string \<Rightarrow> bool sm" where
  "read_back S base verbose v fmt what =
    bnd (in_port S (base + 1)) (\<lambda>i.
    thn (doif verbose (show_text fmt [Ii v, Ii (uint i)])) (
    if uint i \<noteq> v then thn (show_text (ln (''Sorry, '' @ what @ '' could not be written. '')) []) (ret False)
    else ret True))"

definition write_checked :: "chip_system \<Rightarrow> int \<Rightarrow> bool \<Rightarrow> int \<Rightarrow> int \<Rightarrow> string \<Rightarrow> string \<Rightarrow> bool sm" where
  "write_checked S base verbose reg v fmt what =
    thn (out_port reg base) (
    thn (out_port v (base + 1))
    (read_back S base verbose v fmt what))"

definition configure_smc :: "chip_system \<Rightarrow> int \<Rightarrow> int \<Rightarrow> int \<Rightarrow> int \<Rightarrow> int \<Rightarrow> bool \<Rightarrow> int sm" where
  "configure_smc S base local_sir_io local_fir_io local_fir_irq local_fir_dma verbose =
    thn (out_port 0x24 base) (
    thn (out_port 0x00 (base + 1)) (
    bnd (write_checked S base verbose 0x25 local_sir_io (written_line ''SIR ioport register '' ''0x%x'' ''0x%x'') ''SIR ioport'') (\<lambda>ok.
    if \<not> ok then ret 1 else
    thn (out_port 0x28 base) (
    bnd (in_port S (base + 1)) (\<lambda>i.
    thn (out_port local_fir_irq (base + 1)) (
    bnd (read_back S base verbose local_fir_irq (written_line ''FIR interrupt register'' ''0x%d'' ''0x%d'') ''FIR interrupt'') (\<lambda>ok.
    if \<not> ok then ret 1 else
    bnd (write_checked S base verbose 0x2B local_fir_io (written_line ''FIR ioport register'' ''0x%x'' ''0x%x'') ''FIR ioport'') (\<lambda>ok.
    if \<not> ok then ret 1 else
    bnd (write_checked S base verbose 0x2C local_fir_dma (written_line ''FIR dma register'' ''0x%x'' ''0x%x'') ''FIR dma'') (\<lambda>ok.
    if \<not> ok then ret 1 else
    thn (change_register S base 0x0C (\<lambda>i. (i AND 0xC7) OR 0x88)) (
    thn (change_register S base 0x07 (\<lambda>i. i OR 0x20)) (
    thn (change_register S base 0x0a (\<lambda>i. i OR 0x40)) (
    thn (change_register S base 0x02 (\<lambda>i. 0x80)) (
    thn (change_register S base 0x00 (\<lambda>i. i OR 0x80)) (
    thn (out_port 0xaa base) (
    thn (doif verbose (thn (show_text (ln []) []) (show_text (ln ''Initialization of the SMC 47Nxxx succeeded'') [])))
    (ret 0))))))))))))))))"

definition set_smc :: "chip_system \<Rightarrow> int \<Rightarrow> int \<Rightarrow> int \<Rightarrow> int \<Rightarrow> bool \<Rightarrow> int sm" where
  "set_smc S sir_io fir_io fir_irq fir_dma verbose =
    (let local_sir_io = drop_bit 2 (sir_io AND 0xFF8); local_fir_io = drop_bit 3 (fir_io AND 0xFF8) in
     bnd (sys_call S ''getuid'' [] []) (\<lambda>uid.
     if uid \<noteq> 0 then thn (show_text (ln ''%s can only be used by root'') [Sl smc_prog]) (stop (Exit 1)) else
     bnd (setup_bridge S verbose) (\<lambda>ok.
     if \<not> ok then ret 1 else
     bnd (find_smc S 0 possible_cfgbase) (\<lambda>(chip, i). case chip of
       Some base \<Rightarrow>
         thn (doif verbose (thn (show_text (ln (ln ''Detected smc_base: 0x%x '' @ '' '')) [Ii base])
           (show_text (ln (ln ''Detected Chip id: 0x%x '' @ '' '')) [Ii i])))
         (configure_smc S base local_sir_io local_fir_io fir_irq fir_dma verbose)
     | None \<Rightarrow>
         thn (show_text (ln ''%s id:%x not SMC 47Nxxx (should be 0x5a or 0x7a)'') [Sl smc_prog, Ii i]) (ret 1)))))"

section \<open>Options and main\<close>

abbreviation (input) SIR_IO :: u32 where "SIR_IO \<equiv> 0x3f8"
abbreviation (input) FIR_IO :: u32 where "FIR_IO \<equiv> 0x130"
abbreviation (input) FIR_IRQ :: u32 where "FIR_IRQ \<equiv> 3"
abbreviation (input) FIR_DMA :: u32 where "FIR_DMA \<equiv> 3"
abbreviation (input) PATH_MAX :: nat where "PATH_MAX \<equiv> 4096"

record smc_settings =
  m_sir_io :: u32
  m_fir_io :: u32
  m_fir_irq :: u32
  m_fir_dma :: u32
  m_verbose :: bool
  m_tty :: "byte list"

definition smc_number :: "byte list \<Rightarrow> string \<Rightarrow> u32 sm" where
  "smc_number nptr what =
    (let (v, rest) = strtoul nptr in
     if nptr = [] \<or> rest \<noteq> [] then smc_die (''Cannot convert '' @ what @ '' to number'') else ret (ucast v))"

text \<open>The first bytes of \<open>tty_device\<close>; what is behind the zero does not matter, but that there is one.\<close>

definition smc_option :: "smc_settings \<Rightarrow> char \<times> byte list \<Rightarrow> smc_settings sm" where
  "smc_option m p = (case p of (c, optarg) \<Rightarrow>
     if c = CHR ''V'' then thn print_version (stop (Exit 0))
     else if c = CHR ''h'' then thn smc_usage (stop (Exit 0))
     else if c = CHR ''v'' then ret (m\<lparr>m_verbose := True\<rparr>)
     else if c = CHR ''t'' then ret (m\<lparr>m_tty := take PATH_MAX (optarg @ replicate PATH_MAX 0)\<rparr>)
     else if c = CHR ''s'' then bnd (smc_number optarg ''SIR I/O'') (\<lambda>v. ret (m\<lparr>m_sir_io := v\<rparr>))
     else if c = CHR ''f'' then bnd (smc_number optarg ''FIR I/O'') (\<lambda>v. ret (m\<lparr>m_fir_io := v\<rparr>))
     else if c = CHR ''i'' then bnd (smc_number optarg ''FIR IRQ'') (\<lambda>v. ret (m\<lparr>m_fir_irq := v\<rparr>))
     else if c = CHR ''d'' then bnd (smc_number optarg ''FIR DMA'') (\<lambda>v. ret (m\<lparr>m_fir_dma := v\<rparr>))
     else ret m)"

fun smc_option_list :: "smc_settings \<Rightarrow> (char \<times> byte list) list \<Rightarrow> smc_settings sm" where
  "smc_option_list m [] = ret m"
| "smc_option_list m (p # ps) = bnd (smc_option m p) (\<lambda>m. smc_option_list m ps)"

definition smc_defaults :: smc_settings where
  "smc_defaults = \<lparr>m_sir_io = SIR_IO, m_fir_io = FIR_IO, m_fir_irq = FIR_IRQ, m_fir_dma = FIR_DMA,
     m_verbose = False, m_tty = replicate PATH_MAX 0\<rparr>"

definition smc_main :: "chip_system \<Rightarrow> (char \<times> byte list) list \<Rightarrow> int sm" where
  "smc_main S opts =
    bnd (smc_option_list smc_defaults opts) (\<lambda>m.
    thn (doif (m_verbose m) (print_settings (m_sir_io m) (m_fir_io m) (m_fir_irq m) (m_fir_dma m))) (
    bnd (if hd (m_tty m) \<noteq> 0 then
           thn (check Oob_read (0 \<in> set (m_tty m))) (unbind_from_serial S (cstring (m_tty m)))
         else ret 0) (\<lambda>r.
    bnd (set_smc S (sint (m_sir_io m)) (sint (m_fir_io m)) (sint (m_fir_irq m)) (sint (m_fir_dma m)) (m_verbose m)) (\<lambda>r'.
    ret (r + r')))))"

section \<open>What the chip is left with\<close>

text \<open>The registers the set-up writes, on the register file.\<close>

definition irda_registers :: "byte \<Rightarrow> byte \<Rightarrow> byte \<Rightarrow> byte \<Rightarrow> (byte \<Rightarrow> byte) \<Rightarrow> (byte \<Rightarrow> byte)" where
  "irda_registers sir fir irq dma r =
    r(0x24 := 0, 0x25 := sir, 0x28 := irq, 0x2b := fir, 0x2c := dma,
      0x0c := (r 0x0c AND 0xC7) OR 0x88, 0x07 := r 0x07 OR 0x20, 0x0a := r 0x0a OR 0x40, 0x02 := 0x80,
      0x00 := r 0x00 OR 0x80)"

definition fits :: "int \<Rightarrow> bool" where
  "fits v \<longleftrightarrow> 0 \<le> v \<and> v < 256"

lemma fits_iff: "uint (word_of_int v :: byte) = v \<longleftrightarrow> fits v"
  by (simp add: fits_def uint_word_of_int mod_eq_self_iff_div_eq_0) presburger

lemma read_back_rule:
  assumes "chip_at_index b r r' i s" and "smsc_at S b r" and "word_of_int base = b"
    and "r' i = word_of_int v"
    and "\<And>t. fits v \<Longrightarrow> chip_at_index b r r' i t \<Longrightarrow> Q True t"
    and "\<And>t. \<not> fits v \<Longrightarrow> chip_at_index b r r' i t \<Longrightarrow> Q False t"
  shows "wp (read_back S base verbose v fmt what) Q E s"
  unfolding read_back_def wp_bnd
proof (rule read_register [OF assms(1,2)])
  show "word_of_int (base + 1) = b + 1" using assms(3) by simp
  fix t assume t: "chip_at_index b r r' i t"
  show "wp (thn (doif verbose (show_text fmt [Ii v, Ii (uint (r' i))]))
      (if uint (r' i) \<noteq> v then thn (show_text (ln (''Sorry, '' @ what @ '' could not be written. '')) []) (ret False)
       else ret True)) Q E t"
    using assms(4) fits_iff [of v] t
    by (auto simp: wp_simps intro!: assms(5,6))
qed

lemma write_checked_rule:
  assumes "chip_at_index b r r' i s" and S: "smsc_at S b r" and base: "word_of_int base = b"
    and "(word_of_int reg :: byte) \<noteq> 0xAA"
    and "\<And>t. fits v \<Longrightarrow> chip_at_index b r (r'(word_of_int reg := word_of_int v)) (word_of_int reg) t \<Longrightarrow> Q True t"
    and "\<And>t. \<not> fits v \<Longrightarrow> chip_at_index b r (r'(word_of_int reg := word_of_int v)) (word_of_int reg) t \<Longrightarrow> Q False t"
  shows "wp (write_checked S base verbose reg v fmt what) Q E s"
proof -
  have data: "word_of_int (base + 1) = b + 1" using base by simp
  show ?thesis
    unfolding write_checked_def wp_thn
    by (rule select_next [OF assms(1) base assms(4)], rule write_register [OF _ data], assumption,
        rule read_back_rule [OF _ S base], assumption, simp) (auto intro: assms(5,6))
qed

text \<open>What \<open>configure_smc\<close> leaves: everything written and closed, or 1 and the chip open.\<close>

definition smc_result :: "u16 \<Rightarrow> (byte \<Rightarrow> byte) \<Rightarrow> int \<Rightarrow> int \<Rightarrow> int \<Rightarrow> int \<Rightarrow> int \<Rightarrow> superio \<Rightarrow> bool" where
  "smc_result b r sir fir irq dma x t \<longleftrightarrow>
    (if fits sir \<and> fits irq \<and> fits fir \<and> fits dma
     then x = 0 \<and> chip_is b r False (irda_registers (word_of_int sir) (word_of_int fir) (word_of_int irq)
         (word_of_int dma) r) t
     else x = 1 \<and> (\<exists>r'. chip_is b r True r' t))"

lemma smc_result_failed:
  "chip_at_index b r r' i t \<Longrightarrow> \<not> (fits sir \<and> fits irq \<and> fits fir \<and> fits dma) \<Longrightarrow>
   smc_result b r sir fir irq dma 1 t"
  by (auto simp: smc_result_def dest: at_index_open)

lemma configure_smc_chip:
  assumes "chip_is b r True r s" and S: "smsc_at S b r" and base: "word_of_int base = b"
  shows "wp (configure_smc S base sir fir irq dma verbose) (smc_result b r sir fir irq dma) never s"
proof -
  have data: "word_of_int (base + 1) = b + 1" using base by simp
  note store = write_register [OF _ data] and look = read_register [OF _ S data]
    and checked = write_checked_rule [OF _ S base] and change = change_register_rule [OF _ S base]
  show ?thesis
    unfolding configure_smc_def wp_thn wp_bnd
    apply (rule select_register [OF assms(1) base], simp)
    apply (rule store, assumption)
    apply (rule checked, assumption, simp)
     prefer 2
     apply (simp add: wp_simps smc_result_failed)
    apply (simp only: wp_if not_True_eq_False if_False wp_thn wp_bnd)
    apply (rule select_next [OF _ base], assumption, simp)
    apply (rule look, assumption)
    apply (rule store, assumption)
    apply (rule read_back_rule [OF _ S base], assumption, simp)
     prefer 2
     apply (simp add: wp_simps smc_result_failed)
    apply (simp only: wp_if not_True_eq_False if_False wp_thn wp_bnd)
    apply (rule checked, assumption, simp)
     prefer 2
     apply (simp add: wp_simps smc_result_failed)
    apply (simp only: wp_if not_True_eq_False if_False wp_thn wp_bnd)
    apply (rule checked, assumption, simp)
     prefer 2
     apply (simp add: wp_simps smc_result_failed)
    apply (simp only: wp_if not_True_eq_False if_False wp_thn wp_bnd)
    apply (rule change, assumption, simp)
    apply (rule change, assumption, simp)
    apply (rule change, assumption, simp)
    apply (rule change, assumption, simp)
    apply (rule change, assumption, simp)
    apply (rule close_chip [OF _ base], erule at_index_open, simp)
    apply (simp add: wp_simps smc_result_def irda_registers_def fun_upd_twist)
    done
qed

text \<open>The calls that must succeed for that: run by root, with permission for the ports, on a known bridge.\<close>

definition runs_as_root :: "chip_system \<Rightarrow> bool" where
  "runs_as_root S \<longleftrightarrow> (\<forall>h. s_int S (h @ [Sys ''getuid'' [] []]) = 0) \<and>
     (\<forall>h port. s_int S (h @ [Sys ''ioperm'' [port, 2, 1] []]) = 0)"

definition has_ich_bridge :: "chip_system \<Rightarrow> bool" where
  "has_ich_bridge S \<longleftrightarrow> (\<forall>h. s_word S h lpc VID = 0x8086 \<and> s_word S h lpc DID \<in> {0x24cc, 0x248c})"

lemma setup_bridge_runs:
  assumes "has_ich_bridge S" and "chip_is b r False r' s"
  shows "wp (setup_bridge S verbose) (\<lambda>ok t. ok \<and> chip_is b r False r' t) never s"
  using assms
  by (auto simp: setup_bridge_def pci_read_word_def pci_write_word_def pci_write_byte_def has_ich_bridge_def wp_simps)

lemma ioperm_rule:
  assumes "runs_as_root S" and "chip_is b r False r' s" and "0 \<le> port" and "port < 65535"
    and "\<And>t. chip_is b r False r' t \<Longrightarrow> permitted t (word_of_int port) \<Longrightarrow>
      permitted t (word_of_int (port + 1)) \<Longrightarrow> Q 0 t"
  shows "wp (ioperm S port 2) Q E s"
proof -
  have "uint (word_of_int port :: u16) = port" "uint (word_of_int (port + 1) :: u16) = port + 1"
    using assms(3,4) by (simp_all add: uint_word_of_int del: of_int_add)
  with assms(1,2) show ?thesis
    by (auto simp: ioperm_def wp_simps Let_def runs_as_root_def simp del: of_int_add intro!: assms(5))
qed

lemma out_closed:
  assumes "chip_is b r False r' s" and "permitted s (word_of_int port)" and "word_of_int port \<noteq> b"
    and "\<And>t. chip_is b r False r' t \<Longrightarrow> permitted t = permitted s \<Longrightarrow> Q () t"
  shows "wp (out_port v port) Q E s"
  using assms(1-3) by (auto simp: out_port_def wp_simps Let_def chip_is_def intro!: assms(4))

lemma in_closed:
  assumes "chip_is b r False r' s" and "smsc_at S b r" and "permitted s (word_of_int port)"
    and "\<And>t. chip_is b r False r' t \<Longrightarrow> Q 0xff t"
  shows "wp (in_port S port) Q E s"
proof -
  have "s_port S (sacts s) (word_of_int port) = 0xff"
    using assms(1,2) by (auto simp: smsc_at_def chip_is_def Let_def)
  then show ?thesis
    using assms(1,3) by (auto simp: in_port_def wp_simps Let_def simp del: of_int_add intro!: assms(4))
qed

lemma find_smc_elsewhere:
  assumes "chip_is b r False r' s" and S: "smsc_at S b r" "runs_as_root S"
    and "word_of_int base \<noteq> b" and "0 \<le> base" and "base < 65535"
    and "\<And>t. chip_is b r False r' t \<Longrightarrow> wp (find_smc S 0xff bases) Q E t"
  shows "wp (find_smc S i (base # bases)) Q E s"
  unfolding find_smc.simps wp_thn wp_bnd
  by (rule ioperm_rule [OF S(2) assms(1,5,6)], rule out_closed [OF _ _ assms(4)], assumption, assumption,
      rule out_closed [OF _ _ assms(4)], assumption, simp, rule in_closed [OF _ S(1)], assumption, simp)
    (simp add: assms(7))

lemma find_smc_here:
  assumes "chip_is b r False r' s" and S: "smsc_at S b r" "runs_as_root S"
    and base: "word_of_int base = b" and "0 \<le> base" and "base < 65535" and "r' 0x0d \<in> {0x5a, 0x7a}"
    and "\<And>t. chip_is b r True r' t \<Longrightarrow> Q (Some base, uint (r' 0x0d)) t"
  shows "wp (find_smc S i (base # bases)) Q E s"
proof -
  have data: "word_of_int (base + 1) = b + 1" using base by simp
  show ?thesis
    unfolding find_smc.simps wp_thn wp_bnd
    by (rule ioperm_rule [OF S(2) assms(1,5,6)], rule open_chip [OF _ _ _ base], assumption, simp add: base,
        simp add: base, simp, rule select_register [OF _ base], assumption, simp,
        rule read_register [OF _ S(1) data], assumption)
      (use assms(7) in \<open>auto simp: wp_simps intro!: assms(8) at_index_open\<close>)
qed

lemma find_smc_finds:
  assumes "chip_is b r False r s" and S: "smsc_at S b r" "runs_as_root S" and "b \<in> {0x2e, 0x4e}"
    and "r 0x0d \<in> {0x5a, 0x7a}"
  shows "wp (find_smc S 0 possible_cfgbase)
    (\<lambda>(chip, i) t. \<exists>p. chip = Some p \<and> word_of_int p = b \<and> chip_is b r True r t) never s"
proof (cases "b = 0x2e")
  case True
  show ?thesis
    unfolding possible_cfgbase_def
    by (rule find_smc_here [OF assms(1) S]) (use assms(5) in \<open>simp_all add: True\<close>)
next
  case False
  then have b: "b = 0x4e" using assms(4) by simp
  show ?thesis
    unfolding possible_cfgbase_def
    by (rule find_smc_elsewhere [OF assms(1) S], simp add: b, simp, simp,
        rule find_smc_here [OF _ S], assumption) (use assms(5) in \<open>simp_all add: b\<close>)
qed

lemma set_smc_result:
  assumes "sacts s = []" and root: "runs_as_root S" and "has_ich_bridge S"
    and b: "b \<in> {0x2e, 0x4e}" and S: "smsc_at S b r" and "r 0x0d \<in> {0x5a, 0x7a}"
    and v: "sir = drop_bit 2 (sir_io AND 0xff8)" "fir = drop_bit 3 (fir_io AND 0xff8)"
  shows "wp (set_smc S sir_io fir_io irq dma verbose) (smc_result b r sir fir irq dma) never s"
proof -
  have closed: "chip_is b r False r (s\<lparr>sacts := sacts s @ [Sys ''getuid'' [] []]\<rparr>)"
    using chip_at_start [OF assms(1)] by simp
  have uid: "(s_int S (sacts (s\<lparr>sacts := sacts s @ [Sys ''getuid'' [] []]\<rparr>)) \<noteq> 0) = False"
    using root by (simp add: runs_as_root_def)
  have conf: "wp (thn (doif verbose (thn (show_text f1 x1) (show_text f2 x2)))
      (configure_smc S p sir fir irq dma verbose)) (smc_result b r sir fir irq dma) never t"
    if "chip_is b r True r t" "word_of_int p = b" for p t f1 x1 f2 x2
    unfolding wp_thn wp_doif wp_texts if_distrib
    by (cases verbose) (use that in \<open>simp_all add: configure_smc_chip [OF _ S that(2)]\<close>)
  have found: "wp (bnd (find_smc S 0 possible_cfgbase) f) (smc_result b r sir fir irq dma) never t"
    if "chip_is b r False r t" and "\<And>p i t. word_of_int p = b \<Longrightarrow> chip_is b r True r t \<Longrightarrow>
      wp (f (Some p, i)) (smc_result b r sir fir irq dma) never t" for f t
    unfolding wp_bnd
    by (rule wp_weaken [OF find_smc_finds [OF that(1) S root b assms(6)]]) (use that(2) in auto)
  show ?thesis
    unfolding set_smc_def Let_def v [symmetric] wp_bnd [of "sys_call _ _ _ _"] wp_sys_call wp_bnd [of "setup_bridge _ _"]
    by (simp only: uid if_False wp_if wp_bnd [of "setup_bridge S verbose"])
      (rule wp_weaken [OF setup_bridge_runs [OF assms(3) closed]], erule conjE,
        simp only: not_True_eq_False if_False, rule found, assumption, simp only: prod.case option.case, rule conf)
qed

text \<open>
  C32. On a machine with a known bridge and an SMSC chip with a known identification at 0x2e or 0x4e, \<open>set_smc\<close>,
  run by root, returns 0 exactly when all four values fit in a byte; then the registers of the chip
  are those of \<open>irda_registers\<close> and they are closed. Otherwise it returns 1 and leaves the
  registers of the chip open.
\<close>

theorem set_smc_configures:
  assumes "sacts s = []" and "runs_as_root S" and "has_ich_bridge S"
    and "base \<in> {0x2e, 0x4e}" and "smsc_at S base r" and "r 0x0d \<in> {0x5a, 0x7a}"
    and "sir = drop_bit 2 (sir_io AND 0xff8)" and "fir = drop_bit 3 (fir_io AND 0xff8)"
  shows "wp (set_smc S sir_io fir_io irq dma verbose)
    (\<lambda>x t. if fits sir \<and> fits irq \<and> fits fir \<and> fits dma
       then x = 0 \<and> chip_is base r False (irda_registers (word_of_int sir) (word_of_int fir) (word_of_int irq)
           (word_of_int dma) r) t
       else x = 1 \<and> (\<exists>r'. chip_is base r True r' t)) never s"
  using set_smc_result [OF assms] by (simp only: smc_result_def [abs_def])

text \<open>A machine with the bridge and the chip.\<close>

definition sample_machine :: "u16 \<Rightarrow> u16 \<Rightarrow> (byte \<Rightarrow> byte) \<Rightarrow> chip_system" where
  "sample_machine did b r = \<lparr>
     s_port = (\<lambda>h p. let c = chip_after b \<lparr>c_open = False, c_index = 0, c_regs = r\<rparr> h
       in if p = b + 1 \<and> c_open c then c_regs c (c_index c) else 0xff),
     s_word = (\<lambda>h dev reg. if reg = 0 then 0x8086 else if reg = 2 then did else 0),
     s_byte = (\<lambda>h dev reg. 0), s_int = (\<lambda>h. 0), s_found = (\<lambda>h v d. None)\<rparr>"

definition sample_registers :: "byte \<Rightarrow> byte" where
  "sample_registers i = (if i = 0x0d then 0x5a else 0)"

lemma sample_machine_works:
  "smsc_at (sample_machine did b r) b r" "runs_as_root (sample_machine did b r)"
  "did \<in> {0x24cc, 0x248c} \<Longrightarrow> has_ich_bridge (sample_machine did b r)"
  by (auto simp: sample_machine_def smsc_at_def runs_as_root_def has_ich_bridge_def)

lemma set_smc_configures_witness:
  "wp (set_smc (sample_machine 0x248c 0x2e sample_registers) 0x3f8 0x130 3 3 False)
    (\<lambda>x t. if fits 0xfe \<and> fits 3 \<and> fits 0x26 \<and> fits 3
       then x = 0 \<and> chip_is 0x2e sample_registers False (irda_registers (word_of_int 0xfe) (word_of_int 0x26)
           (word_of_int 3) (word_of_int 3) sample_registers) t
       else x = 1 \<and> (\<exists>r'. chip_is 0x2e sample_registers True r' t)) never
    \<lparr>sacts = [], permitted = (\<lambda>p. False)\<rparr>"
  by (rule set_smc_configures) (simp_all add: sample_machine_works sample_registers_def)

end
