(* ===== verification/Tosh2450.thy ===== *)
theory Tosh2450
  imports Smcinit
begin

text \<open>
  \<open>smcinit/tosh2450-smcinit.c\<close>: the same set-up with everything fixed, for one laptop with another
  bridge. It does not read back what it writes.
\<close>

abbreviation (input) i82801DB_LPC_DID :: u16 where "i82801DB_LPC_DID \<equiv> 0x24C0"
abbreviation (input) SMC_BASE :: int where "SMC_BASE \<equiv> 0x2e"
abbreviation (input) INTEL_VID :: u16 where "INTEL_VID \<equiv> 0x8086"

definition tosh2450_bridge :: "chip_system \<Rightarrow> bool sm" where
  "tosh2450_bridge S =
    bnd (pci_read_word S lpc VID) (\<lambda>twobyte.
    if twobyte \<noteq> INTEL_VID then
      thn (show_text (ln ''tosh2450-smcinit IO hub vendor %x not Intel (%x)'') [AI (ucast twobyte), AI 0x8086]) (ret False)
    else
    bnd (pci_read_word S lpc DID) (\<lambda>twobyte.
    if twobyte \<noteq> i82801DB_LPC_DID then
      thn (show_text (ln ''tosh2450-smcinit IO hub device %x not supported.'') [AI (ucast twobyte)]) (ret False)
    else
    thn (show_text (ln ''tosh2450-smcinit Found IO hub device 82801DB (%x)'') [AI 0x24C0]) (
    thn (pci_write_byte lpc COM_DEC 0x10) (
    bnd (pci_read_word S lpc LPC_EN) (\<lambda>twobyte.
    thn (pci_write_word lpc LPC_EN ((twobyte AND 0xfffd) OR 0x0001)) (
    bnd (pci_read_word S lpc PCI_DMA_C) (\<lambda>twobyte.
    thn (pci_write_word lpc PCI_DMA_C (twobyte OR 0xc00c)) (
    thn (pci_write_word lpc GEN2_DEC 0x131)
    (ret True)))))))))"

definition tosh2450_chip :: "chip_system \<Rightarrow> int sm" where
  "tosh2450_chip S =
    bnd (ioperm S SMC_BASE 2) (\<lambda>_.
    thn (out_port 0x55 SMC_BASE) (
    thn (out_port 0x0d SMC_BASE) (
    bnd (in_port S (SMC_BASE + 1)) (\<lambda>i.
    if i = 0x5a then
      thn (out_port 0x24 SMC_BASE) (
      thn (out_port 0x00 (SMC_BASE + 1)) (
      thn (out_port 0x25 SMC_BASE) (
      thn (out_port 0xFE (SMC_BASE + 1)) (
      thn (change_register S SMC_BASE 0x28 (\<lambda>i. (i AND 0x00) OR 0x07)) (
      thn (out_port 0x2B SMC_BASE) (
      thn (out_port 0x26 (SMC_BASE + 1)) (
      thn (out_port 0x2C SMC_BASE) (
      thn (out_port 0x01 (SMC_BASE + 1)) (
      thn (change_register S SMC_BASE 0x0C (\<lambda>i. (i AND 0xC7) OR 0x88)) (
      thn (change_register S SMC_BASE 0x07 (\<lambda>i. i OR 0x20)) (
      thn (change_register S SMC_BASE 0x0a (\<lambda>i. i OR 0x40)) (
      thn (change_register S SMC_BASE 0x02 (\<lambda>i. 0x80)) (
      thn (change_register S SMC_BASE 0x00 (\<lambda>i. i OR 0x80)) (
      thn (out_port 0xaa SMC_BASE)
      (ret 0)))))))))))))))
    else
      thn (show_text (ln ''tosh2450-smcinit %x not SMC 47N227 (0x5a).'') [Ii (uint i)]) (ret 1)))))"

definition tosh2450_main :: "chip_system \<Rightarrow> int sm" where
  "tosh2450_main S = bnd (tosh2450_bridge S) (\<lambda>ok. if \<not> ok then ret 1 else tosh2450_chip S)"

section \<open>The same set-up as the general program\<close>

definition has_ich4_bridge :: "chip_system \<Rightarrow> bool" where
  "has_ich4_bridge S \<longleftrightarrow> (\<forall>h. s_word S h lpc VID = INTEL_VID \<and> s_word S h lpc DID = i82801DB_LPC_DID)"

lemma tosh2450_bridge_runs:
  assumes "has_ich4_bridge S" and "chip_is b r False r' s"
  shows "wp (tosh2450_bridge S) (\<lambda>ok t. ok \<and> chip_is b r False r' t) never s"
  using assms
  by (auto simp: tosh2450_bridge_def pci_read_word_def pci_write_word_def pci_write_byte_def has_ich4_bridge_def wp_simps)

lemma tosh2450_chip_runs:
  assumes "chip_is 0x2e r False r s" and S: "smsc_at S 0x2e r" "runs_as_root S" and "r 0x0d = 0x5a"
  shows "wp (tosh2450_chip S) (\<lambda>x t. x = 0 \<and> chip_is 0x2e r False (irda_registers 0xfe 0x26 7 1 r) t) never s"
proof -
  have b: "word_of_int SMC_BASE = (0x2e :: u16)" and data: "word_of_int (SMC_BASE + 1) = (0x2e + 1 :: u16)"
    by simp_all
  note select = select_next [OF _ b] and store = write_register [OF _ data]
    and change = change_register_rule [OF _ S(1) b]
  show ?thesis
    unfolding tosh2450_chip_def wp_thn wp_bnd
    apply (rule ioperm_rule [OF S(2) assms(1)], simp, simp)
    apply (rule open_chip [OF _ _ _ b], assumption, simp, simp, simp)
    apply (rule select_register [OF _ b], assumption, simp)
    apply (rule read_register [OF _ S(1) data], assumption)
    apply (simp only: assms(4) refl if_True word_of_int_numeral wp_if wp_thn)
    apply (rule select, assumption, simp, rule store, assumption)
    apply (rule select, assumption, simp, rule store, assumption)
    apply (rule change, assumption, simp)
    apply (rule select, assumption, simp, rule store, assumption)
    apply (rule select, assumption, simp, rule store, assumption)
    apply (rule change, assumption, simp)+
    apply (rule close_chip [OF _ b], erule at_index_open, simp)
    apply (simp add: wp_simps irda_registers_def fun_upd_twist)
    done
qed

text \<open>
  C33. \<open>tosh2450-smcinit\<close> leaves the chip at 0x2e with the registers with which \<open>smcinit\<close> leaves
  it for the options \<open>--firirq=7 --firdma=1\<close>, each on a machine with a bridge it knows.
\<close>

theorem tosh2450_does_what_smcinit_does:
  assumes "sacts s = []" and "smsc_at S 0x2e r" and "r 0x0d = 0x5a" and "runs_as_root S" and "has_ich4_bridge S"
    and "smsc_at S' 0x2e r" and "runs_as_root S'" and "has_ich_bridge S'"
  shows "wp (tosh2450_main S) (\<lambda>x t. x = 0 \<and> chip_is 0x2e r False (irda_registers 0xfe 0x26 7 1 r) t) never s \<and>
    wp (set_smc S' 0x3f8 0x130 7 1 verbose)
      (\<lambda>x t. x = 0 \<and> chip_is 0x2e r False (irda_registers 0xfe 0x26 7 1 r) t) never s"
proof
  show "wp (tosh2450_main S) (\<lambda>x t. x = 0 \<and> chip_is 0x2e r False (irda_registers 0xfe 0x26 7 1 r) t) never s"
    unfolding tosh2450_main_def wp_bnd
    by (rule wp_weaken [OF tosh2450_bridge_runs [OF assms(5) chip_at_start [where b = "0x2e" and r = r, OF assms(1)]]])
      (use tosh2450_chip_runs [OF _ assms(2,4,3)] in simp)
  show "wp (set_smc S' 0x3f8 0x130 7 1 verbose)
      (\<lambda>x t. x = 0 \<and> chip_is 0x2e r False (irda_registers 0xfe 0x26 7 1 r) t) never s"
    by (rule wp_weaken [OF set_smc_result [where sir = "0xfe" and fir = "0x26", OF assms(1,7,8) _ assms(6)]])
      (simp_all add: assms(3) smc_result_def fits_def)
qed

lemma tosh2450_does_what_smcinit_does_witness:
  "wp (tosh2450_main (sample_machine 0x24C0 0x2e sample_registers))
      (\<lambda>x t. x = 0 \<and> chip_is 0x2e sample_registers False (irda_registers 0xfe 0x26 7 1 sample_registers) t) never
      \<lparr>sacts = [], permitted = (\<lambda>p. False)\<rparr> \<and>
    wp (set_smc (sample_machine 0x248c 0x2e sample_registers) 0x3f8 0x130 7 1 True)
      (\<lambda>x t. x = 0 \<and> chip_is 0x2e sample_registers False (irda_registers 0xfe 0x26 7 1 sample_registers) t) never
      \<lparr>sacts = [], permitted = (\<lambda>p. False)\<rparr>"
  by (rule tosh2450_does_what_smcinit_does)
    (simp_all add: sample_machine_works, simp_all add: sample_registers_def sample_machine_def has_ich4_bridge_def)

end
