(* ===== verification/Tosh1800.thy ===== *)
theory Tosh1800
  imports Smcinit
begin

text \<open>
  \<open>smcinit/tosh1800-smcinit.c\<close>: the set-up of an SMSC 47N227 behind an ALi 1533 bridge, which must be told
  to decode the ports of the chip.
\<close>

abbreviation (input) tosh_prog :: string where "tosh_prog \<equiv> ''tosh1800-smcinit''"
abbreviation (input) tosh_version :: string where "tosh_version \<equiv> ''0.5cvs''"

section \<open>The bridge\<close>

record port_decoding_access_info =
  d_port :: int
  d_reg :: byte
  d_or_mask :: byte

definition ali1533_ports :: "port_decoding_access_info list" where
  "ali1533_ports = [
     \<lparr>d_port = 0x130, d_reg = 0xb0, d_or_mask = 0x80\<rparr>, \<lparr>d_port = 0x178, d_reg = 0xb0, d_or_mask = 0x80\<rparr>,
     \<lparr>d_port = 0x3f8, d_reg = 0xb4, d_or_mask = 0x80\<rparr>, \<lparr>d_port = 0x2f8, d_reg = 0xb4, d_or_mask = 0x30\<rparr>,
     \<lparr>d_port = 0x2e8, d_reg = 0xb4, d_or_mask = 0x08\<rparr>]"

definition find_ali1533_port_access_info :: "int \<Rightarrow> port_decoding_access_info option" where
  "find_ali1533_port_access_info port = find (\<lambda>p. d_port p = port) ali1533_ports"

fun port_status_lines :: "chip_system \<Rightarrow> pci_addr \<Rightarrow> port_decoding_access_info list \<Rightarrow> unit sm" where
  "port_status_lines S dev [] = ret ()"
| "port_status_lines S dev (p # ps) =
    bnd (pci_read_byte S dev (d_reg p)) (\<lambda>onebyte.
    thn (show_text (ln ''port 0x%x %s'')
      [Ii (d_port p), Sl (if onebyte AND d_or_mask p \<noteq> 0 then ''enabled'' else ''disabled'')])
    (port_status_lines S dev ps))"

definition print_ali1533_port_status :: "chip_system \<Rightarrow> pci_addr \<Rightarrow> unit sm" where
  "print_ali1533_port_status S dev =
    thn (show_text (ln ''ALi 1533 Decoding status:'') []) (port_status_lines S dev ali1533_ports)"

definition set_ali1533_port :: "chip_system \<Rightarrow> pci_addr \<Rightarrow> int \<Rightarrow> bool \<Rightarrow> int sm" where
  "set_ali1533_port S dev port decode =
    (case find_ali1533_port_access_info port of
       None \<Rightarrow> ret (-1)
     | Some info \<Rightarrow>
         bnd (pci_read_byte S dev (d_reg info)) (\<lambda>previousval.
         let onebyte = previousval AND NOT (d_or_mask info);
             onebyte = (if decode then onebyte OR d_or_mask info else onebyte) in
         thn (pci_write_byte dev (d_reg info) onebyte)
         (ret (if previousval AND d_or_mask info \<noteq> 0 then 1 else 0))))"

definition decode_port :: "chip_system \<Rightarrow> pci_addr \<Rightarrow> int \<Rightarrow> unit sm" where
  "decode_port S dev port =
    bnd (set_ali1533_port S dev port True) (\<lambda>port_previous_mode.
    if port_previous_mode = 1 then log_text ''port 0x%x was already enabled'' [Ii port]
    else log_text ''enabled decoding of port 0x%x'' [Ii port])"

text \<open>\<open>find_pci_device\<close>: the first device of the scan that the filter of libpci accepts.\<close>

definition find_pci_device :: "chip_system \<Rightarrow> int \<Rightarrow> int \<Rightarrow> pci_addr option sm" where
  "find_pci_device S vendor_id device_id =
    thn (done_so_far (Sys ''pci_scan_bus'' [vendor_id, device_id] []))
    (gets (\<lambda>s. s_found S (sacts s) vendor_id device_id))"

definition configure_ali1533_smc_ports_decoding :: "chip_system \<Rightarrow> int \<Rightarrow> int \<Rightarrow> int \<Rightarrow> int \<Rightarrow> bool \<Rightarrow> bool sm" where
  "configure_ali1533_smc_ports_decoding S vendor_id device_id firbase sirbase print =
    bnd (sys_call S ''pci_alloc'' [] []) (\<lambda>access.
    if access = 0 then ret False else
    bnd (find_pci_device S vendor_id device_id) (\<lambda>found. case found of
      None \<Rightarrow> thn (log_text ''PCI device 0x%x:0x%x not found'' [Ii vendor_id, Ii device_id]) (ret False)
    | Some dev \<Rightarrow>
        thn (if print then print_ali1533_port_status S dev else
               thn (case dev of (pci_bus, pci_dev, func) \<Rightarrow>
                 log_text ''PCI device 0x%x:0x%x found at %02x:%02x:%02x. Configuring:''
                   [Ii vendor_id, Ii device_id, Ii pci_bus, Ii pci_dev, Ii func]) (
               thn (decode_port S dev sirbase) (decode_port S dev firbase))) (
        thn (log_text ''PCI device 0x%x:0x%x. Configuration ended'' [Ii vendor_id, Ii device_id])
        (ret True))))"

section \<open>The chip\<close>

text \<open>\<open>onebyte &= ~0x38 | 0x08\<close>: what is assigned is the old value and the whole right-hand side.\<close>

definition irda_mode :: "byte \<Rightarrow> byte" where
  "irda_mode onebyte = onebyte AND (NOT 0x38 OR 0x08)"

definition ERROR :: "chip_system \<Rightarrow> string \<Rightarrow> unit sm" where
  "ERROR S label = show_text (ln ''%s: %s: %s'') [Sl tosh_prog, Sl label]"

definition configure_47N227_smc_ircc :: "chip_system \<Rightarrow> int \<Rightarrow> int \<Rightarrow> int \<Rightarrow> int \<Rightarrow> int \<Rightarrow> bool sm" where
  "configure_47N227_smc_ircc S cfgbase sirbase firbase dma irq =
    bnd (ioperm S cfgbase 2) (\<lambda>retval.
    if retval = -1 then
      thn (log_text ''failed to obtain ioperm for cfgbase %m'' []) (
      thn (ERROR S ''failed to obtain ioperm for cfgbase'') (ret False))
    else
      thn (out_port 0x55 cfgbase) (
      thn (out_port 0x25 cfgbase) (
      thn (out_port (drop_bit 2 sirbase) (cfgbase + 1)) (
      thn (out_port 0x2b cfgbase) (
      thn (out_port (drop_bit 3 firbase) (cfgbase + 1)) (
      thn (out_port 0x2c cfgbase) (
      thn (out_port (dma AND 0x0f) (cfgbase + 1)) (
      thn (change_register S cfgbase 0x28 (\<lambda>onebyte. (onebyte AND 0xf0) OR word_of_int (irq AND 0x0f))) (
      thn (log_text ''set sirbase=0x%x, firbase=0x%x, dma=%d, irq=%d'' [Ii sirbase, Ii firbase, Ii dma, Ii irq]) (
      thn (change_register S cfgbase 0x0c irda_mode) (
      thn (change_register S cfgbase 0x07 (\<lambda>onebyte. onebyte OR 0x20)) (
      thn (change_register S cfgbase 0x02 (\<lambda>onebyte. onebyte OR 0x80)) (
      thn (log_text ''set UART 2 IR mode to IrDA, auto powerdown on and powered up'' []) (
      thn (change_register S cfgbase 0x00 (\<lambda>onebyte. onebyte OR 0x80)) (
      thn (out_port 0xaa cfgbase)
      (ret True))))))))))))))))"

definition smc_chips :: "(string \<times> byte) list" where
  "smc_chips = [(''LPC47N227'', 0x5a)]"

definition find_smc_chip_model :: "(string \<times> byte) list \<Rightarrow> byte \<Rightarrow> string option" where
  "find_smc_chip_model chips version_id = map_option fst (find (\<lambda>(_, v). v = version_id) chips)"

definition configure_smc_ircc :: "chip_system \<Rightarrow> int \<Rightarrow> int \<Rightarrow> int \<Rightarrow> int \<Rightarrow> int \<Rightarrow> bool sm" where
  "configure_smc_ircc S cfgbase sirbase firbase dma irq =
    bnd (ioperm S cfgbase 2) (\<lambda>retval.
    if retval = -1 then
      thn (log_text ''failed to obtain ioperm for cfgbase %m'' []) (
      thn (ERROR S ''failed to obtain ioperm for cfgbase'') (ret False))
    else
      thn (out_port 0x55 cfgbase) (
      thn (out_port 0x0d cfgbase) (
      bnd (in_port S (cfgbase + 1)) (\<lambda>version_id.
      thn (out_port 0x0e cfgbase) (
      bnd (in_port S (cfgbase + 1)) (\<lambda>revision_id.
      thn (out_port 0xaa cfgbase) (
      case find_smc_chip_model smc_chips version_id of
        Some name \<Rightarrow>
          thn (log_text ''%s chip (ver 0x%x, rev 0x%x) found. Configuring:'' [Sl name, Ib version_id, Ib revision_id]) (
          bnd (configure_47N227_smc_ircc S cfgbase sirbase firbase dma irq) (\<lambda>retval.
          thn (log_text ''%s chip (ver 0x%x, rev 0x%x) configuration %ssuccessfully ended''
            [Sl name, Ib version_id, Ib revision_id, Sl (if retval then [] else ''un'')])
          (ret True)))
      | None \<Rightarrow> thn (log_text ''Unknown chip version 0x%x'' [Ib version_id]) (ret False))))))))"

section \<open>Options and main\<close>

definition tosh_options :: "(string \<times> bool \<times> char) list" where
  "tosh_options = [(''skip-decoding-cfg'', False, CHR ''a''), (''skip-smc-ircc-cfg'', False, CHR ''b''),
     (''vendor'', True, CHR ''v''), (''device'', True, CHR ''x''), (''cfgbase'', True, CHR ''c''),
     (''sirbase'', True, CHR ''s''), (''firbase'', True, CHR ''f''), (''dma'', True, CHR ''m''),
     (''irq'', True, CHR ''i''), (''print'', False, CHR ''p''), (''version'', False, CHR ''V''),
     (''help'', False, CHR ''h'')]"

definition tosh_explications :: "string option list" where
  "tosh_explications = map Some [
     CHR 0x09 # ''skip ISA bridge decoding configuration'', CHR 0x09 # ''skip SMC-IRCC configuration'',
     CHR 0x09 # ''look for the specified ISA bridge PCI vendor id'',
     CHR 0x09 # ''look for the specified ISA bridge PCI device id'',
     CHR 0x09 # ''set SMC-IRCC IO cfgbase address'', CHR 0x09 # ''set SMC-IRCC IO sirbase address'',
     CHR 0x09 # ''set SMC-IRCC IO firbase address'', CHR 0x09 # CHR 0x09 # ''set SMC-IRCC DMA channel'',
     CHR 0x09 # CHR 0x09 # ''set SMC-IRCC IRQ'', CHR 0x09 # CHR 0x09 # ''print ISA bridge configuration'',
     CHR 0x09 # CHR 0x09 # ''show program version'', CHR 0x09 # CHR 0x09 # ''show this help''] @ [None]"

definition tosh_usage :: "unit sm" where
  "tosh_usage =
    thn (show_text (ln (ln (ln ''%s %s %s'' @ ''Usage: %s [options]'') @ ''Options:''))
      [Sl tosh_prog, Sl tosh_version, Sl ''Daniele Peri'', Sl tosh_prog]) (
    thn (option_lines tosh_options tosh_explications)
    (show_text (ln ''Report suggestions and bugs to: %s'') [Sl ''Daniele Peri <peri@csai.unipa.it>'']))"

record tosh_settings =
  t_cfgbase :: int
  t_sirbase :: int
  t_firbase :: int
  t_dma :: int
  t_irq :: int
  t_vendor :: int
  t_device :: int
  t_decode :: bool     \<comment> \<open>ACTION_CONFIG_ALI1533_PORTS_DECODING\<close>
  t_init :: bool       \<comment> \<open>ACTION_INIT_SMC_IRCC\<close>
  t_print :: bool      \<comment> \<open>ACTION_PRINT_ALI1533_CONFIGURATION\<close>

definition tosh_defaults :: tosh_settings where
  "tosh_defaults = \<lparr>t_cfgbase = 0x2e, t_sirbase = 0x2e8, t_firbase = 0x2f8, t_dma = 3, t_irq = 7,
     t_vendor = 0x10b9, t_device = 0x1533, t_decode = True, t_init = True, t_print = False\<rparr>"

text \<open>A number that does not fit in an \<open>int\<close> is cut off; what is behind the digits is ignored.\<close>

definition tosh_number :: "byte list \<Rightarrow> int" where
  "tosh_number arg = sint (ucast (fst (strtoul arg)) :: u32)"

definition tosh_option :: "tosh_settings \<Rightarrow> char \<times> byte list \<Rightarrow> tosh_settings sm" where
  "tosh_option m p = (case p of (c, optarg) \<Rightarrow>
     if c = CHR ''a'' then ret (m\<lparr>t_decode := False\<rparr>)
     else if c = CHR ''b'' then ret (m\<lparr>t_init := False\<rparr>)
     else if c = CHR ''p'' then ret (m\<lparr>t_print := True\<rparr>)
     else if c = CHR ''v'' then ret (m\<lparr>t_vendor := tosh_number optarg\<rparr>)
     else if c = CHR ''x'' then ret (m\<lparr>t_device := tosh_number optarg\<rparr>)
     else if c = CHR ''c'' then ret (m\<lparr>t_cfgbase := tosh_number optarg\<rparr>)
     else if c = CHR ''s'' then ret (m\<lparr>t_sirbase := tosh_number optarg\<rparr>)
     else if c = CHR ''f'' then ret (m\<lparr>t_firbase := tosh_number optarg\<rparr>)
     else if c = CHR ''m'' then ret (m\<lparr>t_dma := tosh_number optarg\<rparr>)
     else if c = CHR ''i'' then ret (m\<lparr>t_irq := tosh_number optarg\<rparr>)
     else if c = CHR ''V'' then thn (show_text (ln ''%s %s'') [Sl tosh_prog, Sl tosh_version]) (stop (Exit 0))
     else if c = CHR ''h'' then thn tosh_usage (stop (Exit 0))
     else ret m)"

fun tosh_option_list :: "tosh_settings \<Rightarrow> (char \<times> byte list) list \<Rightarrow> tosh_settings sm" where
  "tosh_option_list m [] = ret m"
| "tosh_option_list m (p # ps) = bnd (tosh_option m p) (\<lambda>m. tosh_option_list m ps)"

definition tosh_run :: "chip_system \<Rightarrow> tosh_settings \<Rightarrow> unit sm" where
  "tosh_run S m =
    bnd (sys_call S ''getuid'' [] []) (\<lambda>uid.
    if uid \<noteq> 0 then thn (show_text (ln ''%s can only be used by root'') [Sl tosh_prog]) (stop (Exit 1)) else
    thn (doif (t_init m \<or> t_decode m) (log_text ''%s %s %s'' [Sl tosh_prog, Sl tosh_version, Sl ''Daniele Peri''])) (
    bnd (if t_init m then configure_smc_ircc S (t_cfgbase m) (t_sirbase m) (t_firbase m) (t_dma m) (t_irq m)
         else ret False) (\<lambda>retval.
    bnd (if t_decode m \<and> retval then
           configure_ali1533_smc_ports_decoding S (t_vendor m) (t_device m) (t_firbase m) (t_sirbase m) (t_print m)
         else ret retval) (\<lambda>retval.
    stop (Exit (if retval then 0 else 1))))))"

definition tosh_main :: "chip_system \<Rightarrow> (char \<times> byte list) list \<Rightarrow> unit sm" where
  "tosh_main S opts = bnd (tosh_option_list tosh_defaults opts) (tosh_run S)"

section \<open>What the chip is left with\<close>

definition tosh_registers :: "byte \<Rightarrow> byte \<Rightarrow> byte \<Rightarrow> byte \<Rightarrow> (byte \<Rightarrow> byte) \<Rightarrow> (byte \<Rightarrow> byte)" where
  "tosh_registers sir fir irq dma r =
    r(0x25 := sir, 0x2b := fir, 0x2c := dma, 0x28 := (r 0x28 AND 0xf0) OR irq, 0x0c := r 0x0c AND 0xcf,
      0x07 := r 0x07 OR 0x20, 0x02 := r 0x02 OR 0x80, 0x00 := r 0x00 OR 0x80)"

lemma irda_mode_mask: "irda_mode v = v AND 0xcf"
  by (simp add: irda_mode_def byte_eq_iff bit_simps)

lemma tosh_registers_other:
  "i \<notin> {0x00, 0x02, 0x07, 0x0c, 0x25, 0x28, 0x2b, 0x2c} \<Longrightarrow> tosh_registers sir fir irq dma r i = r i"
  by (simp add: tosh_registers_def)

lemma tosh_registers_written:
  "tosh_registers sir fir irq dma r 0x25 = sir" "tosh_registers sir fir irq dma r 0x2b = fir"
  "tosh_registers sir fir irq dma r 0x2c = dma"
  "tosh_registers sir fir irq dma r 0x28 = (r 0x28 AND 0xf0) OR irq"
  "bit (tosh_registers sir fir irq dma r 0x0c) 3 = bit (r 0x0c) 3"
  by (simp_all add: tosh_registers_def bit_simps)

lemma log_with_chip:
  assumes "chip_at_index b r r' i s" and "\<And>t. chip_at_index b r r' i t \<Longrightarrow> Q () t"
  shows "wp (log_text f x) Q E s"
  using assms by (simp add: wp_simps)

lemma configure_47N227_runs:
  assumes "chip_is b r False r s" and S: "smsc_at S b r" "runs_as_root S"
    and base: "word_of_int cfgbase = b" "0 \<le> cfgbase" "cfgbase < 65535"
  shows "wp (configure_47N227_smc_ircc S cfgbase sir fir dma irq)
    (\<lambda>ok t. ok \<and> chip_is b r False (tosh_registers (word_of_int (drop_bit 2 sir)) (word_of_int (drop_bit 3 fir))
      (word_of_int (irq AND 0x0f)) (word_of_int (dma AND 0x0f)) r) t) never s"
proof -
  have data: "word_of_int (cfgbase + 1) = b + 1" using base by simp
  note select = select_next [OF _ base(1)] and store = write_register [OF _ data]
    and change = change_register_rule [OF _ S(1) base(1)]
  show ?thesis
    unfolding configure_47N227_smc_ircc_def wp_thn wp_bnd
    apply (rule ioperm_rule [OF S(2) assms(1) base(2,3)])
    apply (simp only: wp_if zero_neq_neg_one if_False wp_thn)
    apply (rule open_chip [OF _ _ _ base(1)], assumption, simp add: base, simp add: base, simp)
    apply (rule select_register [OF _ base(1)], assumption, simp, rule store, assumption)
    apply (rule select, assumption, simp, rule store, assumption)
    apply (rule select, assumption, simp, rule store, assumption)
    apply (rule change, assumption, simp)
    apply (rule log_with_chip, assumption)
    apply (rule change, assumption, simp)
    apply (rule change, assumption, simp)
    apply (rule change, assumption, simp)
    apply (rule log_with_chip, assumption)
    apply (rule change, assumption, simp)
    apply (rule close_chip [OF _ base(1)], erule at_index_open, simp)
    apply (simp add: wp_simps tosh_registers_def irda_mode_mask fun_upd_twist)
    done
qed

text \<open>
  On an SMSC 47N227 with the ports of its configuration at \<open>cfgbase\<close>, \<open>configure_smc_ircc\<close> run by root
  returns 1 and leaves the registers closed, with bases, channel and interrupt as asked for, the interrupt of the
  other port kept. It does not switch the chip to infrared: of the mode bits in register 0x0c the one that
  means IrDA stays as it was.
\<close>

theorem tosh_keeps_irda_mode_bit:
  assumes "chip_is b r False r s" and "smsc_at S b r" and "runs_as_root S" and "r 0x0d = 0x5a"
    and "word_of_int cfgbase = b" and "0 \<le> cfgbase" and "cfgbase < 65535"
  shows "wp (configure_smc_ircc S cfgbase sirbase firbase dma irq)
    (\<lambda>ok t. ok \<and> (\<exists>r'. chip_is b r False r' t \<and> r' 0x25 = word_of_int (drop_bit 2 sirbase) \<and>
        r' 0x2b = word_of_int (drop_bit 3 firbase) \<and> r' 0x2c = word_of_int (dma AND 0x0f) \<and>
        r' 0x28 = (r 0x28 AND 0xf0) OR word_of_int (irq AND 0x0f) \<and> bit (r' 0x0c) 3 = bit (r 0x0c) 3 \<and>
        (\<forall>i. r' i \<noteq> r i \<longrightarrow> i \<in> {0x00, 0x02, 0x07, 0x0c, 0x25, 0x28, 0x2b, 0x2c}))) never s"
    (is "wp _ ?Q never s")
proof -
  note base = assms(5) and S = assms(2,3)
  have data: "word_of_int (cfgbase + 1) = b + 1" using base by simp
  have model: "find_smc_chip_model smc_chips 0x5a = Some ''LPC47N227''"
    by (simp add: find_smc_chip_model_def smc_chips_def)
  have conf: "wp (configure_47N227_smc_ircc S cfgbase sirbase firbase dma irq) (\<lambda>ok. ?Q True) never t"
    if "chip_is b r False r t" for t
  proof (rule wp_weaken [OF configure_47N227_runs [OF that S base assms(6,7)]])
    let ?r = "tosh_registers (word_of_int (drop_bit 2 sirbase)) (word_of_int (drop_bit 3 firbase))
      (word_of_int (irq AND 0x0f)) (word_of_int (dma AND 0x0f)) r"
    fix ok u assume "ok \<and> chip_is b r False ?r u"
    then show "?Q True u"
      using tosh_registers_other by (intro conjI exI [of _ ?r] TrueI) (simp_all add: tosh_registers_written, blast)
  qed
  show ?thesis
    unfolding configure_smc_ircc_def wp_thn wp_bnd
    apply (rule ioperm_rule [OF S(2) assms(1,6,7)])
    apply (simp only: wp_if zero_neq_neg_one if_False wp_thn wp_bnd)
    apply (rule open_chip [OF _ _ _ base], assumption, simp add: base, simp add: base, simp)
    apply (rule select_register [OF _ base], assumption, simp)
    apply (rule read_register [OF _ S(1) data], assumption)
    apply (rule select_next [OF _ base], assumption, simp)
    apply (rule read_register [OF _ S(1) data], assumption)
    apply (rule close_chip [OF _ base], erule at_index_open, simp)
    apply (simp only: word_of_int_numeral assms(4) model option.case wp_thn wp_bnd wp_texts)
    apply (rule wp_weaken [OF conf], subst chip_quiet, simp, assumption)
    apply (simp add: wp_simps)
    done
qed

section \<open>The bridge\<close>

text \<open>Configuration registers of one byte that keep what is written to them.\<close>

fun bridge_step :: "pci_addr \<Rightarrow> (byte \<Rightarrow> byte) \<Rightarrow> sact \<Rightarrow> (byte \<Rightarrow> byte)" where
  "bridge_step dev r (Pci_put d n reg v) = (if d = dev \<and> n = 1 then r(reg := ucast v) else r)"
| "bridge_step dev r a = r"

definition bridge_after :: "pci_addr \<Rightarrow> (byte \<Rightarrow> byte) \<Rightarrow> sact list \<Rightarrow> (byte \<Rightarrow> byte)" where
  "bridge_after dev r h = foldl (bridge_step dev) r h"

lemma bridge_after_simps [simp]:
  "bridge_after dev r [] = r" "bridge_after dev r (h @ [a]) = bridge_step dev (bridge_after dev r h) a"
  by (simp_all add: bridge_after_def)

lemma bridge_after_two [simp]:
  "bridge_after dev r (h @ [a, b]) = bridge_step dev (bridge_step dev (bridge_after dev r h) a) b"
  "bridge_after dev r (h @ [a, b, c]) = bridge_step dev (bridge_step dev (bridge_step dev (bridge_after dev r h) a) b) c"
  by (simp_all add: bridge_after_def)

definition bridge_at :: "chip_system \<Rightarrow> pci_addr \<Rightarrow> (byte \<Rightarrow> byte) \<Rightarrow> bool" where
  "bridge_at S dev r \<longleftrightarrow> (\<forall>h reg. s_byte S h dev reg = bridge_after dev r h reg)"

lemma ucast_byte_16: "(ucast (ucast (v :: byte) :: u16) :: byte) = v"
  by (rule bit_word_eqI) (auto simp: bit_simps)

lemma decode_port_sets:
  assumes "bridge_at S dev r" and "find_ali1533_port_access_info port = Some info"
  shows "wp (decode_port S dev port)
    (\<lambda>_ t. bridge_after dev r (sacts t) = (let q = bridge_after dev r (sacts s) in
       q(d_reg info := q (d_reg info) OR d_or_mask info))) never s"
proof -
  have m: "(v AND NOT x) OR x = v OR x" for v x :: byte
    by (rule bit_word_eqI) (auto simp: bit_simps)
  show ?thesis
    using assms
    by (auto simp: decode_port_def set_ali1533_port_def pci_read_byte_def pci_write_byte_def wp_simps Let_def
        bridge_at_def ucast_byte_16 m)
qed

text \<open>
  C34. For two ports it knows, \<open>configure_ali1533_smc_ports_decoding\<close> sets the decoding bits of both and changes
  no other bit of the bridge, also when both ports are in the same register, as those it sets by default.
\<close>

theorem both_ports_decoded:
  assumes "bridge_at S dev r" and "sacts s = []"
    and "find_ali1533_port_access_info sirbase = Some i" and "find_ali1533_port_access_info firbase = Some j"
    and "\<And>h. s_int S (h @ [Sys ''pci_alloc'' [] []]) \<noteq> 0" and "\<And>h. s_found S h vendor device = Some dev"
  shows "wp (configure_ali1533_smc_ports_decoding S vendor device firbase sirbase False)
    (\<lambda>ok t. ok \<and> (\<forall>reg. bridge_after dev r (sacts t) reg =
       r reg OR (if reg = d_reg i then d_or_mask i else 0) OR (if reg = d_reg j then d_or_mask j else 0))) never s"
proof -
  define G where "G = (\<lambda>reg. r reg OR (if reg = d_reg i then d_or_mask i else 0) OR (if reg = d_reg j then d_or_mask j else 0))"
  let ?Q = "\<lambda>ok t. ok \<and> bridge_after dev r (sacts t) = G"
  obtain bus slot func where dev: "dev = (bus, slot, func)"
    by (cases dev)
  have ports: "wp (decode_port S dev sirbase) (\<lambda>_. wp (decode_port S dev firbase)
      (\<lambda>_ t. bridge_after dev r (sacts t) = G) never) never t" if "bridge_after dev r (sacts t) = r" for t
    by (rule wp_weaken [OF decode_port_sets [OF assms(1,3)]], rule wp_weaken [OF decode_port_sets [OF assms(1,4)]])
      (auto simp: that Let_def or.assoc G_def fun_eq_iff)
  have rest: "wp (decode_port S dev sirbase) (\<lambda>_. wp (decode_port S dev firbase)
      (\<lambda>_. wp (log_text f x) (\<lambda>_. wp (ret True) ?Q never) never) never) never t"
    if "bridge_after dev r (sacts t) = r" for t f x
    by (rule wp_weaken [OF ports [OF that]], erule wp_weaken) (simp add: wp_simps)
  have "s_int S [Sys ''pci_alloc'' [] []] \<noteq> 0"
    using assms(5) [of "[]"] by simp
  then have "wp (configure_ali1533_smc_ports_decoding S vendor device firbase sirbase False) ?Q never s"
    unfolding configure_ali1533_smc_ports_decoding_def find_pci_device_def wp_bnd wp_sys_call wp_thn
      wp_done_so_far wp_gets wp_if
    using assms(2,6) by (simp add: dev wp_thn wp_texts Let_def) (rule rest [unfolded dev], simp add: bridge_after_def)
  then show ?thesis
    by (rule wp_weaken) (simp add: G_def)
qed

text \<open>
  With the option \<open>-b\<close>, which is to leave out the chip, \<open>tosh1800-smcinit\<close> does nothing at all: it touches
  neither a port nor the bridge, and exits with 1.
\<close>

theorem skip_option_skips_all:
  assumes "sacts s = []" and "s_int S [Sys ''getuid'' [] []] = 0"
  shows "wp (tosh_main S [(CHR ''b'', [])]) (\<lambda>_ _. False)
    (\<lambda>e t. e = Exit 1 \<and> list_all (\<lambda>a. \<exists>f x. a = Note f x \<or> a = Sys ''getuid'' [] []) (sacts t)) s"
  using assms
  by (simp add: tosh_main_def tosh_option_def tosh_defaults_def tosh_run_def wp_simps Let_def)

text \<open>A machine with the chip, and a bridge that keeps its registers.\<close>

definition sample_tosh :: "(byte \<Rightarrow> byte) \<Rightarrow> (byte \<Rightarrow> byte) \<Rightarrow> chip_system" where
  "sample_tosh r q = (sample_machine 0 0x2e r)\<lparr>
     s_byte := (\<lambda>h dev reg. bridge_after dev q h reg), s_found := (\<lambda>h v d. Some (0, 7, 0)),
     s_int := (\<lambda>h. if last h = Sys ''pci_alloc'' [] [] then 1 else 0)\<rparr>"

lemma sample_tosh_works:
  "smsc_at (sample_tosh r q) 0x2e r" "runs_as_root (sample_tosh r q)" "bridge_at (sample_tosh r q) dev q"
  by (simp_all add: sample_tosh_def sample_machine_def smsc_at_def runs_as_root_def bridge_at_def)

lemma tosh_keeps_irda_mode_bit_witness:
  "wp (configure_smc_ircc (sample_tosh sample_registers (\<lambda>_. 0)) 0x2e 0x2e8 0x2f8 3 7)
    (\<lambda>ok t. ok \<and> (\<exists>r'. chip_is 0x2e sample_registers False r' t \<and> r' 0x25 = word_of_int (drop_bit 2 0x2e8) \<and>
        r' 0x2b = word_of_int (drop_bit 3 0x2f8) \<and> r' 0x2c = word_of_int (3 AND 0x0f) \<and>
        r' 0x28 = (sample_registers 0x28 AND 0xf0) OR word_of_int (7 AND 0x0f) \<and>
        bit (r' 0x0c) 3 = bit (sample_registers 0x0c) 3 \<and>
        (\<forall>i. r' i \<noteq> sample_registers i \<longrightarrow> i \<in> {0x00, 0x02, 0x07, 0x0c, 0x25, 0x28, 0x2b, 0x2c}))) never
    \<lparr>sacts = [], permitted = (\<lambda>p. False)\<rparr>"
  by (rule tosh_keeps_irda_mode_bit [OF _ sample_tosh_works(1,2)])
    (simp_all add: chip_at_start sample_registers_def)

lemma both_ports_decoded_witness:
  "wp (configure_ali1533_smc_ports_decoding (sample_tosh sample_registers (\<lambda>_. 0)) 0x10b9 0x1533 0x2f8 0x2e8 False)
    (\<lambda>ok t. ok \<and> (\<forall>reg. bridge_after (0, 7, 0) (\<lambda>_. 0) (sacts t) reg =
       0 OR (if reg = d_reg (ali1533_ports ! 4) then d_or_mask (ali1533_ports ! 4) else 0) OR
         (if reg = d_reg (ali1533_ports ! 3) then d_or_mask (ali1533_ports ! 3) else 0))) never
    \<lparr>sacts = [], permitted = (\<lambda>p. False)\<rparr>"
  by (rule both_ports_decoded [OF sample_tosh_works(3)])
    (simp_all add: find_ali1533_port_access_info_def ali1533_ports_def sample_tosh_def)

lemma skip_option_skips_all_witness:
  "wp (tosh_main (sample_tosh sample_registers (\<lambda>_. 0)) [(CHR ''b'', [])]) (\<lambda>_ _. False)
    (\<lambda>e t. e = Exit 1 \<and> list_all (\<lambda>a. \<exists>f x. a = Note f x \<or> a = Sys ''getuid'' [] []) (sacts t))
    \<lparr>sacts = [], permitted = (\<lambda>p. False)\<rparr>"
  by (rule skip_option_skips_all) (simp_all add: sample_tosh_def)

end
