(* ===== verification/Irdaping.thy ===== *)
theory Irdaping
  imports C_Library
begin

text \<open>
  \<open>irdaping/irdaping.c\<close>: sends a test frame every second and shows the answers with the time they took.
  The alarm that sends a frame interrupts the loop that receives; both work on buffers of their own.
\<close>

section \<open>State\<close>

abbreviation (input) TEST_FRAME :: byte where "TEST_FRAME \<equiv> 0xe3"
abbreviation (input) CMD_FRAME :: byte where "CMD_FRAME \<equiv> 0x01"
abbreviation (input) PF_BIT :: byte where "PF_BIT \<equiv> 0x10"
abbreviation (input) CBROADCAST :: byte where "CBROADCAST \<equiv> 0xfe"

datatype ping_act = Ping_sent int "byte list" | Ping_out string "varg list" | Ping_call string "int list" "byte list list"

record pinger =
  packets :: int
  ping_saddr :: u32
  ping_daddr :: u32
  hwaddr :: "byte list"        \<comment> \<open>\<open>ifr.ifr_hwaddr.sa_data\<close>\<close>
  framelen :: int
  ping_device :: "byte list"   \<comment> \<open>14 bytes\<close>
  ping_buf :: "byte list"      \<comment> \<open>2048 bytes, for the frames sent\<close>
  in_buf :: "byte list"        \<comment> \<open>2048 bytes, of \<open>main\<close>\<close>
  ping_acts :: "ping_act list"

type_synonym 'a pingm = "(pinger, 'a) cm"

text \<open>The machine: its byte order, and the number of bytes of a \<open>long\<close>, of which \<open>struct timeval\<close> has two.\<close>

record machine =
  order :: endian
  long_size :: nat

definition ping_do :: "ping_act \<Rightarrow> unit pingm" where
  "ping_do a = modify (\<lambda>s. s\<lparr>ping_acts := ping_acts s @ [a]\<rparr>)"

text \<open>A number in \<open>n\<close> bytes, least significant first, and back.\<close>

fun le_bytes :: "nat \<Rightarrow> int \<Rightarrow> byte list" where
  "le_bytes 0 v = []"
| "le_bytes (Suc n) v = word_of_int v # le_bytes n (v div 256)"

fun le_value :: "byte list \<Rightarrow> int" where
  "le_value [] = 0"
| "le_value (b # bs) = uint b + 256 * le_value bs"

definition long_bytes :: "machine \<Rightarrow> int \<Rightarrow> byte list" where
  "long_bytes M v = (case order M of Little \<Rightarrow> le_bytes (long_size M) v | Big \<Rightarrow> rev (le_bytes (long_size M) v))"

definition long_value :: "machine \<Rightarrow> byte list \<Rightarrow> int" where
  "long_value M bs = (let v = le_value (case order M of Little \<Rightarrow> bs | Big \<Rightarrow> rev bs); n = 8 * long_size M
     in if v < 2 ^ (n - 1) then v else v - 2 ^ n)"

definition timeval_bytes :: "machine \<Rightarrow> int \<times> int \<Rightarrow> byte list" where
  "timeval_bytes M t = long_bytes M (fst t) @ long_bytes M (snd t)"

text \<open>\<open>sizeof(struct test_frame)\<close>, \<open>sizeof(struct test_info)\<close> and \<open>sizeof(struct timezone)\<close>, which is two \<open>int\<close>s.\<close>

definition test_frame_size :: nat where "test_frame_size = 10"
definition test_info_size :: "machine \<Rightarrow> nat" where "test_info_size M = 2 + 2 * long_size M"
definition timezone_size :: nat where "timezone_size = 8"

section \<open>Sending\<close>

definition ping_cleanup :: "unit pingm" where
  "ping_cleanup =
    thn (ping_do (Ping_out (ln []) [])) (
    bnd (gets packets) (\<lambda>n.
    thn (ping_do (Ping_out (ln ''%d packets received by filter'') [Ii n])) (stop (Exit 0))))"

text \<open>Bytes written to the buffer for sending, which is the last member of its structure.\<close>

definition put_buf :: "nat \<Rightarrow> byte list \<Rightarrow> unit pingm" where
  "put_buf off bs =
    thn (check Oob_write (off + length bs \<le> 2048))
    (modify (\<lambda>s. s\<lparr>ping_buf := take off (ping_buf s) @ bs @ drop (off + length bs) (ping_buf s)\<rparr>))"

text \<open>The handler of the alarm: the time, and whether \<open>sendto\<close> succeeds.\<close>

definition timeout :: "machine \<Rightarrow> int \<times> int \<Rightarrow> bool \<Rightarrow> unit pingm" where
  "timeout M now ok = seqs [
     modify (\<lambda>s. s\<lparr>ping_saddr := word32 (order M) (hwaddr s)\<rparr>),
     put_buf 0 [CBROADCAST OR CMD_FRAME, TEST_FRAME OR PF_BIT],
     bnd (gets ping_saddr) (\<lambda>a. put_buf 2 (bytes32 Little a)),
     bnd (gets ping_daddr) (\<lambda>a. put_buf 6 (bytes32 Little a)),
     bnd (gets packets) (\<lambda>n.
       thn (check Impl_defined (n < 2147483647)) (
       thn (modify (\<lambda>s. s\<lparr>packets := n + 1\<rparr>))
       (put_buf 10 (bytes16 Little (word_of_int n))))),
     put_buf 12 (take timezone_size (timeval_bytes M now)),
     bnd (gets framelen) (\<lambda>len.
       let rest = len - int test_frame_size - int (test_info_size M) in
       put_buf (test_frame_size + test_info_size M) (map of_nat [0..<nat rest])),
     bnd (gets framelen) (\<lambda>len. bnd (gets ping_buf) (\<lambda>buf. ping_do (Ping_sent len (take (nat len) buf)))),
     doif (\<not> ok) (thn (ping_do (Ping_out ''sendto'' [])) (stop (Exit (-1))))]"

section \<open>Receiving\<close>

definition in_byte :: "nat \<Rightarrow> byte pingm" where
  "in_byte i = gets (\<lambda>s. in_buf s ! i)"

definition in_bytes :: "nat \<Rightarrow> nat \<Rightarrow> byte list pingm" where
  "in_bytes i n = gets (\<lambda>s. take n (drop i (in_buf s)))"

text \<open>The difference of two times, as the loop computes it; the result must fit in a \<open>long\<close>.\<close>

definition time_since :: "machine \<Rightarrow> int \<times> int \<Rightarrow> int \<times> int \<Rightarrow> (int \<times> int) pingm" where
  "time_since M now sent =
    (let (sec, usec) = (if snd sent > snd now then (fst now - 1, snd now + 1000000) else now);
         d = (sec - fst sent, usec - snd sent); bound = 2 ^ (8 * long_size M - 1)
     in thn (check Impl_defined (- bound \<le> fst d \<and> fst d < bound \<and> - bound \<le> snd d \<and> snd d < bound)) (ret d))"

definition ping_received :: "machine \<Rightarrow> byte list option \<Rightarrow> int \<times> int \<Rightarrow> unit pingm" where
  "ping_received M r now = (case r of
      None \<Rightarrow> thn (ping_do (Ping_out ''recvfrom'' [])) (stop (Exit (-1)))
    | Some data \<Rightarrow>
        let count = length data in
        thn (modify (\<lambda>s. s\<lparr>in_buf := data @ drop count (in_buf s)\<rparr>)) (
        bnd (in_byte 0) (\<lambda>caddr. bnd (in_byte 1) (\<lambda>control.
        if caddr AND CMD_FRAME \<noteq> 0 \<or> control \<noteq> TEST_FRAME OR PF_BIT then ret ()
        else if count < test_frame_size then ret ()
        else
          thn (ping_do (Ping_out ''%d bytes from '' [Ii (int count)])) (
          bnd (in_bytes 2 4) (\<lambda>saddr.
          thn (ping_do (Ping_out ''0x%08x'' [AI (word32 Little saddr)])) (
          if count < test_frame_size + test_info_size M then ping_do (Ping_out (ln []) [])
          else
            bnd (in_bytes 12 (long_size M)) (\<lambda>sec.
            bnd (in_bytes (12 + long_size M) (long_size M)) (\<lambda>usec.
            bnd (time_since M now (long_value M sec, long_value M usec)) (\<lambda>(dsec, dusec).
            bnd (in_bytes 10 2) (\<lambda>nr.
            thn (ping_do (Ping_out '': irda_seq=%d '' [AI (ucast (word16 Little nr))]))
            (ping_do (Ping_out (ln ''time=%6.2f ms.'') [AMs dsec dusec])))))))))))))"

text \<open>What happens while the program runs: an alarm, a frame or the failure of \<open>recvfrom\<close>, a signal.\<close>

datatype ping_event = Alarm "int \<times> int" bool | Arrived "byte list option" "int \<times> int" | Terminated

fun ping_handle :: "machine \<Rightarrow> ping_event \<Rightarrow> unit pingm" where
  "ping_handle M (Alarm now ok) = timeout M now ok"
| "ping_handle M (Arrived r now) = ping_received M r now"
| "ping_handle M Terminated = ping_cleanup"

section \<open>main\<close>

abbreviation (input) DEV_DEFAULT :: string where "DEV_DEFAULT \<equiv> ''irda0''"

definition ping_usage :: "string" where
  "ping_usage = ln ''Usage: irdaping <daddr> [-s <framesize>] [-i <iface>]''"

text \<open>\<open>strtol(str, NULL, 10)\<close>, which is limited to a \<open>long\<close>, assigned to an \<open>int\<close>.\<close>

definition strtol_int :: "machine \<Rightarrow> byte list \<Rightarrow> int" where
  "strtol_int M str =
    (let bs = dropWhile is_space (cstring str);
         neg = (bs \<noteq> [] \<and> hd bs = of_char CHR ''-'');
         ds = (if bs \<noteq> [] \<and> hd bs \<in> {of_char CHR ''-'', of_char CHR ''+''} then tl bs else bs);
         v = (if neg then - digits_value ds else digits_value ds);
         bound = 2 ^ (8 * long_size M - 1)
     in sint (word_of_int (max (- bound) (min (bound - 1) v)) :: u32))"

definition strtoul_u32 :: "machine \<Rightarrow> byte list \<Rightarrow> u32" where
  "strtoul_u32 M str = (let v = fst (strtoul str) in if long_size M = 4 \<and> 2 ^ 32 \<le> unat v then - 1 else ucast v)"

definition strncpy14 :: "byte list \<Rightarrow> byte list" where
  "strncpy14 t = take 14 (cstring t @ replicate 14 0)"

definition ping_option :: "machine \<Rightarrow> char \<times> byte list \<Rightarrow> unit pingm" where
  "ping_option M p = (case p of (c, optarg) \<Rightarrow>
     if c = CHR ''s'' then modify (\<lambda>s. s\<lparr>framelen := strtol_int M optarg\<rparr>)
     else if c = CHR ''i'' then modify (\<lambda>s. s\<lparr>ping_device := strncpy14 optarg\<rparr>)
     else if c = CHR ''h'' then thn (ping_do (Ping_out ping_usage [])) (stop (Exit (-1)))
     else ret ())"

text \<open>The comparison is one of unsigned numbers: a negative length is not corrected.\<close>

definition correct_framelen :: "machine \<Rightarrow> unit pingm" where
  "correct_framelen M = modify (\<lambda>s. if 0 \<le> framelen s \<and> framelen s < int (12 + 2 * long_size M)
     then s\<lparr>framelen := int (12 + 2 * long_size M)\<rparr> else s)"

definition ping_call :: "(string \<Rightarrow> bool) \<Rightarrow> string \<Rightarrow> string \<Rightarrow> unit pingm" where
  "ping_call works name msg =
    thn (ping_do (Ping_call name [] [])) (
    doif (\<not> works name) (thn (ping_do (Ping_out msg [])) (stop (Exit (-1)))))"

text \<open>
  Up to the loop: which calls succeed, and the hardware address of the interface are arguments. The name of the
  device is read up to its end for the request and for the message.
\<close>

definition ping_main :: "machine \<Rightarrow> (string \<Rightarrow> bool) \<Rightarrow> byte list \<Rightarrow> nat \<Rightarrow> byte list \<Rightarrow> (char \<times> byte list) list \<Rightarrow> unit pingm" where
  "ping_main M works addr argc arg1 opts =
    (if argc < 2 then thn (ping_do (Ping_out ping_usage [])) (stop (Exit (-1))) else
     seqs [
       modify (\<lambda>s. s\<lparr>packets := 0, ping_saddr := 0, hwaddr := replicate 14 0, ping_buf := replicate 2048 0,
         ping_daddr := strtoul_u32 M arg1, framelen := 32, ping_device := strncpy14 (bytes_of DEV_DEFAULT)\<rparr>),
       seqs (map (ping_option M) opts),
       correct_framelen M,
       ping_call works ''socket'' ''socket'',
       ping_call works ''bind'' ''bind'',
       bnd (gets ping_device) (\<lambda>dev. check Oob_read (0 \<in> set dev)),
       ping_call works ''SIOCGIFHWADDR'' ''SIOCGIFHWADDR'',
       modify (\<lambda>s. s\<lparr>hwaddr := addr\<rparr>),
       ping_do (Ping_call ''setitimer'' [1, 0] []),
       bnd (gets (\<lambda>s. (ping_daddr s, ping_device s, framelen s))) (\<lambda>(daddr, dev, len).
         ping_do (Ping_out (ln ''IrDA ping (0x%08x on %s): %d bytes'') [AI daddr, AS (cstring dev), Ii len]))])"

definition ping_run :: "machine \<Rightarrow> ping_event list \<Rightarrow> unit pingm" where
  "ping_run M events = seqs (map (ping_handle M) events)"

section \<open>A frame and its answer\<close>

lemma length_le_bytes [simp]: "length (le_bytes n v) = n"
  by (induction n arbitrary: v) simp_all

lemma le_value_bytes: "le_value (le_bytes n v) = v mod 256 ^ n"
proof (induction n arbitrary: v)
  case (Suc n)
  have "v mod (256 * 256 ^ n) = 256 * (v div 256 mod 256 ^ n) + v mod 256"
    by (rule zmod_zmult2_eq) simp
  with Suc show ?case by (simp add: uint_word_of_int)
qed simp

lemma length_long_bytes [simp]: "length (long_bytes M v) = long_size M"
  by (cases "order M") (simp_all add: long_bytes_def)

lemma long_value_bytes:
  assumes "0 \<le> v" and "v < 2 ^ (8 * long_size M - 1)" and "0 < long_size M"
  shows "long_value M (long_bytes M v) = v"
proof -
  have "v < 2 ^ (8 * long_size M)"
    using assms(2) by (rule less_le_trans) (simp add: power_increasing)
  then have "v mod 256 ^ long_size M = v"
    using assms(1) by (simp add: power_mult)
  then show ?thesis
    using assms by (cases "order M") (simp_all add: long_value_def long_bytes_def le_value_bytes Let_def)
qed

lemma wp_ping_do [wp_simps]: "wp (ping_do a) Q E s = Q () (s\<lparr>ping_acts := ping_acts s @ [a]\<rparr>)"
  by (simp add: ping_do_def wp_simps)

lemma wp_put_buf [wp_simps]:
  "wp (put_buf off bs) Q E s = (if off + length bs \<le> 2048
     then Q () (s\<lparr>ping_buf := take off (ping_buf s) @ bs @ drop (off + length bs) (ping_buf s)\<rparr>) else E Oob_write s)"
  by (simp add: put_buf_def wp_simps)

text \<open>The frame the handler sends; \<open>old\<close> is what is in the buffer before.\<close>

definition ping_frame :: "machine \<Rightarrow> u32 \<Rightarrow> u32 \<Rightarrow> int \<Rightarrow> int \<times> int \<Rightarrow> byte list \<Rightarrow> nat \<Rightarrow> byte list" where
  "ping_frame M saddr daddr n now old len =
    [0xff, 0xf3] @ bytes32 Little saddr @ bytes32 Little daddr @ bytes16 Little (word_of_int n) @
    take 8 (timeval_bytes M now) @ take (2 * long_size M - 8) (drop 20 old) @
    map of_nat [0..<len - 12 - 2 * long_size M]"

lemma length_timeval [simp]: "length (timeval_bytes M t) = 2 * long_size M"
  by (simp add: timeval_bytes_def)

lemma take_prefix: "length xs = n \<Longrightarrow> take n (xs @ ys) = xs"
  by simp

lemma put_next:
  assumes "ping_buf s = P @ drop (length P) old" and "off = length P" and "off + length bs \<le> 2048"
    and "Q () (s\<lparr>ping_buf := (P @ bs) @ drop (length (P @ bs)) old\<rparr>)"
  shows "wp (put_buf off bs) Q E s"
  using assms by (simp add: wp_put_buf add.commute)

lemma timeout_sends:
  assumes "length (ping_buf s) = 2048" and "packets s < 2147483647" and "long_size M \<in> {4, 8}"
    and "int (12 + 2 * long_size M) \<le> framelen s" and "framelen s \<le> 2048"
  shows "wp (timeout M now True)
    (\<lambda>_ t. packets t = packets s + 1 \<and> ping_saddr t = word32 (order M) (hwaddr s) \<and> ping_daddr t = ping_daddr s \<and> in_buf t = in_buf s \<and>
       framelen t = framelen s \<and> hwaddr t = hwaddr s \<and>
       ping_acts t = ping_acts s @ [Ping_sent (framelen s) (ping_frame M (word32 (order M) (hwaddr s)) (ping_daddr s)
         (packets s) now (ping_buf s) (nat (framelen s)))]) never s"
proof -
  obtain len where l: "framelen s = int len"
    using assms(4) by (cases "framelen s") auto
  then have len: "12 + 2 * long_size M \<le> len" "len \<le> 2048"
    using assms(4,5) by linarith+
  let ?old = "ping_buf s" and ?a = "word32 (order M) (hwaddr s)"
  let ?P2 = "[] @ [CBROADCAST OR CMD_FRAME, TEST_FRAME OR PF_BIT]"
  let ?P6 = "?P2 @ bytes32 Little ?a" let ?P10 = "?P6 @ bytes32 Little (ping_daddr s)"
  let ?P12 = "?P10 @ bytes16 Little (word_of_int (packets s))"
  let ?P20 = "?P12 @ take timezone_size (timeval_bytes M now)"
  let ?P = "?P20 @ take (2 * long_size M - 8) (drop 20 ?old)"
  have P: "?P20 @ drop (length ?P20) ?old = ?P @ drop (length ?P) ?old"
    using assms(1,3) append_take_drop_id [of 8 "drop 20 ?old"] by (auto simp: timezone_size_def)
  let ?info = "map word_of_nat [0..<nat (int len - int test_frame_size - int (test_info_size M))]"
  have n: "nat (int len - int test_frame_size - int (test_info_size M)) = len - 12 - 2 * long_size M"
    using len by (simp add: test_frame_size_def test_info_size_def)
  have size_P: "length ?P = 12 + 2 * long_size M"
    using assms(1,3) by (auto simp: timezone_size_def)
  moreover have "12 + 2 * long_size M + length ?info = len"
    using n len by simp
  ultimately have "length (?P @ ?info) = len"
    by (simp only: length_append)
  then have "take len ((?P @ ?info) @ rest) = ?P @ ?info" for rest
    by (rule take_prefix)
  moreover have "?P @ ?info = ping_frame M ?a (ping_daddr s) (packets s) now ?old len"
    by (simp add: n ping_frame_def timezone_size_def)
  ultimately have frame: "take len ((?P @ ?info) @ rest) = ping_frame M ?a (ping_daddr s) (packets s) now ?old len" for rest
    by (simp only:)
  show ?thesis
    unfolding timeout_def wp_seqs_Cons wp_seqs_Nil wp_bnd wp_gets wp_modify wp_thn wp_check Let_def
    apply (rule put_next [of _ "[]" ?old], simp, simp, simp)
    apply (rule put_next [of _ ?P2 ?old], simp, simp, simp)
    apply (rule put_next [of _ ?P6 ?old], simp, simp, simp)
    apply (subst if_P, use assms(2) in simp)
    apply (rule put_next [of _ ?P10 ?old], simp, simp, simp)
    apply (rule put_next [of _ ?P12 ?old], simp, simp, simp add: timezone_size_def)
    apply (rule put_next [of _ ?P ?old])
       apply (use P in simp)
      apply (simp only: size_P, simp add: test_frame_size_def test_info_size_def)
     apply (use l len in \<open>simp add: test_frame_size_def test_info_size_def\<close>)
    apply (use l frame in \<open>simp add: wp_simps\<close>)
    done
qed

section \<open>An answer\<close>

text \<open>The time an answer shows, when it carries the time \<open>sent\<close>.\<close>

definition elapsed :: "int \<times> int \<Rightarrow> int \<times> int \<Rightarrow> int \<times> int" where
  "elapsed now sent = (if snd sent > snd now then (fst now - 1 - fst sent, snd now + 1000000 - snd sent)
     else (fst now - fst sent, snd now - snd sent))"

definition clock_ok :: "int \<times> int \<Rightarrow> bool" where
  "clock_ok t \<longleftrightarrow> 0 \<le> fst t \<and> fst t < 2000000000 \<and> 0 \<le> snd t \<and> snd t < 1000000"

lemma wp_in_byte [wp_simps]: "wp (in_byte i) Q E s = Q (in_buf s ! i) s"
  by (simp add: in_byte_def wp_simps)

lemma wp_in_bytes [wp_simps]: "wp (in_bytes i n) Q E s = Q (take n (drop i (in_buf s))) s"
  by (simp add: in_bytes_def wp_simps)

lemma wp_time_since:
  assumes "clock_ok now" and "clock_ok sent" and "long_size M \<in> {4, 8}"
  shows "wp (time_since M now sent) Q E s = Q (elapsed now sent) s"
  using assms by (auto simp: time_since_def elapsed_def clock_ok_def wp_simps Let_def split: prod.splits)

lemma answer_shown:
  assumes "long_size M \<in> {4, 8}" and "clock_ok now" and "clock_ok sent"
    and "length sec = long_size M" and "length usec = long_size M"
    and "long_value M sec = fst sent" and "long_value M usec = snd sent"
    and "length (in_buf s) = 2048" and "data = [0xfe, 0xf3] @ bytes32 Little a @ bytes32 Little b @ bytes16 Little nr @ sec @ usec @ rest"
    and "length data \<le> 2048"
  shows "wp (ping_received M (Some data) now)
    (\<lambda>_ t. ping_acts t = ping_acts s @ [Ping_out ''%d bytes from '' [Ii (int (length data))], Ping_out ''0x%08x'' [AI a],
       Ping_out '': irda_seq=%d '' [AI (ucast nr)], Ping_out (ln ''time=%6.2f ms.'') [AMs (fst (elapsed now sent)) (snd (elapsed now sent))]]) never s"
proof -
  have n: "12 + 2 * long_size M \<le> length data"
    using assms(4,5,9) by simp
  obtain B where B: "data @ drop (length data) (in_buf s) = B"
    by blast
  have b: "B ! 0 = 0xfe" "B ! Suc 0 = 0xf3"
    and a: "take 4 (drop 2 B) = bytes32 Little a"
    and r: "take 2 (drop 10 B) = bytes16 Little nr"
    and t: "take (long_size M) (drop 12 B) = sec"
    and u: "take (long_size M) (drop (12 + long_size M) B) = usec"
    using assms(1,4,5) unfolding B [symmetric] assms(9) by auto
  have sent: "(long_value M sec, long_value M usec) = sent"
    using assms(6,7) by simp
  obtain d1 d2 where d: "elapsed now sent = (d1, d2)"
    by (cases "elapsed now sent")
  show ?thesis
    using n by (simp add: ping_received_def wp_simps Let_def B b a r t u sent d wp_time_since [OF assms(2,3,1)]
      test_frame_size_def test_info_size_def)
qed

definition time_kept :: "machine \<Rightarrow> int \<times> int \<Rightarrow> int \<times> int" where
  "time_kept M t = (fst t, if long_size M = 8 then 0 else snd t)"

lemma clock_ok_kept: "clock_ok t \<Longrightarrow> clock_ok (time_kept M t)"
  by (simp add: clock_ok_def time_kept_def)

lemma long_value_zero: "long_size M = 8 \<Longrightarrow> long_value M (replicate 8 0) = 0"
  using long_value_bytes [of 0 M] by (cases "order M") (simp_all add: long_bytes_def numeral_eq_Suc)

lemma frame_info:
  assumes "long_size M \<in> {4, 8}" and "clock_ok t" and "long_size M = 8 \<Longrightarrow> take 8 (drop 20 old) = replicate 8 0"
  obtains usec rest where "drop 10 (ping_frame M saddr daddr n t old len) =
      bytes16 Little (word_of_int n) @ long_bytes M (fst t) @ usec @ rest"
    and "length usec = long_size M" and "long_value M usec = snd (time_kept M t)"
    and "length rest = len - 12 - 2 * long_size M"
proof -
  let ?usec = "if long_size M = 8 then replicate 8 0 else long_bytes M (snd t)"
  have "drop 10 (ping_frame M saddr daddr n t old len) = bytes16 Little (word_of_int n) @ long_bytes M (fst t) @ ?usec @
    map of_nat [0..<len - 12 - 2 * long_size M]"
    using assms(1,3) by (auto simp: ping_frame_def timeval_bytes_def)
  moreover have "length ?usec = long_size M"
    by simp
  moreover have "long_value M ?usec = snd (time_kept M t)"
    using assms(1,2) by (auto simp: time_kept_def clock_ok_def long_value_zero long_value_bytes)
  ultimately show thesis
    by (rule that) simp
qed

text \<open>
  The states of a run: the program after \<open>main\<close> has reached its loop, and after each event that it goes on from. A frame that
  arrives is as long as the buffer of \<open>main\<close> at most, the number \<open>recvfrom\<close> is called with.
\<close>

fun fits_in_buf :: "ping_event \<Rightarrow> bool" where
  "fits_in_buf (Arrived (Some data) now) = (length data \<le> 2048)"
| "fits_in_buf _ = True"

inductive ping_reaches :: "machine \<Rightarrow> pinger \<Rightarrow> bool" for M where
  loop_begins: "length (in_buf s0) = 2048 \<Longrightarrow> ping_main M works addr argc arg1 opts s0 = (Inr (), s) \<Longrightarrow> ping_reaches M s"
| handled: "ping_reaches M s \<Longrightarrow> fits_in_buf e \<Longrightarrow> ping_handle M e s = (Inr (), t) \<Longrightarrow> ping_reaches M t"

text \<open>
  What all of them have in common. With longs of eight bytes nothing is ever written to the bytes 20 to 27 of the buffer for
  sending, the place of the microseconds; with longs of four bytes the handler fills these bytes.
\<close>

definition ping_buf_ok :: "machine \<Rightarrow> pinger \<Rightarrow> bool" where
  "ping_buf_ok M s \<longleftrightarrow> length (ping_buf s) = 2048 \<and> length (in_buf s) = 2048 \<and>
     (long_size M = 8 \<longrightarrow> take 8 (drop 20 (ping_buf s)) = replicate 8 0)"

lemma ping_buf_ok_frame [simp]:
  "ping_buf_ok M (s\<lparr>packets := n\<rparr>) = ping_buf_ok M s" "ping_buf_ok M (s\<lparr>ping_saddr := a\<rparr>) = ping_buf_ok M s"
  "ping_buf_ok M (s\<lparr>hwaddr := h\<rparr>) = ping_buf_ok M s" "ping_buf_ok M (s\<lparr>framelen := l\<rparr>) = ping_buf_ok M s"
  "ping_buf_ok M (s\<lparr>ping_device := d\<rparr>) = ping_buf_ok M s" "ping_buf_ok M (s\<lparr>ping_acts := as\<rparr>) = ping_buf_ok M s"
  by (simp_all add: ping_buf_ok_def)

text \<open>The parts of the program keep it and may stop in any way.\<close>

abbreviation ping_keeps :: "machine \<Rightarrow> 'a pingm \<Rightarrow> bool" where
  "ping_keeps M m \<equiv> keeps (ping_buf_ok M) (\<lambda>_ _. True) m"

lemma ping_parts_keep [keeps_rules]:
  "ping_keeps M (ping_do a)" "ping_keeps M (in_byte i)" "ping_keeps M (in_bytes i n)" "ping_keeps M (gets f)"
  "ping_keeps M (check e b)" "ping_keeps M (stop e)" "ping_keeps M (time_since M' now sent)"
  by (auto simp: keeps_def wp_simps time_since_def Let_def split: prod.split)

lemma put_buf_keeps:
  assumes "long_size M = 8 \<Longrightarrow> off + length bs \<le> 20 \<or> 28 \<le> off"
  shows "ping_keeps M (put_buf off bs)"
proof (rule keepsI)
  fix s
  assume s: "ping_buf_ok M s"
  have "take 8 (drop 20 (take off (ping_buf s) @ bs @ drop (off + length bs) (ping_buf s))) = take 8 (drop 20 (ping_buf s))"
    if "long_size M = 8" "off + length bs \<le> 2048"
    using assms [OF that(1)]
  proof
    assume "off + length bs \<le> 20"
    with s show ?thesis by (simp add: ping_buf_ok_def)
  next
    assume "28 \<le> off"
    with s that(2) show ?thesis by (simp add: ping_buf_ok_def drop_take)
  qed
  with s show "wp (put_buf off bs) (\<lambda>_. ping_buf_ok M) (\<lambda>_ _. True) s"
    by (auto simp: wp_put_buf ping_buf_ok_def)
qed

lemma timeout_keeps: "ping_keeps M (timeout M now ok)"
proof -
  have "ping_keeps M (modify (\<lambda>s. s\<lparr>ping_saddr := f s\<rparr>))" "ping_keeps M (modify (\<lambda>s. s\<lparr>packets := n\<rparr>))" for f n
    by (simp_all add: keeps_def wp_simps)
  then show ?thesis
    unfolding timeout_def Let_def
    by (auto intro!: keeps_rules put_buf_keeps simp: timezone_size_def test_frame_size_def test_info_size_def)
qed

lemma ping_received_keeps:
  assumes "fits_in_buf (Arrived r now)"
  shows "ping_keeps M (ping_received M r now)"
proof (cases r)
  case None
  then show ?thesis
    by (auto simp: ping_received_def intro!: keeps_rules)
next
  case (Some data)
  then have "ping_keeps M (modify (\<lambda>s. s\<lparr>in_buf := data @ drop (length data) (in_buf s)\<rparr>))"
    using assms by (simp add: keeps_def wp_simps ping_buf_ok_def)
  then show ?thesis
    using Some by (auto simp: ping_received_def Let_def intro!: keeps_rules split: prod.split)
qed

lemma ping_main_starts:
  assumes "length (in_buf s) = 2048"
  shows "wp (ping_main M works addr argc arg1 opts) (\<lambda>_. ping_buf_ok M) (\<lambda>_ _. True) s"
proof -
  have "ping_keeps M (ping_option M p)" for p
    by (auto simp: keeps_def ping_option_def wp_simps split: prod.split)
  then have opts: "ping_keeps M (seqs (map (ping_option M) opts))"
    by (intro keeps_seqs) auto
  have "ping_keeps M (correct_framelen M)" "ping_keeps M (ping_call works name msg)"
    "ping_keeps M (modify (\<lambda>s. s\<lparr>hwaddr := addr\<rparr>))" for name msg
    by (simp_all add: keeps_def correct_framelen_def ping_call_def wp_simps)
  then have rest: "ping_keeps M (seqs [seqs (map (ping_option M) opts), correct_framelen M,
      ping_call works ''socket'' ''socket'', ping_call works ''bind'' ''bind'',
      bnd (gets ping_device) (\<lambda>dev. check Oob_read (0 \<in> set dev)),
      ping_call works ''SIOCGIFHWADDR'' ''SIOCGIFHWADDR'', modify (\<lambda>s. s\<lparr>hwaddr := addr\<rparr>),
      ping_do (Ping_call ''setitimer'' [1, 0] []),
      bnd (gets (\<lambda>s. (ping_daddr s, ping_device s, framelen s))) (\<lambda>(daddr, dev, len).
        ping_do (Ping_out (ln ''IrDA ping (0x%08x on %s): %d bytes'') [AI daddr, AS (cstring dev), Ii len]))])"
    using opts by (auto intro!: keeps_rules split: prod.split)
  show ?thesis
  proof (cases "argc < 2")
    case True
    then show ?thesis by (simp add: ping_main_def wp_simps)
  next
    case False
    then show ?thesis
      unfolding ping_main_def
      by (simp only: if_False wp_seqs_Cons [of "modify f" for f] wp_modify)
        (rule keepsD [OF rest], simp add: ping_buf_ok_def assms)
  qed
qed

theorem ping_reaches_ok: "ping_reaches M s \<Longrightarrow> ping_buf_ok M s"
proof (induction rule: ping_reaches.induct)
  case (loop_begins s0 works addr argc arg1 opts s)
  from wp_returned [OF ping_main_starts [OF this(1)] this(2)] show ?case .
next
  case (handled s e t)
  have "ping_keeps M (ping_handle M e)"
    using handled.hyps(2) by (cases e) (auto simp: ping_cleanup_def intro!: timeout_keeps ping_received_keeps keeps_rules)
  from wp_returned [OF keepsD [OF this handled.IH] handled.hyps(3)] show ?case .
qed

text \<open>
  C35. At any point of a run, after any events, on a machine with longs of four or of eight bytes: the frame that the alarm
  sends is answered by what the frame carries behind its addresses. The answer is shown with its length, the
  address of the answering device, the number of the frame and the time since the frame was sent, where a frame
  carries the microseconds of its time only on a machine whose \<open>long\<close> has four bytes: the handler copies
  the size of a \<open>struct timezone\<close>, and on a machine with longs of eight bytes the time shown starts at the
  full second in which the frame was sent. The frame length is one that fits in the buffer of 2048 bytes, the
  counter of the frames has not reached the largest \<open>int\<close>, the clock shows times up to the second 2000000000, and
  \<open>sendto\<close> succeeds.
\<close>

theorem answer_shows_time:
  assumes "ping_reaches M s"
    and "long_size M \<in> {4, 8}" and "packets s < 2147483647"
    and "int (12 + 2 * long_size M) \<le> framelen s" and "framelen s \<le> 2048"
    and "clock_ok sent" and "clock_ok now"
    and "frame = ping_frame M (word32 (order M) (hwaddr s)) (ping_daddr s) (packets s) sent (ping_buf s) (nat (framelen s))"
  shows "wp (thn (timeout M sent True) (ping_received M (Some ([0xfe, 0xf3] @ bytes32 Little a @ bytes32 Little b @ drop 10 frame)) now))
    (\<lambda>_ t. ping_acts t = ping_acts s @
      [Ping_sent (framelen s) frame, Ping_out ''%d bytes from '' [Ii (framelen s)], Ping_out ''0x%08x'' [AI a],
       Ping_out '': irda_seq=%d '' [AI (ucast (word_of_int (packets s) :: u16))],
       Ping_out (ln ''time=%6.2f ms.'') [AMs (fst (elapsed now (time_kept M sent))) (snd (elapsed now (time_kept M sent)))]]) never s"
proof -
  have ok: "length (ping_buf s) = 2048" "length (in_buf s) = 2048" "long_size M = 8 \<Longrightarrow> take 8 (drop 20 (ping_buf s)) = replicate 8 0"
    using ping_reaches_ok [OF assms(1)] by (simp_all add: ping_buf_ok_def)
  obtain usec rest where info: "drop 10 frame = bytes16 Little (word_of_int (packets s)) @ long_bytes M (fst sent) @ usec @ rest"
    and usec: "length usec = long_size M" "long_value M usec = snd (time_kept M sent)"
    and rest: "length rest = nat (framelen s) - 12 - 2 * long_size M"
    unfolding assms(8) by (rule frame_info [OF assms(2,6) ok(3)])
  let ?data = "[0xfe, 0xf3] @ bytes32 Little a @ bytes32 Little b @ drop 10 frame"
  have data: "?data = [0xfe, 0xf3] @ bytes32 Little a @ bytes32 Little b @
      bytes16 Little (word_of_int (packets s)) @ long_bytes M (fst sent) @ usec @ rest"
    by (simp add: info)
  have len: "int (length ?data) = framelen s"
    unfolding data using usec rest assms(4) by simp
  have sec: "long_value M (long_bytes M (fst sent)) = fst (time_kept M sent)"
    using assms(2,6) by (auto simp: time_kept_def clock_ok_def long_value_bytes)
  show ?thesis
    unfolding wp_thn
  proof (rule wp_weaken [OF timeout_sends [OF ok(1) assms(3,2,4,5)]], elim conjE)
    fix t :: pinger
    assume t: "in_buf t = in_buf s" "ping_acts t = ping_acts s @ [Ping_sent (framelen s)
      (ping_frame M (word32 (order M) (hwaddr s)) (ping_daddr s) (packets s) sent (ping_buf s) (nat (framelen s)))]"
    show "wp (ping_received M (Some ?data) now) (\<lambda>_ t. ping_acts t = ping_acts s @
      [Ping_sent (framelen s) frame, Ping_out ''%d bytes from '' [Ii (framelen s)], Ping_out ''0x%08x'' [AI a],
       Ping_out '': irda_seq=%d '' [AI (ucast (word_of_int (packets s) :: u16))],
       Ping_out (ln ''time=%6.2f ms.'') [AMs (fst (elapsed now (time_kept M sent))) (snd (elapsed now (time_kept M sent)))]]) never t"
      by (rule wp_weaken [OF answer_shown [OF assms(2,7) clock_ok_kept [OF assms(6)] _ usec(1) sec usec(2) _ data]])
        (use ok(2) assms(5) len t in \<open>simp_all add: assms(8)\<close>)
  qed
qed

text \<open>The second frame on a machine with longs of four bytes, where the handler has written to the bytes 20 to 27 before.\<close>

definition ilp32_machine :: machine where "ilp32_machine = \<lparr>order = Little, long_size = 4\<rparr>"

text \<open>A machine with longs of eight bytes, and a state of the program on it after three frames.\<close>

definition lp64_machine :: machine where "lp64_machine = \<lparr>order = Little, long_size = 8\<rparr>"

definition example_pinger :: pinger where
  "example_pinger = \<lparr>packets = 3, ping_saddr = 0, ping_daddr = 5, hwaddr = replicate 14 7, framelen = 32, ping_device = [],
     ping_buf = replicate 2048 0, in_buf = replicate 2048 0, ping_acts = []\<rparr>"

lemma second_frame_reached:
  obtains s where "ping_reaches ilp32_machine s" and "packets s = 1" and "framelen s = 32" and "hwaddr s = replicate 14 7"
proof -
  have [simp]: "0 \<in> set (strncpy14 (bytes_of DEV_DEFAULT))"
    by code_simp
  have "wp (ping_main ilp32_machine (\<lambda>_. True) (replicate 14 7) 2 (bytes_of ''5'') [])
      (\<lambda>_ t. framelen t = 32 \<and> packets t = 0 \<and> hwaddr t = replicate 14 7) never example_pinger"
    by (simp add: ping_main_def correct_framelen_def ping_call_def wp_simps ilp32_machine_def)
  then obtain u t where t: "ping_main ilp32_machine (\<lambda>_. True) (replicate 14 7) 2 (bytes_of ''5'') [] example_pinger = (Inr u, t)"
    and v: "framelen t = 32" "packets t = 0" "hwaddr t = replicate 14 7"
    by (blast dest: wp_neverD)
  have first: "ping_reaches ilp32_machine t"
    by (rule loop_begins [OF _ t [unfolded unit_eq [of u]]]) (simp add: example_pinger_def)
  have "wp (timeout ilp32_machine (8, 0) True) (\<lambda>_ t'. packets t' = 1 \<and> framelen t' = 32 \<and> hwaddr t' = hwaddr t) never t"
    by (rule wp_weaken [OF timeout_sends])
      (use ping_reaches_ok [OF first] v in \<open>simp_all add: ping_buf_ok_def ilp32_machine_def\<close>)
  then obtain u' s where s: "timeout ilp32_machine (8, 0) True t = (Inr u', s)"
    and "packets s = 1" "framelen s = 32" "hwaddr s = hwaddr t"
    by (blast dest: wp_neverD)
  moreover have "ping_reaches ilp32_machine s"
    by (rule handled [OF first, of "Alarm (8, 0) True"]) (use s in simp_all)
  ultimately show thesis
    using that v(3) by simp
qed

lemma answer_shows_time_witness:
  "\<exists>s. packets s = 1 \<and> wp (thn (timeout ilp32_machine (9, 700000) True) (ping_received ilp32_machine (Some ([0xfe, 0xf3] @ bytes32 Little 1 @
      bytes32 Little 2 @ drop 10 (ping_frame ilp32_machine (word32 (order ilp32_machine) (hwaddr s)) (ping_daddr s)
        (packets s) (9, 700000) (ping_buf s) (nat (framelen s))))) (9, 800000)))
    (\<lambda>_ t. last (ping_acts t) = Ping_out (ln ''time=%6.2f ms.'') [AMs 0 100000]) never s"
proof -
  obtain s where s: "ping_reaches ilp32_machine s" "packets s = 1" "framelen s = 32" "hwaddr s = replicate 14 7"
    by (rule second_frame_reached)
  show ?thesis
    by (intro exI [of _ s] conjI s(2), rule wp_weaken [OF answer_shows_time [OF s(1)]])
      (simp_all add: s ilp32_machine_def clock_ok_def elapsed_def time_kept_def)
qed

text \<open>A command, or a frame other than the answer to a test, is passed over in silence, and so is a short frame.\<close>

lemma other_frames_silent:
  assumes "2 \<le> length data" and "data ! 0 AND CMD_FRAME \<noteq> 0 \<or> data ! 1 \<noteq> TEST_FRAME OR PF_BIT \<or> length data < 10"
  shows "wp (ping_received M (Some data) now) (\<lambda>_ t. ping_acts t = ping_acts s) never s"
  using assms by (auto simp: ping_received_def wp_simps Let_def nth_append test_frame_size_def)

text \<open>
  The length of a frame is bounded from below only: whatever the other arguments, with \<open>-s\<close> and a
  number above 2048 the first alarm writes behind the buffer of the frames.
\<close>

theorem long_frame_overruns:
  assumes "2048 < strtol_int M str" and "2 \<le> argc" and "length addr = 14" and "long_size M \<in> {4, 8}"
  shows "wp (thn (ping_main M (\<lambda>_. True) addr argc arg1 [(CHR ''s'', str)]) (timeout M now ok)) (\<lambda>_ _. False) (\<lambda>e _. e = Oob_write) s"
proof -
  have [simp]: "0 \<in> set (strncpy14 (bytes_of DEV_DEFAULT))"
    by code_simp
  have m: "wp (ping_main M (\<lambda>_. True) addr argc arg1 [(CHR ''s'', str)])
      (\<lambda>_ t. framelen t = strtol_int M str \<and> packets t = 0) never s"
    using assms(1,2,4) by (auto simp: ping_main_def ping_option_def correct_framelen_def ping_call_def wp_simps)
  have "wp (timeout M now ok) (\<lambda>_ _. False) (\<lambda>e _. e = Oob_write) t" if "framelen t = strtol_int M str" "packets t = 0" for t
    using that assms(1,4) by (auto simp: timeout_def wp_simps Let_def test_frame_size_def test_info_size_def timezone_size_def)
  then show ?thesis
    unfolding wp_thn by (intro wp_mono [OF m]) auto
qed

lemma long_frame_overruns_witness:
  "wp (thn (ping_main lp64_machine (\<lambda>_. True) (replicate 14 0) 4 [] [(CHR ''s'', bytes_of ''3000'')])
    (timeout lp64_machine (1, 0) True)) (\<lambda>_ _. False) (\<lambda>e _. e = Oob_write)
    example_pinger"
proof -
  have "2048 < strtol_int lp64_machine (bytes_of ''3000'')"
    by code_simp
  then show ?thesis
    by (rule long_frame_overruns) (simp_all add: lp64_machine_def)
qed

end
