(* ===== verification/Net_Calls.thy ===== *)
theory Net_Calls
  imports C_Library
begin

text \<open>
  What the programs of \<open>irsockets/\<close> share: calls of the system on infrared sockets, kept in a
  history, and what the system answers as a function of it.
\<close>

section \<open>Calls\<close>

abbreviation (input) IAS_INTEGER :: u32 where "IAS_INTEGER \<equiv> 1"
abbreviation (input) IAS_OCT_SEQ :: u32 where "IAS_OCT_SEQ \<equiv> 2"
abbreviation (input) IAS_STRING :: u32 where "IAS_STRING \<equiv> 3"
abbreviation (input) IAS_MISSING :: u32 where "IAS_MISSING \<equiv> 0"

text \<open>A system call with its integer and string arguments; \<open>printf\<close>; a line on the error output; \<open>perror\<close>.\<close>

datatype net_act =
    Net string "int list" "byte list list"
  | Net_out string "varg list"
  | Net_err string "varg list"
  | Net_perror string

record net =
  net_buf :: "byte list"
  net_acts :: "net_act list"

text \<open>
  \<open>net_answer\<close> is the result of the last call, \<open>net_data\<close> what it stores, \<open>net_junk\<close> the content of
  a local variable that was not initialised, \<open>net_scan\<close> the number that \<open>scanf\<close> stores.
\<close>

record net_system =
  net_answer :: "net_act list \<Rightarrow> int"
  net_errno :: "net_act list \<Rightarrow> int"
  net_data :: "net_act list \<Rightarrow> byte list"
  net_clock :: "net_act list \<Rightarrow> int \<times> int"
  net_scan :: "net_act list \<Rightarrow> int option"
  net_junk :: "net_act list \<Rightarrow> nat \<Rightarrow> byte"
  net_order :: endian

type_synonym ('x, 'a) nm = "('x net_scheme, 'a) cm"

definition net_do :: "net_act \<Rightarrow> ('x, unit) nm" where
  "net_do a = modify (\<lambda>s. s\<lparr>net_acts := net_acts s @ [a]\<rparr>)"

definition net_ask :: "(net_act list \<Rightarrow> 'a) \<Rightarrow> ('x, 'a) nm" where
  "net_ask f = gets (\<lambda>s. f (net_acts s))"

definition net_call :: "net_system \<Rightarrow> string \<Rightarrow> int list \<Rightarrow> byte list list \<Rightarrow> ('x, int) nm" where
  "net_call K name ints strs = thn (net_do (Net name ints strs)) (net_ask (net_answer K))"

definition net_say :: "string \<Rightarrow> varg list \<Rightarrow> ('x, unit) nm" where
  "net_say fmt args = net_do (Net_out fmt args)"

definition net_fail :: "string \<Rightarrow> ('x, unit) nm" where
  "net_fail what = net_do (Net_perror what)"

text \<open>A local variable of \<open>n\<close> bytes, and the name of a service in 25 bytes.\<close>

definition net_local :: "net_system \<Rightarrow> nat \<Rightarrow> ('x, byte list) nm" where
  "net_local K n = net_ask (\<lambda>h. map (net_junk K h) [0..<n])"

definition service :: "string \<Rightarrow> byte list" where
  "service name = take 25 (bytes_of name @ replicate 25 0)"

text \<open>\<open>recv\<close> or \<open>read\<close> with the whole buffer: -1, or the number of bytes stored.\<close>

definition net_receive :: "net_system \<Rightarrow> string \<Rightarrow> int \<Rightarrow> ('x, int) nm" where
  "net_receive K name fd = bnd (gets net_buf) (\<lambda>buf.
     bnd (net_call K name [fd, int (length buf)] []) (\<lambda>r.
     if r < 0 then ret (-1)
     else bnd (net_ask (net_data K)) (\<lambda>data. let bs = take (min (nat r) (length buf)) data in
       thn (modify (\<lambda>s. s\<lparr>net_buf := bs @ drop (length bs) buf\<rparr>)) (ret (int (length bs))))))"

section \<open>The list of devices\<close>

text \<open>
  \<open>buf\<close> of \<open>DISC_BUF_LEN\<close> bytes: the number of devices, then 36 bytes for each, with \<open>daddr\<close> at 4
  and the name at 8. The structure has one device, and ten are added.
\<close>

abbreviation (input) DISC_MAX_DEVICES :: nat where "DISC_MAX_DEVICES \<equiv> 10"

definition disc_buf_len :: nat where
  "disc_buf_len = 40 + 36 * DISC_MAX_DEVICES"

definition enum_devices :: "net_system \<Rightarrow> int \<Rightarrow> ('x, byte list option) nm" where
  "enum_devices K fd =
    bnd (net_local K disc_buf_len) (\<lambda>buf.
    bnd (net_call K ''getsockopt IRLMP_ENUMDEVICES'' [fd, int disc_buf_len] []) (\<lambda>r.
    if r \<noteq> 0 then ret None
    else bnd (net_ask (net_data K)) (\<lambda>data. let bs = take disc_buf_len data in
      ret (Some (bs @ drop (length bs) buf)))))"

definition disc_len :: "net_system \<Rightarrow> byte list \<Rightarrow> u32" where
  "disc_len K buf = word32 (net_order K) buf"

text \<open>\<open>list->dev[i].daddr\<close> and \<open>list->dev[i].info\<close>\<close>

definition disc_daddr :: "net_system \<Rightarrow> byte list \<Rightarrow> int \<Rightarrow> ('x, u32) nm" where
  "disc_daddr K buf i = thn (check Oob_read (0 \<le> i \<and> i \<le> int DISC_MAX_DEVICES))
     (ret (word32 (net_order K) (drop (nat (8 + 36 * i)) buf)))"

definition disc_info :: "byte list \<Rightarrow> int \<Rightarrow> ('x, byte list) nm" where
  "disc_info buf i = (let info = drop (nat (12 + 36 * i)) buf in
     thn (check Oob_read (0 \<le> i \<and> i \<le> int DISC_MAX_DEVICES \<and> 0 \<in> set info)) (ret (cstring info)))"

section \<open>A query of the IAS database\<close>

text \<open>
  The structure \<open>irda_ias_set\<close> as its 1356 bytes: class name, attribute name, type, a union of an integer, of an
  octet sequence and of a string (length, character set, bytes), and an address.
\<close>

definition ias_size :: nat where "ias_size = 1356"
definition ias_class_at :: nat where "ias_class_at = 0"
definition ias_attr_at :: nat where "ias_attr_at = 64"
definition ias_type_at :: nat where "ias_type_at = 320"
definition ias_value_at :: nat where "ias_value_at = 324"
definition ias_string_at :: nat where "ias_string_at = 326"
definition ias_daddr_at :: nat where "ias_daddr_at = 1352"

definition poked :: "nat \<Rightarrow> byte list \<Rightarrow> byte list \<Rightarrow> byte list" where
  "poked at bs q = take at q @ bs @ drop (at + length bs) q"

definition string_to :: "nat \<Rightarrow> string \<Rightarrow> byte list \<Rightarrow> byte list" where
  "string_to at t = poked at (bytes_of t @ [0])"

definition ias_word :: "net_system \<Rightarrow> nat \<Rightarrow> byte list \<Rightarrow> u32" where
  "ias_word K at q = word32 (net_order K) (drop at q)"

section \<open>Weakest preconditions\<close>

lemma wp_net_do [wp_simps]: "wp (net_do a) Q E s = Q () (s\<lparr>net_acts := net_acts s @ [a]\<rparr>)"
  by (simp add: net_do_def wp_simps)

lemma wp_net_ask [wp_simps]: "wp (net_ask f) Q E s = Q (f (net_acts s)) s"
  by (simp add: net_ask_def wp_simps)

lemma wp_net_call [wp_simps]:
  "wp (net_call K name ints strs) Q E s = (let h = net_acts s @ [Net name ints strs] in
     Q (net_answer K h) (s\<lparr>net_acts := h\<rparr>))"
  by (simp add: net_call_def wp_simps Let_def)

lemma wp_net_say [wp_simps]: "wp (net_say fmt args) Q E s = Q () (s\<lparr>net_acts := net_acts s @ [Net_out fmt args]\<rparr>)"
  by (simp add: net_say_def wp_simps)

lemma wp_net_fail [wp_simps]: "wp (net_fail what) Q E s = Q () (s\<lparr>net_acts := net_acts s @ [Net_perror what]\<rparr>)"
  by (simp add: net_fail_def wp_simps)

lemma wp_net_local [wp_simps]: "wp (net_local K n) Q E s = Q (map (net_junk K (net_acts s)) [0..<n]) s"
  by (simp add: net_local_def wp_simps)

lemma wp_net_receive [wp_simps]:
  "wp (net_receive K name fd) Q E s = (let h = net_acts s @ [Net name [fd, int (length (net_buf s))] []];
       bs = take (min (nat (net_answer K h)) (length (net_buf s))) (net_data K h) in
     if net_answer K h < 0 then Q (-1) (s\<lparr>net_acts := h\<rparr>)
     else Q (int (length bs)) (s\<lparr>net_acts := h, net_buf := bs @ drop (length bs) (net_buf s)\<rparr>))"
  by (simp add: net_receive_def wp_simps Let_def)

lemma wp_disc_daddr [wp_simps]:
  "wp (disc_daddr K buf i) Q E s = (if 0 \<le> i \<and> i \<le> 10 then Q (word32 (net_order K) (drop (nat (8 + 36 * i)) buf)) s
     else E Oob_read s)"
  by (simp add: disc_daddr_def wp_simps)

lemma wp_disc_info [wp_simps]:
  "wp (disc_info buf i) Q E s = (let info = drop (nat (12 + 36 * i)) buf in
     if 0 \<le> i \<and> i \<le> 10 \<and> 0 \<in> set info then Q (cstring info) s else E Oob_read s)"
  by (simp add: disc_info_def wp_simps Let_def)

section \<open>Histories\<close>

text \<open>The string arguments of the calls with a name, and how many calls there were.\<close>

fun strings_to :: "string \<Rightarrow> net_act \<Rightarrow> byte list list" where
  "strings_to name (Net n ints strs) = (if n = name then strs else [])"
| "strings_to name a = []"

definition given :: "string \<Rightarrow> net_act list \<Rightarrow> byte list list" where
  "given name h = concat (map (strings_to name) h)"

definition is_call :: "string \<Rightarrow> net_act \<Rightarrow> bool" where
  "is_call name a = (case a of Net n _ _ \<Rightarrow> n = name | _ \<Rightarrow> False)"

definition calls_of :: "string \<Rightarrow> net_act list \<Rightarrow> nat" where
  "calls_of name h = length (filter (is_call name) h)"

lemma given_simps [simp]:
  "given name [] = []" "given name (h @ h') = given name h @ given name h'" "given name (a # h) = strings_to name a @ given name h"
  by (simp_all add: given_def)

lemma calls_of_simps [simp]:
  "calls_of name [] = 0" "calls_of name (h @ h') = calls_of name h + calls_of name h'"
  "calls_of name (a # h) = (if is_call name a then 1 else 0) + calls_of name h"
  by (simp_all add: calls_of_def)

lemma is_call_simps [simp]:
  "is_call name (Net n is ss) = (n = name)" "is_call name (Net_out f as) = False"
  "is_call name (Net_err f as) = False" "is_call name (Net_perror w) = False"
  by (simp_all add: is_call_def)

lemma is_call_other: "is_call m a \<Longrightarrow> m \<noteq> n \<Longrightarrow> \<not> is_call n a"
  by (cases a) simp_all

text \<open>A system that always answers the same, for examples.\<close>

definition constant_net :: "int \<Rightarrow> byte list \<Rightarrow> net_system" where
  "constant_net a data = \<lparr>net_answer = (\<lambda>_. a), net_errno = (\<lambda>_. 0), net_data = (\<lambda>_. data), net_clock = (\<lambda>_. (0, 0)),
     net_scan = (\<lambda>_. None), net_junk = (\<lambda>_ _. 0), net_order = Little\<rparr>"

end
