(* ===== verification/Ir_Stream.thy ===== *)
theory Ir_Stream
  imports Net_Calls
begin

text \<open>
  \<open>irprintf.c\<close> and \<open>irscanf.c\<close> in \<open>irsockets/\<close>, which move lines of text over a connection with the
  stream functions of the C library, and \<open>irprintfx.c\<close> and \<open>irscanfx.c\<close>, which do it with \<open>read\<close> and
  \<open>write\<close>. A stream is the bytes that come up to its end.
\<close>

definition put_at_start :: "byte list \<Rightarrow> ('x, unit) nm" where
  "put_at_start bs = bnd (gets net_buf) (\<lambda>buf.
     thn (check Oob_write (length bs \<le> length buf)) (modify (\<lambda>s. s\<lparr>net_buf := bs @ drop (length bs) buf\<rparr>)))"

text \<open>The string in the buffer: \<open>strlen\<close> must find its end.\<close>

definition text_in_buf :: "('x, byte list) nm" where
  "text_in_buf = bnd (gets net_buf) (\<lambda>buf. thn (check Oob_read (0 \<in> set buf)) (ret (cstring buf)))"

section \<open>The receivers\<close>

text \<open>The loop of \<open>irprintf.c\<close> with the rest of its stream. The buffer has 4098 bytes.\<close>

function show_lines :: "net_system \<Rightarrow> byte list \<Rightarrow> (net, unit) cm" where
  "show_lines K stream =
    (if stream = [] then
       thn (put_at_start [0]) (
       bnd text_in_buf (\<lambda>t. ignore (net_call K ''fwrite stdout'' [] [t])))
     else
       thn (put_at_start (fst (fgets 4097 stream) @ [0])) (
       thn (doif (hd stream = 3) (put_at_start [0])) (
       bnd text_in_buf (\<lambda>t.
       thn (ignore (net_call K ''fwrite stdout'' [] [t])) (
       bnd (gets net_buf) (\<lambda>buf.
       if buf ! 0 \<noteq> 0 then show_lines K (snd (fgets 4097 stream)) else ret ()))))))"
  by pat_completeness auto
termination
proof (relation "measure (\<lambda>(K, stream). length stream)")
  fix K and stream :: "byte list"
  assume "stream \<noteq> []"
  then show "((K, snd (fgets 4097 stream)), K, stream) \<in> measure (\<lambda>(K, stream). length stream)"
    using fgets_shorter [of 4096 stream] by (cases "fgets 4097 stream") simp
qed simp

declare show_lines.simps [simp del]

text \<open>The loop of \<open>irprintfx.c\<close>; \<open>None\<close>: it goes on after \<open>n\<close> rounds.\<close>

fun show_reads :: "net_system \<Rightarrow> int \<Rightarrow> nat \<Rightarrow> (net, unit option) cm" where
  "show_reads K fd 0 = ret None"
| "show_reads K fd (Suc n) =
    bnd (net_receive K ''read'' fd) (\<lambda>actual.
    bnd (gets net_buf) (\<lambda>buf.
    if actual \<le> 0 \<or> buf ! 0 = 3 then ret (Some ())
    else thn (ignore (net_call K ''fwrite stdout'' [] [take (nat actual) buf]))
      (if buf ! 0 \<noteq> 0 then show_reads K fd n else ret (Some ()))))"

text \<open>
  One turn of the loop of \<open>main\<close>: \<open>Some\<close> is the value \<open>main\<close> returns. What a connection delivers up to its
  end is what the system stores at \<open>fdopen\<close>.
\<close>

definition irprintf_turn :: "net_system \<Rightarrow> int \<Rightarrow> (net, int option) cm" where
  "irprintf_turn K fd =
    thn (net_say (ln ''Waiting for connection!'') []) (
    bnd (net_call K ''accept'' [fd] []) (\<lambda>conn_fd.
    if conn_fd < 0 then thn (net_fail ''accept'') (ret (Some (-1))) else
    bnd (net_call K ''fdopen'' [conn_fd] [bytes_of ''r'']) (\<lambda>stream.
    if stream = 0 then thn (net_fail ''fdopen'') (ret (Some (-1))) else
    bnd (net_ask (net_data K)) (\<lambda>delivered.
    thn (net_say (ln ''Connected!'') []) (
    thn (show_lines K delivered) (
    thn (net_do (Net ''fflush stdout'' [] [])) (
    thn (net_do (Net ''fclose'' [] [])) (
    thn (net_do (Net ''close'' [conn_fd] [])) (
    thn (net_say (ln ''Disconnected!'') []) (ret None))))))))))"

definition irprintfx_turn :: "net_system \<Rightarrow> nat \<Rightarrow> int \<Rightarrow> (net, int option) cm" where
  "irprintfx_turn K n fd =
    thn (net_say (ln ''Waiting for connection!'') []) (
    bnd (net_call K ''accept'' [fd] []) (\<lambda>conn_fd.
    if conn_fd < 0 then thn (net_fail ''accept'') (ret (Some (-1))) else
    thn (net_say (ln ''Connected!'') []) (
    bnd (show_reads K conn_fd n) (\<lambda>r. if r = None then ret None else
    thn (net_do (Net ''fflush stdout'' [] [])) (
    thn (net_do (Net ''close'' [conn_fd] [])) (
    thn (net_say (ln ''Disconnected!'') []) (ret None)))))))"

fun print_turns :: "(int \<Rightarrow> (net, int option) cm) \<Rightarrow> int \<Rightarrow> nat \<Rightarrow> (net, int option) cm" where
  "print_turns turn fd 0 = ret None"
| "print_turns turn fd (Suc m) = bnd (turn fd) (\<lambda>r. case r of None \<Rightarrow> print_turns turn fd m | Some c \<Rightarrow> ret (Some c))"

definition print_server :: "net_system \<Rightarrow> (int \<Rightarrow> (net, int option) cm) \<Rightarrow> nat \<Rightarrow> (net, int option) cm" where
  "print_server K turn m =
    thn (net_say (ln ''IrDA printf server starting ...'') []) (
    bnd (net_call K ''socket SOCK_STREAM'' [] []) (\<lambda>fd.
    if fd < 0 then thn (net_fail ''socket'') (stop (Exit (-1))) else
    bnd (net_call K ''bind'' [fd, 0xff] [service ''MyServer'']) (\<lambda>r.
    if r \<noteq> 0 then thn (net_fail ''bind'') (ret (Some (-1))) else
    bnd (net_call K ''listen'' [fd, 8] []) (\<lambda>r.
    if r \<noteq> 0 then thn (net_fail ''listen'') (ret (Some (-1))) else
    print_turns turn fd m))))"

definition irprintf_main :: "net_system \<Rightarrow> nat \<Rightarrow> (net, int option) cm" where
  "irprintf_main K m = print_server K (irprintf_turn K) m"

definition irprintfx_main :: "net_system \<Rightarrow> nat \<Rightarrow> nat \<Rightarrow> (net, int option) cm" where
  "irprintfx_main K n m = print_server K (irprintfx_turn K n) m"

section \<open>The senders\<close>

function show_found :: "net_system \<Rightarrow> byte list \<Rightarrow> nat \<Rightarrow> (net, unit) cm" where
  "show_found K buf i =
    (if i < unat (disc_len K buf) then
       if i \<le> DISC_MAX_DEVICES then
         bnd (disc_info buf (int i)) (\<lambda>name. bnd (disc_daddr K buf (int i)) (\<lambda>daddr.
         thn (net_say (ln ''  [%d] name:  %s, daddr: 0x%08x'') [Ii (int i + 1), AS name, AI daddr])
         (show_found K buf (i + 1))))
       else stop Oob_read
     else ret ())"
  by pat_completeness auto
termination by (relation "measure (\<lambda>(K, buf, i). 11 - i)") auto

declare show_found.simps [simp del]

text \<open>The first device of the list. It is not used: the connection leaves the choice to the kernel.\<close>

definition irscanf_discover_devices :: "net_system \<Rightarrow> int \<Rightarrow> (net, int) cm" where
  "irscanf_discover_devices K fd =
    bnd (enum_devices K fd) (\<lambda>l. case l of
      None \<Rightarrow> thn (net_fail ''getsockopt'') (thn (net_say (ln ''Didn't find any devices!'') []) (ret (-1)))
    | Some buf \<Rightarrow>
        if disc_len K buf = 0 then thn (net_fail ''getsockopt'') (thn (net_say (ln ''Didn't find any devices!'') []) (ret (-1)))
        else
          thn (net_say (ln ''Discovered %d devices :'') [AI (disc_len K buf)]) (
          thn (show_found K buf 0) (
          thn (net_say (ln ''Lets try this one'') []) (
          bnd (disc_daddr K buf 0) (\<lambda>a. ret (sint a))))))"

text \<open>
  The loop with the rest of the standard input. The buffer has 4096 bytes; a line that starts with a dot, and the
  end of the input, become the byte that tells the other side to stop.
\<close>

function send_lines :: "(byte list \<Rightarrow> (net, unit) cm) \<Rightarrow> byte list \<Rightarrow> (net, unit) cm" where
  "send_lines out input =
    (if input = [] then
       thn (put_at_start [3, 0]) (bnd text_in_buf out)
     else
       thn (put_at_start (fst (fgets 4095 input) @ [0])) (
       thn (doif (hd input = of_char CHR ''.'') (put_at_start [3, 0])) (
       thn (bnd text_in_buf out) (
       bnd (gets net_buf) (\<lambda>buf. if buf ! 0 \<noteq> 3 then send_lines out (snd (fgets 4095 input)) else ret ())))))"
  by pat_completeness auto
termination
proof (relation "measure (\<lambda>(out, input). length input)")
  fix out :: "byte list \<Rightarrow> (net, unit) cm" and input :: "byte list"
  assume "input \<noteq> []"
  then show "((out, snd (fgets 4095 input)), out, input) \<in> measure (\<lambda>(out, input). length input)"
    using fgets_shorter [of 4094 input] by (cases "fgets 4095 input") simp
qed simp

declare send_lines.simps [simp del]

definition irscanf_out :: "net_system \<Rightarrow> byte list \<Rightarrow> (net, unit) cm" where
  "irscanf_out K t = thn (net_do (Net ''fwrite'' [] [t])) (net_do (Net ''fflush'' [] []))"

definition irscanfx_out :: "net_system \<Rightarrow> int \<Rightarrow> byte list \<Rightarrow> (net, unit) cm" where
  "irscanfx_out K fd t = net_do (Net ''write'' [fd] [t])"

text \<open>The hints are the bytes of an \<open>int\<close>; the connection is made to the address 0.\<close>

definition scan_connect :: "net_system \<Rightarrow> (net, int option) cm" where
  "scan_connect K =
    bnd (net_call K ''socket SOCK_STREAM'' [] []) (\<lambda>fd.
    if fd < 0 then thn (net_fail ''socket'') (stop (Exit (-1))) else
    bnd (net_call K ''setsockopt IRLMP_HINT_MASK_SET'' [fd, 4] [bytes32 (net_order K) (0x04 OR 0x02)]) (\<lambda>r.
    if r \<noteq> 0 then thn (net_fail ''setsockopt-hints'') (stop (Exit (-1))) else
    bnd (net_call K ''connect'' [fd, 0] [service ''MyServer'']) (\<lambda>r.
    if r \<noteq> 0 then thn (net_fail ''connect'') (ret None) else ret (Some fd))))"

definition scan_session :: "(byte list \<Rightarrow> (net, unit) cm) \<Rightarrow> byte list \<Rightarrow> (net, unit) cm" where
  "scan_session out input = seqs [
     net_say (ln ''Connected!'') [],
     net_say (ln ''Type your text with '' @ [CHR 0x27, CHR ''.'', CHR 0x27] @ ln '' on the last line...'') [],
     send_lines out input,
     net_say (ln ''Closing connection...'') []]"

definition irscanf_main :: "net_system \<Rightarrow> byte list \<Rightarrow> (net, int) cm" where
  "irscanf_main K input =
    bnd (scan_connect K) (\<lambda>c. case c of
      None \<Rightarrow> ret (-1)
    | Some fd \<Rightarrow>
        bnd (net_call K ''fdopen'' [fd] [bytes_of ''w'']) (\<lambda>stream.
        if stream = 0 then thn (net_fail ''fdopen'') (ret (-1)) else
        thn (scan_session (irscanf_out K) input) (
        thn (net_do (Net ''fclose'' [] [])) (
        thn (net_do (Net ''close'' [fd] [])) (ret 0)))))"

definition irscanfx_main :: "net_system \<Rightarrow> byte list \<Rightarrow> (net, int) cm" where
  "irscanfx_main K input =
    bnd (scan_connect K) (\<lambda>c. case c of
      None \<Rightarrow> ret (-1)
    | Some fd \<Rightarrow>
        thn (scan_session (irscanfx_out K fd) input) (
        thn (net_do (Net ''close'' [fd] [])) (ret 0)))"

section \<open>Text that is typed is shown\<close>

lemma wp_put_at_start [wp_simps]:
  "wp (put_at_start bs) Q E s = (if length bs \<le> length (net_buf s)
     then Q () (s\<lparr>net_buf := bs @ drop (length bs) (net_buf s)\<rparr>) else E Oob_write s)"
  by (simp add: put_at_start_def wp_simps)

lemma wp_text_in_buf [wp_simps]:
  "wp text_in_buf Q E s = (if 0 \<in> set (net_buf s) then Q (cstring (net_buf s)) s else E Oob_read s)"
  by (simp add: text_in_buf_def wp_simps)

lemma cstring_line: "0 \<notin> set l \<Longrightarrow> cstring (l @ 0 # r) = l"
  unfolding cstring_append_nul by (auto simp: cstring_def takeWhile_eq_all_conv)

text \<open>The pieces a stream is read in.\<close>

function pieces :: "nat \<Rightarrow> byte list \<Rightarrow> byte list list" where
  "pieces n bs = (if bs = [] then [] else fst (fgets (Suc n) bs) # pieces n (snd (fgets (Suc n) bs)))"
  by pat_completeness auto
termination
proof (relation "measure (\<lambda>(n, bs). length bs)")
  fix n and bs :: "byte list"
  assume "bs \<noteq> []"
  then show "((n, snd (fgets (Suc n) bs)), n, bs) \<in> measure (\<lambda>(n, bs). length bs)"
    using fgets_shorter [of n bs] by (cases "fgets (Suc n) bs") simp
qed simp

declare pieces.simps [simp del]

lemma pieces_Nil [simp]: "pieces n [] = []"
  by (subst pieces.simps) simp

lemma pieces_step: "bs \<noteq> [] \<Longrightarrow> fgets (Suc n) bs = (l, r) \<Longrightarrow> pieces n bs = l # pieces n r"
  by (subst pieces.simps) simp

lemma pieces_concat: "concat (pieces n bs) = bs"
proof (induction n bs rule: pieces.induct)
  case (1 n bs)
  show ?case
  proof (cases "bs = []")
    case False
    obtain l r where f: "fgets (Suc n) bs = (l, r)"
      by (cases "fgets (Suc n) bs")
    have "concat (pieces n bs) = l @ concat (pieces n r)"
      by (simp add: pieces_step [OF False f])
    also have "concat (pieces n r) = r"
      using 1 [OF False] f by simp
    finally show ?thesis
      using fgets_splits [OF f] by simp
  qed simp
qed

lemma fgets_first: "fgets n bs = (l, r) \<Longrightarrow> 0 < n \<Longrightarrow> bs \<noteq> [] \<Longrightarrow> l \<noteq> [] \<and> hd l = hd bs"
  by (cases bs; cases n) (auto split: if_splits prod.splits)

text \<open>A way out for the lines of a sender: a call that is given the bytes.\<close>

locale line_sender =
  fixes out :: "byte list \<Rightarrow> (net, unit) cm" and name :: string
  assumes out_gives: "wp (out t) (\<lambda>_ u. net_buf u = net_buf s \<and> given name (net_acts u) = given name (net_acts s) @ [t]) never s"
begin

lemma send_mark:
  "wp (out [3]) (\<lambda>_ u. net_buf u = net_buf t \<and> given name (net_acts u) = given name (net_acts t) @ [[3]]) never t"
  by (rule out_gives)

lemma send_nothing:
  assumes "2 \<le> length (net_buf s)"
  shows "wp (send_lines out []) (\<lambda>_ u. given name (net_acts u) = given name (net_acts s) @ [[3]]) never s"
  using assms
  by (subst send_lines.simps) (simp add: wp_simps cstring_def, rule wp_weaken [OF send_mark], simp)

lemma send_dot:
  assumes "2 \<le> length (net_buf s)" and "length (fst (fgets 4095 input)) < length (net_buf s)"
    and "input \<noteq> []" and "hd input = of_char CHR ''.''"
  shows "wp (send_lines out input) (\<lambda>_ u. given name (net_acts u) = given name (net_acts s) @ [[3]]) never s"
  using assms
  apply (subst send_lines.simps)
  apply (simp add: wp_simps cstring_def)
  apply (intro conjI impI)
   apply (rule wp_weaken [OF send_mark])
   apply (simp_all add: wp_simps)
  done

lemma send_piece:
  assumes "fgets 4095 input = (l, r)" and "input \<noteq> []" and "0 \<notin> set l" and "hd l \<noteq> of_char CHR ''.''" and "3 \<notin> set l"
    and "length (net_buf s) = 4096"
    and "\<And>u. length (net_buf u) = 4096 \<Longrightarrow> given name (net_acts u) = given name (net_acts s) @ [l] \<Longrightarrow>
       wp (send_lines out r) Q never u"
  shows "wp (send_lines out input) Q never s"
proof -
  have l: "l \<noteq> []" "hd l = hd input" and n: "length l \<le> 4095"
    using fgets_first [OF assms(1) _ assms(2)] fgets_length [of 4095 input] assms(1) by auto
  show ?thesis
    using assms(2-6) l n
    apply (subst send_lines.simps)
    apply (simp add: assms(1) wp_simps cstring_line)
    apply (rule wp_weaken [OF out_gives])
    apply (cases l)
     apply (auto simp: assms(1) wp_simps intro!: assms(7))
    done
qed

theorem sends_pieces:
  assumes "length (net_buf s) = 4096" and "0 \<notin> set input" and "3 \<notin> set input"
    and "list_all (\<lambda>p. hd p \<noteq> of_char CHR ''.'') (pieces 4094 input)"
  shows "wp (send_lines out input) (\<lambda>_ u. given name (net_acts u) = given name (net_acts s) @ pieces 4094 input @ [[3]]) never s"
  using assms
proof (induction "length input" arbitrary: input s rule: less_induct)
  case less
  show ?case
  proof (cases "input = []")
    case True
    then show ?thesis
      using send_nothing [of s] less.prems(1) by simp
  next
    case False
    obtain l r where f: "fgets 4095 input = (l, r)"
      by (cases "fgets 4095 input")
    then have f': "fgets (Suc 4094) input = (l, r)"
      by simp
    have i: "input = l @ r" and p: "pieces 4094 input = l # pieces 4094 r" and less': "length r < length input"
      using fgets_splits [OF f] pieces_step [OF False f'] fgets_shorter [OF f' False] .
    show ?thesis
    proof (rule send_piece [OF f False])
      fix u :: net
      assume u: "length (net_buf u) = 4096" "given name (net_acts u) = given name (net_acts s) @ [l]"
      show "wp (send_lines out r) (\<lambda>_ u. given name (net_acts u) = given name (net_acts s) @ pieces 4094 input @ [[3]]) never u"
        by (rule wp_weaken [OF less.hyps [OF less' u(1)]]) (use less.prems i p u(2) in auto)
    qed (use less.prems i p in auto)
  qed
qed

end

interpretation stream_sender: line_sender "irscanf_out K" "''fwrite''" for K
  by unfold_locales (simp add: irscanf_out_def wp_simps)

interpretation file_sender: line_sender "irscanfx_out K fd" "''write''" for K fd
  by unfold_locales (simp add: irscanfx_out_def wp_simps)

lemma fgets_append:
  assumes "bs = [] \<or> last bs = 10" and "fgets n bs = (l, r)" and "bs \<noteq> []"
  shows "fgets n (bs @ cs) = (l, r @ cs) \<and> (r = [] \<or> last r = 10)"
  using assms by (induction n bs arbitrary: l r rule: fgets.induct) (auto split: if_splits prod.splits)

lemma fgets_one: "0 < n \<Longrightarrow> fgets n [b] = ([b], [])"
  by (cases n) (auto split: prod.splits)

lemma show_piece:
  assumes "fgets 4097 stream = (b # l, r)" and "stream \<noteq> []" and "hd stream = b" and "b \<noteq> 3" and "0 \<notin> set (b # l)"
    and "length (net_buf s) = 4098" and "length l \<le> 4096"
    and "\<And>u. length (net_buf u) = 4098 \<Longrightarrow> given ''fwrite stdout'' (net_acts u) = given ''fwrite stdout'' (net_acts s) @ [b # l] \<Longrightarrow>
       wp (show_lines K r) Q never u"
  shows "wp (show_lines K stream) Q never s"
  using assms cstring_line [OF assms(5)]
  by (subst show_lines.simps) (simp add: wp_simps Let_def)

lemma show_mark:
  assumes "length (net_buf s) = 4098"
  shows "wp (show_lines K [3])
    (\<lambda>_ u. concat (given ''fwrite stdout'' (net_acts u)) = concat (given ''fwrite stdout'' (net_acts s))) never s"
proof -
  have "cstring (0 # bs) = []" for bs
    by (simp add: cstring_def)
  moreover have "fgets 4097 [3] = ([3], [])"
    by (rule fgets_one) simp
  ultimately show ?thesis
    using assms
    apply (subst show_lines.simps)
    apply (simp add: wp_simps Let_def del: fgets.simps)
    done
qed

text \<open>The receiver shows a text that ends with a line break and is followed by the mark.\<close>

lemma shows_text:
  assumes "length (net_buf s) = 4098" and "0 \<notin> set input" and "3 \<notin> set input" and "input = [] \<or> last input = 10"
  shows "wp (show_lines K (input @ [3]))
    (\<lambda>_ u. concat (given ''fwrite stdout'' (net_acts u)) = concat (given ''fwrite stdout'' (net_acts s)) @ input) never s"
  using assms
proof (induction "length input" arbitrary: input s rule: less_induct)
  case less
  show ?case
  proof (cases "input = []")
    case True
    with show_mark [of s K] less.prems(1) show ?thesis
      by simp
  next
    case False
    obtain l r where f: "fgets 4097 input = (l, r)"
      by (cases "fgets 4097 input")
    have i: "input = l @ r"
      by (rule fgets_splits [OF f])
    have first: "l \<noteq> []" "hd l = hd input"
      using fgets_first [OF f _ False] by simp_all
    have app: "fgets 4097 (input @ [3]) = (l, r @ [3])" and r: "r = [] \<or> last r = 10"
      using fgets_append [OF less.prems(4) f False, of "[3]"] by simp_all
    have n: "length l \<le> 4097" and less': "length r < length input"
      using fgets_length [of 4097 input] first(1) by (simp add: f, simp add: i)
    have l: "0 \<notin> set l" "3 \<notin> set l"
      using less.prems i by auto
    have go_on: "wp (show_lines K (r @ [3]))
        (\<lambda>_ u. concat (given ''fwrite stdout'' (net_acts u)) = concat (given ''fwrite stdout'' (net_acts s)) @ input) never u"
      if "length (net_buf u) = 4098" "given ''fwrite stdout'' (net_acts u) = given ''fwrite stdout'' (net_acts s) @ [l]" for u
      by (rule wp_weaken [OF less.hyps [OF less' that(1)]]) (use less.prems i r that(2) in auto)
    obtain b l' where b: "l = b # l'"
      using first(1) by (auto simp: neq_Nil_conv)
    show ?thesis
      by (rule show_piece [of "input @ [3]" b l' "r @ [3]", OF app [unfolded b]]) (use i b l n less.prems(1) go_on in auto)
  qed
qed

text \<open>
  C37. Lines typed into \<open>irscanf\<close> are shown by \<open>irprintf\<close> as they are, whatever their lengths, when no piece of
  them starts with a dot, the text ends with a line break, and the byte 0 and the byte 3, which is the mark of the end, are not
  in it: the bytes that one program writes to its stream, given to the other, come out without the mark of the end.
\<close>

theorem typed_text_shown:
  assumes "length (net_buf s) = 4096" and "length (net_buf s') = 4098"
    and "0 \<notin> set input" and "3 \<notin> set input" and "input = [] \<or> last input = 10"
    and "list_all (\<lambda>p. hd p \<noteq> of_char CHR ''.'') (pieces 4094 input)"
  shows "wp (send_lines (irscanf_out K) input)
    (\<lambda>_ u. wp (show_lines K' (concat (drop (length (given ''fwrite'' (net_acts s))) (given ''fwrite'' (net_acts u)))))
      (\<lambda>_ v. concat (given ''fwrite stdout'' (net_acts v)) = concat (given ''fwrite stdout'' (net_acts s')) @ input) never s') never s"
  by (rule wp_weaken [OF stream_sender.sends_pieces [OF assms(1,3,4,6)]])
    (simp add: pieces_concat shows_text [OF assms(2-5)])

text \<open>Three lines, one of them without a byte.\<close>

lemma typed_text_shown_witness:
  "wp (send_lines (irscanf_out (constant_net 0 [])) [104, 105, 10, 10, 33, 10])
    (\<lambda>_ u. wp (show_lines (constant_net 0 []) (concat (given ''fwrite'' (net_acts u))))
      (\<lambda>_ v. concat (given ''fwrite stdout'' (net_acts v)) = [104, 105, 10, 10, 33, 10]) never
        \<lparr>net_buf = replicate 4098 0, net_acts = []\<rparr>) never \<lparr>net_buf = replicate 4096 0, net_acts = []\<rparr>"
proof -
  have f: "fgets 4095 (104 # 105 # 10 # r) = ([104, 105, 10], r)" "fgets 4095 (10 # r) = ([10], r)"
    "fgets 4095 (33 # 10 # r) = ([33, 10], r)" for r
    using fgets.simps(1) [of 4094] fgets.simps(1) [of 4093] fgets.simps(1) [of 4092] by (simp_all del: fgets.simps)
  have "pieces 4094 [104, 105, 10, 10, 33, 10] = [[104, 105, 10], [10], [33, 10]]"
    by (simp add: pieces.simps [of _ "_ # _"] f)
  then show ?thesis
    using typed_text_shown [of "\<lparr>net_buf = replicate 4096 0, net_acts = []\<rparr>" "\<lparr>net_buf = replicate 4098 0, net_acts = []\<rparr>"
      "[104, 105, 10, 10, 33, 10]" "constant_net 0 []" "constant_net 0 []"] by simp
qed

lemma fgets_full: "length a = n \<Longrightarrow> 10 \<notin> set a \<Longrightarrow> fgets n (a @ r) = (a, r)"
  by (induction a arbitrary: n) (auto split: prod.splits)

text \<open>
  The dot that ends the text is looked for in every piece of a line: a line of 4095 bytes or more whose 4096th is
  a dot ends the session there, and what follows it is not sent.
\<close>

theorem long_line_ends_session:
  assumes "length (net_buf s) = 4096" and "length a = 4095" and "0 \<notin> set a" and "3 \<notin> set a" and "10 \<notin> set a"
    and "hd a \<noteq> of_char CHR ''.''"
  shows "wp (send_lines (irscanf_out K) (a @ of_char CHR ''.'' # rest))
    (\<lambda>_ u. given ''fwrite'' (net_acts u) = given ''fwrite'' (net_acts s) @ [a, [3]]) never s"
proof (rule stream_sender.send_piece [OF fgets_full [OF assms(2,5)]])
  fix u :: net
  assume u: "length (net_buf u) = 4096" "given ''fwrite'' (net_acts u) = given ''fwrite'' (net_acts s) @ [a]"
  have "length (fst (fgets 4095 (of_char CHR ''.'' # rest))) < length (net_buf u)"
    using fgets_length [of 4095 "of_char CHR ''.'' # rest"] u(1) by linarith
  then show "wp (send_lines (irscanf_out K) (of_char CHR ''.'' # rest))
      (\<lambda>_ u. given ''fwrite'' (net_acts u) = given ''fwrite'' (net_acts s) @ [a, [3]]) never u"
    using u by (intro wp_weaken [OF stream_sender.send_dot]) simp_all
qed (use assms in simp_all)

lemma long_line_ends_session_witness:
  "wp (send_lines (irscanf_out (constant_net 0 [])) (replicate 4095 97 @ of_char CHR ''.'' # [104, 10]))
    (\<lambda>_ u. given ''fwrite'' (net_acts u) = [replicate 4095 97, [3]]) never \<lparr>net_buf = replicate 4096 0, net_acts = []\<rparr>"
  using long_line_ends_session [of "\<lparr>net_buf = replicate 4096 0, net_acts = []\<rparr>" "replicate 4095 97" "constant_net 0 []" "[104, 10]"]
  by (simp add: hd_replicate)

text \<open>Text that does not end with a line break is shown with the mark behind it.\<close>

lemma unfinished_line_shows_mark:
  assumes "length (net_buf s) = 4098" and "length input < 4097" and "input \<noteq> []" and "0 \<notin> set input" and "3 \<notin> set input"
    and "10 \<notin> set input"
  shows "wp (show_lines K (input @ [3]))
    (\<lambda>_ u. concat (given ''fwrite stdout'' (net_acts u)) = concat (given ''fwrite stdout'' (net_acts s)) @ input @ [3]) never s"
proof -
  have short: "fgets n bs = (bs, [])" if "length bs \<le> n" "10 \<notin> set bs" for n and bs :: "byte list"
    using that by (induction n bs rule: fgets.induct) (auto split: prod.splits)
  obtain b l where b: "input = b # l"
    using assms(3) by (auto simp: neq_Nil_conv)
  have "fgets 4097 (input @ [3]) = (b # l @ [3], [])"
    using short [of "input @ [3]" 4097] assms(2,6) b by simp
  then show ?thesis
  proof (rule show_piece)
    fix u :: net
    assume "length (net_buf u) = 4098" "given ''fwrite stdout'' (net_acts u) = given ''fwrite stdout'' (net_acts s) @ [b # l @ [3]]"
    then show "wp (show_lines K [])
        (\<lambda>_ u. concat (given ''fwrite stdout'' (net_acts u)) = concat (given ''fwrite stdout'' (net_acts s)) @ input @ [3]) never u"
      by (subst show_lines.simps) (simp add: wp_simps Let_def b cstring_def)
  qed (use assms b in auto)
qed

end
