(* ===== verification/Ultra.thy ===== *)
theory Ultra
  imports Net_Calls
begin

text \<open>
  \<open>send_ultra.c\<close> and \<open>recv_ultra.c\<close> in \<open>irsockets/\<close>: one packet of text over Ultra, without a
  connection.
\<close>

section \<open>The programs\<close>

abbreviation (input) UPID :: int where "UPID \<equiv> 0x3"

definition ultra_buf_size :: nat where "ultra_buf_size = 382"

text \<open>The buffer of \<open>recv_ultra.c\<close> is indexed with what \<open>recv\<close> returns.\<close>

definition ultra_receive :: "net_system \<Rightarrow> int \<Rightarrow> (net, unit) cm" where
  "ultra_receive K fd =
    bnd (net_receive K ''recv'' fd) (\<lambda>actual.
    bnd (gets net_buf) (\<lambda>buf.
    thn (check Oob_write (0 \<le> actual \<and> actual < int (length buf))) (
    thn (modify (\<lambda>s. s\<lparr>net_buf := buf[nat actual := 0]\<rparr>)) (
    bnd (gets net_buf) (\<lambda>buf.
    thn (check Oob_read (0 \<in> set buf))
    (net_say (ln (''Received packet ``%s'' @ [CHR 0x27, CHR 0x27])) [AS (cstring buf)]))))))"

text \<open>\<open>n\<close> rounds of the endless loop.\<close>

fun ultra_rounds :: "net_system \<Rightarrow> int \<Rightarrow> nat \<Rightarrow> (net, unit) cm" where
  "ultra_rounds K fd 0 = ret ()"
| "ultra_rounds K fd (Suc n) = thn (ultra_receive K fd) (ultra_rounds K fd n)"

definition ultra_socket :: "net_system \<Rightarrow> (net, int option) cm" where
  "ultra_socket K =
    bnd (net_call K ''socket SOCK_DGRAM'' [] []) (\<lambda>fd.
    if fd < 0 then thn (net_fail ''Creating socket'') (ret None) else
    bnd (net_call K ''bind'' [fd, UPID] []) (\<lambda>r.
    if r \<noteq> 0 then thn (net_fail ''Connect'') (ret None) else ret (Some fd)))"

definition recv_ultra_main :: "net_system \<Rightarrow> nat \<Rightarrow> (net, int) cm" where
  "recv_ultra_main K n =
    bnd (net_local K ultra_buf_size) (\<lambda>junk.
    thn (modify (\<lambda>s. s\<lparr>net_buf := junk\<rparr>)) (
    bnd (ultra_socket K) (\<lambda>c. case c of
      None \<Rightarrow> ret (-1)
    | Some fd \<Rightarrow>
        thn (net_say (ln ''Waiting for Ultra packets on UPID %d...'') [Ii UPID]) (
        thn (ultra_rounds K fd n) (ret 0)))))"

text \<open>The text is the first argument, when there is one: \<open>strncpy\<close> with 380 bytes, then a terminator.\<close>

definition ultra_text :: "byte list option \<Rightarrow> byte list \<Rightarrow> byte list" where
  "ultra_text arg junk =
    (let buf = poked 0 (bytes_of ''Ultra-Test'' @ [0]) junk in
     case arg of None \<Rightarrow> buf
     | Some a \<Rightarrow> (poked 0 (take 380 (cstring a @ replicate 380 0)) buf)[380 := 0])"

definition send_ultra_main :: "net_system \<Rightarrow> byte list option \<Rightarrow> (net, int) cm" where
  "send_ultra_main K arg =
    bnd (net_local K ultra_buf_size) (\<lambda>junk. let buf = ultra_text arg junk in
    bnd (ultra_socket K) (\<lambda>c. case c of
      None \<Rightarrow> ret (-1)
    | Some fd \<Rightarrow>
        thn (net_say (ln ''Ready to send on Ultra-PID %d'') [Ii UPID]) (
        thn (check Oob_read (0 \<in> set buf)) (
        bnd (net_call K ''send'' [fd, int (length (cstring buf)) + 1] [take (length (cstring buf) + 1) buf]) (\<lambda>_.
        thn (net_say (ln (''Sent Ultra packet ``%s'' @ [CHR 0x27, CHR 0x27])) [AS (cstring buf)]) (
        thn (net_do (Net ''close'' [fd] [])) (ret 0)))))))"

section \<open>Packets\<close>

lemma wp_ultra_receive:
  assumes "length (net_buf s) = 382" and "h = net_acts s @ [Net ''recv'' [fd, 382] []]"
    and "data = take (nat (net_answer K h)) (net_data K h)" and "length data < 382" and "0 \<le> net_answer K h"
    and "\<And>u. length (net_buf u) = 382 \<Longrightarrow>
       net_acts u = h @ [Net_out (ln (''Received packet ``%s'' @ [CHR 0x27, CHR 0x27])) [AS (cstring data)]] \<Longrightarrow> Q () u"
  shows "wp (ultra_receive K fd) Q E s"
proof -
  have d: "take (min (nat (net_answer K h)) 382) (net_data K h) = data"
    using assms(4) take_take [of 382 "nat (net_answer K h)" "net_data K h"]
    by (simp add: assms(3) [symmetric] min.commute)
  from assms(1,4) have b: "(data @ drop (length data) (net_buf s))[length data := 0] = data @ 0 # drop (Suc (length data)) (net_buf s)"
    by (simp add: list_update_append Cons_nth_drop_Suc [symmetric])
  show ?thesis
    using assms(1,2,4,5,6) d b cstring_append_nul [of data]
    by (simp add: ultra_receive_def wp_simps Let_def)
qed

lemma length_ultra_text: "length junk = 382 \<Longrightarrow> length (ultra_text arg junk) = 382"
  by (auto simp: ultra_text_def poked_def bytes_of_def Let_def split: option.split)

text \<open>The argument in the buffer: cut after 380 bytes, with a terminator.\<close>

lemma ultra_text_arg:
  assumes "length junk = 382" and "0 \<notin> set a"
  shows "\<exists>r. ultra_text (Some a) junk = take 380 a @ 0 # r"
proof -
  have c: "cstring a = a"
    using assms(2) by (auto simp: cstring_def takeWhile_eq_all_conv)
  obtain d where t: "take 380 (a @ replicate 380 0) = take 380 a @ d" and d: "d = replicate (380 - length a) 0"
    by (simp add: min_def)
  obtain p where p: "take 380 a @ d = p" and l: "length p = 380"
    by (simp add: d min_def)
  let ?j = "poked 0 (bytes_of ''Ultra-Test'' @ [0]) junk"
  have "length ?j = 382"
    using assms(1) by (simp add: poked_def bytes_of_def)
  then obtain x y where xy: "drop 380 ?j = [x, y]"
    by (cases "drop 380 ?j"; cases "tl (drop 380 ?j)") (auto simp: drop_eq_Nil dest: arg_cong [of _ _ length])
  have "ultra_text (Some a) junk = (p @ [x, y])[380 := 0]"
    using l by (simp only: ultra_text_def Let_def c t p option.case poked_def [of 0 p] xy take_0 add_0 append_Nil)
  also have "\<dots> = (take 380 a @ d) @ [0, y]"
    using l by (simp add: list_update_append p)
  finally have t: "ultra_text (Some a) junk = (take 380 a @ d) @ [0, y]" .
  have "set d \<subseteq> {0}"
    by (auto simp: d)
  then show ?thesis
    unfolding t by (cases d) auto
qed

text \<open>
  What \<open>recv\<close> returns is used as an index without a test: an error, and a packet that fills the buffer, make the
  program write the terminator outside the buffer.
\<close>

theorem ultra_index_outside:
  assumes "length (net_buf s) = 382" and "h = net_acts s @ [Net ''recv'' [fd, 382] []]"
    and "net_answer K h < 0 \<or> 382 \<le> net_answer K h \<and> 382 \<le> length (net_data K h)"
  shows "wp (ultra_receive K fd) (\<lambda>_ _. False) (\<lambda>e _. e = Oob_write) s"
proof -
  have "min (length (net_data K h)) (min (nat (net_answer K h)) 382) = 382" if "382 \<le> net_answer K h" "382 \<le> length (net_data K h)"
  proof -
    have "382 \<le> nat (net_answer K h)"
      using that by linarith
    then show ?thesis
      using that(2) by simp
  qed
  then show ?thesis
    using assms by (auto simp: ultra_receive_def wp_simps Let_def)
qed

text \<open>
  A text given to \<open>send_ultra\<close> goes out as one packet, cut after 380 bytes and with a terminator, and the program
  that receives the packet shows that text.
\<close>

theorem ultra_text_arrives:
  assumes "\<And>h. net_answer K h = 0" and "0 \<notin> set a" and "length (net_buf s') = 382"
    and "h' = net_acts s' @ [Net ''recv'' [fd, 382] []]"
    and "net_answer K' h' = int (length p)" and "net_data K' h' = p" and "p = take 380 a @ [0]"
  shows "wp (send_ultra_main K (Some a)) (\<lambda>r u. r = 0 \<and> given ''send'' (net_acts u) = given ''send'' (net_acts s) @ [p]) never s \<and>
    wp (ultra_receive K' fd)
      (\<lambda>_ u. net_acts u = h' @ [Net_out (ln (''Received packet ``%s'' @ [CHR 0x27, CHR 0x27])) [AS (take 380 a)]]) never s'"
proof -
  obtain r where t: "ultra_text (Some a) (map (net_junk K (net_acts s)) [0..<382]) = take 380 a @ 0 # r"
    using ultra_text_arg [OF _ assms(2), of "map (net_junk K (net_acts s)) [0..<382]"] by auto
  have z: "0 \<notin> set (take 380 a)"
    using assms(2) by (auto dest: in_set_takeD)
  then have c: "cstring (take 380 a @ 0 # x) = take 380 a" for x
    unfolding cstring_append_nul by (auto simp: cstring_def takeWhile_eq_all_conv)
  obtain x where x: "take 380 a = x"
    by blast
  have "take (Suc (length x)) (x @ 0 # r) = x @ [0]"
    by simp
  then have "wp (send_ultra_main K (Some a)) (\<lambda>r u. r = 0 \<and> given ''send'' (net_acts u) = given ''send'' (net_acts s) @ [p]) never s"
    using t c [unfolded x] unfolding assms(7) x
    by (simp add: send_ultra_main_def ultra_socket_def ultra_buf_size_def wp_simps Let_def assms(1))
  moreover have "wp (ultra_receive K' fd)
      (\<lambda>_ u. net_acts u = h' @ [Net_out (ln (''Received packet ``%s'' @ [CHR 0x27, CHR 0x27])) [AS (take 380 a)]]) never s'"
    by (rule wp_ultra_receive [OF assms(3,4)]) (simp_all add: assms(5,6), simp_all add: assms(7) c)
  ultimately show ?thesis ..
qed

lemma ultra_index_outside_witness:
  "wp (ultra_receive (constant_net (-1) []) 3) (\<lambda>_ _. False) (\<lambda>e _. e = Oob_write) \<lparr>net_buf = replicate 382 0, net_acts = []\<rparr>"
  by (rule ultra_index_outside [OF _ refl]) (simp_all add: constant_net_def)

lemma ultra_text_arrives_witness:
  "wp (ultra_receive (constant_net 3 [104, 105, 0]) 3)
    (\<lambda>_ u. last (net_acts u) = Net_out (ln (''Received packet ``%s'' @ [CHR 0x27, CHR 0x27])) [AS [104, 105]]) never
    \<lparr>net_buf = replicate 382 0, net_acts = []\<rparr>"
proof -
  let ?s = "\<lparr>net_buf = replicate 382 0, net_acts = []\<rparr>" and ?K = "constant_net 3 [104, 105, 0]"
  have "wp (send_ultra_main (constant_net 0 []) (Some [104, 105]))
      (\<lambda>r u. r = 0 \<and> given ''send'' (net_acts u) = given ''send'' (net_acts ?s) @ [[104, 105, 0]]) never ?s \<and>
    wp (ultra_receive ?K 3) (\<lambda>_ u. net_acts u = (net_acts ?s @ [Net ''recv'' [3, 382] []]) @
      [Net_out (ln (''Received packet ``%s'' @ [CHR 0x27, CHR 0x27])) [AS (take 380 [104, 105])]]) never ?s"
    by (rule ultra_text_arrives [OF _ _ _ refl]) (simp_all add: constant_net_def)
  then show ?thesis
    by (elim conjE) (erule wp_weaken, simp)
qed

end
