(* ===== verification/Ias_Query.thy ===== *)
theory Ias_Query
  imports Net_Calls
begin

text \<open>\<open>irsockets/ias_query.c\<close>: asks a device for an attribute of its IAS database and shows the answer.\<close>

section \<open>The program\<close>

text \<open>\<open>sscanf\<close> with \<open>%X\<close>: \<open>None\<close> when there is no number.\<close>

definition scan_hex :: "byte list \<Rightarrow> fault + u32 option" where
  "scan_hex str =
    (let bs = dropWhile is_space (cstring str);
         neg = (bs \<noteq> [] \<and> hd bs = of_char CHR ''-'');
         ds = (if bs \<noteq> [] \<and> hd bs \<in> {of_char CHR ''-'', of_char CHR ''+''} then tl bs else bs);
         pre = (take 2 ds \<in> {bytes_of ''0x'', bytes_of ''0X''});
         hex = (if pre then drop 2 ds else ds);
         v = fst (digits_in 16 0 hex)
     in if hex = [] \<or> digit_in 16 (hd hex) = None then Inr None
        else if 2 ^ 32 \<le> v then Inl Impl_defined
        else Inr (Some (if neg then - word_of_int v else word_of_int v)))"

definition strncpy60 :: "byte list \<Rightarrow> byte list" where
  "strncpy60 t = take 60 (cstring t @ replicate 60 0)"

definition show_attribute :: "net_system \<Rightarrow> byte list \<Rightarrow> byte list \<Rightarrow> byte list \<Rightarrow> (net, unit) cm" where
  "show_attribute K cls attr q =
    (let t = ias_word K ias_type_at q in
     if t = IAS_INTEGER then net_say (ln ''%s:%s=%d'') [AS cls, AS attr, AI (ias_word K ias_value_at q)]
     else if t = IAS_OCT_SEQ then net_say (ln ''got octseq'') []
     else if t = IAS_STRING then
       thn (check Oob_read (0 \<in> set (drop ias_string_at q)))
       (net_say (ln ''%s:%s=%s'') [AS cls, AS attr, AS (cstring (drop ias_string_at q))])
     else if t = IAS_MISSING then net_say (ln ''Missing!'') []
     else net_say (ln ''Unknown type %d!'') [AI t])"

definition query_struct :: "net_system \<Rightarrow> u32 \<Rightarrow> byte list \<Rightarrow> byte list \<Rightarrow> byte list \<Rightarrow> byte list" where
  "query_struct K daddr cls attr q =
    (let q = poked ias_attr_at (strncpy60 attr) (poked ias_class_at (strncpy60 cls) q) in
     if daddr \<noteq> 0 then poked ias_daddr_at (bytes32 (net_order K) daddr) q else q)"

definition ias_query :: "net_system \<Rightarrow> int \<Rightarrow> u32 \<Rightarrow> byte list \<Rightarrow> byte list \<Rightarrow> (net, int) cm" where
  "ias_query K fd daddr cls attr =
    bnd (net_local K ias_size) (\<lambda>junk.
    thn (net_say (ln ''Querying for %s:%s'') [AS cls, AS attr]) (
    let q = query_struct K daddr cls attr junk in
    bnd (net_call K ''getsockopt IRLMP_IAS_QUERY'' [fd, int ias_size] [q]) (\<lambda>r.
    if r \<noteq> 0 then thn (net_fail ''getsockopt'') (stop (Exit (-1))) else
    bnd (net_ask (net_data K)) (\<lambda>data. let bs = take ias_size data in
    thn (doif (0 < length bs) (thn (net_say (ln ''Success2'') []) (show_attribute K cls attr (poked 0 bs q))))
    (ret 0)))))"

definition ias_query_main :: "net_system \<Rightarrow> byte list list \<Rightarrow> (net, int) cm" where
  "ias_query_main K argv =
    bnd (net_call K ''socket SOCK_STREAM'' [] []) (\<lambda>fd.
    if fd < 0 then thn (net_fail ''socket'') (stop (Exit (-1))) else
    if length argv < 4 then thn (net_do (Net_err (ln ''Usage : %s iraddr class attrib'') [AS (argv ! 0)])) (ret 0) else
    (case scan_hex (argv ! 1) of
      Inl e \<Rightarrow> stop e
    | Inr None \<Rightarrow> thn (net_do (Net_err (ln ''Invalid address: \"%s\"...'') [AS (argv ! 1)])) (ret 0)
    | Inr (Some a) \<Rightarrow> thn (ias_query K fd a (argv ! 2) (argv ! 3)) (ret 0)))"

section \<open>What is asked\<close>

lemma length_strncpy60 [simp]: "length (strncpy60 t) = 60"
  by (simp add: strncpy60_def)

lemma strncpy60_string:
  assumes "0 \<notin> set t" and "length t < 60"
  obtains r where "strncpy60 t = t @ 0 # r"
proof -
  have "cstring t = t"
    using assms(1) by (auto simp: cstring_def takeWhile_eq_all_conv)
  then have "strncpy60 t = t @ replicate (60 - length t) 0"
    using assms(2) by (simp add: strncpy60_def)
  also have "60 - length t = Suc (59 - length t)"
    using assms(2) by simp
  finally show thesis
    using that by simp
qed

text \<open>
  The structure given to the system has the class and the attribute of the command line as its names, when they are
  shorter than 60 bytes, and the address at its end, except the address 0, for which the uninitialised bytes of the
  structure are used.
\<close>

theorem query_asks_for_names:
  assumes "0 \<notin> set cls" and "length cls < 60" and "0 \<notin> set attr" and "length attr < 60" and "length junk = 1356"
  shows "cstring (drop ias_class_at (query_struct K daddr cls attr junk)) = cls \<and>
    cstring (drop ias_attr_at (query_struct K daddr cls attr junk)) = attr \<and>
    ias_word K ias_daddr_at (query_struct K daddr cls attr junk) = (if daddr \<noteq> 0 then daddr else ias_word K ias_daddr_at junk)"
proof -
  obtain rc where c: "strncpy60 cls = cls @ 0 # rc"
    by (rule strncpy60_string [OF assms(1,2)])
  obtain ra where a: "strncpy60 attr = attr @ 0 # ra"
    by (rule strncpy60_string [OF assms(3,4)])
  have whole: "cstring (t @ 0 # x) = t" if "0 \<notin> set t" for t x
    unfolding cstring_append_nul using that by (auto simp: cstring_def takeWhile_eq_all_conv)
  let ?q = "poked 64 (strncpy60 attr) (poked 0 (strncpy60 cls) junk)"
  have q: "?q = strncpy60 cls @ take 4 (drop 60 junk) @ strncpy60 attr @ drop 124 junk"
    using assms(5) by (simp add: poked_def drop_take)
  have d: "poked 1352 b ?q = strncpy60 cls @ take 4 (drop 60 junk) @ strncpy60 attr @ take 1228 (drop 124 junk) @ b @ drop (1352 + length b) junk" for b
    using assms(5) unfolding q by (simp add: poked_def)
  have "drop 1352 ?q = drop 1352 junk"
    using assms(5) unfolding q by simp
  moreover have "drop 1352 (poked 1352 (bytes32 (net_order K) daddr) ?q) = bytes32 (net_order K) daddr @ drop 1356 junk"
    using assms(5) unfolding d by simp
  moreover have "cstring ?q = cls"
    unfolding q using whole [OF assms(1)] by (simp add: c)
  moreover have "cstring (poked 1352 b ?q) = cls" for b
    unfolding d using whole [OF assms(1)] by (simp add: c)
  moreover have "drop 64 ?q = strncpy60 attr @ drop 124 junk"
    unfolding q using assms(5) by simp
  then have "cstring (drop 64 ?q) = attr"
    using whole [OF assms(3)] by (simp add: a)
  moreover have "drop 64 (poked 1352 b ?q) = strncpy60 attr @ take 1228 (drop 124 junk) @ b @ drop (1352 + length b) junk" for b
    unfolding d using assms(5) by simp
  then have "cstring (drop 64 (poked 1352 b ?q)) = attr" for b
    using whole [OF assms(3)] by (simp add: a)
  ultimately show ?thesis
    by (simp add: query_struct_def Let_def ias_class_at_def ias_attr_at_def ias_daddr_at_def ias_word_def)
qed

lemma query_asks_for_names_witness:
  "cstring (drop ias_attr_at (query_struct (constant_net 0 []) 5 (bytes_of ''Device'') (bytes_of ''DeviceName'') (replicate 1356 7)))
    = bytes_of ''DeviceName''"
  using query_asks_for_names [of "bytes_of ''Device''" "bytes_of ''DeviceName''" "replicate 1356 7" "constant_net 0 []" 5]
  by (simp add: bytes_of_def)

text \<open>Names of 60 bytes or more are not terminated: what follows them is what was in memory.\<close>

lemma long_class_unterminated:
  assumes "0 \<notin> set cls" and "60 \<le> length cls" and "length junk = 1356" and "0 \<notin> set (take 4 (drop 60 junk))"
  shows "take 64 (cstring (query_struct K 0 cls attr junk)) = take 60 cls @ take 4 (drop 60 junk)"
proof -
  have "cstring cls = cls"
    using assms(1) by (auto simp: cstring_def takeWhile_eq_all_conv)
  then have c: "strncpy60 cls = take 60 cls"
    using assms(2) by (simp add: strncpy60_def)
  have q: "query_struct K 0 cls attr junk = (take 60 cls @ take 4 (drop 60 junk)) @ strncpy60 attr @ drop 124 junk"
    using assms(2,3) by (simp add: query_struct_def ias_class_at_def ias_attr_at_def poked_def drop_take c Let_def)
  have "0 \<notin> set (take 60 cls @ take 4 (drop 60 junk))"
    using assms(1,4) by (auto dest: in_set_takeD)
  then have "cstring ((take 60 cls @ take 4 (drop 60 junk)) @ x) = (take 60 cls @ take 4 (drop 60 junk)) @ cstring x" for x
    unfolding cstring_def by (intro takeWhile_append2) metis
  then show ?thesis
    using assms(2,3) unfolding q by (simp del: append_assoc)
qed

end
