(* ===== verification/Irnetd.thy ===== *)
theory Irnetd
  imports Net_Calls
begin

text \<open>
  \<open>irnetd/irnetd.c\<close>: reads the events of \<open>/dev/irnet\<close> and starts \<open>pppd\<close> for every request of a connection.
\<close>

section \<open>The program\<close>

text \<open>\<open>line\<close> is the buffer of the events (255 bytes), \<open>cmd\<close> the command (255 bytes).\<close>

record irnetd = net +
  irnet_cmd :: "byte list"

abbreviation (input) irnet_size :: nat where "irnet_size \<equiv> 255"

definition irnet_cmd1 :: "byte list" where "irnet_cmd1 = bytes_of ''pppd /dev/irnet 9600 local ''"
definition irnet_cmd2 :: "byte list" where "irnet_cmd2 = bytes_of ''noauth nolock connect-delay 0 idle 10 ''"
definition irnet_cmd3 :: "byte list" where "irnet_cmd3 = bytes_of (''connect '' @ [CHR 0x22] @ ''echo addr '')"
definition irnet_aux :: "byte list" where "irnet_aux = bytes_of (''01235678'' @ [CHR 0x22])"

text \<open>\<open>strcpy\<close> and \<open>strcat\<close> on \<open>cmd\<close>.\<close>

definition cmd_set :: "byte list \<Rightarrow> (irnetd, unit) cm" where
  "cmd_set t = bnd (gets irnet_cmd) (\<lambda>c.
     thn (check Oob_write (length t < length c))
     (modify (\<lambda>s. s\<lparr>irnet_cmd := t @ 0 # drop (length t + 1) c\<rparr>)))"

definition cmd_cat :: "byte list \<Rightarrow> (irnetd, unit) cm" where
  "cmd_cat t = bnd (gets irnet_cmd) (\<lambda>c.
     thn (check Oob_read (0 \<in> set c)) (
     thn (check Oob_write (length (cstring c) + length t < length c))
     (modify (\<lambda>s. s\<lparr>irnet_cmd := cstring c @ t @ 0 # drop (length (cstring c) + length t + 1) c\<rparr>))))"

definition irnet_build :: "byte list list \<Rightarrow> (irnetd, nat) cm" where
  "irnet_build args =
    thn (cmd_set irnet_cmd1) (
    thn (if args = [] then cmd_cat irnet_cmd2
         else seqs (concat (map (\<lambda>a. [cmd_cat a, cmd_cat (bytes_of '' '')]) args))) (
    thn (cmd_cat irnet_cmd3) (
    bnd (gets (\<lambda>s. length (cstring (irnet_cmd s)))) (\<lambda>endp.
    thn (cmd_cat irnet_aux) (
    bnd (gets (\<lambda>s. cstring (irnet_cmd s))) (\<lambda>c.
    thn (net_say (ln ''The command is [%s]'') [AS c]) (ret endp)))))))"

text \<open>
  One event. \<open>fgets\<close> stores a line of at most 254 bytes, or it meets the end of the file or an error and leaves the
  buffer; its result is not looked at.
\<close>

definition irnet_read :: "byte list option \<Rightarrow> (irnetd, unit) cm" where
  "irnet_read r = (case r of
      None \<Rightarrow> ret ()
    | Some l \<Rightarrow> modify (\<lambda>s. s\<lparr>net_buf := take 254 l @ 0 # drop (Suc (length (take 254 l))) (net_buf s)\<rparr>))"

text \<open>\<open>for(i=0; i<8; i++) endp[i] = line[i+13];\<close>\<close>

definition irnet_address :: "nat \<Rightarrow> (irnetd, unit) cm" where
  "irnet_address endp = bnd (gets net_buf) (\<lambda>l.
     thn (check Oob_read (21 \<le> length l)) (
     bnd (gets irnet_cmd) (\<lambda>c.
     thn (check Oob_write (endp + 8 \<le> length c))
     (modify (\<lambda>s. s\<lparr>irnet_cmd := poked endp (take 8 (drop 13 l)) c\<rparr>)))))"

definition irnet_event :: "net_system \<Rightarrow> nat \<Rightarrow> byte list option \<Rightarrow> (irnetd, unit) cm" where
  "irnet_event K endp r =
    thn (irnet_read r) (
    bnd (gets net_buf) (\<lambda>l.
    if take 3 l = bytes_of ''Req'' then
      thn (irnet_address endp) (
      bnd (gets irnet_cmd) (\<lambda>c.
      thn (check Oob_read (0 \<in> set c)) (
      bnd (net_call K ''system'' [] [cstring c]) (\<lambda>res.
      doif (res < 0) (net_fail ''irnetd: '')))))
    else ret ()))"

definition irnetd_main :: "net_system \<Rightarrow> byte list list \<Rightarrow> byte list option list \<Rightarrow> (irnetd, int) cm" where
  "irnetd_main K args events =
    bnd (net_local K irnet_size) (\<lambda>junk.
    thn (modify (\<lambda>s. s\<lparr>net_buf := junk, irnet_cmd := junk\<rparr>)) (
    bnd (irnet_build args) (\<lambda>endp.
    bnd (net_call K ''fopen'' [] [bytes_of ''/dev/irnet'', bytes_of ''r'']) (\<lambda>f.
    if f = 0 then thn (net_fail ''Error opening /dev/irnet: '') (ret (-1))
    else thn (seqs (map (irnet_event K endp) events)) (ret 0)))))"

section \<open>The command\<close>

text \<open>The command up to the address, and a state in which \<open>cmd\<close> holds the string \<open>t\<close>.\<close>

definition irnet_command :: "byte list list \<Rightarrow> byte list" where
  "irnet_command args = irnet_cmd1 @ (if args = [] then irnet_cmd2 else concat (map (\<lambda>a. a @ bytes_of '' '') args)) @ irnet_cmd3"

definition cmd_holds :: "byte list \<Rightarrow> irnetd \<Rightarrow> bool" where
  "cmd_holds t s \<longleftrightarrow> 0 \<notin> set t \<and> length (irnet_cmd s) = 255 \<and> (\<exists>d. irnet_cmd s = t @ 0 # d)"

lemma cstring_whole: "0 \<notin> set t \<Longrightarrow> cstring (t @ 0 # d) = t"
  unfolding cstring_append_nul by (auto simp: cstring_def takeWhile_eq_all_conv)

lemma cmd_holds_string: "cmd_holds t s \<Longrightarrow> cstring (irnet_cmd s) = t"
  by (auto simp: cmd_holds_def cstring_whole)

lemma cmd_holds_short: "cmd_holds t s \<Longrightarrow> length t < 255"
  by (auto simp: cmd_holds_def)

text \<open>A string is appended when it fits.\<close>

lemma wp_cmd_cat:
  assumes "cmd_holds t s" and "0 \<notin> set u"
    and "\<And>v. length t + length u < 255 \<Longrightarrow> cmd_holds (t @ u) v \<Longrightarrow> net_acts v = net_acts s \<Longrightarrow> net_buf v = net_buf s \<Longrightarrow> Q () v"
    and "255 \<le> length t + length u \<Longrightarrow> E Oob_write s"
  shows "wp (cmd_cat u) Q E s"
proof -
  obtain d where d: "irnet_cmd s = t @ 0 # d" and l: "length (irnet_cmd s) = 255"
    using assms(1) by (auto simp: cmd_holds_def)
  have "0 \<in> set (irnet_cmd s)"
    by (simp add: d)
  then show ?thesis
    using assms l by (simp add: cmd_cat_def wp_simps cmd_holds_string [OF assms(1)]) (auto simp: cmd_holds_def)
qed

lemma wp_cmd_args:
  assumes "cmd_holds t s" and "list_all (\<lambda>a. 0 \<notin> set a) args"
    and "\<And>v. length t + length (concat (map (\<lambda>a. a @ bytes_of '' '') args)) < 255 \<Longrightarrow>
       cmd_holds (t @ concat (map (\<lambda>a. a @ bytes_of '' '') args)) v \<Longrightarrow> net_acts v = net_acts s \<Longrightarrow> net_buf v = net_buf s \<Longrightarrow> Q () v"
    and "\<And>v. 255 \<le> length t + length (concat (map (\<lambda>a. a @ bytes_of '' '') args)) \<Longrightarrow> E Oob_write v"
  shows "wp (seqs (concat (map (\<lambda>a. [cmd_cat a, cmd_cat (bytes_of '' '')]) args))) Q E s"
  using assms
proof (induction args arbitrary: t s)
  case Nil
  then show ?case
    using cmd_holds_short [OF Nil(1)] by (simp add: wp_simps)
next
  case (Cons a args)
  have sp: "0 \<notin> set (bytes_of '' '')" "length (bytes_of '' '') = 1"
    by (simp_all add: bytes_of_def)
  show ?case
    unfolding list.map concat.simps append_Cons append_Nil wp_seqs_Cons
  proof (rule wp_cmd_cat [OF Cons.prems(1)])
    show "0 \<notin> set a"
      using Cons.prems(2) by simp
    fix v
    assume v: "cmd_holds (t @ a) v" "net_acts v = net_acts s" "net_buf v = net_buf s"
    show "wp (cmd_cat (bytes_of '' '')) (\<lambda>_. wp (seqs (concat (map (\<lambda>a. [cmd_cat a, cmd_cat (bytes_of '' '')]) args))) Q E) E v"
    proof (rule wp_cmd_cat [OF v(1) sp(1)])
      fix w
      assume w: "cmd_holds ((t @ a) @ bytes_of '' '') w" "net_acts w = net_acts v" "net_buf w = net_buf v"
      show "wp (seqs (concat (map (\<lambda>a. [cmd_cat a, cmd_cat (bytes_of '' '')]) args))) Q E w"
        by (rule Cons.IH [OF w(1)]) (use Cons.prems v w in \<open>simp_all add: add.assoc\<close>)
    qed (use Cons.prems(4) in simp)
  qed (use Cons.prems(4) in simp)
qed

lemma irnet_cmd_nul [simp]: "0 \<notin> set irnet_cmd1" "0 \<notin> set irnet_cmd2" "0 \<notin> set irnet_cmd3" "0 \<notin> set irnet_aux"
  by (simp_all add: irnet_cmd1_def irnet_cmd2_def irnet_cmd3_def irnet_aux_def bytes_of_def)

lemma irnet_cmd_length [simp]: "length irnet_cmd1 = 27" "length irnet_cmd2 = 38" "length irnet_cmd3 = 19" "length irnet_aux = 9"
  by (simp_all add: irnet_cmd1_def irnet_cmd2_def irnet_cmd3_def irnet_aux_def bytes_of_def)

lemma command_fits:
  assumes "length (irnet_cmd s) = 255" and "list_all (\<lambda>a. 0 \<notin> set a) args"
  shows "wp (irnet_build args)
    (\<lambda>endp t. length (irnet_command args @ irnet_aux) < 255 \<and> endp = length (irnet_command args) \<and>
       cmd_holds (irnet_command args @ irnet_aux) t \<and> net_buf t = net_buf s \<and>
       net_acts t = net_acts s @ [Net_out (ln ''The command is [%s]'') [AS (irnet_command args @ irnet_aux)]])
    (\<lambda>e _. e = Oob_write \<and> 255 \<le> length (irnet_command args @ irnet_aux)) s"
    (is "wp _ ?Q ?E s")
proof -
  let ?m = "if args = [] then irnet_cmd2 else concat (map (\<lambda>a. a @ bytes_of '' '') args)"
  let ?rest = "\<lambda>_. wp (cmd_cat irnet_cmd3) (\<lambda>_ t. wp (cmd_cat irnet_aux) (\<lambda>_ u.
      ?Q (length (cstring (irnet_cmd t))) (u\<lparr>net_acts := net_acts u @ [Net_out (ln ''The command is [%s]'') [AS (cstring (irnet_cmd u))]]\<rparr>)) ?E t) ?E"
  have tail: "?rest () v" if v: "cmd_holds (irnet_cmd1 @ ?m) v" "net_acts v = net_acts s" "net_buf v = net_buf s" for v
  proof (rule wp_cmd_cat [OF v(1) irnet_cmd_nul(3)])
    fix t
    assume t: "cmd_holds ((irnet_cmd1 @ ?m) @ irnet_cmd3) t" "net_acts t = net_acts v" "net_buf t = net_buf v"
    then have c: "cmd_holds (irnet_command args) t"
      by (simp add: irnet_command_def)
    show "wp (cmd_cat irnet_aux) (\<lambda>_ u. ?Q (length (cstring (irnet_cmd t)))
        (u\<lparr>net_acts := net_acts u @ [Net_out (ln ''The command is [%s]'') [AS (cstring (irnet_cmd u))]]\<rparr>)) ?E t"
      by (rule wp_cmd_cat [OF c irnet_cmd_nul(4)])
        (use t(2,3) v(2,3) cmd_holds_string [OF c] in \<open>auto simp: cmd_holds_string\<close>, simp add: cmd_holds_def)
  qed (simp add: irnet_command_def)
  have first: "wp (cmd_set irnet_cmd1) (\<lambda>_ v. cmd_holds irnet_cmd1 v \<and> net_acts v = net_acts s \<and> net_buf v = net_buf s) never s"
    using assms(1) by (simp add: cmd_set_def wp_simps cmd_holds_def)
  have "wp (if args = [] then cmd_cat irnet_cmd2 else seqs (concat (map (\<lambda>a. [cmd_cat a, cmd_cat (bytes_of '' '')]) args))) ?rest ?E v"
    if v: "cmd_holds irnet_cmd1 v" "net_acts v = net_acts s" "net_buf v = net_buf s" for v
  proof (cases "args = []")
    case True
    show ?thesis
      unfolding if_P [OF True]
      by (rule wp_cmd_cat [OF v(1) irnet_cmd_nul(2)], rule tail) (use True v in \<open>simp_all add: irnet_command_def\<close>)
  next
    case False
    show ?thesis
      unfolding if_not_P [OF False]
      by (rule wp_cmd_args [OF v(1) assms(2)], rule tail) (use False v in \<open>simp_all add: irnet_command_def\<close>)
  qed
  then show ?thesis
    unfolding irnet_build_def wp_thn wp_bnd wp_gets wp_net_say wp_ret
    by (intro wp_mono [OF first]) auto
qed

text \<open>
  The arguments are copied into the command without a test of their length: the program gets to the events exactly
  when the whole command with its placeholder for an address has fewer than 255 bytes, and otherwise writes behind
  its array.
\<close>

theorem command_fits_iff:
  assumes "length (irnet_cmd s) = 255" and "list_all (\<lambda>a. 0 \<notin> set a) args"
  shows "wp (irnet_build args)
    (\<lambda>endp t. length (irnet_command args @ irnet_aux) < 255 \<and> endp = length (irnet_command args) \<and>
       cmd_holds (irnet_command args @ irnet_aux) t \<and> net_buf t = net_buf s \<and>
       net_acts t = net_acts s @ [Net_out (ln ''The command is [%s]'') [AS (irnet_command args @ irnet_aux)]])
    (\<lambda>e _. e = Oob_write \<and> 255 \<le> length (irnet_command args @ irnet_aux)) s"
  using assms by (rule command_fits)

lemma command_fits_iff_witness:
  "wp (irnet_build [replicate 200 65]) (\<lambda>_ _. False) (\<lambda>e _. e = Oob_write) \<lparr>net_buf = [], net_acts = [], irnet_cmd = replicate 255 0\<rparr>"
  by (rule wp_mono [OF command_fits_iff]) (simp_all add: irnet_command_def bytes_of_def)

section \<open>Events\<close>

text \<open>The command holds an address of eight bytes in its place.\<close>

definition cmd_ready :: "byte list \<Rightarrow> byte list \<Rightarrow> irnetd \<Rightarrow> bool" where
  "cmd_ready pre l s \<longleftrightarrow> net_buf s = l \<and> (\<exists>x. length x = 8 \<and> cmd_holds (pre @ x @ [0x22]) s)"

lemma irnet_event_request:
  assumes "cmd_ready pre l s" and "take 3 l = bytes_of ''Req''" and "21 \<le> length l" and "0 \<notin> set (take 8 (drop 13 l))"
  shows "wp (irnet_event K (length pre) None)
    (\<lambda>_ t. cmd_ready pre l t \<and> given ''system'' (net_acts t) = given ''system'' (net_acts s) @ [pre @ take 8 (drop 13 l) @ [0x22]]) never s"
proof -
  obtain x d where x: "length x = 8" and c: "irnet_cmd s = pre @ x @ 0x22 # 0 # d" and l: "length (irnet_cmd s) = 255"
    and pre: "0 \<notin> set pre" and buf: "net_buf s = l"
    using assms(1) by (auto simp: cmd_ready_def cmd_holds_def)
  obtain a where a: "take 8 (drop 13 l) = a" and a8: "length a = 8"
    using assms(3) by simp
  have p: "poked (length pre) a (irnet_cmd s) = (pre @ a @ [0x22]) @ 0 # d"
    using x a8 by (simp add: c poked_def)
  have z: "0 \<notin> set (pre @ a @ [0x22])"
    using pre assms(4) by (simp add: a)
  have str: "cstring ((pre @ a @ [0x22]) @ 0 # d) = pre @ a @ [0x22]"
    by (rule cstring_whole [OF z])
  have n: "length pre + 8 \<le> 255" "length ((pre @ a @ [0x22]) @ 0 # d) = 255"
    using l x a8 by (simp_all add: c)
  show ?thesis
    using assms(2,3) n str l z a8
    by (auto simp: irnet_event_def irnet_read_def irnet_address_def wp_simps Let_def buf a p cmd_ready_def cmd_holds_def
      simp del: append_assoc)
qed

lemma irnet_read_line:
  "wp (irnet_event K n (Some e)) Q E s = wp (irnet_event K n None) Q E
     (s\<lparr>net_buf := take 254 e @ 0 # drop (Suc (length (take 254 e))) (net_buf s)\<rparr>)"
  by (simp add: irnet_event_def irnet_read_def wp_simps)

text \<open>Once nothing more can be read, every turn finds the old line.\<close>

lemma irnet_repeats:
  assumes "cmd_ready pre l s" and "take 3 l = bytes_of ''Req''" and "21 \<le> length l" and "0 \<notin> set (take 8 (drop 13 l))"
  shows "wp (seqs (map (irnet_event K (length pre)) (replicate n None)))
    (\<lambda>_ t. given ''system'' (net_acts t) = given ''system'' (net_acts s) @ replicate n (pre @ take 8 (drop 13 l) @ [0x22])) never s"
  using assms(1)
proof (induction n arbitrary: s)
  case (Suc n)
  show ?case
    unfolding replicate_Suc list.map wp_seqs_Cons
    by (rule wp_weaken [OF irnet_event_request [OF Suc.prems assms(2-4)]], elim conjE)
      (rule wp_weaken [OF Suc.IH], simp_all add: replicate_append_same)
qed (simp add: wp_simps)

text \<open>
  A request starts \<open>pppd\<close> with the address that the event carries in its 14th to 21st byte. After that the end of
  the events, or an error on reading them, is not noticed: the last request is answered again in every turn.
\<close>

theorem request_repeated_at_end:
  assumes "take 3 e = bytes_of ''Req''" and "21 \<le> length e" and "length e \<le> 254" and "0 \<notin> set (take 8 (drop 13 e))"
    and "net_answer K h \<noteq> 0" and "h = net_acts s @ [Net_out (ln ''The command is [%s]'') [AS (irnet_command [] @ irnet_aux)],
      Net ''fopen'' [] [bytes_of ''/dev/irnet'', bytes_of ''r'']]"
  shows "wp (irnetd_main K [] (Some e # replicate n None))
    (\<lambda>r t. r = 0 \<and> given ''system'' (net_acts t) =
       given ''system'' (net_acts s) @ replicate (Suc n) (irnet_command [] @ take 8 (drop 13 e) @ [0x22])) never s"
proof -
  let ?pre = "irnet_command []" and ?junk = "map (net_junk K (net_acts s)) [0..<255]"
  let ?s = "s\<lparr>net_buf := ?junk, irnet_cmd := ?junk\<rparr>"
  have short: "length (?pre @ irnet_aux) < 255"
    by (simp add: irnet_command_def)
  have build: "wp (irnet_build []) (\<lambda>endp t. endp = length ?pre \<and> cmd_holds (?pre @ irnet_aux) t \<and> net_buf t = ?junk \<and>
      net_acts t = net_acts s @ [Net_out (ln ''The command is [%s]'') [AS (?pre @ irnet_aux)]]) never ?s"
    by (rule wp_mono [OF command_fits]) (use short in auto)
  obtain l where ldef: "l = e @ 0 # drop (Suc (length e)) ?junk"
    by blast
  have l: "take 3 l = bytes_of ''Req''" "21 \<le> length l" "take 8 (drop 13 l) = take 8 (drop 13 e)"
    using assms(1,2) by (simp_all add: ldef)
  have first: "wp (irnet_event K (length ?pre) (Some e)) (\<lambda>_ u. cmd_ready ?pre l u \<and>
      given ''system'' (net_acts u) = given ''system'' (net_acts t) @ [?pre @ take 8 (drop 13 e) @ [0x22]]) never t"
    if t: "cmd_holds (?pre @ irnet_aux) t" "net_buf t = ?junk" for t
  proof -
    have "cmd_ready ?pre l (t\<lparr>net_buf := l\<rparr>)"
      using t(1) unfolding cmd_ready_def
      by (intro conjI exI [of _ "bytes_of ''01235678''"]) (simp_all add: irnet_aux_def cmd_holds_def bytes_of_def)
    note ready = irnet_event_request [OF this l(1,2), unfolded l(3), OF assms(4)]
    have "take 254 e @ 0 # drop (Suc (length (take 254 e))) (net_buf t) = l"
      using assms(3) t(2) by (simp add: ldef)
    then show ?thesis
      unfolding irnet_read_line using ready by simp
  qed
  have run: "wp (seqs (map (irnet_event K (length ?pre)) (Some e # replicate n None))) (\<lambda>_ u. given ''system'' (net_acts u) =
      given ''system'' (net_acts t) @ replicate (Suc n) (?pre @ take 8 (drop 13 e) @ [0x22])) never t"
    if t: "cmd_holds (?pre @ irnet_aux) t" "net_buf t = ?junk" for t
    unfolding list.map wp_seqs_Cons
    by (rule wp_weaken [OF first [OF t]], elim conjE, rule wp_weaken [OF irnet_repeats [of ?pre l]])
      (use l assms(4) in simp_all)
  have after: "wp (bnd (net_call K ''fopen'' [] [bytes_of ''/dev/irnet'', bytes_of ''r'']) (\<lambda>f.
      if f = 0 then thn (net_fail ''Error opening /dev/irnet: '') (ret (-1))
      else thn (seqs (map (irnet_event K (length ?pre)) (Some e # replicate n None))) (ret 0)))
    (\<lambda>r u. r = 0 \<and> given ''system'' (net_acts u) =
       given ''system'' (net_acts s) @ replicate (Suc n) (?pre @ take 8 (drop 13 e) @ [0x22])) never t"
    if t: "cmd_holds (?pre @ irnet_aux) t" "net_buf t = ?junk"
      "net_acts t = net_acts s @ [Net_out (ln ''The command is [%s]'') [AS (?pre @ irnet_aux)]]" for t
  proof -
    have "net_answer K (net_acts t @ [Net ''fopen'' [] [bytes_of ''/dev/irnet'', bytes_of ''r'']]) \<noteq> 0"
      using assms(5) by (simp add: assms(6) t(3))
    then show ?thesis
      unfolding wp_bnd wp_net_call Let_def wp_if if_not_P wp_thn wp_ret
      by (simp only: if_False, intro wp_weaken [OF run]) (use t in \<open>simp_all add: cmd_holds_def\<close>)
  qed
  show ?thesis
    unfolding irnetd_main_def wp_bnd wp_net_local wp_thn wp_modify
    by (rule wp_weaken [OF build], elim conjE, hypsubst, rule after [unfolded wp_bnd])
qed

definition example_irnetd :: irnetd where
  "example_irnetd = \<lparr>net_buf = [], net_acts = [], irnet_cmd = []\<rparr>"

lemma request_repeated_at_end_witness:
  "wp (irnetd_main (constant_net 1 []) [] (Some (bytes_of ''Request from 89abcdef'') # replicate 1 None))
    (\<lambda>r t. r = 0 \<and> given ''system'' (net_acts t) = given ''system'' (net_acts example_irnetd) @
       replicate (Suc 1) (irnet_command [] @ take 8 (drop 13 (bytes_of ''Request from 89abcdef'')) @ [0x22])) never example_irnetd"
  by (rule request_repeated_at_end [OF _ _ _ _ _ refl]) (simp_all add: constant_net_def bytes_of_def)

end
