(* ===== verification/Irdaspray.thy ===== *)
theory Irdaspray
  imports Net_Calls
begin

text \<open>
  \<open>irsockets/irdaspray.c\<close>: client and server of the services IrECHO and IrDISCARD. \<open>fork\<close> is a call
  whose answer says whether the model goes on as the parent (a number) or as the child (zero).
\<close>

section \<open>Globals\<close>

abbreviation (input) EAGAIN_net :: int where "EAGAIN_net \<equiv> 11"
abbreviation (input) ENOTUNIQ :: int where "ENOTUNIQ \<equiv> 76"
abbreviation (input) EADDRNOTAVAIL :: int where "EADDRNOTAVAIL \<equiv> 99"
abbreviation (input) spray_buf_size :: nat where "spray_buf_size \<equiv> 8200"

record spray = net +
  frame_size :: int
  frame_number :: int
  spray_echo :: int
  spray_server :: int
  spray_two :: int

type_synonym 'a sm = "(spray, 'a) cm"

definition spray_init :: "net_act list \<Rightarrow> spray" where
  "spray_init h = \<lparr>net_buf = replicate spray_buf_size 0, net_acts = h, frame_size = 1024, frame_number = 100,
     spray_echo = 1, spray_server = 0, spray_two = 0\<rparr>"

section \<open>Discovery\<close>

text \<open>\<open>HINT_COMPUTER | HINT_PDA\<close>; the last two of the four bytes are not initialised.\<close>

definition irdaspray_sethintmask :: "net_system \<Rightarrow> int \<Rightarrow> unit sm" where
  "irdaspray_sethintmask K fd =
    bnd (net_local K 4) (\<lambda>h.
    bnd (net_call K ''setsockopt IRLMP_HINT_MASK_SET'' [fd, 4] [[0x04 OR 0x02, 0] @ drop 2 h]) (\<lambda>r.
    doif (r \<noteq> 0) (thn (net_fail ''setsockopt'') (stop (Exit (-1))))))"

definition irdaspray_check_discovery :: "net_system \<Rightarrow> int \<Rightarrow> int sm" where
  "irdaspray_check_discovery K fd =
    bnd (enum_devices K fd) (\<lambda>l. case l of
      None \<Rightarrow> thn (net_say (ln ''Didn't find any devices!'') []) (ret (-1))
    | Some buf \<Rightarrow>
        if disc_len K buf = 0 then thn (net_say (ln ''Didn't find any devices!'') []) (ret (-1))
        else ret 0)"

definition irdaspray_waitfor_device :: "net_system \<Rightarrow> int \<Rightarrow> int sm" where
  "irdaspray_waitfor_device K fd =
    thn (irdaspray_sethintmask K fd) (
    bnd (irdaspray_check_discovery K fd) (\<lambda>r.
    if r = 0 then ret 0 else
    thn (net_say (ln ''Waiting for a device...'') []) (
    bnd (net_call K ''getsockopt IRLMP_WAITDEVICE'' [fd, 30000] []) (\<lambda>r.
    if r = 0 then ret 0 else
    bnd (net_ask (net_errno K)) (\<lambda>e.
    if e \<noteq> EAGAIN_net then thn (net_fail ''getsockopt-wait'') (stop (Exit (-1)))
    else thn (net_say (ln ''Nothing found in the last %d s'') [Ii 30]) (ret (-1)))))))"

text \<open>The devices from the \<open>i\<close>-th on are shown and asked for the service.\<close>

function query_devices :: "net_system \<Rightarrow> int \<Rightarrow> string \<Rightarrow> byte list \<Rightarrow> byte list \<Rightarrow> nat \<Rightarrow> unit sm" where
  "query_devices K fd serv buf q i =
    (if i < unat (disc_len K buf) then
       if i \<le> DISC_MAX_DEVICES then
         bnd (disc_info buf (int i)) (\<lambda>name.
         bnd (disc_daddr K buf (int i)) (\<lambda>daddr.
         thn (net_say ''  [%d] name:  %s, daddr: 0x%08x'' [Ii (int i + 1), AS name, AI daddr]) (
         let q' = string_to ias_attr_at ''IrDA:TinyTP:LsapSel'' (string_to ias_class_at serv
                    (poked ias_daddr_at (bytes32 (net_order K) daddr) q)) in
         bnd (net_call K ''getsockopt IRLMP_IAS_QUERY'' [fd, int ias_size] [q']) (\<lambda>err.
         thn (if err = 0 then net_say (ln '', has service %s'') [AS (bytes_of serv)]
              else bnd (net_ask (net_errno K)) (\<lambda>e.
                if e \<noteq> EADDRNOTAVAIL then net_say (ln '' <can't query IAS>'') []
                else net_say (ln '', doesn't have %s'') [AS (bytes_of serv)])) (
         bnd (net_ask (net_data K)) (\<lambda>data.
         query_devices K fd serv buf (if err = 0 then poked 0 (take ias_size data) q' else q') (i + 1)))))))
       else stop Oob_read
     else ret ())"
  by pat_completeness auto
termination by (relation "measure (\<lambda>(K, fd, serv, buf, q, i). 11 - i)") auto

declare query_devices.simps [simp del]

text \<open>
  The choice of the user. \<open>i > list->len\<close> compares unsigned numbers, so a negative number passes it and is
  turned down, but no number is too great.
\<close>

definition choose_device :: "net_system \<Rightarrow> byte list \<Rightarrow> int sm" where
  "choose_device K buf =
    thn (net_say ''Enter device number:'' []) (
    bnd (net_ask (net_scan K)) (\<lambda>r. case r of
      None \<Rightarrow> ret (-1)
    | Some n \<Rightarrow>
        thn (check Impl_defined (-2147483648 < n)) (
        let i = n - 1 in
        if i < 0 \<and> disc_len K buf < word_of_int i then ret (-1)
        else bnd (disc_daddr K buf i) (\<lambda>a. ret (sint a)))))"

definition irdaspray_discover_devices :: "net_system \<Rightarrow> int \<Rightarrow> string \<Rightarrow> int sm" where
  "irdaspray_discover_devices K fd service_name =
    thn (irdaspray_sethintmask K fd) (
    bnd (net_local K ias_size) (\<lambda>q.
    bnd (enum_devices K fd) (\<lambda>l. case l of
      None \<Rightarrow> thn (net_say (ln ''Didn't find any devices!'') []) (ret (-1))
    | Some buf \<Rightarrow>
        if disc_len K buf = 0 then thn (net_say (ln ''Didn't find any devices!'') []) (ret (-1))
        else
          thn (net_say (ln ''Discovered %d devices :'') [AI (disc_len K buf)]) (
          thn (query_devices K fd service_name buf q 0)
          (choose_device K buf)))))"

section \<open>The IAS tests\<close>

text \<open>They work on one structure, which keeps what an earlier step has written.\<close>

definition irias_get :: "net_system \<Rightarrow> int \<Rightarrow> string \<Rightarrow> string \<Rightarrow> string \<Rightarrow> (byte list \<Rightarrow> unit sm) \<Rightarrow> byte list \<Rightarrow> byte list sm" where
  "irias_get K fd opt cls attr show_it q =
    (let q = string_to ias_attr_at attr (string_to ias_class_at cls q) in
     bnd (net_call K opt [fd, int ias_size] [q]) (\<lambda>r.
     if r = 0 then bnd (net_ask (net_data K)) (\<lambda>data.
       let q' = poked 0 (take ias_size data) q in thn (show_it q') (ret q'))
     else ret q))"

definition show_ias_string :: "string \<Rightarrow> byte list \<Rightarrow> unit sm" where
  "show_ias_string fmt q = thn (check Oob_read (0 \<in> set (drop ias_string_at q)))
     (net_say (ln (fmt @ ''``%s'' @ [CHR 0x27, CHR 0x27])) [AS (cstring (drop ias_string_at q))])"

definition ias_int :: "net_system \<Rightarrow> u32 \<Rightarrow> byte list \<Rightarrow> byte list" where
  "ias_int K v = poked ias_value_at (bytes32 (net_order K) v)"

definition ias_type :: "net_system \<Rightarrow> u32 \<Rightarrow> byte list \<Rightarrow> byte list" where
  "ias_type K v = poked ias_type_at (bytes32 (net_order K) v)"

text \<open>The string, then its length in one byte before the character set.\<close>

definition ias_text :: "string \<Rightarrow> byte list \<Rightarrow> byte list" where
  "ias_text t q = poked ias_value_at [of_nat (length t)] (string_to ias_string_at t q)"

definition irias_do :: "net_system \<Rightarrow> string \<Rightarrow> int \<Rightarrow> string \<Rightarrow> bool \<Rightarrow> byte list \<Rightarrow> byte list sm" where
  "irias_do K opt fd msg with_errno q =
    bnd (net_call K opt [fd, int ias_size] [q]) (\<lambda>r.
    thn (doif (r \<noteq> 0) (thn (net_say (ln msg) []) (doif with_errno (net_fail ''setsockopt'')))) (ret q))"

definition irias_set :: "net_system \<Rightarrow> int \<Rightarrow> string \<Rightarrow> string \<Rightarrow> (byte list \<Rightarrow> byte list) \<Rightarrow> string \<Rightarrow> byte list \<Rightarrow> byte list sm" where
  "irias_set K fd cls attr value msg q =
    irias_do K ''setsockopt IRLMP_IAS_SET'' fd msg True (value (string_to ias_attr_at attr (string_to ias_class_at cls q)))"

definition spray_service :: "int \<Rightarrow> string" where
  "spray_service e = (if e \<noteq> 0 then ''IrECHO'' else ''IrDISCARD'')"

fun chained :: "('b \<Rightarrow> 'b sm) list \<Rightarrow> 'b \<Rightarrow> unit sm" where
  "chained [] q = ret ()"
| "chained (m # ms) q = bnd (m q) (chained ms)"

definition irias_play :: "net_system \<Rightarrow> int \<Rightarrow> unit sm" where
  "irias_play K fd = bnd (gets spray_echo) (\<lambda>e. bnd (net_local K ias_size) (chained [
     irias_get K fd ''getsockopt IRLMP_IAS_GET'' ''Device'' ''DeviceName''
       (show_ias_string ''The name of our device is = ''),
     irias_get K fd ''getsockopt IRLMP_IAS_QUERY'' ''Device'' ''DeviceName''
       (show_ias_string ''The name of the other device is = ''),
     irias_set K fd ''my:object'' ''my:int'' (ias_int K 45 \<circ> ias_type K IAS_INTEGER) ''Can't set <my:object><my:int> in IAS'',
     irias_set K fd ''my:object'' ''my:string'' (ias_text ''The String'' \<circ> ias_type K IAS_STRING)
       ''Can't set <my:object><my:string> in IAS'',
     irias_set K fd ''Device'' ''Owner'' (ias_text ''Myself'' \<circ> ias_type K IAS_STRING) ''Can't set <Device><Owner> in IAS'',
     irias_set K fd (spray_service e) ''App-Name'' (ias_text ''irdaspray.magic'' \<circ> ias_type K IAS_STRING)
       ''Can't set <IrECHO><App-Name> in IAS'',
     irias_set K fd [] ''App-Version'' (ias_int K 3 \<circ> ias_type K IAS_INTEGER) ''Can't set <><App-Version> in IAS'',
     irias_set K fd ''Device'' ''DeviceName'' (ias_text ''Linux'') ''Can't set <Device><DeviceName> in IAS'',
     irias_get K fd ''getsockopt IRLMP_IAS_GET'' ''my:object'' ''my:int'' (\<lambda>q. thn
       (net_say (ln ''Type = %d'') [AI (ias_word K ias_type_at q)])
       (net_say (ln ''Int = %d'') [AI (ias_word K ias_value_at q)])),
     irias_get K fd ''getsockopt IRLMP_IAS_GET'' ''my:object'' ''my:string'' (\<lambda>q. thn
       (net_say (ln ''Type = %d'') [AI (ias_word K ias_type_at q)])
       (show_ias_string ''String = '' q))]))"

definition irias_del :: "net_system \<Rightarrow> int \<Rightarrow> string \<Rightarrow> string \<Rightarrow> string \<Rightarrow> bool \<Rightarrow> byte list \<Rightarrow> byte list sm" where
  "irias_del K fd cls attr msg with_errno q =
    irias_do K ''setsockopt IRLMP_IAS_DEL'' fd msg with_errno (string_to ias_attr_at attr (string_to ias_class_at cls q))"

definition irias_remove :: "net_system \<Rightarrow> int \<Rightarrow> unit sm" where
  "irias_remove K fd = bnd (gets spray_echo) (\<lambda>e. bnd (net_local K ias_size) (chained [
     irias_del K fd ''my:object'' ''my:int'' ''Can't remove <my:object><my:int> in IAS'' True,
     irias_del K fd ''my:object'' ''my:string'' ''Can't remove <my:object><my:string> in IAS'' True,
     irias_del K fd ''Device'' ''Owner'' ''Can't remove <Device><Owner> in IAS'' True,
     irias_del K fd (spray_service e) ''App-Name'' ''Can't remove <IrECHO><App-Name> in IAS'' False,
     irias_del K fd [] ''App-Version'' ''Can't remove <><App-Version> in IAS'' True,
     irias_del K fd ''Device'' ''DeviceName'' ''Can't remove <Device><DeviceName> in IAS'' True,
     irias_del K fd ''None'' ''None'' ''Can't remove <None><None> in IAS'' True]))"

section \<open>The connection\<close>

definition irdaspray_connect_request :: "net_system \<Rightarrow> int \<Rightarrow> int sm" where
  "irdaspray_connect_request K fd =
    bnd (gets spray_echo) (\<lambda>e. let service_name = spray_service e in
    bnd (irdaspray_waitfor_device K fd) (\<lambda>r.
    if r \<noteq> 0 then ret (-1) else
    bnd (net_call K ''connect'' [fd, 0] [service service_name]) (\<lambda>err.
    if err = 0 then thn (net_say (ln ''Auto-connect did found exactly one device !'') []) (ret 0) else
    bnd (net_ask (net_errno K)) (\<lambda>e.
    if e = EADDRNOTAVAIL then thn (net_say (ln ''Auto-connect could not find anything...'') []) (ret (-1)) else
    thn (if e \<noteq> ENOTUNIQ then net_say (ln ''Auto-connect failed...'') []
         else net_say (ln ''Auto-connect has found more than one device...'') []) (
    bnd (irdaspray_discover_devices K fd service_name) (\<lambda>daddr.
    if daddr = -1 then ret (-1) else
    bnd (net_call K ''connect'' [fd, daddr] [service service_name]) (\<lambda>r.
    if r \<noteq> 0 then thn (net_fail ''connect'') (ret (-1)) else
    bnd (net_local K 36) (\<lambda>self.
    bnd (net_call K ''getsockname'' [fd, 36] []) (\<lambda>r.
    if r \<noteq> 0 then thn (net_fail ''getsockname'') (ret (-1)) else
    bnd (net_ask (net_data K)) (\<lambda>data. let self = poked 0 (take 36 data) self in
    thn (net_say (ln ''We have been assigned Address 0x%X and LSAP 0x%02X...'')
      [AI (word32 (net_order K) (drop 4 self)), Ib (self ! 2)]) (
    thn (net_say (ln ''Connected!'') []) (ret 0))))))))))))"

section \<open>The client\<close>

text \<open>\<open>n\<close> frames are left; a failed call adds its -1 to the total.\<close>

definition int_sum :: "int \<Rightarrow> int \<Rightarrow> int sm" where
  "int_sum a b = thn (check Impl_defined (-2147483648 \<le> a + b \<and> a + b < 2147483648)) (ret (a + b))"

definition send_frame :: "net_system \<Rightarrow> int \<Rightarrow> int sm" where
  "send_frame K fd =
    bnd (gets frame_size) (\<lambda>size. bnd (gets net_buf) (\<lambda>buf.
    thn (check Oob_read (size \<le> int spray_buf_size))
    (net_call K ''send'' [fd, size] [take (nat size) buf])))"

fun transmit_frames :: "net_system \<Rightarrow> int \<Rightarrow> nat \<Rightarrow> int \<Rightarrow> int sm" where
  "transmit_frames K fd 0 tot = ret tot"
| "transmit_frames K fd (Suc n) tot =
    bnd (send_frame K fd) (\<lambda>actual. bnd (int_sum tot actual) (transmit_frames K fd n))"

definition irdaspray_transmit :: "net_system \<Rightarrow> int \<Rightarrow> int sm" where
  "irdaspray_transmit K fd = bnd (gets frame_number) (\<lambda>n. transmit_frames K fd (nat n) 0)"

fun receive_frames :: "net_system \<Rightarrow> int \<Rightarrow> nat \<Rightarrow> int \<Rightarrow> int sm" where
  "receive_frames K fd 0 tot = ret tot"
| "receive_frames K fd (Suc n) tot =
    bnd (net_receive K ''recv'' fd) (\<lambda>actual. bnd (int_sum tot actual) (receive_frames K fd n))"

definition irdaspray_receive :: "net_system \<Rightarrow> int \<Rightarrow> int sm" where
  "irdaspray_receive K fd = bnd (gets frame_number) (\<lambda>n. receive_frames K fd (nat n) 0)"

definition open_socket :: "net_system \<Rightarrow> string \<Rightarrow> int sm" where
  "open_socket K kind = bnd (net_call K kind [] []) (\<lambda>fd.
     if fd < 0 then thn (net_fail ''socket'') (stop (Exit (-1))) else ret fd)"

definition clock_now :: "net_system \<Rightarrow> (int \<times> int) sm" where
  "clock_now K = thn (net_do (Net ''gettimeofday'' [] [])) (net_ask (net_clock K))"

text \<open>The second instance, when it is asked for: the parent goes on with a connection of its own.\<close>

definition second_client :: "net_system \<Rightarrow> int \<Rightarrow> int option sm" where
  "second_client K fd =
    bnd (net_call K ''fork'' [] []) (\<lambda>tpid.
    if tpid = 0 then ret (Some fd) else
    bnd (net_call K ''close'' [fd] []) (\<lambda>_.
    bnd (open_socket K ''socket SOCK_SEQPACKET'') (\<lambda>fd.
    bnd (irdaspray_connect_request K fd) (\<lambda>r. ret (if r \<noteq> 0 then None else Some fd)))))"

text \<open>The seconds and the rate of the last line follow from the bytes and the two times.\<close>

definition show_transfer :: "string \<Rightarrow> int \<Rightarrow> int \<times> int \<Rightarrow> int \<times> int \<Rightarrow> unit sm" where
  "show_transfer what tot start fin =
    net_say (ln (what @ '' %d bytes in %f seconds (%0.3f kbytes/s)''))
      [Ii tot, AMs (fst fin - fst start) (snd fin - snd start)]"

definition transfer_frames :: "net_system \<Rightarrow> int \<Rightarrow> int \<times> int \<Rightarrow> int sm" where
  "transfer_frames K fd start =
    bnd (gets spray_echo) (\<lambda>e.
    bnd (if e \<noteq> 0 then net_call K ''fork'' [] [] else ret 0) (\<lambda>pid.
    bnd (if pid \<noteq> 0 then irdaspray_receive K fd else irdaspray_transmit K fd) (\<lambda>tot.
    bnd (clock_now K) (\<lambda>fin.
    thn (if pid \<noteq> 0
      then bnd (net_call K ''wait'' [] []) (\<lambda>_. show_transfer ''Received'' tot start fin)
      else show_transfer ''Transmitted'' tot start fin) (ret 0)))))"

definition ir_client :: "net_system \<Rightarrow> int sm" where
  "ir_client K =
    bnd (open_socket K ''socket SOCK_SEQPACKET'') (\<lambda>fd.
    bnd (irdaspray_connect_request K fd) (\<lambda>r.
    if r \<noteq> 0 then ret (-1) else
    bnd (clock_now K) (\<lambda>start.
    bnd (gets spray_two) (\<lambda>two.
    bnd (if two \<noteq> 0 then second_client K fd else ret (Some fd)) (\<lambda>c. case c of
      None \<Rightarrow> ret (-1)
    | Some fd \<Rightarrow> transfer_frames K fd start)))))"

section \<open>The server\<close>

text \<open>\<open>None\<close>: the loop goes on after the rounds it was given.\<close>

fun serve_child :: "net_system \<Rightarrow> int \<Rightarrow> nat \<Rightarrow> unit option sm" where
  "serve_child K fd 0 = ret None"
| "serve_child K fd (Suc n) =
    bnd (net_receive K ''recv'' fd) (\<lambda>actual.
    if actual \<le> 0 then ret (Some ()) else
    thn (net_say (ln ''Got %d bytes'') [Ii actual]) (
    bnd (gets spray_echo) (\<lambda>e.
    if e \<noteq> 0 then
      bnd (gets net_buf) (\<lambda>buf.
      bnd (net_call K ''send'' [fd, actual] [take (nat actual) buf]) (\<lambda>actual.
      thn (net_say (ln ''Sent %d bytes'') [Ii actual])
      (if 0 < actual then serve_child K fd n else ret (Some ()))))
    else serve_child K fd n)))"

fun collect_zombies :: "net_system \<Rightarrow> nat \<Rightarrow> unit option sm" where
  "collect_zombies K 0 = ret None"
| "collect_zombies K (Suc n) = bnd (net_call K ''waitpid'' [-1, 1] []) (\<lambda>pid.
     if 0 < pid then collect_zombies K n else ret (Some ()))"

text \<open>One turn of the loop of the server: it goes on, it is left with a result, or an inner loop still runs.\<close>

datatype server_turn = Goes_on | Left_with int | Still_runs

definition accept_turn :: "net_system \<Rightarrow> int \<Rightarrow> nat \<Rightarrow> server_turn sm" where
  "accept_turn K fd n =
    thn (net_say (ln ''Waiting for connection!'') []) (
    bnd (collect_zombies K n) (\<lambda>z. if z = None then ret Still_runs else
    bnd (net_call K ''accept'' [fd] []) (\<lambda>conn_fd.
    if conn_fd < 0 then thn (net_fail ''accept'') (ret (Left_with (-1))) else
    bnd (net_call K ''fork'' [] []) (\<lambda>pid.
    if pid \<noteq> 0 then ret Goes_on else
    thn (net_say (ln ''Connected!'') []) (
    bnd (serve_child K conn_fd n) (\<lambda>c. if c = None then ret Still_runs else
    bnd (net_call K ''close'' [conn_fd] []) (\<lambda>_.
    thn (net_say (ln ''Disconnected!'') []) (ret (Left_with 0)))))))))"

fun accept_turns :: "net_system \<Rightarrow> int \<Rightarrow> nat \<Rightarrow> nat \<Rightarrow> server_turn sm" where
  "accept_turns K fd n 0 = ret Goes_on"
| "accept_turns K fd n (Suc m) = bnd (accept_turn K fd n) (\<lambda>t.
     if t = Goes_on then accept_turns K fd n m else ret t)"

definition ir_server :: "net_system \<Rightarrow> nat \<Rightarrow> nat \<Rightarrow> server_turn sm" where
  "ir_server K n m =
    bnd (gets spray_echo) (\<lambda>e.
    thn (if e \<noteq> 0 then net_say (ln ''IrDA Echo server starting ...'') []
         else net_say (ln ''IrDA Discard server starting ...'') []) (
    bnd (open_socket K ''socket SOCK_SEQPACKET'') (\<lambda>fd.
    bnd (net_call K ''bind'' [fd, 0xff] [service (spray_service e)]) (\<lambda>r.
    if r \<noteq> 0 then thn (net_fail ''bind'') (ret (Left_with (-1))) else
    bnd (net_call K ''listen'' [fd, 8] []) (\<lambda>r.
    if r \<noteq> 0 then thn (net_fail ''listen'') (ret (Left_with (-1))) else
    accept_turns K fd n m)))))"

section \<open>main\<close>

definition spray_usage :: "byte list \<Rightarrow> unit sm" where
  "spray_usage prog = seqs [
     net_do (Net_err (ln ''usage: %s [-s] [-c] [-d] [-e] [-h] [-b frame-size] [-n frames] '') [AS prog]),
     net_do (Net_err (ln ''      -s act as a server'') []),
     net_do (Net_err (ln ''      -c act as a client (default)'') []),
     net_do (Net_err (ln ''      -d use discard service for unidirection transfer'') []),
     net_do (Net_err (ln ''      -e use echo service for bidirection transfer (default)'') []),
     net_do (Net_err (ln ''      -t open two concurent client sockets'') []),
     net_do (Net_err (ln ''      -h print this message ;-)'') []),
     net_do (Net_err (ln ''      -b frame-size in bytes (default 1024, max 8192)'') []),
     net_do (Net_err (ln ''      -n number of frames (default 100)'') []),
     stop (Exit 1)]"

definition spray_number :: "byte list \<Rightarrow> int sm" where
  "spray_number t = (case atoi t of Inl e \<Rightarrow> stop e | Inr n \<Rightarrow> ret n)"

definition spray_option :: "byte list \<Rightarrow> char \<times> byte list \<Rightarrow> unit sm" where
  "spray_option prog p = (case p of (c, optarg) \<Rightarrow>
     if c = CHR ''s'' then modify (\<lambda>s. s\<lparr>spray_server := 1\<rparr>)
     else if c = CHR ''c'' then modify (\<lambda>s. s\<lparr>spray_server := 0\<rparr>)
     else if c = CHR ''d'' then modify (\<lambda>s. s\<lparr>spray_echo := 0\<rparr>)
     else if c = CHR ''e'' then modify (\<lambda>s. s\<lparr>spray_echo := 1\<rparr>)
     else if c = CHR ''t'' then modify (\<lambda>s. s\<lparr>spray_two := 1\<rparr>)
     else if c = CHR ''n'' then bnd (spray_number optarg) (\<lambda>n. modify (\<lambda>s. s\<lparr>frame_number := n\<rparr>))
     else if c = CHR ''b'' then bnd (spray_number optarg) (\<lambda>n. modify (\<lambda>s. s\<lparr>frame_size := n\<rparr>))
     else spray_usage prog)"

definition spray_main :: "net_system \<Rightarrow> byte list \<Rightarrow> (char \<times> byte list) list \<Rightarrow> nat \<Rightarrow> nat \<Rightarrow> server_turn sm" where
  "spray_main K prog opts n m =
    thn (seqs (map (spray_option prog) opts)) (
    bnd (gets spray_server) (\<lambda>srv.
    if srv \<noteq> 0 then ir_server K n m else bnd (ir_client K) (\<lambda>r. ret (Left_with r))))"

section \<open>The number of a device\<close>

lemma wp_choose_device:
  assumes "net_scan K (net_acts s @ [Net_out ''Enter device number:'' []]) = Some n"
  shows "wp (choose_device K buf) Q E s = (let t = s\<lparr>net_acts := net_acts s @ [Net_out ''Enter device number:'' []]\<rparr> in
    if n \<le> -2147483648 then E Impl_defined t
    else if n - 1 < 0 \<and> disc_len K buf < word_of_int (n - 1) then Q (-1) t
    else if 0 \<le> n - 1 \<and> n - 1 \<le> 10 then Q (sint (word32 (net_order K) (drop (nat (8 + 36 * (n - 1))) buf))) t
    else E Oob_read t)"
  using assms by (simp add: choose_device_def wp_simps Let_def)

lemma negative_exceeds:
  assumes "i < 0" and "-2147483648 \<le> i" and "unat w \<le> 2147483647"
  shows "w < (word_of_int i :: u32)"
proof -
  have "uint (word_of_int i :: u32) = i mod 4294967296"
    by (simp add: uint_word_of_int)
  also have "\<dots> = i + 4294967296"
    using assms(1,2) mod_pos_pos_trivial [of "i + 4294967296" 4294967296] by simp
  finally have u: "uint (word_of_int i :: u32) = i + 4294967296" .
  have "uint w = int (unat w)"
    by simp
  also have "\<dots> \<le> 2147483647"
    using assms(3) by linarith
  finally have "uint w < uint (word_of_int i :: u32)"
    unfolding u using assms(2) by linarith
  then show ?thesis
    by (simp only: word_less_def)
qed

text \<open>
  What the user answers is not compared with the number of devices that were found: an answer below one ends
  the choice, the numbers up to eleven give the address that is in that place of the buffer, whether a device was
  reported there or not, and a greater one reads behind the buffer.
\<close>

theorem device_number_not_bounded:
  assumes "net_scan K (net_acts s @ [Net_out ''Enter device number:'' []]) = Some n"
    and "-2147483648 < n" and "n \<le> 2147483647" and "unat (disc_len K buf) \<le> 2147483647"
  shows "wp (choose_device K buf)
    (\<lambda>r _. (n < 1 \<and> r = -1) \<or> (1 \<le> n \<and> n \<le> 11 \<and> r = sint (word32 (net_order K) (drop (nat (8 + 36 * (n - 1))) buf))))
    (\<lambda>e _. 11 < n \<and> e = Oob_read) s"
proof (cases "n < 1")
  case True
  then have "disc_len K buf < word_of_int (n - 1)"
    using assms(2,4) by (intro negative_exceeds) simp_all
  with True assms(2) show ?thesis
    by (simp add: wp_choose_device [OF assms(1)] Let_def)
next
  case False
  then show ?thesis
    by (simp add: wp_choose_device [OF assms(1)] Let_def)
qed

section \<open>The server\<close>

text \<open>What was sent.\<close>

abbreviation (input) sends :: "net_act list \<Rightarrow> byte list list" where
  "sends \<equiv> given ''send''"

text \<open>A system for examples: a client that sends \<open>msgs\<close>; processes are started or not.\<close>

definition example_net :: "byte list list \<Rightarrow> int \<Rightarrow> net_system" where
  "example_net msgs pid = \<lparr>net_answer = (\<lambda>h.
     if is_call ''recv'' (last h) then
       (let k = calls_of ''recv'' h - 1 in if k < length msgs then int (length (msgs ! k)) else 0)
     else if is_call ''fork'' (last h) then pid
     else if is_call ''waitpid'' (last h) then 0 else 3),
   net_errno = (\<lambda>_. 0), net_data = (\<lambda>h. msgs ! (calls_of ''recv'' h - 1)), net_clock = (\<lambda>_. (0, 0)),
   net_scan = (\<lambda>_. Some 12), net_junk = (\<lambda>_ _. 0), net_order = Little\<rparr>"

lemma device_number_not_bounded_witness:
  "wp (choose_device (example_net [] 1) (replicate 400 0)) (\<lambda>r _. False) (\<lambda>e _. e = Oob_read) (spray_init [])"
proof -
  have "wp (choose_device (example_net [] 1) (replicate 400 0))
    (\<lambda>r _. (12 < (1::int) \<and> r = -1) \<or> (1 \<le> (12::int) \<and> 12 \<le> (11::int) \<and>
       r = sint (word32 (net_order (example_net [] 1)) (drop (nat (8 + 36 * (12 - 1))) (replicate 400 0)))))
    (\<lambda>e _. 11 < (12::int) \<and> e = Oob_read) (spray_init [])"
    by (rule device_number_not_bounded) (simp_all add: example_net_def disc_len_def word32_def be32_def)
  then show ?thesis
    by simp
qed

text \<open>The client sends \<open>msgs\<close>, one for each \<open>recv\<close>, and closes; what it is sent arrives.\<close>

definition client_sends :: "net_system \<Rightarrow> byte list list \<Rightarrow> nat \<Rightarrow> bool" where
  "client_sends K msgs k0 \<longleftrightarrow>
    (\<forall>h fd n. let k = calls_of ''recv'' h - k0; r = h @ [Net ''recv'' [fd, n] []] in
       net_answer K r = (if k < length msgs then int (length (msgs ! k)) else 0) \<and>
       (k < length msgs \<longrightarrow> net_data K r = msgs ! k)) \<and>
    (\<forall>h. is_call ''send'' (last h) \<longrightarrow> 0 < net_answer K h)"

lemma client_sends_recv:
  assumes "client_sends K msgs k0" and "calls_of ''recv'' h = k0 + k"
  shows "net_answer K (h @ [Net ''recv'' [fd, n] []]) = (if k < length msgs then int (length (msgs ! k)) else 0)"
    and "k < length msgs \<Longrightarrow> net_data K (h @ [Net ''recv'' [fd, n] []]) = msgs ! k"
  using assms by (auto simp: client_sends_def Let_def)

lemma echo_from:
  assumes "client_sends K msgs k0" and "list_all (\<lambda>m. m \<noteq> [] \<and> length m \<le> 8200) msgs"
    and "length (net_buf s) = 8200" and "spray_echo s \<noteq> 0" and "calls_of ''recv'' (net_acts s) = k0 + k"
    and "k + n = length msgs"
  shows "wp (serve_child K fd (Suc n)) (\<lambda>r t. r = Some () \<and> sends (net_acts t) = sends (net_acts s) @ drop k msgs) never s"
  using assms(3-6)
proof (induction n arbitrary: s k)
  case 0
  then show ?case
    by (simp add: wp_simps Let_def client_sends_recv [OF assms(1)])
next
  case (Suc n)
  let ?m = "msgs ! k"
  have k: "k < length msgs"
    using Suc.prems by simp
  then have m: "?m \<noteq> []" "length ?m \<le> 8200"
    using assms(2) by (auto simp: list_all_length)
  have sent: "is_call ''send'' (last h) \<Longrightarrow> 0 < net_answer K h" for h
    using assms(1) by (simp add: client_sends_def)
  have d: "drop k msgs = ?m # drop (Suc k) msgs"
    using k by (simp add: Cons_nth_drop_Suc)
  have r: "net_answer K (net_acts s @ [Net ''recv'' [fd, 8200] []]) = int (length ?m)"
    "net_data K (net_acts s @ [Net ''recv'' [fd, 8200] []]) = ?m"
    using k client_sends_recv [OF assms(1) Suc.prems(3)] by simp_all
  show ?case
    unfolding d
    apply (subst serve_child.simps)
    apply (simp add: wp_simps Let_def r Suc.prems(1,2) m sent min_absorb1 del: serve_child.simps)
    apply (rule wp_weaken [OF Suc.IH [where k = "Suc k"]])
    using Suc.prems m by simp_all
qed

text \<open>
  C36. The child of the echo server sends back every message of its client, unchanged and in order, and returns
  when the client closes the connection. The messages are not empty and fit in the buffer of 8200 bytes, each of them is
  what one call of \<open>recv\<close> gets, and the calls of \<open>send\<close> succeed.
\<close>

theorem echo_returns_messages:
  assumes "client_sends K msgs (calls_of ''recv'' (net_acts s))" and "list_all (\<lambda>m. m \<noteq> [] \<and> length m \<le> 8200) msgs"
    and "length (net_buf s) = 8200" and "spray_echo s \<noteq> 0"
  shows "wp (serve_child K fd (Suc (length msgs)))
    (\<lambda>r t. r = Some () \<and> sends (net_acts t) = sends (net_acts s) @ msgs) never s"
  using echo_from [OF assms, of 0 "length msgs" fd] by simp

lemma example_client_sends: "client_sends (example_net msgs pid) msgs 0"
  by (auto simp: client_sends_def example_net_def Let_def is_call_other [of "''send''"])

lemma echo_returns_messages_witness:
  "wp (serve_child (example_net [[1, 2], [3]] 0) 4 (Suc (length [[1, 2], [3 :: byte]])))
    (\<lambda>r t. r = Some () \<and> sends (net_acts t) = sends (net_acts (spray_init [])) @ [[1, 2], [3 :: byte]]) never (spray_init [])"
  by (rule echo_returns_messages) (simp_all add: spray_init_def example_client_sends)

text \<open>A server without a connection to close: its clients are served by children.\<close>

definition server_parent :: "net_system \<Rightarrow> bool" where
  "server_parent K \<longleftrightarrow>
    (\<forall>h. (is_call ''accept'' (last h) \<longrightarrow> 0 \<le> net_answer K h) \<and> (is_call ''fork'' (last h) \<longrightarrow> 0 < net_answer K h) \<and>
      (is_call ''waitpid'' (last h) \<longrightarrow> net_answer K h \<le> 0))"

text \<open>
  The server never closes the socket of a connection that a child serves: after \<open>m\<close> accepted connections it has
  called \<open>accept\<close> \<open>m\<close> times and \<open>close\<close> not once.
\<close>

theorem server_keeps_connections:
  assumes "server_parent K"
  shows "wp (accept_turns K fd (Suc n) m)
    (\<lambda>t u. t = Goes_on \<and> calls_of ''accept'' (net_acts u) = calls_of ''accept'' (net_acts s) + m \<and>
       calls_of ''close'' (net_acts u) = calls_of ''close'' (net_acts s)) never s"
proof (induction m arbitrary: s)
  case (Suc m)
  have K: "is_call ''accept'' (last h) \<Longrightarrow> \<not> net_answer K h < 0" "is_call ''fork'' (last h) \<Longrightarrow> net_answer K h \<noteq> 0"
    "is_call ''waitpid'' (last h) \<Longrightarrow> \<not> 0 < net_answer K h" for h
    using assms by (auto simp: server_parent_def not_less dest!: spec [of _ h])
  show ?case
    apply (simp add: accept_turn_def wp_simps Let_def K)
    apply (rule wp_weaken [OF Suc.IH])
    apply simp
    done
qed (simp add: wp_simps)

lemma server_keeps_connections_witness:
  "wp (accept_turns (example_net [] 7) 3 1 5)
    (\<lambda>t u. t = Goes_on \<and> calls_of ''accept'' (net_acts u) = 5 \<and> calls_of ''close'' (net_acts u) = 0) never (spray_init [])"
  using server_keeps_connections [of "example_net [] 7" 3 0 5 "spray_init []"]
  by (simp add: spray_init_def server_parent_def example_net_def is_call_def split: net_act.splits)

section \<open>The client\<close>

text \<open>
  The number the client reports is the sum of the results of its calls: when all frames are sent whole it is the
  number of bytes, and when every call fails it is the negated number of frames. Every frame is the same part of the
  buffer.
\<close>

theorem transmission_total:
  assumes "\<And>h. is_call ''send'' (last h) \<Longrightarrow> net_answer K h = a"
    and "\<bar>a * frame_number s\<bar> < 2147483648" and "frame_size s \<le> 8200"
  shows "wp (irdaspray_transmit K fd)
    (\<lambda>r t. r = a * int (nat (frame_number s)) \<and> net_acts t = net_acts s @
       replicate (nat (frame_number s)) (Net ''send'' [fd, frame_size s] [take (nat (frame_size s)) (net_buf s)])) never s"
proof -
  have frames: "wp (transmit_frames K fd n tot)
      (\<lambda>r t. r = tot + a * int n \<and> net_acts t = net_acts u @
         replicate n (Net ''send'' [fd, frame_size s] [take (nat (frame_size s)) (net_buf s)])) never u"
    if "frame_size u = frame_size s" "net_buf u = net_buf s" "tot = a * int k" "int k + int n = int (nat (frame_number s))" for n k tot u
    using that
  proof (induction n arbitrary: k tot u)
    case (Suc n)
    have "\<bar>a * int (Suc k)\<bar> \<le> \<bar>a * frame_number s\<bar>"
      using Suc.prems(4) by (simp only: abs_mult) (intro mult_left_mono, auto split: if_splits)
    then have b: "\<bar>tot + a\<bar> < 2147483648"
      using assms(2) Suc.prems(3) by (simp add: algebra_simps)
    show ?case
      using b Suc.prems assms(1,3)
      apply (simp add: send_frame_def int_sum_def wp_simps Let_def abs_less_iff)
      apply (rule wp_weaken [OF Suc.IH [where k = "Suc k"]])
      apply (simp_all add: algebra_simps)
      done
  qed (simp add: wp_simps)
  show ?thesis
    using frames [of s 0 0 "nat (frame_number s)"] by (simp add: irdaspray_transmit_def wp_simps)
qed

lemma transmission_total_witness:
  "wp (irdaspray_transmit (example_net [] 0) 4)
    (\<lambda>r t. r = 300 \<and> net_acts t = replicate 100 (Net ''send'' [4, 1024] [replicate 1024 0])) never (spray_init [])"
proof -
  have "wp (irdaspray_transmit (example_net [] 0) 4)
    (\<lambda>r t. r = 3 * int (nat (frame_number (spray_init []))) \<and> net_acts t = net_acts (spray_init []) @
       replicate (nat (frame_number (spray_init []))) (Net ''send'' [4, frame_size (spray_init [])]
         [take (nat (frame_size (spray_init []))) (net_buf (spray_init []))])) never (spray_init [])"
    by (rule transmission_total)
      (auto simp: spray_init_def example_net_def is_call_def split: net_act.splits)
  then show ?thesis
    by (simp add: spray_init_def)
qed

text \<open>Receiving sends nothing.\<close>

lemma receive_frames_silent:
  "wp (receive_frames K fd n tot) (\<lambda>_ t. sends (net_acts t) = sends (net_acts s)) (\<lambda>_ t. sends (net_acts t) = sends (net_acts s)) s"
proof (induction n arbitrary: tot s)
  case (Suc n)
  show ?case
    by (simp add: int_sum_def wp_simps Let_def, intro conjI impI)
      (rule wp_mono [OF Suc.IH], simp_all)+
qed (simp add: wp_simps)

text \<open>
  When the client of the echo service cannot start the process that sends, it takes the failure for the number of
  that process: it waits for the answers to frames that nobody sends.
\<close>

theorem failed_fork_only_receives:
  assumes "spray_echo s \<noteq> 0" and "net_answer K (net_acts s @ [Net ''fork'' [] []]) = -1"
  shows "wp (transfer_frames K fd start) (\<lambda>_ t. sends (net_acts t) = sends (net_acts s))
    (\<lambda>_ t. sends (net_acts t) = sends (net_acts s)) s"
  using assms
  apply (simp add: transfer_frames_def irdaspray_receive_def wp_simps)
  apply (rule wp_mono [OF receive_frames_silent])
   apply (simp_all add: clock_now_def show_transfer_def wp_simps Let_def)
  done

lemma failed_fork_only_receives_witness:
  "wp (transfer_frames (example_net [[1]] (-1)) 4 (0, 0)) (\<lambda>_ t. sends (net_acts t) = []) (\<lambda>_ t. sends (net_acts t) = []) (spray_init [])"
  using failed_fork_only_receives [of "spray_init []" "example_net [[1]] (-1)" 4 "(0, 0)"]
  by (simp add: spray_init_def example_net_def)

section \<open>The IAS tests\<close>

text \<open>Class and attribute of the structures that are given to the system with the option \<open>opt\<close>.\<close>

definition ias_name :: "byte list \<Rightarrow> byte list \<times> byte list" where
  "ias_name q = (cstring (drop ias_class_at q), cstring (drop ias_attr_at q))"

fun named_by :: "string \<Rightarrow> net_act \<Rightarrow> (byte list \<times> byte list) list" where
  "named_by opt (Net name ints strs) = (if name = opt then map ias_name strs else [])"
| "named_by opt a = []"

definition named :: "string \<Rightarrow> net_act list \<Rightarrow> (byte list \<times> byte list) list" where
  "named opt h = concat (map (named_by opt) h)"

lemma named_simps [simp]:
  "named opt [] = []" "named opt (h @ h') = named opt h @ named opt h'" "named opt (a # h) = named_by opt a @ named opt h"
  by (simp_all add: named_def)

lemma length_poked: "at + length bs \<le> length q \<Longrightarrow> length (poked at bs q) = length q"
  by (simp add: poked_def)

lemma take_poked: "n \<le> at \<Longrightarrow> at + length bs \<le> length q \<Longrightarrow> take n (poked at bs q) = take n q"
  by (simp add: poked_def min_absorb1)

lemma cstring_take: "0 \<in> set (take n q) \<Longrightarrow> cstring (take n q) = cstring q"
  using takeWhile_append1 [of 0 "take n q" "\<lambda>b. b \<noteq> 0" "drop n q"] by (simp add: cstring_def)

text \<open>A change behind the names does not change them, and they are what was stored.\<close>

definition small_name :: "nat \<Rightarrow> string \<Rightarrow> bool" where
  "small_name n t \<longleftrightarrow> length t < n \<and> 0 \<notin> set (bytes_of t)"

lemma cstring_bytes: "0 \<notin> set (bytes_of t) \<Longrightarrow> cstring (bytes_of t @ 0 # r) = bytes_of t"
  by (simp add: cstring_append_nul) (auto simp: cstring_def takeWhile_eq_all_conv)

lemma names_laid_out:
  assumes "length c \<le> 64" and "length a \<le> 256" and "length q = 1356"
    and "take 320 q' = take 320 (poked 64 a (poked 0 c q))"
  shows "take 64 q' = c @ drop (length c) (take 64 q)"
    and "take 256 (drop 64 q') = a @ take (256 - length a) (drop (64 + length a) q)"
proof -
  have p: "poked 64 a (poked 0 c q) = c @ drop (length c) (take 64 q) @ a @ drop (64 + length a) q"
    using assms(1-3) by (simp add: poked_def drop_take)
  have "take 64 q' = take 64 (take 320 q')"
    by simp
  then show "take 64 q' = c @ drop (length c) (take 64 q)"
    using assms(1-3) by (simp add: assms(4) p)
  have "take 256 (drop 64 q') = drop 64 (take 320 q')"
    by (simp add: drop_take)
  then show "take 256 (drop 64 q') = a @ take (256 - length a) (drop (64 + length a) q)"
    using assms(1-3) by (simp add: assms(4) p drop_take)
qed

lemma ias_name_stored:
  assumes "length q = ias_size" and "small_name 64 cls" and "small_name 256 attr"
    and "take 320 q' = take 320 (string_to ias_attr_at attr (string_to ias_class_at cls q))"
  shows "ias_name q' = (bytes_of cls, bytes_of attr)"
proof -
  have n: "length (bytes_of cls @ [0]) \<le> 64" "length (bytes_of attr @ [0]) \<le> 256"
    using assms(2,3) by (simp_all add: small_name_def bytes_of_def)
  note laid = names_laid_out [OF n assms(1) [unfolded ias_size_def], of q',
    OF assms(4) [unfolded string_to_def ias_attr_at_def ias_class_at_def]]
  have "cstring q' = cstring (take 64 q')" and "cstring (drop 64 q') = cstring (take 256 (drop 64 q'))"
    by (simp_all add: laid cstring_take [symmetric, of 64 q'] cstring_take [symmetric, of 256 "drop 64 q'"])
  then show ?thesis
    using assms(2,3) by (simp add: ias_name_def ias_class_at_def ias_attr_at_def laid cstring_bytes small_name_def)
qed

abbreviation (input) SET_OPT :: string where "SET_OPT \<equiv> ''setsockopt IRLMP_IAS_SET''"
abbreviation (input) DEL_OPT :: string where "DEL_OPT \<equiv> ''setsockopt IRLMP_IAS_DEL''"

text \<open>A step that works on the structure, and the names it gives to the system to set and to delete.\<close>

definition naming :: "net_act list \<Rightarrow> int \<Rightarrow> (byte list \<times> byte list) list \<Rightarrow> (byte list \<times> byte list) list \<Rightarrow> spray \<Rightarrow> bool" where
  "naming h e sets dels t \<longleftrightarrow> spray_echo t = e \<and> named SET_OPT (net_acts t) = named SET_OPT h @ sets \<and>
     named DEL_OPT (net_acts t) = named DEL_OPT h @ dels"

definition names_step :: "(byte list \<Rightarrow> byte list sm) \<Rightarrow> (byte list \<times> byte list) list \<Rightarrow> (byte list \<times> byte list) list \<Rightarrow> bool" where
  "names_step m sets dels \<longleftrightarrow> (\<forall>q s. length q = ias_size \<longrightarrow>
     wp (m q) (\<lambda>r t. length r = ias_size \<and> naming (net_acts s) (spray_echo s) sets dels t) (\<lambda>e _. e = Oob_read) s)"

definition names_chain :: "(byte list \<Rightarrow> byte list sm) list \<Rightarrow> (byte list \<times> byte list) list \<Rightarrow> (byte list \<times> byte list) list \<Rightarrow> bool" where
  "names_chain ms sets dels \<longleftrightarrow> (\<forall>q s. length q = ias_size \<longrightarrow>
     wp (chained ms q) (\<lambda>_. naming (net_acts s) (spray_echo s) sets dels) (\<lambda>e _. e = Oob_read) s)"

lemma names_chain_Nil: "names_chain [] [] []"
  by (simp add: names_chain_def naming_def wp_simps)

lemma names_chain_Cons:
  assumes "names_step m a d" and "names_chain ms as ds"
  shows "names_chain (m # ms) (a @ as) (d @ ds)"
  unfolding names_chain_def
proof (intro allI impI)
  fix q :: "byte list" and s :: spray
  assume "length q = ias_size"
  then have m: "wp (m q) (\<lambda>r t. length r = ias_size \<and> naming (net_acts s) (spray_echo s) a d t) (\<lambda>e _. e = Oob_read) s"
    using assms(1) by (simp add: names_step_def)
  show "wp (chained (m # ms) q) (\<lambda>_. naming (net_acts s) (spray_echo s) (a @ as) (d @ ds)) (\<lambda>e _. e = Oob_read) s"
    unfolding chained.simps wp_bnd
  proof (rule wp_weaken [OF m], elim conjE)
    fix r :: "byte list" and t :: spray
    assume "length r = ias_size" and t: "naming (net_acts s) (spray_echo s) a d t"
    then have "wp (chained ms r) (\<lambda>_. naming (net_acts t) (spray_echo t) as ds) (\<lambda>e _. e = Oob_read) t"
      using assms(2) by (simp add: names_chain_def)
    then show "wp (chained ms r) (\<lambda>_. naming (net_acts s) (spray_echo s) (a @ as) (d @ ds)) (\<lambda>e _. e = Oob_read) t"
      by (rule wp_weaken) (use t in \<open>simp add: naming_def\<close>)
  qed
qed

text \<open>A value stored in the structure leaves the names before it.\<close>

definition behind_names :: "(byte list \<Rightarrow> byte list) \<Rightarrow> bool" where
  "behind_names f \<longleftrightarrow> (\<forall>q. length q = ias_size \<longrightarrow> length (f q) = ias_size \<and> take 320 (f q) = take 320 q)"

lemma behind_poked: "320 \<le> at \<Longrightarrow> at + length bs \<le> ias_size \<Longrightarrow> behind_names (poked at bs)"
  by (simp add: behind_names_def length_poked take_poked)

lemma behind_comp: "behind_names f \<Longrightarrow> behind_names g \<Longrightarrow> behind_names (f \<circ> g)"
  by (simp add: behind_names_def)

lemma behind_ias_int: "behind_names (ias_int K v)"
  unfolding ias_int_def by (rule behind_poked) (simp_all add: ias_value_at_def ias_size_def)

lemma behind_ias_type: "behind_names (ias_type K v)"
  unfolding ias_type_def by (rule behind_poked) (simp_all add: ias_type_at_def ias_size_def)

lemma behind_ias_text:
  assumes "length t < 256"
  shows "behind_names (ias_text t)"
proof -
  have "ias_text t = poked ias_value_at [of_nat (length t)] \<circ> poked ias_string_at (bytes_of t @ [0])"
    by (rule ext) (simp add: ias_text_def string_to_def)
  then show ?thesis
    using assms by (auto intro!: behind_comp behind_poked simp: ias_value_at_def ias_string_at_def ias_size_def bytes_of_def)
qed

lemmas behind_rules = behind_comp behind_ias_int behind_ias_type behind_ias_text

lemma length_names:
  assumes "length q = ias_size" and "small_name 64 cls" and "small_name 256 attr"
  shows "length (string_to ias_attr_at attr (string_to ias_class_at cls q)) = ias_size"
  using assms by (simp add: string_to_def length_poked small_name_def ias_attr_at_def ias_class_at_def ias_size_def bytes_of_def)

lemma names_get:
  assumes "opt \<noteq> SET_OPT" and "opt \<noteq> DEL_OPT" and "small_name 64 cls" and "small_name 256 attr"
    and "\<And>(q :: byte list) (t :: spray). wp (f q) (\<lambda>_. naming (net_acts t) (spray_echo t) [] []) (\<lambda>e _. e = Oob_read) t"
  shows "names_step (irias_get K fd opt cls attr f) [] []"
  unfolding names_step_def
proof (intro allI impI)
  fix q :: "byte list" and s :: spray
  assume q: "length q = ias_size"
  let ?q = "string_to ias_attr_at attr (string_to ias_class_at cls q)" and ?t = "\<lambda>h. s\<lparr>net_acts := h\<rparr>"
  have l: "length (poked 0 (take ias_size d) ?q) = ias_size" for d
    using length_names [OF q assms(3,4)] by (simp add: length_poked)
  have f: "wp (f q') (\<lambda>_ t. naming (net_acts s) (spray_echo s) [] [] t) (\<lambda>e _. e = Oob_read) (?t (net_acts s @ [Net opt is ss]))" for q' "is" ss
    by (rule wp_weaken [OF assms(5)]) (use assms(1,2) in \<open>simp add: naming_def\<close>)
  show "wp (irias_get K fd opt cls attr f q)
      (\<lambda>r t. length r = ias_size \<and> naming (net_acts s) (spray_echo s) [] [] t) (\<lambda>e _. e = Oob_read) s"
    using assms(1,2) length_names [OF q assms(3,4)] f
    by (simp add: irias_get_def wp_simps Let_def l) (simp add: naming_def)
qed

lemma names_do:
  assumes "length q = ias_size"
  shows "wp (irias_do K opt fd msg w q)
    (\<lambda>r t. r = q \<and> naming (net_acts s) (spray_echo s) (if opt = SET_OPT then [ias_name q] else []) (if opt = DEL_OPT then [ias_name q] else []) t)
    (\<lambda>e _. e = Oob_read) s"
  by (simp add: irias_do_def wp_simps Let_def naming_def)

lemma names_set:
  assumes "small_name 64 cls" and "small_name 256 attr" and "behind_names value"
  shows "names_step (irias_set K fd cls attr value msg) [(bytes_of cls, bytes_of attr)] []"
  unfolding names_step_def irias_set_def
proof (intro allI impI)
  fix q :: "byte list" and s :: spray
  assume q: "length q = ias_size"
  let ?q = "value (string_to ias_attr_at attr (string_to ias_class_at cls q))"
  have v: "length ?q = ias_size" "ias_name ?q = (bytes_of cls, bytes_of attr)"
    using assms(3) length_names [OF q assms(1,2)] ias_name_stored [OF q assms(1,2), of ?q] by (simp_all add: behind_names_def)
  show "wp (irias_do K SET_OPT fd msg True ?q)
      (\<lambda>r t. length r = ias_size \<and> naming (net_acts s) (spray_echo s) [(bytes_of cls, bytes_of attr)] [] t) (\<lambda>e _. e = Oob_read) s"
    by (rule wp_weaken [OF names_do [OF v(1)]]) (use v in simp)
qed

lemma names_del:
  assumes "small_name 64 cls" and "small_name 256 attr"
  shows "names_step (irias_del K fd cls attr msg w) [] [(bytes_of cls, bytes_of attr)]"
  unfolding names_step_def irias_del_def
proof (intro allI impI)
  fix q :: "byte list" and s :: spray
  assume q: "length q = ias_size"
  let ?q = "string_to ias_attr_at attr (string_to ias_class_at cls q)"
  have v: "length ?q = ias_size" "ias_name ?q = (bytes_of cls, bytes_of attr)"
    using length_names [OF q assms] ias_name_stored [OF q assms] by simp_all
  show "wp (irias_do K DEL_OPT fd msg w ?q)
      (\<lambda>r t. length r = ias_size \<and> naming (net_acts s) (spray_echo s) [] [(bytes_of cls, bytes_of attr)] t) (\<lambda>e _. e = Oob_read) s"
    by (rule wp_weaken [OF names_do [OF v(1)]]) (use v in simp)
qed

text \<open>The attributes the tests work on.\<close>

definition tested_names :: "int \<Rightarrow> (byte list \<times> byte list) list" where
  "tested_names e = map (\<lambda>(c, a). (bytes_of c, bytes_of a))
     [(''my:object'', ''my:int''), (''my:object'', ''my:string''), (''Device'', ''Owner''), (spray_service e, ''App-Name''),
      ([], ''App-Version''), (''Device'', ''DeviceName'')]"

lemma names_small [simp]:
  "small_name 64 ''Device''" "small_name 64 ''my:object''" "small_name 64 []" "small_name 64 ''None''"
  "small_name 64 (spray_service e)" "small_name 256 ''DeviceName''" "small_name 256 ''my:int''" "small_name 256 ''my:string''"
  "small_name 256 ''Owner''" "small_name 256 ''App-Name''" "small_name 256 ''App-Version''" "small_name 256 ''None''"
  by (simp_all add: small_name_def bytes_of_def spray_service_def of_char_def)

lemma show_ias_string_names:
  "wp (show_ias_string fmt q) (\<lambda>_. naming (net_acts s) (spray_echo s) [] []) (\<lambda>e _. e = Oob_read) s"
  by (simp add: show_ias_string_def wp_simps Let_def naming_def)

lemma say_twice_names:
  "wp (thn (net_say f a) (net_say g b)) (\<lambda>_. naming (net_acts s) (spray_echo s) [] []) (\<lambda>e _. e = Oob_read) s"
  by (simp add: wp_simps naming_def)

lemma say_string_names:
  "wp (thn (net_say f a) (show_ias_string g q)) (\<lambda>_. naming (net_acts s) (spray_echo s) [] []) (\<lambda>e _. e = Oob_read) s"
  by (simp add: show_ias_string_def wp_simps Let_def naming_def)

lemma chain_get:
  assumes "opt \<noteq> SET_OPT" and "opt \<noteq> DEL_OPT" and "small_name 64 cls" and "small_name 256 attr"
    and "\<And>(q :: byte list) (t :: spray). wp (f q) (\<lambda>_. naming (net_acts t) (spray_echo t) [] []) (\<lambda>e _. e = Oob_read) t"
    and "names_chain ms as ds"
  shows "names_chain (irias_get K fd opt cls attr f # ms) as ds"
  using names_chain_Cons [OF names_get [OF assms(1-5)] assms(6)] by simp

lemma chain_set:
  assumes "small_name 64 cls" and "small_name 256 attr" and "behind_names value" and "names_chain ms as ds"
  shows "names_chain (irias_set K fd cls attr value msg # ms) ((bytes_of cls, bytes_of attr) # as) ds"
  using names_chain_Cons [OF names_set [OF assms(1-3)] assms(4)] by simp

lemma chain_del:
  assumes "small_name 64 cls" and "small_name 256 attr" and "names_chain ms as ds"
  shows "names_chain (irias_del K fd cls attr msg w # ms) as ((bytes_of cls, bytes_of attr) # ds)"
  using names_chain_Cons [OF names_del [OF assms(1,2)] assms(3)] by simp

lemma names_run:
  assumes "names_chain (ms (spray_echo s)) as ds"
  shows "wp (bnd (gets spray_echo) (\<lambda>e. bnd (net_local K ias_size) (chained (ms e))))
    (\<lambda>_. naming (net_acts s) (spray_echo s) as ds) (\<lambda>e _. e = Oob_read) s"
  using assms by (simp add: names_chain_def wp_simps)

lemmas chain_rules = chain_get chain_set chain_del names_chain_Nil show_ias_string_names say_twice_names say_string_names behind_rules

lemma play_names:
  "wp (irias_play K fd) (\<lambda>_. naming (net_acts s) (spray_echo s) (tested_names (spray_echo s)) []) (\<lambda>e _. e = Oob_read) s"
  unfolding irias_play_def tested_names_def list.map prod.case
  by (rule names_run) (rule chain_rules names_small | simp; fail)+

lemma remove_names:
  "wp (irias_remove K fd)
    (\<lambda>_. naming (net_acts s) (spray_echo s) [] (tested_names (spray_echo s) @ [(bytes_of ''None'', bytes_of ''None'')])) (\<lambda>e _. e = Oob_read) s"
  unfolding irias_remove_def tested_names_def list.map prod.case append_Cons append_Nil
  by (rule names_run) (rule chain_rules names_small | simp; fail)+

text \<open>
  What the tests of the IAS database set, \<open>irias_remove\<close> asks to delete: the same six attributes in the same
  order, and one that does not exist. The only other outcome is that a string from the system has no end.
\<close>

theorem removal_follows_tests:
  "wp (thn (irias_play K fd) (irias_remove K fd))
    (\<lambda>_ t. named SET_OPT (net_acts t) = named SET_OPT (net_acts s) @ tested_names (spray_echo s) \<and>
       named DEL_OPT (net_acts t) = named DEL_OPT (net_acts s) @ tested_names (spray_echo s) @ [(bytes_of ''None'', bytes_of ''None'')])
    (\<lambda>e _. e = Oob_read) s"
  unfolding wp_thn
  by (rule wp_weaken [OF play_names], rule wp_weaken [OF remove_names]) (simp add: naming_def)

end
