(* ===== verification/Old_Sockets.thy ===== *)
theory Old_Sockets
  imports Irdaspray
begin

text \<open>
  The earlier programs in \<open>irsockets/oldies/\<close>: \<open>client.c\<close>, which shows the devices in range, \<open>echo.c\<close>, the
  server of IrECHO and IrDISCARD for one connection at a time, and \<open>irdaspray.c\<close>, the client.
\<close>

section \<open>The list of devices\<close>

text \<open>
  The list on the heap, with the number of bytes the system has stored. A block that could not be allocated is given
  to the system, and read when the system has accepted it.
\<close>

definition old_enum_devices :: "net_system \<Rightarrow> int \<Rightarrow> ('x, nat \<times> byte list) nm" where
  "old_enum_devices K fd =
    bnd (net_call K ''malloc'' [int disc_buf_len] []) (\<lambda>p.
    bnd (net_local K disc_buf_len) (\<lambda>block.
    bnd (net_call K ''getsockopt IRLMP_ENUMDEVICES'' [fd, int disc_buf_len] []) (\<lambda>r.
    if r \<noteq> 0 then thn (net_fail ''getsockopt'') (stop (Exit (-1))) else
    bnd (net_ask (net_data K)) (\<lambda>data. let bs = take disc_buf_len data in
    thn (check Null_deref (p \<noteq> 0)) (ret (length bs, bs @ drop (length bs) block))))))"

text \<open>\<open>list->dev[i].saddr\<close> and \<open>list->dev[i].hints[0]\<close>\<close>

definition disc_saddr :: "net_system \<Rightarrow> byte list \<Rightarrow> nat \<Rightarrow> u32" where
  "disc_saddr K buf i = word32 (net_order K) (drop (4 + 36 * i) buf)"

definition disc_hint :: "byte list \<Rightarrow> nat \<Rightarrow> byte" where
  "disc_hint buf i = buf ! (4 + 36 * i + 31)"

text \<open>A device of the list is shown.\<close>

definition show_device :: "net_system \<Rightarrow> byte list \<Rightarrow> nat \<Rightarrow> ('x, unit) nm" where
  "show_device K buf i =
    bnd (disc_info buf (int i)) (\<lambda>name.
    thn (net_say (ln ''  name:  %s'') [AS name]) (
    bnd (disc_daddr K buf (int i)) (\<lambda>daddr.
    thn (net_say (ln ''  daddr: %08x'') [AI daddr]) (
    thn (net_say (ln ''  saddr: %08x'') [AI (disc_saddr K buf i)])
    (net_say (ln []) [])))))"

section \<open>client.c\<close>

function client_devices :: "net_system \<Rightarrow> byte list \<Rightarrow> nat \<Rightarrow> (net, unit) cm" where
  "client_devices K buf i =
    (if i < unat (disc_len K buf) then
       if i \<le> DISC_MAX_DEVICES then thn (show_device K buf i) (client_devices K buf (i + 1)) else stop Oob_read
     else ret ())"
  by pat_completeness auto
termination by (relation "measure (\<lambda>(K, buf, i). 11 - i)") auto

declare client_devices.simps [simp del]

definition client_discover_devices :: "net_system \<Rightarrow> int \<Rightarrow> (net, int) cm" where
  "client_discover_devices K fd =
    bnd (old_enum_devices K fd) (\<lambda>(len, buf).
    thn (net_say (ln ''len=%d'') [Ii (int len)]) (
    thn (doif (0 < len) (thn (net_say (ln ''Discovered:'') []) (client_devices K buf 0))) (ret 0)))"

text \<open>Up to the endless loop that sleeps.\<close>

definition client_main :: "net_system \<Rightarrow> (net, unit) cm" where
  "client_main K =
    bnd (net_call K ''socket SOCK_STREAM'' [] []) (\<lambda>fd.
    if fd < 0 then thn (net_fail ''socket'') (stop (Exit (-1))) else
    thn (net_say (ln ''sizeof(struct irda_device_list)=%d'') [Ii 40]) (
    thn (net_say (ln ''sizeof(struct irda_device_info)=%d'') [Ii 36])
    (ignore (client_discover_devices K fd))))"

section \<open>echo.c\<close>

text \<open>The buffer of the program, a global variable.\<close>

abbreviation (input) echo_buf_size :: nat where "echo_buf_size \<equiv> 4098"

definition echo_init :: "net_act list \<Rightarrow> net" where
  "echo_init h = \<lparr>net_buf = replicate echo_buf_size 0, net_acts = h\<rparr>"

text \<open>
  The loop of one connection; \<open>None\<close>: it goes on after \<open>n\<close> rounds. \<open>recv\<close> is called with the size of the
  buffer, the length of \<open>net_buf\<close>.
\<close>

fun echo_rounds :: "net_system \<Rightarrow> bool \<Rightarrow> int \<Rightarrow> nat \<Rightarrow> ('x, unit option) nm" where
  "echo_rounds K discard fd 0 = ret None"
| "echo_rounds K discard fd (Suc n) =
    bnd (net_receive K ''recv'' fd) (\<lambda>actual.
    if actual \<le> 0 then ret (Some ()) else
    thn (net_say (ln ''Got %d bytes'') [Ii actual]) (
    if discard then echo_rounds K discard fd n else
    bnd (gets net_buf) (\<lambda>buf.
    bnd (net_call K ''send'' [fd, actual] [take (nat actual) buf]) (\<lambda>actual.
    thn (net_say (ln ''Sent %d bytes'') [Ii actual])
    (if 0 < actual then echo_rounds K discard fd n else ret (Some ()))))))"

definition echo_turn :: "net_system \<Rightarrow> bool \<Rightarrow> int \<Rightarrow> nat \<Rightarrow> (net, server_turn) cm" where
  "echo_turn K discard fd n =
    thn (net_say (ln ''Waiting for connection!'') []) (
    bnd (net_call K ''accept'' [fd] []) (\<lambda>conn_fd.
    if conn_fd < 0 then thn (net_fail ''accept'') (ret (Left_with (-1))) else
    thn (net_say (ln ''Connected!'') []) (
    bnd (echo_rounds K discard conn_fd n) (\<lambda>c. if c = None then ret Still_runs else
    thn (net_do (Net ''close'' [conn_fd] [])) (
    thn (net_say (ln ''Disconnected!'') []) (ret Goes_on))))))"

fun echo_turns :: "net_system \<Rightarrow> bool \<Rightarrow> int \<Rightarrow> nat \<Rightarrow> nat \<Rightarrow> (net, server_turn) cm" where
  "echo_turns K discard fd n 0 = ret Goes_on"
| "echo_turns K discard fd n (Suc m) = bnd (echo_turn K discard fd n) (\<lambda>t.
     if t = Goes_on then echo_turns K discard fd n m else ret t)"

text \<open>The service is chosen by the name of the program, as it was called.\<close>

definition echo_main :: "net_system \<Rightarrow> byte list \<Rightarrow> nat \<Rightarrow> nat \<Rightarrow> (net, server_turn) cm" where
  "echo_main K argv0 n m =
    (let discard = (argv0 = bytes_of ''discard'') in
     thn (if discard then net_say (ln ''IrDA Discard server starting ...'') []
          else net_say (ln ''IrDA Echo server starting ...'') []) (
     bnd (net_call K ''socket SOCK_STREAM'' [] []) (\<lambda>fd.
     if fd < 0 then thn (net_fail ''socket'') (stop (Exit (-1))) else
     bnd (net_call K ''bind'' [fd, 0xff] [service (if discard then ''IrDISCARD'' else ''IrECHO'')]) (\<lambda>r.
     if r \<noteq> 0 then thn (net_fail ''bind'') (ret (Left_with (-1))) else
     bnd (net_call K ''listen'' [fd, 8] []) (\<lambda>r.
     if r \<noteq> 0 then thn (net_fail ''listen'') (ret (Left_with (-1))) else
     echo_turns K discard fd n m)))))"

section \<open>irdaspray.c\<close>

record old_spray = net +
  old_mtu :: int
  old_frame_size :: int
  old_frame_number :: int
  old_delay :: int
  old_echo :: int

definition old_spray_init :: "net_act list \<Rightarrow> old_spray" where
  "old_spray_init h = \<lparr>net_buf = replicate 4096 0, net_acts = h, old_mtu = 0, old_frame_size = 1024,
     old_frame_number = 100, old_delay = 0, old_echo = 0\<rparr>"

text \<open>The first device with the hint of a computer; the devices before it are shown.\<close>

function find_computer :: "net_system \<Rightarrow> byte list \<Rightarrow> nat \<Rightarrow> (old_spray, int) cm" where
  "find_computer K buf i =
    (if i < unat (disc_len K buf) then
       if i \<le> DISC_MAX_DEVICES then
         thn (show_device K buf i) (
         if disc_hint buf i AND 0x04 \<noteq> 0 then
           thn (net_say (ln ''Lets try this one'') []) (bnd (disc_daddr K buf (int i)) (\<lambda>a. ret (sint a)))
         else find_computer K buf (i + 1))
       else stop Oob_read
     else thn (net_say (ln ''Didn't find any devices!'') []) (ret (-1)))"
  by pat_completeness auto
termination by (relation "measure (\<lambda>(K, buf, i). 11 - i)") auto

declare find_computer.simps [simp del]

definition old_discover_devices :: "net_system \<Rightarrow> int \<Rightarrow> (old_spray, int) cm" where
  "old_discover_devices K fd =
    bnd (old_enum_devices K fd) (\<lambda>(len, buf).
    if 0 < len then
      thn (net_say (ln ''Discovered: (list len=%d)'') [AI (disc_len K buf)]) (find_computer K buf 0)
    else thn (net_say (ln ''Didn't find any devices!'') []) (ret (-1)))"

definition old_connect_request :: "net_system \<Rightarrow> int \<Rightarrow> (old_spray, int) cm" where
  "old_connect_request K fd =
    bnd (old_discover_devices K fd) (\<lambda>daddr.
    if daddr = -1 then ret (-1) else
    bnd (gets old_mtu) (\<lambda>mtu.
    bnd (net_call K ''setsockopt IRTTP_MAX_SDU_SIZE'' [fd, mtu] []) (\<lambda>r.
    if r \<noteq> 0 then thn (net_fail ''setsockopt'') (stop (Exit (-1))) else
    bnd (gets old_echo) (\<lambda>e.
    bnd (net_call K ''connect'' [fd, daddr] [service (if e \<noteq> 0 then ''IrECHO'' else ''IrDISCARD'')]) (\<lambda>r.
    if r \<noteq> 0 then thn (net_fail ''connect'') (ret (-1)) else
    bnd (net_call K ''getsockopt IRTTP_MAX_SDU_SIZE'' [fd] []) (\<lambda>r.
    if r \<noteq> 0 then thn (net_fail ''getsockopt'') (stop (Exit (-1))) else
    bnd (net_ask (net_data K)) (\<lambda>data.
    thn (modify (\<lambda>s. s\<lparr>old_mtu := sint (word32 (net_order K) data)\<rparr>)) (ret 0))))))))"

definition old_sum :: "int \<Rightarrow> int \<Rightarrow> (old_spray, int) cm" where
  "old_sum a b = thn (check Impl_defined (-2147483648 \<le> a + b \<and> a + b < 2147483648)) (ret (a + b))"

fun old_transmit_frames :: "net_system \<Rightarrow> int \<Rightarrow> nat \<Rightarrow> int \<Rightarrow> (old_spray, int) cm" where
  "old_transmit_frames K fd 0 tot = ret tot"
| "old_transmit_frames K fd (Suc n) tot =
    bnd (gets old_frame_size) (\<lambda>size. bnd (gets net_buf) (\<lambda>buf.
    thn (check Oob_read (size \<le> int (length buf))) (
    bnd (net_call K ''send'' [fd, size] [take (nat size) buf]) (\<lambda>actual.
    bnd (old_sum tot actual) (old_transmit_frames K fd n)))))"

fun old_receive_frames :: "net_system \<Rightarrow> int \<Rightarrow> nat \<Rightarrow> int \<Rightarrow> (old_spray, int) cm" where
  "old_receive_frames K fd 0 tot = ret tot"
| "old_receive_frames K fd (Suc n) tot =
    bnd (net_receive K ''recv'' fd) (\<lambda>actual. bnd (old_sum tot actual) (old_receive_frames K fd n))"

definition old_transfer :: "net_system \<Rightarrow> int \<Rightarrow> (old_spray, int) cm" where
  "old_transfer K fd =
    thn (net_do (Net ''gettimeofday'' [] [])) (
    bnd (net_ask (net_clock K)) (\<lambda>start.
    bnd (gets old_echo) (\<lambda>e.
    bnd (gets (\<lambda>s. nat (old_frame_number s))) (\<lambda>n.
    bnd (if e \<noteq> 0 then net_call K ''fork'' [] [] else ret 0) (\<lambda>pid.
    bnd (if pid \<noteq> 0 then old_receive_frames K fd n 0 else old_transmit_frames K fd n 0) (\<lambda>tot.
    thn (net_do (Net ''gettimeofday'' [] [])) (
    bnd (net_ask (net_clock K)) (\<lambda>fin.
    let span = AMs (fst fin - fst start) (snd fin - snd start) in
    thn (if pid \<noteq> 0 then net_say (ln ''Received %d bytes in %f seconds (%0.3f kbytes/s)'') [Ii tot, span]
         else thn (doif (e \<noteq> 0) (net_do (Net ''wait'' [] [])))
           (net_say (ln ''Transmitted %d bytes in %f seconds (%0.3f kbytes/s)'') [Ii tot, span])) (ret 0)))))))))"

definition old_usage :: "byte list \<Rightarrow> (old_spray, unit) cm" where
  "old_usage prog = seqs [
     net_do (Net_err (ln ''usage: %s [-v] [-e] [-h] [-b frame-size] [-n frames] [-f file] [device]'') [AS prog]),
     net_do (Net_err (ln ''      -v verbose'') []),
     net_do (Net_err (ln ''      -e use echo service for full duplex transfer'') []),
     net_do (Net_err (ln ''      -h print this message'') []),
     net_do (Net_err (ln ''      -s frame-size in bytes (default 1024)'') []),
     net_do (Net_err (ln ''      -n number of frames (default 100)'') []),
     net_do (Net_err (ln ''      -f file to preload buffer (zero buffer by default)'') []),
     net_do (Net_err (ln ''      -d inter-buffer transmission delay in usecs (default 0)'') []),
     stop (Exit 1)]"

definition old_number :: "byte list \<Rightarrow> (old_spray, int) cm" where
  "old_number t = (case atoi t of Inl e \<Rightarrow> stop e | Inr n \<Rightarrow> ret n)"

definition old_option :: "byte list \<Rightarrow> char \<times> byte list \<Rightarrow> (old_spray, unit) cm" where
  "old_option prog p = (case p of (c, optarg) \<Rightarrow>
     if c = CHR ''m'' then bnd (old_number optarg) (\<lambda>n. modify (\<lambda>s. s\<lparr>old_mtu := n\<rparr>))
     else if c = CHR ''e'' then modify (\<lambda>s. s\<lparr>old_echo := 1\<rparr>)
     else if c = CHR ''n'' then bnd (old_number optarg) (\<lambda>n. modify (\<lambda>s. s\<lparr>old_frame_number := n\<rparr>))
     else if c = CHR ''s'' then bnd (old_number optarg) (\<lambda>n. modify (\<lambda>s. s\<lparr>old_frame_size := n\<rparr>))
     else if c = CHR ''d'' then bnd (old_number optarg) (\<lambda>n. modify (\<lambda>s. s\<lparr>old_delay := n\<rparr>))
     else old_usage prog)"

definition old_spray_main :: "net_system \<Rightarrow> byte list \<Rightarrow> (char \<times> byte list) list \<Rightarrow> (old_spray, int) cm" where
  "old_spray_main K prog opts =
    thn (seqs (map (old_option prog) opts)) (
    bnd (net_call K ''socket SOCK_STREAM'' [] []) (\<lambda>fd.
    if fd < 0 then thn (net_fail ''socket'') (stop (Exit (-1))) else
    bnd (old_connect_request K fd) (\<lambda>r.
    if r \<noteq> 0 then ret (-1) else
    thn (net_say (ln ''Connected!'') []) (old_transfer K fd))))"

section \<open>Old and new\<close>

lemma net_receive_keeps: "net_receive K name fd s = (r, t) \<Longrightarrow> spray_echo t = spray_echo s"
  by (auto simp: net_receive_def net_call_def net_do_def net_ask_def run_simps Let_def split: if_splits)

text \<open>The text of the two loops is the same; what differs is the buffer in their state.\<close>

lemma same_loop: "echo_rounds K (spray_echo s = 0) fd n s = serve_child K fd n s"
proof (induction n arbitrary: s)
  case (Suc n)
  show ?case
  proof (cases "net_receive K ''recv'' fd s")
    case (Pair r t)
    have e: "spray_echo t = spray_echo s"
      by (rule net_receive_keeps [OF Pair])
    have IH: "spray_echo u = 0 \<Longrightarrow> echo_rounds K True fd n u = serve_child K fd n u"
      "spray_echo u \<noteq> 0 \<Longrightarrow> echo_rounds K False fd n u = serve_child K fd n u" for u
      using Suc.IH [of u] by simp_all
    show ?thesis
      using e by (cases r) (auto simp: run_simps Pair net_say_def net_do_def net_call_def net_ask_def IH split: sum.split prod.split)
  qed
qed simp

text \<open>What the calls of \<open>recv\<close> in a history have stored, one after the other.\<close>

definition stored_at :: "net_system \<Rightarrow> net_act list \<Rightarrow> nat \<Rightarrow> byte list" where
  "stored_at K h i = (if is_call ''recv'' (h ! i)
     then take (nat (net_answer K (take (Suc i) h))) (net_data K (take (Suc i) h)) else [])"

definition received_bytes :: "net_system \<Rightarrow> net_act list \<Rightarrow> byte list" where
  "received_bytes K h = concat (map (stored_at K h) [0..<length h])"

lemma received_bytes_Nil [simp]: "received_bytes K [] = []"
  by (simp add: received_bytes_def)

lemma received_bytes_snoc [simp]:
  "received_bytes K (h @ [a]) = received_bytes K h @
     (if is_call ''recv'' a then take (nat (net_answer K (h @ [a]))) (net_data K (h @ [a])) else [])"
proof -
  have "map (stored_at K (h @ [a])) [0..<length h] = map (stored_at K h) [0..<length h]"
    by (rule map_cong) (simp_all add: stored_at_def nth_append)
  moreover have "stored_at K (h @ [a]) (length h) =
      (if is_call ''recv'' a then take (nat (net_answer K (h @ [a]))) (net_data K (h @ [a])) else [])"
    by (simp add: stored_at_def)
  ultimately show ?thesis
    by (simp only: received_bytes_def length_append_singleton upt_Suc_append [OF le0] map_append list.map concat_append concat.simps append_Nil2)
qed

lemma received_bytes_others [simp]:
  assumes "\<not> is_call ''recv'' b" and "list_all (\<lambda>x. \<not> is_call ''recv'' x) h'"
  shows "received_bytes K (h @ a # b # h') = received_bytes K (h @ [a])"
  using assms(2)
proof (induction h' rule: rev_induct)
  case Nil
  then show ?case
    using received_bytes_snoc [of K "h @ [a]" b] assms(1) by simp
next
  case (snoc x h')
  then show ?case
    using received_bytes_snoc [of K "h @ a # b # h'" x] by simp
qed

text \<open>
  A client that sends the bytes \<open>bs\<close> from the history \<open>h0\<close> on, over a stream: a call of \<open>recv\<close> gets a part of what is left, in
  pieces of any size up to the one asked for, and 0 when nothing is left. A call of \<open>send\<close> sends all of its bytes.
\<close>

definition client_stream :: "net_system \<Rightarrow> byte list \<Rightarrow> net_act list \<Rightarrow> bool" where
  "client_stream K bs h0 \<longleftrightarrow>
    (\<forall>h fd n left. 0 < n \<and> received_bytes K h @ left = received_bytes K h0 @ bs \<longrightarrow>
      (let c = h @ [Net ''recv'' [fd, n] []]; a = net_answer K c in
       if left = [] then a = 0
       else 0 < a \<and> a \<le> n \<and> a \<le> int (length left) \<and> take (nat a) (net_data K c) = take (nat a) left)) \<and>
    (\<forall>h fd n d. last h = Net ''send'' [fd, n] d \<longrightarrow> net_answer K h = n)"

lemma client_stream_call:
  assumes "client_stream K bs h0" and "received_bytes K h @ left = received_bytes K h0 @ bs" and "0 < n"
  shows "let c = h @ [Net ''recv'' [fd, n] []]; a = net_answer K c in
    if left = [] then a = 0
    else 0 < a \<and> a \<le> n \<and> a \<le> int (length left) \<and> take (nat a) (net_data K c) = take (nat a) left"
  using assms(1) [unfolded client_stream_def, THEN conjunct1, THEN spec [of _ h], THEN spec [of _ fd], THEN spec [of _ n],
    THEN spec [of _ left], THEN mp, OF conjI [OF assms(3,2)]] .

lemma client_stream_recv:
  assumes "client_stream K bs h0" and "received_bytes K h @ left = received_bytes K h0 @ bs" and "0 < n" and "left \<noteq> []"
  obtains k where "net_answer K (h @ [Net ''recv'' [fd, n] []]) = int k" and "0 < k" and "int k \<le> n" and "k \<le> length left"
    and "take k (net_data K (h @ [Net ''recv'' [fd, n] []])) = take k left"
  using client_stream_call [OF assms(1-3), of fd] assms(4)
  by (intro that [of "nat (net_answer K (h @ [Net ''recv'' [fd, n] []]))"]) (auto simp: Let_def)

lemma client_stream_end:
  assumes "client_stream K bs h0" and "received_bytes K h = received_bytes K h0 @ bs" and "0 < n"
  shows "net_answer K (h @ [Net ''recv'' [fd, n] []]) = 0"
  using client_stream_call [OF assms(1) _ assms(3), of h "[]" fd] assms(2) by (simp add: Let_def)

lemma client_stream_send: "client_stream K bs h0 \<Longrightarrow> last h = Net ''send'' [fd, n] d \<Longrightarrow> net_answer K h = n"
  by (simp add: client_stream_def)

text \<open>The loop, for a buffer of any size and a stream in pieces of any size.\<close>

lemma stream_echoed:
  assumes K: "client_stream K bs h0" and "received_bytes K (net_acts s) @ left = received_bytes K h0 @ bs"
    and "net_buf s \<noteq> []" and "length left < n"
  shows "wp (echo_rounds K discard fd n) (\<lambda>r t. r = Some () \<and>
    concat (sends (net_acts t)) = concat (sends (net_acts s)) @ (if discard then [] else left)) never s"
  using assms(2-)
proof (induction n arbitrary: s left)
  case (Suc n)
  let ?N = "int (length (net_buf s))"
  have N: "0 < ?N"
    using Suc.prems(2) by simp
  show ?case
  proof (cases "left = []")
    case True
    then have "net_answer K (net_acts s @ [Net ''recv'' [fd, ?N] []]) = 0"
      using client_stream_end [OF K _ N] Suc.prems(1) by simp
    then show ?thesis
      using True by (simp add: wp_simps Let_def)
  next
    case False
    obtain k where k: "net_answer K (net_acts s @ [Net ''recv'' [fd, ?N] []]) = int k" "0 < k" "int k \<le> ?N" "k \<le> length left"
      "take k (net_data K (net_acts s @ [Net ''recv'' [fd, ?N] []])) = take k left"
      by (rule client_stream_recv [OF K Suc.prems(1) N False])
    have m: "min k (length (net_buf s)) = k" "min (length left) k = k"
      using k(3,4) by simp_all
    let ?u = "\<lambda>h. s\<lparr>net_buf := take k left @ drop k (net_buf s), net_acts := net_acts s @ Net ''recv'' [fd, ?N] [] # h\<rparr>"
    let ?got = "Net_out (ln ''Got %d bytes'') [Ii (int k)]"
    let ?sent = "[Net ''send'' [fd, int k] [take k left], Net_out (ln ''Sent %d bytes'') [Ii (int k)]]"
    have next_round: "wp (echo_rounds K discard fd n) (\<lambda>r t. r = Some () \<and>
        concat (sends (net_acts t)) = concat (sends (net_acts (?u h))) @ (if discard then [] else drop k left)) never (?u h)"
      if "h = ?got # h'" and "list_all (\<lambda>x. \<not> is_call ''recv'' x) h'" for h h'
      by (rule Suc.IH) (use that k Suc.prems in \<open>auto simp: append_take_drop_id\<close>)
    show ?thesis
    proof (cases discard)
      case True
      then show ?thesis
        using k(2) by (simp add: wp_simps Let_def k m) (use next_round [OF refl, of "[]"] in simp)
    next
      case d: False
      have "wp (echo_rounds K discard fd n) (\<lambda>r t. r = Some () \<and>
          concat (sends (net_acts t)) = concat (sends (net_acts s)) @ left) never (?u (?got # ?sent))"
        by (rule wp_weaken [OF next_round [OF refl]]) (simp_all add: d)
      then show ?thesis
        by (simp add: wp_simps Let_def k gr_implies_not0 [OF k(2)] m client_stream_send [OF K] d)
    qed
  qed
qed simp

text \<open>
  C38. The echo server of \<open>echo.c\<close> and a child of the server in the new \<open>irdaspray.c\<close> send the same bytes back to a client
  that sends the same bytes: all of them in order when they echo, none when they discard, and both end when the client
  closes the connection. The buffers have 4098 and 8200 bytes, so a long message is sent back in other pieces; the
  theorem holds for any pieces in which the two systems deliver the bytes. A call of \<open>send\<close> is one that succeeds.
\<close>

theorem old_and_new_server_agree:
  fixes s :: net and u :: spray
  assumes "client_stream K bs (net_acts s)" and "length (net_buf s) = 4098"
    and "client_stream L bs (net_acts u)" and "length (net_buf u) = 8200"
    and "length bs < n" and "length bs < m"
  shows "wp (echo_rounds K (spray_echo u = 0) fd n) (\<lambda>r t. r = Some () \<and>
      concat (sends (net_acts t)) = concat (sends (net_acts s)) @ (if spray_echo u = 0 then [] else bs)) never s \<and>
    wp (serve_child L gd m) (\<lambda>r t. r = Some () \<and>
      concat (sends (net_acts t)) = concat (sends (net_acts u)) @ (if spray_echo u = 0 then [] else bs)) never u"
proof
  have ne: "net_buf s \<noteq> []" "net_buf u \<noteq> []"
    using assms(2,4) by auto
  show "wp (echo_rounds K (spray_echo u = 0) fd n) (\<lambda>r t. r = Some () \<and>
      concat (sends (net_acts t)) = concat (sends (net_acts s)) @ (if spray_echo u = 0 then [] else bs)) never s"
    by (rule stream_echoed [OF assms(1) refl ne(1) assms(5)])
  have "wp (echo_rounds L (spray_echo u = 0) gd m) (\<lambda>r t. r = Some () \<and>
      concat (sends (net_acts t)) = concat (sends (net_acts u)) @ (if spray_echo u = 0 then [] else bs)) never u"
    by (rule stream_echoed [OF assms(3) refl ne(2) assms(6)])
  then show "wp (serve_child L gd m) (\<lambda>r t. r = Some () \<and>
      concat (sends (net_acts t)) = concat (sends (net_acts u)) @ (if spray_echo u = 0 then [] else bs)) never u"
    by (simp add: wp_def same_loop)
qed

text \<open>A system with such a client: \<open>recv\<close> gets as much as it asks for.\<close>

fun taken_off :: "byte list \<Rightarrow> net_act \<Rightarrow> byte list" where
  "taken_off bs (Net name [fd, n] ds) = (if name = ''recv'' then drop (nat n) bs else bs)"
| "taken_off bs _ = bs"

definition still_left :: "byte list \<Rightarrow> net_act list \<Rightarrow> byte list" where
  "still_left = foldl taken_off"

definition stream_net :: "byte list \<Rightarrow> net_system" where
  "stream_net bs = \<lparr>net_answer = (\<lambda>h. case last h of Net name [fd, n] d \<Rightarrow>
       if name = ''recv'' then min n (int (length (still_left bs (butlast h)))) else n | _ \<Rightarrow> 0),
     net_errno = (\<lambda>_. 0), net_data = (\<lambda>h. still_left bs (butlast h)), net_clock = (\<lambda>_. (0, 0)), net_scan = (\<lambda>_. None),
     net_junk = (\<lambda>_ _. 0), net_order = Little\<rparr>"

lemma stream_net_left: "received_bytes (stream_net bs) h @ still_left bs h = bs"
proof (induction h rule: rev_induct)
  case (snoc a h)
  let ?l = "still_left bs h"
  have "(if is_call ''recv'' a then take (nat (net_answer (stream_net bs) (h @ [a]))) (net_data (stream_net bs) (h @ [a])) else [])
      @ taken_off ?l a = ?l"
    by (cases "(?l, a)" rule: taken_off.cases) (auto simp: stream_net_def min_def not_le nat_le_iff)
  with snoc show ?case
    by (simp add: still_left_def)
qed (simp add: still_left_def)

lemma stream_net_client: "client_stream (stream_net bs) bs []"
proof -
  have "left = still_left bs h" if "received_bytes (stream_net bs) h @ left = bs" for h left
    using stream_net_left [of bs h] that by (metis same_append_eq)
  then show ?thesis
    by (auto simp: client_stream_def stream_net_def Let_def min_def)
qed

text \<open>Five thousand bytes: two pieces for the old program, one for the new.\<close>

lemma old_and_new_server_agree_witness:
  "wp (echo_rounds (stream_net (replicate 5000 7)) False 4 5001) (\<lambda>r t. r = Some () \<and>
      concat (sends (net_acts t)) = replicate 5000 7) never (echo_init []) \<and>
    wp (serve_child (stream_net (replicate 5000 7)) 4 5001) (\<lambda>r t. r = Some () \<and>
      concat (sends (net_acts t)) = replicate 5000 7) never (spray_init [])"
  using old_and_new_server_agree [of "stream_net (replicate 5000 7)" "replicate 5000 7" "echo_init []"
      "stream_net (replicate 5000 7)" "spray_init []" 5001 5001 4 4]
  by (simp add: echo_init_def spray_init_def stream_net_client)

text \<open>The address of the first device from the \<open>i\<close>-th on with the hint of a computer, or -1.\<close>

definition first_computer :: "net_system \<Rightarrow> byte list \<Rightarrow> nat \<Rightarrow> int" where
  "first_computer K buf i = (case filter (\<lambda>j. disc_hint buf j AND 0x04 \<noteq> 0) [i..<unat (disc_len K buf)] of
     [] \<Rightarrow> -1 | k # _ \<Rightarrow> sint (word32 (net_order K) (drop (8 + 36 * k) buf)))"

lemma first_computer_step:
  assumes "i < unat (disc_len K buf)"
  shows "first_computer K buf i = (if disc_hint buf i AND 0x04 \<noteq> 0
    then sint (word32 (net_order K) (drop (8 + 36 * i) buf)) else first_computer K buf (i + 1))"
  using upt_conv_Cons [OF assms] by (simp add: first_computer_def)

definition bad_list :: "net_system \<Rightarrow> byte list \<Rightarrow> bool" where
  "bad_list K buf \<longleftrightarrow> 11 < unat (disc_len K buf) \<or> list_ex (\<lambda>j. 0 \<notin> set (drop (12 + 36 * j) buf)) [0..<unat (disc_len K buf)]"

text \<open>
  C39. The old client takes the first device of the list that has the hint of a computer, and no other: without one it
  gives up. Only a list with more than eleven devices, or a name without end, stops it with a read outside the buffer.
\<close>

theorem first_computer_found:
  "wp (find_computer K buf i) (\<lambda>r _. r = first_computer K buf i) (\<lambda>e _. e = Oob_read \<and> bad_list K buf) s"
proof (induction K buf i arbitrary: s rule: find_computer.induct)
  case (1 K buf i)
  show ?case
  proof (cases "i < unat (disc_len K buf) \<and> i \<le> 10")
    case True
    have n12: "nat (12 + 36 * int i) = 12 + 36 * i"
      by (simp add: nat_add_distrib nat_mult_distrib)
    have shown: "wp (show_device K buf i) (\<lambda>_ _. True) (\<lambda>e _. e = Oob_read \<and> bad_list K buf) s"
      using True n12 by (auto simp: show_device_def wp_simps Let_def bad_list_def list_ex_iff)
    have "nat (8 + 36 * int i) = 8 + 36 * i"
      by (simp add: nat_add_distrib nat_mult_distrib)
    then have daddr: "disc_daddr K buf (int i) = ret (word32 (net_order K) (drop (8 + 36 * i) buf))"
      using True by (simp add: disc_daddr_def check_def thn_def)
    have rest: "wp (if disc_hint buf i AND 0x04 \<noteq> 0 then
          thn (net_say (ln ''Lets try this one'') []) (bnd (disc_daddr K buf (int i)) (\<lambda>a. ret (sint a)))
        else find_computer K buf (i + 1)) (\<lambda>r _. r = first_computer K buf i) (\<lambda>e _. e = Oob_read \<and> bad_list K buf) t" for t
      using "1.IH" True first_computer_step [of i K buf] by (simp add: daddr wp_simps)
    show ?thesis
      unfolding find_computer.simps [of K buf i] using True rest
      by (simp only: if_True simp_thms wp_thn) (rule wp_weaken [OF shown])
  next
    case False
    then show ?thesis
      by (subst find_computer.simps) (auto simp: wp_simps first_computer_def bad_list_def)
  qed
qed

end
