(* ===== verification/Ircard_Chip.thy ===== *)
theory Ircard_Chip
  imports Prelude
begin

text \<open>
  The part of the kernel driver \<open>pcmcia/ircard_cs.c\<close> that works with the IBM 31T1502 controller, and the inline
  functions of \<open>ircard_cs.h\<close>: banked registers, frames to send in shared memory, frames received, speed, and the
  interrupt handler. What the driver calls in the kernel (\<open>irport_start\<close> and others) is an action.
\<close>

section \<open>Registers\<close>

abbreviation (input) MCR :: int where "MCR \<equiv> 0x00"
abbreviation (input) MCR_INTR_EN :: byte where "MCR_INTR_EN \<equiv> 0x80"
abbreviation (input) MCR_TX_EN :: byte where "MCR_TX_EN \<equiv> 0x40"
abbreviation (input) MCR_RX_EN :: byte where "MCR_RX_EN \<equiv> 0x20"
abbreviation (input) MCR_BANK_MASK :: byte where "MCR_BANK_MASK \<equiv> 0x1f"
abbreviation (input) MSR :: int where "MSR \<equiv> 0x01"
abbreviation (input) MSR_RX_COND_ID :: byte where "MSR_RX_COND_ID \<equiv> 0x08"
abbreviation (input) MSR_RX_DATA_ID :: byte where "MSR_RX_DATA_ID \<equiv> 0x0a"
abbreviation (input) MSR_TX_EMPTY_ID :: byte where "MSR_TX_EMPTY_ID \<equiv> 0x0c"
abbreviation (input) MSR_TX_COND_ID :: byte where "MSR_TX_COND_ID \<equiv> 0x0e"
abbreviation (input) MSR_ID_MASK :: byte where "MSR_ID_MASK \<equiv> 0x0e"
abbreviation (input) MISC :: int where "MISC \<equiv> 0x01"
abbreviation (input) TX_CTRL1 :: int where "TX_CTRL1 \<equiv> 0x03"
abbreviation (input) TX_CTRL1_RTS :: byte where "TX_CTRL1_RTS \<equiv> 0x80"
abbreviation (input) TX_CTRL1_UNDR_EOM_I :: byte where "TX_CTRL1_UNDR_EOM_I \<equiv> 0x20"
abbreviation (input) TX_CTRL2 :: int where "TX_CTRL2 \<equiv> 0x04"
abbreviation (input) TX_CTRL2_EN_TX_CRC :: byte where "TX_CTRL2_EN_TX_CRC \<equiv> 0x40"
abbreviation (input) TX_CTRL2_EARLY_EOM_16 :: byte where "TX_CTRL2_EARLY_EOM_16 \<equiv> 0x01"
abbreviation (input) TX_STAT :: int where "TX_STAT \<equiv> 0x05"
abbreviation (input) TX_STAT_FIFO_UNDR :: byte where "TX_STAT_FIFO_UNDR \<equiv> 0x08"
abbreviation (input) TX_STAT_EOM :: byte where "TX_STAT_EOM \<equiv> 0x04"
abbreviation (input) RX_CTRL :: int where "RX_CTRL \<equiv> 0x06"
abbreviation (input) RX_CTRL_COND_I :: byte where "RX_CTRL_COND_I \<equiv> 0x01"
abbreviation (input) RX_CTRL_EN_CRC :: byte where "RX_CTRL_EN_CRC \<equiv> 0x40"
abbreviation (input) RESET :: int where "RESET \<equiv> 0x07"
abbreviation (input) RESET_RX_SPEC_BITS :: byte where "RESET_RX_SPEC_BITS \<equiv> 0x30"
abbreviation (input) RESET_RX_RFP :: byte where "RESET_RX_RFP \<equiv> 0x40"
abbreviation (input) RESET_TX_SPEC_BITS :: byte where "RESET_TX_SPEC_BITS \<equiv> 0x50"
abbreviation (input) RX_RING_FRM_PTR_LOW :: int where "RX_RING_FRM_PTR_LOW \<equiv> 0x04"
abbreviation (input) RX_RING_FRM_PTR_HIGH :: int where "RX_RING_FRM_PTR_HIGH \<equiv> 0x05"
abbreviation (input) TX_BYTE_COUNT_LOW :: int where "TX_BYTE_COUNT_LOW \<equiv> 0x06"
abbreviation (input) TX_BYTE_COUNT_HIGH :: int where "TX_BYTE_COUNT_HIGH \<equiv> 0x07"
abbreviation (input) IR_CONF :: int where "IR_CONF \<equiv> 0x01"
abbreviation (input) IR_CONF_SIR :: byte where "IR_CONF_SIR \<equiv> 0x00"
abbreviation (input) IR_CONF_MIR :: byte where "IR_CONF_MIR \<equiv> 0x02"
abbreviation (input) IR_CONF_FIR :: byte where "IR_CONF_FIR \<equiv> 0x04"
abbreviation (input) IR_CONF_MIR_1152 :: byte where "IR_CONF_MIR_1152 \<equiv> 0x00"
abbreviation (input) IR_CONF_MIR_576 :: byte where "IR_CONF_MIR_576 \<equiv> 0x10"
abbreviation (input) IR_TRANS_CTRL :: int where "IR_TRANS_CTRL \<equiv> 0x02"
abbreviation (input) IR_TRANS_CTRL_TXD_FRC :: byte where "IR_TRANS_CTRL_TXD_FRC \<equiv> 0x02"
abbreviation (input) IR_TRANS_CTRL_XCVROFF :: byte where "IR_TRANS_CTRL_XCVROFF \<equiv> 0x10"
abbreviation (input) SH_MEM_PAGE :: int where "SH_MEM_PAGE \<equiv> 0x01"
abbreviation (input) TX_DMA_ADDR_LOW :: int where "TX_DMA_ADDR_LOW \<equiv> 0x02"
abbreviation (input) TX_DMA_ADDR_HIGH :: int where "TX_DMA_ADDR_HIGH \<equiv> 0x03"
abbreviation (input) PAGE_DISABLE :: byte where "PAGE_DISABLE \<equiv> 0x40"
abbreviation (input) REVISION_ID :: int where "REVISION_ID \<equiv> 0x07"
abbreviation (input) SHMEM_TX_START :: int where "SHMEM_TX_START \<equiv> 0x4000"
abbreviation (input) MAX_WINDOW :: nat where "MAX_WINDOW \<equiv> 8"

section \<open>State\<close>

text \<open>
  Accesses to ports and to the shared memory, calls of the kernel, and lines for its log. \<open>Delivered\<close> is a frame given
  to the network layer by \<open>netif_rx\<close>.
\<close>

datatype card_act =
    Outb byte int
  | Inb int
  | Readb int
  | Copy_to int "byte list"
  | Copy_from int int
  | Kernel string "int list"
  | Printk string "int list"
  | Delivered "byte list"

datatype direction = IO_XMIT | IO_RECV

text \<open>The function that sends a frame, \<open>hard_start_xmit\<close>.\<close>

datatype xmit_handler = Irport_hard_xmit | Ircard_hard_xmit

record frame_cb =
  fc_start :: int
  fc_len :: int

record shm_queue =
  q_frames :: "frame_cb list"    \<comment> \<open>\<open>queue[MAX_WINDOW]\<close>\<close>
  q_ptr :: int
  q_len :: int
  q_free :: int
  q_tail :: int

record ircard =
  tx_q :: shm_queue
  rx_data :: int                 \<comment> \<open>\<open>self->data\<close>\<close>
  rx_stamp :: "int \<times> int"
  baudrate :: u32
  io_direction :: direction
  iobase :: int
  iobase2 :: int
  membase :: int
  hard_start_xmit :: xmit_handler
  tbusy :: int
  media_busy :: bool
  in_interrupt :: bool
  tx_packets :: nat
  tx_bytes :: int
  tx_buff_len :: int             \<comment> \<open>\<open>tx_buff.len\<close>\<close>
  tx_errors :: nat
  tx_fifo_errors :: nat
  rx_packets :: nat
  rx_errors :: nat
  rx_frame_errors :: nat
  rx_fifo_errors :: nat
  rx_outside_frame :: bool       \<comment> \<open>\<open>rx_buff.state = OUTSIDE_FRAME\<close>\<close>
  card_acts :: "card_act list"

text \<open>What ports and memory answer, and what the kernel returns, after a history of accesses.\<close>

record card_system =
  c_in :: "card_act list \<Rightarrow> byte"
  c_read :: "card_act list \<Rightarrow> byte list"
  c_int :: "card_act list \<Rightarrow> int"
  c_time :: "card_act list \<Rightarrow> int \<times> int"

type_synonym 'a cardm = "(ircard, 'a) cm"

definition card_do :: "card_act \<Rightarrow> unit cardm" where
  "card_do a = modify (\<lambda>s. s\<lparr>card_acts := card_acts s @ [a]\<rparr>)"

definition c_outb :: "byte \<Rightarrow> int \<Rightarrow> unit cardm" where
  "c_outb v port = card_do (Outb v port)"

definition c_inb :: "card_system \<Rightarrow> int \<Rightarrow> byte cardm" where
  "c_inb K port = thn (card_do (Inb port)) (gets (\<lambda>s. c_in K (card_acts s)))"

definition c_readb :: "card_system \<Rightarrow> int \<Rightarrow> byte cardm" where
  "c_readb K a = thn (card_do (Readb a)) (gets (\<lambda>s. c_in K (card_acts s)))"

definition kernel_call :: "string \<Rightarrow> int list \<Rightarrow> unit cardm" where
  "kernel_call name args = card_do (Kernel name args)"

definition kernel_ask :: "card_system \<Rightarrow> string \<Rightarrow> int list \<Rightarrow> int cardm" where
  "kernel_ask K name args = thn (kernel_call name args) (gets (\<lambda>s. c_int K (card_acts s)))"

definition card_time :: "card_system \<Rightarrow> (int \<times> int) cardm" where
  "card_time K = thn (kernel_call ''do_gettimeofday'' []) (gets (\<lambda>s. c_time K (card_acts s)))"

section \<open>Banks\<close>

definition ircard_set_mcr :: "int \<Rightarrow> byte \<Rightarrow> byte \<Rightarrow> unit cardm" where
  "ircard_set_mcr base itr bank = c_outb (itr OR bank) (base + MCR)"

text \<open>\<open>__switch_bank\<close>\<close>

definition set_bank :: "int \<Rightarrow> byte \<Rightarrow> unit cardm" where
  "set_bank base bank = c_outb bank (base + MCR)"

definition switch_bank :: "card_system \<Rightarrow> int \<Rightarrow> byte \<Rightarrow> byte cardm" where
  "switch_bank K base bank =
    bnd (c_inb K (base + MCR)) (\<lambda>mcr.
    thn (ircard_set_mcr base (mcr AND NOT MCR_BANK_MASK) bank) (ret (mcr AND MCR_BANK_MASK)))"

definition to_bank :: "card_system \<Rightarrow> int \<Rightarrow> byte \<Rightarrow> unit cardm" where
  "to_bank K base bank = ignore (switch_bank K base bank)"

section \<open>Probe and transceiver\<close>

definition ircard_probe :: "card_system \<Rightarrow> unit cardm" where
  "ircard_probe K = bnd (gets iobase) (\<lambda>base. seqs [
     to_bank K base 3,
     bnd (c_inb K (base + REVISION_ID)) (\<lambda>rev.
       card_do (Printk (ln ''IBM 31T1502 controller revision %d'') [uint rev])),
     c_outb 0 (base + SH_MEM_PAGE),
     to_bank K base 0,
     c_outb TX_CTRL2_EN_TX_CRC (base + TX_CTRL2),
     to_bank K base 3,
     c_outb 0 (base + SH_MEM_PAGE),
     c_outb 0 (base + TX_DMA_ADDR_LOW),
     c_outb PAGE_DISABLE (base + TX_DMA_ADDR_HIGH)])"

definition ircard_sir_to_fir :: "int \<Rightarrow> unit cardm" where
  "ircard_sir_to_fir base = seqs [
     set_bank base 2,
     c_outb IR_TRANS_CTRL_XCVROFF (base + IR_TRANS_CTRL),
     kernel_call ''udelay'' [2],
     c_outb (IR_TRANS_CTRL_XCVROFF OR IR_TRANS_CTRL_TXD_FRC) (base + IR_TRANS_CTRL),
     kernel_call ''udelay'' [2],
     c_outb IR_TRANS_CTRL_TXD_FRC (base + IR_TRANS_CTRL),
     kernel_call ''udelay'' [2],
     c_outb 0 (base + IR_TRANS_CTRL)]"

definition ircard_fir_to_sir :: "int \<Rightarrow> unit cardm" where
  "ircard_fir_to_sir base = seqs [
     set_bank base 2,
     c_outb IR_TRANS_CTRL_XCVROFF (base + IR_TRANS_CTRL),
     kernel_call ''udelay'' [2],
     c_outb 0 (base + IR_TRANS_CTRL)]"

section \<open>Receiving\<close>

definition reset_tx_queue :: "unit cardm" where
  "reset_tx_queue = modify (\<lambda>s. s\<lparr>tx_q := (tx_q s)\<lparr>q_len := 0, q_ptr := 0, q_free := 0, q_tail := SHMEM_TX_START + membase s\<rparr>\<rparr>)"

definition ircard_receive :: "card_system \<Rightarrow> int \<Rightarrow> unit cardm" where
  "ircard_receive K base =
    bnd (switch_bank K base 0) (\<lambda>bank. seqs [
      ircard_set_mcr base MCR_INTR_EN bank,
      reset_tx_queue,
      c_outb RESET_RX_SPEC_BITS (base + RESET),
      c_outb RESET_RX_RFP (base + RESET),
      ircard_set_mcr base (MCR_RX_EN OR MCR_INTR_EN) bank,
      to_bank K base 0,
      c_outb (RX_CTRL_EN_CRC OR RX_CTRL_COND_I) (base + RX_CTRL),
      c_outb 0xc0 (base + MISC),
      modify (\<lambda>s. s\<lparr>io_direction := IO_RECV\<rparr>)])"

text \<open>A frame with an error is counted and skipped.\<close>

definition skip_frame :: "(ircard \<Rightarrow> ircard) \<Rightarrow> bool cardm" where
  "skip_frame count = thn (modify (\<lambda>s. count (s\<lparr>rx_errors := rx_errors s + 1\<rparr>))) (ret False)"

text \<open>
  A frame of \<open>len\<close> bytes that ends before \<open>ptr\<close> in the shared memory. Nothing is read outside the memory window of
  0x8000 bytes.
\<close>

definition deliver_frame :: "card_system \<Rightarrow> int \<Rightarrow> int \<Rightarrow> bool cardm" where
  "deliver_frame K ptr len =
    bnd (gets (\<lambda>s. membase s + ptr - len - 1)) (\<lambda>start.
    bnd (card_time K) (\<lambda>t.
    thn (modify (\<lambda>s. s\<lparr>rx_stamp := t, rx_data := ptr + 1\<rparr>)) (
    let len = (if 2050 < len - 4 then 2050 else len - 4) in
    bnd (kernel_ask K ''dev_alloc_skb'' [len + 1]) (\<lambda>skb.
    if skb = 0 then thn (card_do (Printk (ln ''ircard_receive_complete(), memory squeeze, dropping frame.'') [])) (ret False) else
    bnd (gets membase) (\<lambda>m.
    thn (check Oob_read (m \<le> start \<and> start + len \<le> m + 0x8000)) (
    thn (card_do (Copy_from start len)) (
    bnd (gets (\<lambda>s. take (nat len) (c_read K (card_acts s)))) (\<lambda>bytes.
    thn (modify (\<lambda>s. s\<lparr>rx_packets := rx_packets s + 1\<rparr>)) (
    thn (card_do (Delivered bytes)) (ret True))))))))))"

definition ircard_receive_complete :: "card_system \<Rightarrow> int \<Rightarrow> bool cardm" where
  "ircard_receive_complete K base =
    thn (to_bank K base 1) (
    bnd (c_inb K (base + RX_RING_FRM_PTR_LOW)) (\<lambda>lo.
    bnd (c_inb K (base + RX_RING_FRM_PTR_HIGH)) (\<lambda>hi.
    let ptr = uint lo + 256 * uint (hi AND 0x3f) in
    if ptr = 0 then ret False else
    bnd (gets membase) (\<lambda>m.
    bnd (c_readb K (m + ptr)) (\<lambda>stat.
    bnd (c_readb K (m + ptr - 1)) (\<lambda>low.
    let len = 256 * uint (stat AND 0x1f) + uint low in
    if stat AND 0x80 \<noteq> 0 then skip_frame (\<lambda>s. s\<lparr>rx_frame_errors := rx_frame_errors s + 1\<rparr>)
    else if stat AND 0x40 \<noteq> 0 then skip_frame (\<lambda>s. s\<lparr>rx_frame_errors := rx_frame_errors s + 1\<rparr>)
    else if stat AND 0x20 \<noteq> 0 then
      thn (to_bank K base 0) (
      thn (c_outb RESET_RX_SPEC_BITS (base + RESET))
      (skip_frame (\<lambda>s. s\<lparr>rx_fifo_errors := rx_fifo_errors s + 1\<rparr>)))
    else if len \<le> 5 then ret False
    else deliver_frame K ptr len))))))"

section \<open>Sending\<close>

text \<open>A frame of the queue; the index must be one of the array.\<close>

definition queued :: "int \<Rightarrow> frame_cb cardm" where
  "queued i = thn (check Bad_index (0 \<le> i \<and> i < int MAX_WINDOW)) (gets (\<lambda>s. q_frames (tx_q s) ! nat i))"

definition put_queued :: "int \<Rightarrow> frame_cb \<Rightarrow> unit cardm" where
  "put_queued i f = thn (check Bad_index (0 \<le> i \<and> i < int MAX_WINDOW))
     (modify (\<lambda>s. s\<lparr>tx_q := (tx_q s)\<lparr>q_frames := (q_frames (tx_q s))[nat i := f]\<rparr>\<rparr>))"

definition low_byte :: "int \<Rightarrow> byte" where "low_byte v = word_of_int v"
definition high_byte :: "int \<Rightarrow> byte" where "high_byte v = word_of_int (v div 256)"

definition ircard_dma_write :: "card_system \<Rightarrow> int \<Rightarrow> unit cardm" where
  "ircard_dma_write K base =
    bnd (gets (\<lambda>s. q_ptr (tx_q s))) (\<lambda>ptr. seqs [
      to_bank K base 0,
      c_outb 0 (base + MISC),
      modify (\<lambda>s. s\<lparr>io_direction := IO_XMIT\<rparr>),
      ircard_set_mcr base (MCR_INTR_EN OR MCR_TX_EN) 0,
      c_outb (TX_CTRL2_EN_TX_CRC OR TX_CTRL2_EARLY_EOM_16) (base + TX_CTRL2),
      to_bank K base 1,
      bnd (queued ptr) (\<lambda>f. thn (c_outb (low_byte (fc_len f)) (base + TX_BYTE_COUNT_LOW))
        (c_outb (high_byte (fc_len f) AND 0x1f) (base + TX_BYTE_COUNT_HIGH))),
      to_bank K base 3,
      c_outb 0 (base + SH_MEM_PAGE),
      bnd (queued ptr) (\<lambda>f. bnd (gets membase) (\<lambda>m. let addr = fc_start f - m in
        thn (c_outb (low_byte addr) (base + TX_DMA_ADDR_LOW))
          (c_outb (PAGE_DISABLE OR (high_byte addr AND 0x3f)) (base + TX_DMA_ADDR_HIGH)))),
      to_bank K base 0,
      c_outb 0xc0 (base + MISC),
      to_bank K base 0,
      c_outb (TX_CTRL1_RTS OR TX_CTRL1_UNDR_EOM_I) (base + TX_CTRL1)])"

text \<open>The spin for the end of the message: at most \<open>left\<close> more reads of the status.\<close>

fun spin_eom :: "card_system \<Rightarrow> int \<Rightarrow> byte \<Rightarrow> nat \<Rightarrow> unit cardm" where
  "spin_eom K base stat 0 = ret ()"
| "spin_eom K base stat (Suc left) =
    (if stat AND TX_STAT_EOM \<noteq> 0 then ret ()
     else bnd (c_inb K (base + TX_STAT)) (\<lambda>stat. spin_eom K base stat left))"

text \<open>Frames to be sent back to back, or ready to receive when the network layer has no more.\<close>

definition next_frame :: "card_system \<Rightarrow> int \<Rightarrow> unit cardm" where
  "next_frame K base =
    bnd (gets (\<lambda>s. q_len (tx_q s))) (\<lambda>n.
    if n \<noteq> 0 then ircard_dma_write K base
    else bnd (kernel_ask K ''irda_device_txqueue_empty'' []) (\<lambda>e.
      doif (e \<noteq> 0) (thn (c_outb 0 (base + TX_CTRL1)) (ircard_receive K base))))"

definition ircard_xmit_complete :: "card_system \<Rightarrow> unit cardm" where
  "ircard_xmit_complete K =
    bnd (gets iobase) (\<lambda>base.
    bnd (switch_bank K base 0) (\<lambda>bank. seqs [
      bnd (c_inb K (base + TX_STAT)) (\<lambda>stat.
        if stat AND TX_STAT_FIFO_UNDR \<noteq> 0 then
          modify (\<lambda>s. s\<lparr>tx_errors := tx_errors s + 1, tx_fifo_errors := tx_fifo_errors s + 1\<rparr>)
        else thn (spin_eom K base stat 1001)
          (modify (\<lambda>s. s\<lparr>tx_packets := tx_packets s + 1, tx_bytes := tx_bytes s + tx_buff_len s\<rparr>))),
      ircard_set_mcr base MCR_INTR_EN bank,
      c_outb 0 (base + MISC),
      c_outb RESET_TX_SPEC_BITS (base + RESET),
      modify (\<lambda>s. s\<lparr>tbusy := 0, media_busy := False\<rparr>),
      modify (\<lambda>s. s\<lparr>tx_q := (tx_q s)\<lparr>q_ptr := q_ptr (tx_q s) + 1, q_len := q_len (tx_q s) - 1\<rparr>\<rparr>),
      next_frame K base,
      kernel_call ''mark_bh'' []]))"

definition elapsed_us :: "int \<times> int \<Rightarrow> int \<times> int \<Rightarrow> int" where
  "elapsed_us now prev = (if snd now - snd prev < 0 then snd now - snd prev + 1000000 else snd now - snd prev)"

text \<open>The delay before the first frame of a window.\<close>

definition mtt_delay :: "card_system \<Rightarrow> unit cardm" where
  "mtt_delay K =
    bnd (kernel_ask K ''irda_get_mtt'' []) (\<lambda>mtt.
    doif (mtt \<noteq> 0) (
      bnd (card_time K) (\<lambda>now.
      bnd (gets (\<lambda>s. elapsed_us now (rx_stamp s))) (\<lambda>diff.
      doif (diff < mtt) (kernel_call ''udelay'' [mtt - diff])))))"

definition ircard_hard_xmit :: "card_system \<Rightarrow> byte list \<Rightarrow> int cardm" where
  "ircard_hard_xmit K data =
    bnd (gets tbusy) (\<lambda>busy.
    thn (modify (\<lambda>s. s\<lparr>tbusy := 1\<rparr>)) (
    if busy \<noteq> 0 then ret (-16) else
    bnd (gets iobase) (\<lambda>base.
    let len = int (length data) in
    thn (seqs [
      to_bank K base 0,
      bnd (gets tx_q) (\<lambda>q. put_queued (q_free q) \<lparr>fc_start = q_tail q, fc_len = len\<rparr>),
      modify (\<lambda>s. s\<lparr>tx_q := (tx_q s)\<lparr>q_tail := q_tail (tx_q s) + len\<rparr>\<rparr>),
      bnd (gets (\<lambda>s. (q_free (tx_q s), membase s))) (\<lambda>(i, m). bnd (queued i) (\<lambda>f.
        thn (check Oob_write (m \<le> fc_start f \<and> fc_start f + len \<le> m + 0x8000)) (card_do (Copy_to (fc_start f) data)))),
      modify (\<lambda>s. s\<lparr>tx_q := (tx_q s)\<lparr>q_len := q_len (tx_q s) + 1, q_free := q_free (tx_q s) + 1\<rparr>\<rparr>),
      bnd (gets (\<lambda>s. q_len (tx_q s))) (\<lambda>n.
        doif (n = 1) (thn (mtt_delay K) (ircard_dma_write K base))),
      kernel_call ''dev_kfree_skb'' [],
      modify (\<lambda>s. s\<lparr>tbusy := 0\<rparr>)]) (ret 0))))"

section \<open>Speed\<close>

definition ircard_change_speed :: "card_system \<Rightarrow> u32 \<Rightarrow> unit cardm" where
  "ircard_change_speed K speed =
    bnd (gets iobase) (\<lambda>base. bnd (gets iobase2) (\<lambda>base2. seqs [
      bnd (gets baudrate) (\<lambda>b.
        if 1152000 < b \<and> speed < 4000000 then ircard_fir_to_sir base
        else if b < 4000000 \<and> 1152000 < speed then ircard_sir_to_fir base
        else ret ()),
      modify (\<lambda>s. s\<lparr>baudrate := speed, hard_start_xmit := (if 115200 < speed then Ircard_hard_xmit else Irport_hard_xmit)\<rparr>),
      set_bank base 0,
      c_outb 0x07 (base + 7),
      set_bank base 2,
      (if speed = 576000 then
         thn (kernel_call ''irport_stop'' [base2]) (c_outb (IR_CONF_MIR_576 OR IR_CONF_MIR) (base + IR_CONF))
       else if speed = 1152000 then
         thn (kernel_call ''irport_stop'' [base2]) (c_outb (IR_CONF_MIR_1152 OR IR_CONF_MIR) (base + IR_CONF))
       else if speed = 4000000 then
         thn (kernel_call ''irport_stop'' [base2]) (c_outb IR_CONF_FIR (base + IR_CONF))
       else
         thn (kernel_call ''irport_start'' [base2]) (
         thn (kernel_call ''irport_change_speed'' [uint speed]) (c_outb IR_CONF_SIR (base + IR_CONF)))),
      modify (\<lambda>s. s\<lparr>tbusy := 0\<rparr>),
      doif (115200 < speed) (ircard_receive K base)]))"

section \<open>The interrupt\<close>

definition serve_cause :: "card_system \<Rightarrow> int \<Rightarrow> byte \<Rightarrow> unit cardm" where
  "serve_cause K base msr =
    (if msr = MSR_TX_COND_ID then ircard_xmit_complete K
     else if msr = MSR_RX_DATA_ID then ignore (ircard_receive_complete K base)
     else if msr = MSR_RX_COND_ID then ignore (ircard_receive_complete K base)
     else ret ())"

text \<open>The loop; \<open>left\<close> is how often the status is read again.\<close>

fun serve_causes :: "card_system \<Rightarrow> int \<Rightarrow> byte \<Rightarrow> nat \<Rightarrow> unit cardm" where
  "serve_causes K base msr 0 =
    (if msr = 0 then ret ()
     else thn (serve_cause K base msr) (card_do (Printk (ln ''ircard_interrupt(), breaking!'') [])))"
| "serve_causes K base msr (Suc left) =
    (if msr = 0 then ret ()
     else thn (serve_cause K base msr) (
       bnd (c_inb K (base + MSR)) (\<lambda>v. serve_causes K base (v AND MSR_ID_MASK) left)))"

definition ircard_interrupt :: "card_system \<Rightarrow> unit cardm" where
  "ircard_interrupt K =
    bnd (gets baudrate) (\<lambda>b.
    if b \<le> 115200 then kernel_call ''irport_interrupt'' [] else
    thn (modify (\<lambda>s. s\<lparr>in_interrupt := True\<rparr>)) (
    bnd (gets iobase) (\<lambda>base.
    bnd (switch_bank K base 0) (\<lambda>bank.
    bnd (c_inb K (base + MSR)) (\<lambda>v.
    thn (serve_causes K base (v AND MSR_ID_MASK) 11) (
    thn (to_bank K base bank)
    (modify (\<lambda>s. s\<lparr>in_interrupt := False\<rparr>))))))))"

section \<open>The network device\<close>

definition ircard_net_init :: "int cardm" where
  "ircard_net_init = thn (kernel_call ''irda_device_setup'' []) (ret 0)"

definition ircard_net_open :: "int cardm" where
  "ircard_net_open = bnd (gets iobase2) (\<lambda>base2.
     thn (kernel_call ''irda_device_net_open'' []) (
     thn (kernel_call ''irport_start'' [base2]) (thn (kernel_call ''MOD_INC_USE_COUNT'' []) (ret 0))))"

definition ircard_net_close :: "int cardm" where
  "ircard_net_close = bnd (gets iobase2) (\<lambda>base2.
     thn (kernel_call ''irda_device_net_close'' []) (
     thn (kernel_call ''irport_stop'' [base2]) (thn (kernel_call ''MOD_DEC_USE_COUNT'' []) (ret 0))))"

definition ircard_wait_until_sent :: "unit cardm" where
  "ircard_wait_until_sent = bnd (gets baudrate) (\<lambda>b.
     if 115200 < b then thn (kernel_call ''TASK_INTERRUPTIBLE'' []) (kernel_call ''schedule_timeout'' [60]) else kernel_call ''irport_wait_until_sent'' [])"

definition ircard_is_receiving :: "bool cardm" where
  "ircard_is_receiving = bnd (gets baudrate) (\<lambda>b. if 115200 < b then ret False else gets (\<lambda>s. \<not> rx_outside_frame s))"

end
