(* ===== verification/Ircard_Regs.thy ===== *)
theory Ircard_Regs
  imports Ircard_Chip
begin

text \<open>
  What the operations of \<open>Ircard_Chip\<close> do to the controller: the accesses are read as writes to registers of a bank,
  the bank being the low bits of the last write to the master control register.
\<close>

section \<open>The registers seen through the history\<close>

text \<open>The controller: the master control register, and the writes to and reads of the others, each with its bank.\<close>

record chip =
  chip_mcr :: byte
  chip_log :: "(byte \<times> int \<times> byte) list"    \<comment> \<open>bank, register, value\<close>
  chip_reads :: "(byte \<times> int) list"

definition chip_bank :: "chip \<Rightarrow> byte" where
  "chip_bank c = chip_mcr c AND MCR_BANK_MASK"

definition chip_write :: "int \<Rightarrow> byte \<Rightarrow> chip \<Rightarrow> chip" where
  "chip_write off v c = (if off = 0 then c\<lparr>chip_mcr := v\<rparr>
     else if 0 < off \<and> off \<le> 7 then c\<lparr>chip_log := chip_log c @ [(chip_bank c, off, v)]\<rparr> else c)"

definition chip_read :: "int \<Rightarrow> chip \<Rightarrow> chip" where
  "chip_read off c = (if 0 < off \<and> off \<le> 7 then c\<lparr>chip_reads := chip_reads c @ [(chip_bank c, off)]\<rparr> else c)"

fun chip_act :: "int \<Rightarrow> card_act \<Rightarrow> chip \<Rightarrow> chip" where
  "chip_act base (Outb v p) c = chip_write (p - base) v c"
| "chip_act base (Inb p) c = chip_read (p - base) c"
| "chip_act base _ c = c"

definition chip_of :: "byte \<Rightarrow> int \<Rightarrow> card_act list \<Rightarrow> chip" where
  "chip_of r base h = fold (chip_act base) h \<lparr>chip_mcr = r, chip_log = [], chip_reads = []\<rparr>"

text \<open>The register can be read back.\<close>

definition mcr_reads_back :: "card_system \<Rightarrow> byte \<Rightarrow> int \<Rightarrow> bool" where
  "mcr_reads_back K r base \<longleftrightarrow> (\<forall>h. c_in K (h @ [Inb base]) = chip_mcr (chip_of r base h))"

named_theorems chip_simps

lemma chip_of_snoc [chip_simps]: "chip_of r base (h @ [a]) = chip_act base a (chip_of r base h)"
  by (simp add: chip_of_def)

lemma reads_back: "mcr_reads_back K r base \<Longrightarrow> c_in K (h @ [Inb base]) = chip_mcr (chip_of r base h)"
  by (simp add: mcr_reads_back_def)

lemma masked_or: "(x AND NOT m OR b) AND m = (b AND m :: 'a::len word)"
  by (rule bit_word_eqI) (auto simp: bit_simps)

lemma bank_of_or [chip_simps]: "(x AND - 32 OR b) AND 31 = (b AND 31 :: byte)"
proof -
  have "NOT (31 :: byte) = - 32"
    by simp
  then show ?thesis
    using masked_or [of x 31 b] by metis
qed

lemma bank_or [chip_simps]: "(numeral v OR b) AND 31 = ((numeral v AND 31) OR (b AND 31) :: byte)"
  by (rule bit.conj_disj_distrib2)

lemma upper_bits [chip_simps]: "(x AND - 32) AND 31 = (0 :: byte)"
  by (simp add: and.assoc)

lemma upper_of_or [chip_simps]: "(numeral v OR x AND 31) AND - 32 = (numeral v AND - 32 :: byte)"
proof -
  have "(x AND 31) AND - 32 = (0 :: byte)"
    by (simp add: and.assoc)
  then show ?thesis
    by (simp add: bit.conj_disj_distrib2)
qed

lemma bank_twice [chip_simps]: "(x AND 31) AND 31 = (x AND 31 :: byte)"
  by (simp add: and.assoc)

section \<open>Operations on the controller\<close>

text \<open>The rules for one access; blocks are run by them.\<close>

named_theorems access_wp

lemma wp_c_outb [access_wp]: "wp (c_outb v p) Q E s = Q () (s\<lparr>card_acts := card_acts s @ [Outb v p]\<rparr>)"
  by (simp add: c_outb_def card_do_def wp_simps)

lemma wp_c_inb [access_wp]:
  "wp (c_inb K p) Q E s = Q (c_in K (card_acts s @ [Inb p])) (s\<lparr>card_acts := card_acts s @ [Inb p]\<rparr>)"
  by (simp add: c_inb_def card_do_def wp_simps)

lemma wp_readb [access_wp]:
  "wp (c_readb K p) Q E s = Q (c_in K (card_acts s @ [Readb p])) (s\<lparr>card_acts := card_acts s @ [Readb p]\<rparr>)"
  by (simp add: c_readb_def card_do_def wp_simps)

lemma wp_card_do [access_wp]: "wp (card_do a) Q E s = Q () (s\<lparr>card_acts := card_acts s @ [a]\<rparr>)"
  by (simp add: card_do_def wp_simps)

lemma wp_kernel [access_wp]: "wp (kernel_call nm as) Q E s = Q () (s\<lparr>card_acts := card_acts s @ [Kernel nm as]\<rparr>)"
  by (simp add: kernel_call_def access_wp)

lemma wp_kernel_ask [access_wp]:
  "wp (kernel_ask K nm as) Q E s = Q (c_int K (card_acts s @ [Kernel nm as])) (s\<lparr>card_acts := card_acts s @ [Kernel nm as]\<rparr>)"
  by (simp add: kernel_ask_def access_wp wp_simps)

lemma wp_time [access_wp]:
  "wp (card_time K) Q E s = Q (c_time K (card_acts s @ [Kernel ''do_gettimeofday'' []]))
     (s\<lparr>card_acts := card_acts s @ [Kernel ''do_gettimeofday'' []]\<rparr>)"
  by (simp add: card_time_def access_wp wp_simps)

lemma wp_set_bank [access_wp]: "wp (set_bank base b) Q E s = Q () (s\<lparr>card_acts := card_acts s @ [Outb b base]\<rparr>)"
  by (simp add: set_bank_def access_wp)

lemma wp_set_mcr [access_wp]:
  "wp (ircard_set_mcr base i b) Q E s = Q () (s\<lparr>card_acts := card_acts s @ [Outb (i OR b) base]\<rparr>)"
  by (simp add: ircard_set_mcr_def access_wp)

text \<open>Where the register reads back, a switch keeps the upper bits and tells the old bank.\<close>

definition switched :: "card_act list \<Rightarrow> int \<Rightarrow> byte \<Rightarrow> byte \<Rightarrow> card_act list" where
  "switched h base m b = h @ [Inb base, Outb (m AND NOT MCR_BANK_MASK OR b) base]"

lemma chip_of_switched [chip_simps]:
  "chip_of r base (switched h base m b) = (chip_of r base h)\<lparr>chip_mcr := m AND NOT MCR_BANK_MASK OR b\<rparr>"
  by (simp add: switched_def chip_of_def chip_write_def chip_read_def)

text \<open>What was copied into the shared memory.\<close>

definition copies :: "card_act list \<Rightarrow> card_act list" where
  "copies h = filter (\<lambda>a. case a of Copy_to x d \<Rightarrow> True | _ \<Rightarrow> False) h"

lemma copies_snoc [chip_simps]: "copies (h @ [a]) = copies h @ (case a of Copy_to x d \<Rightarrow> [a] | _ \<Rightarrow> [])"
  by (cases a) (simp_all add: copies_def)

lemma copies_switched [chip_simps]: "copies (switched h base m b) = copies h"
  by (simp add: switched_def copies_def)

lemma wp_switch:
  assumes "mcr_reads_back K r base"
  shows "wp (switch_bank K base b) Q E s =
    (let c = chip_of r base (card_acts s) in
     Q (chip_bank c) (s\<lparr>card_acts := switched (card_acts s) base (chip_mcr c) b\<rparr>))"
  by (simp add: switch_bank_def access_wp wp_simps reads_back [OF assms] chip_bank_def switched_def Let_def)

lemma wp_to_bank:
  assumes "mcr_reads_back K r base"
  shows "wp (to_bank K base b) Q E s =
    Q () (s\<lparr>card_acts := switched (card_acts s) base (chip_mcr (chip_of r base (card_acts s))) b\<rparr>)"
  by (simp add: to_bank_def wp_simps wp_switch [OF assms] Let_def)

lemmas chip_run = wp_simps access_wp chip_simps chip_write_def chip_read_def chip_bank_def

text \<open>The controller prepared to receive; the two resets go to register 7 of the bank that was selected before.\<close>

definition receive_chip :: "chip \<Rightarrow> chip" where
  "receive_chip c = c\<lparr>chip_mcr := MCR_RX_EN OR MCR_INTR_EN, chip_log := chip_log c @
     [(chip_bank c, RESET, RESET_RX_SPEC_BITS), (chip_bank c, RESET, RESET_RX_RFP),
      (0, RX_CTRL, RX_CTRL_EN_CRC OR RX_CTRL_COND_I), (0, MISC, 0xc0)]\<rparr>"

text \<open>The controller started to send the frame of \<open>len\<close> bytes at offset \<open>addr\<close> of the shared memory.\<close>

definition transmit_chip :: "int \<Rightarrow> int \<Rightarrow> chip \<Rightarrow> chip" where
  "transmit_chip addr len c = c\<lparr>chip_mcr := MCR_INTR_EN OR MCR_TX_EN, chip_log := chip_log c @
     [(0, MISC, 0), (0, TX_CTRL2, TX_CTRL2_EN_TX_CRC OR TX_CTRL2_EARLY_EOM_16),
      (1, TX_BYTE_COUNT_LOW, low_byte len), (1, TX_BYTE_COUNT_HIGH, high_byte len AND 0x1f),
      (3, SH_MEM_PAGE, 0), (3, TX_DMA_ADDR_LOW, low_byte addr), (3, TX_DMA_ADDR_HIGH, PAGE_DISABLE OR (high_byte addr AND 0x3f)),
      (0, MISC, 0xc0), (0, TX_CTRL1, TX_CTRL1_RTS OR TX_CTRL1_UNDR_EOM_I)]\<rparr>"

definition reset_queue :: "int \<Rightarrow> shm_queue \<Rightarrow> shm_queue" where
  "reset_queue m q = q\<lparr>q_len := 0, q_ptr := 0, q_free := 0, q_tail := SHMEM_TX_START + m\<rparr>"

lemma receive_run:
  assumes "mcr_reads_back K r base"
    and "\<And>h. chip_of r base h = receive_chip (chip_of r base (card_acts s)) \<Longrightarrow> copies h = copies (card_acts s) \<Longrightarrow>
      Q () (s\<lparr>tx_q := reset_queue (membase s) (tx_q s), card_acts := h, io_direction := IO_RECV\<rparr>)"
  shows "wp (ircard_receive K base) Q E s"
  by (simp add: ircard_receive_def reset_tx_queue_def wp_switch [OF assms(1)] wp_to_bank [OF assms(1)] chip_run Let_def
        del: append_assoc)
    (rule assms(2) [unfolded reset_queue_def], simp_all add: chip_run receive_chip_def del: append_assoc)

lemma dma_write_run:
  assumes "mcr_reads_back K r base" and "0 \<le> q_ptr (tx_q s)" and "q_ptr (tx_q s) < int MAX_WINDOW"
    and "q_frames (tx_q s) ! nat (q_ptr (tx_q s)) = f"
    and "\<And>h. chip_of r base h = transmit_chip (fc_start f - membase s) (fc_len f) (chip_of r base (card_acts s)) \<Longrightarrow>
      copies h = copies (card_acts s) \<Longrightarrow> Q () (s\<lparr>io_direction := IO_XMIT, card_acts := h\<rparr>)"
  shows "wp (ircard_dma_write K base) Q E s"
  using assms(2-4)
  by (simp add: ircard_dma_write_def queued_def wp_switch [OF assms(1)] wp_to_bank [OF assms(1)] chip_run Let_def
        del: append_assoc)
    (rule assms(5), simp_all add: chip_run transmit_chip_def del: append_assoc)

section \<open>Change of speed\<close>

definition transceiver_log :: "u32 \<Rightarrow> u32 \<Rightarrow> (byte \<times> int \<times> byte) list" where
  "transceiver_log old speed =
    (if 1152000 < old \<and> speed < 4000000 then [(2, IR_TRANS_CTRL, IR_TRANS_CTRL_XCVROFF), (2, IR_TRANS_CTRL, 0)]
     else if old < 4000000 \<and> 1152000 < speed then
       [(2, IR_TRANS_CTRL, IR_TRANS_CTRL_XCVROFF), (2, IR_TRANS_CTRL, IR_TRANS_CTRL_XCVROFF OR IR_TRANS_CTRL_TXD_FRC),
        (2, IR_TRANS_CTRL, IR_TRANS_CTRL_TXD_FRC), (2, IR_TRANS_CTRL, 0)]
     else [])"

definition conf_of :: "u32 \<Rightarrow> byte" where
  "conf_of speed = (if speed = 576000 then IR_CONF_MIR_576 OR IR_CONF_MIR else if speed = 1152000 then IR_CONF_MIR_1152 OR IR_CONF_MIR
     else if speed = 4000000 then IR_CONF_FIR else IR_CONF_SIR)"

definition speed_chip :: "u32 \<Rightarrow> u32 \<Rightarrow> chip \<Rightarrow> chip" where
  "speed_chip old speed c = (let c = c\<lparr>chip_mcr := 2, chip_log := chip_log c @ transceiver_log old speed @ [(0, 7, 7), (2, IR_CONF, conf_of speed)]\<rparr>
     in if 115200 < speed then receive_chip c else c)"

lemma transceiver_run:
  assumes "\<And>h. chip_of r base h = (chip_of r base (card_acts s))
        \<lparr>chip_mcr := (if transceiver_log old speed = [] then chip_mcr (chip_of r base (card_acts s)) else 2),
         chip_log := chip_log (chip_of r base (card_acts s)) @ transceiver_log old speed\<rparr> \<Longrightarrow> Q () (s\<lparr>card_acts := h\<rparr>)"
  shows "wp (if 1152000 < old \<and> speed < 4000000 then ircard_fir_to_sir base
        else if old < 4000000 \<and> 1152000 < speed then ircard_sir_to_fir base else ret ()) Q E s"
proof -
  have "wp (ret ()) Q E s" if "transceiver_log old speed = []"
    using assms [of "card_acts s"] that by (simp add: wp_simps)
  then show ?thesis
    by (auto simp: ircard_fir_to_sir_def ircard_sir_to_fir_def chip_run transceiver_log_def simp del: append_assoc split: if_splits
        intro!: assms)
qed

text \<open>The driver's own state after a change of speed; the SIR functions of the kernel serve the slow speeds.\<close>

definition speed_state :: "u32 \<Rightarrow> card_act list \<Rightarrow> ircard \<Rightarrow> ircard" where
  "speed_state speed h s = (let t = s\<lparr>baudrate := speed,
       hard_start_xmit := (if 115200 < speed then Ircard_hard_xmit else Irport_hard_xmit)\<rparr>
     in if 115200 < speed then t\<lparr>tbusy := 0, tx_q := reset_queue (membase s) (tx_q s), card_acts := h, io_direction := IO_RECV\<rparr> else t\<lparr>card_acts := h, tbusy := 0\<rparr>)"

lemma change_speed_run:
  assumes K: "mcr_reads_back K r (iobase s)"
    and Q: "\<And>h. chip_of r (iobase s) h = speed_chip (baudrate s) speed (chip_of r (iobase s) (card_acts s)) \<Longrightarrow>
      Q () (speed_state speed h s)"
  shows "wp (ircard_change_speed K speed) Q E s"
  apply (simp only: ircard_change_speed_def wp_bnd wp_gets wp_seqs_Cons wp_seqs_Nil)
  apply (rule transceiver_run [where r = r])
  apply (cases "115200 < speed")
  subgoal for h
    by (simp add: chip_run del: append_assoc)
      (intro conjI impI; rule receive_run [OF K]; insert Q;
       simp add: speed_state_def speed_chip_def conf_of_def chip_run del: append_assoc; simp)
  subgoal premises p for h
  proof -
    have slow: "speed \<noteq> 576000" "speed \<noteq> 1152000" "speed \<noteq> 4000000"
      using p(2) by auto
    have Q': "Q () (s\<lparr>baudrate := speed, hard_start_xmit := Irport_hard_xmit, card_acts := h', tbusy := 0\<rparr>)"
      if "chip_of r (iobase s) h' = speed_chip (baudrate s) speed (chip_of r (iobase s) (card_acts s))" for h'
      using Q [OF that] p(2) by (simp add: speed_state_def)
    show ?thesis
      using p by (simp add: slow chip_run del: append_assoc)
        (rule Q', simp add: speed_chip_def conf_of_def slow chip_run p del: append_assoc)
  qed
  done

end
