(* ===== verification/Ircard_Queue.thy ===== *)
theory Ircard_Queue
  imports Ircard_Regs
begin

text \<open>
  The frames to send of the card driver as a queue: where they lie in the shared memory, which bytes they hold, and
  what \<open>ircard_hard_xmit\<close>, \<open>ircard_xmit_complete\<close> and \<open>ircard_receive\<close> do to the queue.
\<close>

section \<open>The queue\<close>

text \<open>Frames one behind the other from an address on.\<close>

fun laid :: "int \<Rightarrow> frame_cb list \<Rightarrow> int \<Rightarrow> bool" where
  "laid a [] tail \<longleftrightarrow> tail = a"
| "laid a (f # fs) tail \<longleftrightarrow> fc_start f = a \<and> 0 \<le> fc_len f \<and> laid (a + fc_len f) fs tail"

text \<open>
  Eight slots; the next frame to send is at \<open>ptr\<close>, the next free slot at \<open>free\<close>, and \<open>len\<close> frames are between them; the frames lie
  one behind the other from the start of the send window to \<open>tail\<close>, which is inside the window.
\<close>

definition queue_wf :: "ircard \<Rightarrow> bool" where
  "queue_wf s \<longleftrightarrow> (let q = tx_q s in
     length (q_frames q) = MAX_WINDOW \<and> 0 \<le> q_ptr q \<and> q_ptr q \<le> q_free q \<and> q_free q \<le> int MAX_WINDOW \<and>
     q_len q = q_free q - q_ptr q \<and> q_tail q \<le> membase s + 0x8000 \<and>
     laid (SHMEM_TX_START + membase s) (take (nat (q_free q)) (q_frames q)) (q_tail q))"

text \<open>The frames not yet sent, and the bytes of the shared memory after a history.\<close>

definition pending :: "ircard \<Rightarrow> frame_cb list" where
  "pending s = drop (nat (q_ptr (tx_q s))) (take (nat (q_free (tx_q s))) (q_frames (tx_q s)))"

fun shm_act :: "card_act \<Rightarrow> (int \<Rightarrow> byte) \<Rightarrow> int \<Rightarrow> byte" where
  "shm_act (Copy_to a d) m = (\<lambda>x. if a \<le> x \<and> x < a + int (length d) then d ! nat (x - a) else m x)"
| "shm_act _ m = m"

definition shm_of :: "(int \<Rightarrow> byte) \<Rightarrow> card_act list \<Rightarrow> int \<Rightarrow> byte" where
  "shm_of m h = fold shm_act (copies h) m"

definition frame_bytes :: "(int \<Rightarrow> byte) \<Rightarrow> frame_cb \<Rightarrow> byte list" where
  "frame_bytes m f = map (\<lambda>i. m (fc_start f + int i)) [0..<nat (fc_len f)]"

definition outgoing :: "(int \<Rightarrow> byte) \<Rightarrow> ircard \<Rightarrow> byte list list" where
  "outgoing m s = map (frame_bytes (shm_of m (card_acts s))) (pending s)"

lemma laid_append: "laid a (fs @ [f]) tail \<longleftrightarrow> laid a fs (fc_start f) \<and> 0 \<le> fc_len f \<and> tail = fc_start f + fc_len f"
  by (induction fs arbitrary: a) auto

lemma laid_le: "laid a fs tail \<Longrightarrow> a \<le> tail"
  by (induction fs arbitrary: a) force+

lemma laid_before: "laid a fs tail \<Longrightarrow> f \<in> set fs \<Longrightarrow> a \<le> fc_start f \<and> fc_start f + fc_len f \<le> tail"
  by (induction fs arbitrary: a) (auto dest: laid_le, force+)

lemma queue_wfD:
  assumes "queue_wf s"
  shows "length (q_frames (tx_q s)) = MAX_WINDOW" "0 \<le> q_ptr (tx_q s)" "q_ptr (tx_q s) \<le> q_free (tx_q s)" "0 \<le> q_free (tx_q s)"
    "q_free (tx_q s) \<le> int MAX_WINDOW" "q_len (tx_q s) = q_free (tx_q s) - q_ptr (tx_q s)" "0 \<le> q_len (tx_q s)"
    "q_tail (tx_q s) \<le> membase s + 0x8000" "laid (SHMEM_TX_START + membase s) (take (nat (q_free (tx_q s))) (q_frames (tx_q s))) (q_tail (tx_q s))"
    "SHMEM_TX_START + membase s \<le> q_tail (tx_q s)"
  using assms laid_le unfolding queue_wf_def Let_def by auto

lemma shm_of_copies: "copies h = copies h' @ [Copy_to a d] \<Longrightarrow> shm_of m h = shm_act (Copy_to a d) (shm_of m h')"
  by (simp add: shm_of_def)

lemma frame_bytes_cong:
  assumes "\<And>x. fc_start f \<le> x \<Longrightarrow> x < fc_start f + fc_len f \<Longrightarrow> m x = m' x"
  shows "frame_bytes m f = frame_bytes m' f"
  unfolding frame_bytes_def by (rule map_cong) (auto intro: assms)

lemma frame_bytes_written:
  "frame_bytes (shm_act (Copy_to a d) m) \<lparr>fc_start = a, fc_len = int (length d)\<rparr> = d"
  unfolding frame_bytes_def by (rule nth_equalityI) auto

text \<open>A copy behind the frames does not change them.\<close>

lemma frame_bytes_kept:
  assumes "fc_start f + fc_len f \<le> a"
  shows "frame_bytes (shm_act (Copy_to a d) m) f = frame_bytes m f"
  by (rule frame_bytes_cong) (use assms in auto)

text \<open>The registers hold the place of a frame of the window: page bit 0x40 is the bit the mask takes away.\<close>

lemma page_bit: "list_all (\<lambda>k. (0x40 OR (word_of_int k AND 0x3f) :: byte) = word_of_int k) [64..127]"
  by code_simp

lemma dma_address_bytes:
  assumes "0x4000 \<le> a" and "a < 0x8000"
  shows "uint (PAGE_DISABLE OR (high_byte a AND 0x3f)) * 256 + uint (low_byte a) = a"
proof -
  have hi: "64 \<le> a div 256" "a div 256 \<le> 127"
    using assms by linarith+
  then have "a div 256 \<in> set [64..127]"
    by (simp only: set_upto atLeastAtMost_iff)
  with page_bit have "(0x40 OR (high_byte a AND 0x3f)) = (word_of_int (a div 256) :: byte)"
    unfolding list_all_iff high_byte_def by blast
  moreover have "uint (word_of_int (a div 256) :: byte) = a div 256"
    using hi by (simp add: uint_word_of_int)
  moreover have "uint (low_byte a) = a mod 256"
    by (simp add: low_byte_def uint_word_of_int)
  ultimately show ?thesis
    by simp
qed

lemma count_mask: "list_all (\<lambda>k. (word_of_int k AND 0x1f :: byte) = word_of_int k) [0..31]"
  by code_simp

lemma byte_count_bytes:
  assumes "0 \<le> n" and "n < 0x2000"
  shows "uint (high_byte n AND 0x1f) * 256 + uint (low_byte n) = n"
proof -
  have hi: "0 \<le> n div 256" "n div 256 \<le> 31"
    using assms by linarith+
  then have "n div 256 \<in> set [0..31]"
    by (simp only: set_upto atLeastAtMost_iff)
  with count_mask have "(high_byte n AND 0x1f) = (word_of_int (n div 256) :: byte)"
    unfolding list_all_iff high_byte_def by blast
  moreover have "uint (word_of_int (n div 256) :: byte) = n div 256"
    using hi by (simp add: uint_word_of_int)
  moreover have "uint (low_byte n) = n mod 256"
    by (simp add: low_byte_def uint_word_of_int)
  ultimately show ?thesis
    by simp
qed

section \<open>Sending\<close>

definition chip_switch :: "byte \<Rightarrow> chip \<Rightarrow> chip" where
  "chip_switch b c = c\<lparr>chip_mcr := chip_mcr c AND NOT MCR_BANK_MASK OR b\<rparr>"

lemma mtt_delay_run:
  assumes "\<And>h. chip_of r base h = chip_of r base (card_acts s) \<Longrightarrow> copies h = copies (card_acts s) \<Longrightarrow>
    Q () (s\<lparr>card_acts := h\<rparr>)"
  shows "wp (mtt_delay K) Q E s"
  by (simp add: mtt_delay_def chip_run del: append_assoc)
    (intro conjI impI; rule assms; simp add: chip_run del: append_assoc)

text \<open>One more frame in a well-formed queue.\<close>

definition add_frame :: "ircard \<Rightarrow> int \<Rightarrow> shm_queue" where
  "add_frame s n = (let q = tx_q s in
     q\<lparr>q_frames := (q_frames q)[nat (q_free q) := \<lparr>fc_start = q_tail q, fc_len = n\<rparr>],
       q_tail := q_tail q + n, q_len := q_len q + 1, q_free := q_free q + 1\<rparr>)"

lemma take_free_add:
  assumes "queue_wf s" and "q_free (tx_q s) < int MAX_WINDOW" and "tx_q t = add_frame s n"
  shows "take (nat (q_free (tx_q t))) (q_frames (tx_q t)) =
    take (nat (q_free (tx_q s))) (q_frames (tx_q s)) @ [\<lparr>fc_start = q_tail (tx_q s), fc_len = n\<rparr>]"
proof -
  obtain k where k: "q_free (tx_q s) = int k"
    using queue_wfD(4) [OF assms(1)] nonneg_int_cases by blast
  then have "k < length (q_frames (tx_q s))"
    using queue_wfD(1) [OF assms(1)] assms(2) by simp
  moreover have "nat (int k + 1) = Suc k"
    by simp
  ultimately show ?thesis
    using k assms(3) by (simp add: add_frame_def Let_def take_Suc_conv_app_nth)
qed

lemma queue_wf_add:
  assumes "queue_wf s" and "q_free (tx_q s) < int MAX_WINDOW" and "0 \<le> n" and "tx_q t = add_frame s n" and "membase t = membase s"
    and "q_tail (tx_q s) + n \<le> membase s + 0x8000"
  shows "queue_wf t"
proof -
  have "laid (SHMEM_TX_START + membase s) (take (nat (q_free (tx_q s))) (q_frames (tx_q s))) (q_tail (tx_q s))"
    using assms(1) unfolding queue_wf_def Let_def by blast
  moreover have "q_tail (tx_q t) = q_tail (tx_q s) + n"
    by (simp add: assms(4) add_frame_def Let_def)
  ultimately have "laid (SHMEM_TX_START + membase s) (take (nat (q_free (tx_q t))) (q_frames (tx_q t))) (q_tail (tx_q t))"
    unfolding take_free_add [OF assms(1,2,4)] using assms(3) by (simp add: laid_append)
  then show ?thesis
    using assms(1,2,4-6) unfolding queue_wf_def Let_def by (simp add: add_frame_def Let_def)
qed

lemma pending_add:
  assumes "queue_wf s" and "q_free (tx_q s) < int MAX_WINDOW" and "0 \<le> q_len (tx_q s)" and "tx_q t = add_frame s n"
  shows "pending t = pending s @ [\<lparr>fc_start = q_tail (tx_q s), fc_len = n\<rparr>]"
proof -
  have "nat (q_ptr (tx_q s)) \<le> length (take (nat (q_free (tx_q s))) (q_frames (tx_q s)))"
    using assms(1,3) unfolding queue_wf_def Let_def by auto
  moreover have "q_ptr (tx_q t) = q_ptr (tx_q s)"
    by (simp add: assms(4) add_frame_def Let_def)
  ultimately show ?thesis
    unfolding pending_def take_free_add [OF assms(1,2,4)] by simp
qed

lemma outgoing_add:
  assumes "queue_wf s" and "q_free (tx_q s) < int MAX_WINDOW" and "0 \<le> q_len (tx_q s)"
    and "tx_q t = add_frame s (int (length data))"
    and "shm_of m (card_acts t) = shm_act (Copy_to (q_tail (tx_q s)) data) (shm_of m (card_acts s))"
  shows "outgoing m t = outgoing m s @ [data]"
proof -
  have "fc_start f + fc_len f \<le> q_tail (tx_q s)" if "f \<in> set (pending s)" for f
    using assms(1) that unfolding queue_wf_def pending_def Let_def by (meson in_set_dropD laid_before)
  then show ?thesis
    unfolding outgoing_def pending_add [OF assms(1-4)] assms(5)
    by (simp add: frame_bytes_written frame_bytes_kept del: shm_act.simps)
qed

lemma pending_Nil_iff: "queue_wf s \<Longrightarrow> 0 \<le> q_len (tx_q s) \<Longrightarrow> pending s = [] \<longleftrightarrow> q_len (tx_q s) = 0"
  unfolding queue_wf_def pending_def Let_def by auto

text \<open>A frame given to the driver: copied behind the others, and sent at once if there are no others.\<close>

lemma hard_xmit_run:
  assumes K: "mcr_reads_back K r (iobase s)"
    and s: "queue_wf s" "tbusy s = 0" "0 \<le> q_len (tx_q s)" "q_free (tx_q s) < int MAX_WINDOW"
      "q_tail (tx_q s) + int (length data) \<le> membase s + 0x8000"
    and Q: "\<And>t. queue_wf t \<Longrightarrow> tbusy t = 0 \<Longrightarrow> iobase t = iobase s \<Longrightarrow> membase t = membase s \<Longrightarrow>
      tx_q t = add_frame s (int (length data)) \<Longrightarrow> outgoing m t = outgoing m s @ [data] \<Longrightarrow>
      chip_of r (iobase s) (card_acts t) = (let c = chip_switch 0 (chip_of r (iobase s) (card_acts s)) in
        if q_len (tx_q s) = 0 then transmit_chip (q_tail (tx_q s) - membase s) (int (length data)) c else c) \<Longrightarrow> Q 0 t"
  shows "wp (ircard_hard_xmit K data) Q E s"
proof -
  define k where "k = nat (q_free (tx_q s))"
  have k: "q_free (tx_q s) = int k" "k < 8" "length (q_frames (tx_q s)) = 8" "membase s \<le> q_tail (tx_q s)" "k < length (q_frames (tx_q s))"
    using s laid_le unfolding queue_wf_def Let_def k_def by force+
  let ?c = "chip_switch 0 (chip_of r (iobase s) (card_acts s))"
  have fin: "Q 0 t" if t: "tx_q t = add_frame s (int (length data))" "tbusy t = 0" "iobase t = iobase s" "membase t = membase s"
    "copies (card_acts t) = copies (card_acts s) @ [Copy_to (q_tail (tx_q s)) data]"
    "chip_of r (iobase s) (card_acts t) =
      (if q_len (tx_q s) = 0 then transmit_chip (q_tail (tx_q s) - membase s) (int (length data)) ?c else ?c)" for t
  proof (rule Q)
    show "queue_wf t"
      by (rule queue_wf_add [OF s(1,4) _ t(1,4) s(5)]) simp
    show "outgoing m t = outgoing m s @ [data]"
      by (rule outgoing_add [OF s(1,4,3) t(1) shm_of_copies [OF t(5)]])
  qed (use t in \<open>simp_all add: Let_def\<close>)
  have ptr: "q_ptr (tx_q s) = int k" if "q_len (tx_q s) = 0"
    using s(1) k(1) that unfolding queue_wf_def Let_def by simp
  show ?thesis
    using s(2,5) k
    apply (simp add: ircard_hard_xmit_def chip_run Let_def put_queued_def queued_def wp_to_bank [OF K] del: append_assoc)
    apply (intro conjI impI)
    subgoal
      apply (rule mtt_delay_run [where r = r and base = "iobase s"])
      apply (rule dma_write_run [where r = r and f = "\<lparr>fc_start = q_tail (tx_q s), fc_len = int (length data)\<rparr>"])
      apply (simp_all add: K ptr chip_run del: append_assoc)
      apply (rule fin)
           apply (simp_all add: add_frame_def Let_def chip_run chip_switch_def del: append_assoc)
      done
    subgoal
      by (rule fin) (simp_all add: add_frame_def Let_def chip_run chip_switch_def del: append_assoc)
    done
qed

lemma queue_full_run:
  assumes K: "mcr_reads_back K r (iobase s)" and s: "tbusy s = 0" "q_free (tx_q s) = int MAX_WINDOW"
  shows "stops_with (ircard_hard_xmit K data) Bad_index s"
  by (rule stops_with_wp) (simp add: s ircard_hard_xmit_def chip_run Let_def put_queued_def wp_to_bank [OF K])

section \<open>A frame was sent\<close>

text \<open>The controller without the list of reads.\<close>

definition unread :: "chip \<Rightarrow> chip" where
  "unread c = c\<lparr>chip_reads := []\<rparr>"

lemma unread_chips:
  "unread (receive_chip c) = receive_chip (unread c)" "unread (transmit_chip a n c) = transmit_chip a n (unread c)"
  "chip_bank (unread c) = chip_bank c" "unread (chip_switch b c) = chip_switch b (unread c)"
  by (simp_all add: unread_def receive_chip_def transmit_chip_def chip_bank_def chip_switch_def)

lemma spin_eom_run:
  assumes "\<And>h rs. chip_of r base h = (chip_of r base (card_acts s))\<lparr>chip_reads := rs\<rparr> \<Longrightarrow> copies h = copies (card_acts s) \<Longrightarrow>
      Q () (s\<lparr>card_acts := h\<rparr>)"
  shows "wp (spin_eom K base stat left) Q E s"
  using assms
proof (induction left arbitrary: stat s)
  case 0
  then show ?case
    using "0.prems" [of "card_acts s" "chip_reads (chip_of r base (card_acts s))"] by (simp add: wp_simps)
next
  case (Suc left)
  have "Q () s"
    using Suc.prems [of "card_acts s" "chip_reads (chip_of r base (card_acts s))"] by simp
  moreover have "wp (spin_eom K base v left) Q E (s\<lparr>card_acts := card_acts s @ [Inb (base + TX_STAT)]\<rparr>)" for v
  proof (rule Suc.IH)
    fix h rs
    assume "chip_of r base h = (chip_of r base (card_acts (s\<lparr>card_acts := card_acts s @ [Inb (base + TX_STAT)]\<rparr>)))\<lparr>chip_reads := rs\<rparr>"
      and "copies h = copies (card_acts (s\<lparr>card_acts := card_acts s @ [Inb (base + TX_STAT)]\<rparr>))"
    then show "Q () (s\<lparr>card_acts := card_acts s @ [Inb (base + TX_STAT)], card_acts := h\<rparr>)"
      using Suc.prems [of h rs] by (simp add: chip_run)
  qed
  ultimately show ?case
    by (simp add: chip_run)
qed

text \<open>What the completion reads and counts before it goes on changes no other part of the state.\<close>

definition same_card :: "ircard \<Rightarrow> ircard \<Rightarrow> bool" where
  "same_card s t \<longleftrightarrow> tx_q t = tx_q s \<and> iobase t = iobase s \<and> membase t = membase s \<and> baudrate t = baudrate s \<and>
     copies (card_acts t) = copies (card_acts s)"

lemma tx_status_run:
  assumes "\<And>t rs. same_card s t \<Longrightarrow> chip_of r base (card_acts t) = (chip_of r base (card_acts s))\<lparr>chip_reads := rs\<rparr> \<Longrightarrow> Q () t"
  shows "wp (bnd (c_inb K (base + TX_STAT)) (\<lambda>stat.
        if stat AND TX_STAT_FIFO_UNDR \<noteq> 0 then
          modify (\<lambda>s. s\<lparr>tx_errors := tx_errors s + 1, tx_fifo_errors := tx_fifo_errors s + 1\<rparr>)
        else thn (spin_eom K base stat 1001)
          (modify (\<lambda>s. s\<lparr>tx_packets := tx_packets s + 1, tx_bytes := tx_bytes s + tx_buff_len s\<rparr>)))) Q E s"
  apply (simp add: chip_run)
  apply (intro conjI impI)
  subgoal
    by (rule assms) (simp_all add: same_card_def chip_run)
  subgoal
    by (rule spin_eom_run [where r = r and base = base]) (simp add: chip_run, rule assms, simp_all add: same_card_def chip_run)
  done

text \<open>The controller when a frame was sent; the writes go to the bank that was selected before.\<close>

definition sent_chip :: "chip \<Rightarrow> chip" where
  "sent_chip c = c\<lparr>chip_mcr := MCR_INTR_EN OR chip_bank c,
     chip_log := chip_log c @ [(chip_bank c, MISC, 0), (chip_bank c, RESET, RESET_TX_SPEC_BITS)]\<rparr>"

definition sent_queue :: "shm_queue \<Rightarrow> shm_queue" where
  "sent_queue q = q\<lparr>q_ptr := q_ptr q + 1, q_len := q_len q - 1\<rparr>"

lemma xmit_complete_run:
  assumes K: "mcr_reads_back K r (iobase s)"
    and Q: "\<And>t rs. same_card s t \<Longrightarrow> tbusy t = 0 \<Longrightarrow>
      chip_of r (iobase s) (card_acts t) = (sent_chip (chip_of r (iobase s) (card_acts s)))\<lparr>chip_reads := rs\<rparr> \<Longrightarrow>
      wp (next_frame K (iobase s)) (\<lambda>_. wp (kernel_call ''mark_bh'' []) Q E) E (t\<lparr>tx_q := sent_queue (tx_q s)\<rparr>)"
  shows "wp (ircard_xmit_complete K) Q E s"
  apply (simp only: ircard_xmit_complete_def wp_bnd wp_gets wp_switch [OF K] Let_def wp_seqs_Cons wp_seqs_Nil)
  apply (rule tx_status_run [unfolded wp_bnd, where r = r])
  subgoal for t rs
    apply (insert Q [of "t\<lparr>card_acts := ((card_acts t @ [Outb (MCR_INTR_EN OR chip_bank (chip_of r (iobase s) (card_acts s))) (iobase s)]) @
        [Outb 0 (iobase s + MISC)]) @ [Outb RESET_TX_SPEC_BITS (iobase s + RESET)], tbusy := 0, media_busy := False\<rparr>" rs])
    apply (simp add: chip_run same_card_def sent_queue_def sent_chip_def del: append_assoc)
    done
  done

lemma pending_sent:
  assumes "0 \<le> q_ptr (tx_q s)" and "tx_q t = sent_queue (tx_q s)"
  shows "pending t = tl (pending s)"
proof -
  have "nat (q_ptr (tx_q s) + 1) = Suc (nat (q_ptr (tx_q s)))"
    using assms(1) by simp
  then show ?thesis
    by (simp add: pending_def assms(2) sent_queue_def drop_Suc tl_drop)
qed

lemma queue_same:
  assumes "tx_q v = tx_q u" and "membase v = membase u"
  shows "queue_wf v = queue_wf u" and "pending v = pending u"
  by (simp_all add: assms queue_wf_def pending_def)

lemma outgoing_copies: "pending t = tl (pending s) \<Longrightarrow> copies (card_acts t) = copies (card_acts s) \<Longrightarrow> outgoing m t = tl (outgoing m s)"
  by (simp add: outgoing_def shm_of_def map_tl)

lemma queue_wf_sent:
  assumes "queue_wf s" and "0 < q_len (tx_q s)" and "tx_q t = sent_queue (tx_q s)" and "membase t = membase s"
  shows "queue_wf t"
  using assms unfolding queue_wf_def Let_def by (simp add: sent_queue_def)

lemma queue_wf_reset:
  assumes "queue_wf s" and "tx_q t = reset_queue (membase t) q" and "q_frames q = q_frames (tx_q s)"
  shows "queue_wf t"
  using assms unfolding queue_wf_def Let_def by (simp add: reset_queue_def)

lemma pending_head:
  assumes "queue_wf s" and "pending s \<noteq> []"
  shows "0 \<le> q_ptr (tx_q s)" and "q_ptr (tx_q s) < int MAX_WINDOW" and "hd (pending s) = q_frames (tx_q s) ! nat (q_ptr (tx_q s))"
proof -
  from assms have "0 \<le> q_ptr (tx_q s)" "nat (q_ptr (tx_q s)) < nat (q_free (tx_q s))" "q_free (tx_q s) \<le> int MAX_WINDOW"
    "length (q_frames (tx_q s)) = MAX_WINDOW"
    unfolding queue_wf_def pending_def Let_def by auto
  then show "0 \<le> q_ptr (tx_q s)" "q_ptr (tx_q s) < int MAX_WINDOW" "hd (pending s) = q_frames (tx_q s) ! nat (q_ptr (tx_q s))"
    by (auto simp: pending_def hd_drop_conv_nth)
qed

definition sends_head :: "byte \<Rightarrow> ircard \<Rightarrow> chip \<Rightarrow> ircard \<Rightarrow> bool" where
  "sends_head r s c t \<longleftrightarrow> (case pending t of [] \<Rightarrow> True
     | f # fs \<Rightarrow> unread (chip_of r (iobase s) (card_acts t)) = transmit_chip (fc_start f - membase s) (fc_len f) (unread c))"

text \<open>A frame is done: the queue loses its head, and the next frame is sent.\<close>

lemma xmit_complete_sends:
  assumes K: "mcr_reads_back K r (iobase s)" and s: "queue_wf s" "0 < q_len (tx_q s)"
  shows "wp (ircard_xmit_complete K) (\<lambda>_ t. queue_wf t \<and> tbusy t = 0 \<and> iobase t = iobase s \<and> membase t = membase s \<and>
      baudrate t = baudrate s \<and> q_len (tx_q t) = q_len (tx_q s) - 1 \<and>
      q_free (tx_q t) \<le> q_free (tx_q s) \<and> q_tail (tx_q t) \<le> q_tail (tx_q s) \<and> ((\<forall>h. c_int K h = 0) \<longrightarrow> q_free (tx_q t) = q_free (tx_q s)) \<and> pending t = tl (pending s) \<and>
      outgoing m t = tl (outgoing m s) \<and> sends_head r s (sent_chip (chip_of r (iobase s) (card_acts s))) t) never s"
proof -
  define c where "c = sent_chip (chip_of r (iobase s) (card_acts s))"
  define P where "P = (\<lambda>(_ :: unit) t. queue_wf t \<and> tbusy t = 0 \<and> iobase t = iobase s \<and> membase t = membase s \<and>
      baudrate t = baudrate s \<and> q_len (tx_q t) = q_len (tx_q s) - 1 \<and>
      q_free (tx_q t) \<le> q_free (tx_q s) \<and> q_tail (tx_q t) \<le> q_tail (tx_q s) \<and> ((\<forall>h. c_int K h = 0) \<longrightarrow> q_free (tx_q t) = q_free (tx_q s)) \<and> pending t = tl (pending s) \<and> outgoing m t = tl (outgoing m s) \<and> sends_head r s c t)"
  have "wp (ircard_xmit_complete K) P never s"
  proof (rule xmit_complete_run [OF K])
    fix t :: ircard and rs
    assume same: "same_card s t" and t: "tbusy t = 0"
      and chip: "chip_of r (iobase s) (card_acts t) = (sent_chip (chip_of r (iobase s) (card_acts s)))\<lparr>chip_reads := rs\<rparr>"
    define u where "u = t\<lparr>tx_q := sent_queue (tx_q s)\<rparr>"
    have u: "iobase u = iobase s" "membase u = membase s" "baudrate u = baudrate s" "tbusy u = 0" "tx_q u = sent_queue (tx_q s)"
      "copies (card_acts u) = copies (card_acts s)" "chip_of r (iobase s) (card_acts u) = c\<lparr>chip_reads := rs\<rparr>"
      using same t chip by (simp_all add: u_def same_card_def c_def)
    have wf: "queue_wf u" and pend: "pending u = tl (pending s)"
      using queue_wf_sent [OF s u(5,2)] pending_sent [of s u] s(1) u(5) by (auto simp: queue_wf_def Let_def)
    have len: "q_len (tx_q u) = q_len (tx_q s) - 1"
      by (simp add: u(5) sent_queue_def)
    have nil: "pending u = [] \<longleftrightarrow> q_len (tx_q u) = 0"
      using pending_Nil_iff [OF wf] len s(2) by simp
    have room: "0 \<le> q_free (tx_q s)" "SHMEM_TX_START + membase s \<le> q_tail (tx_q s)"
      using queue_wfD [OF s(1)] by simp_all
    have PI: "P x v" if "queue_wf v" "q_len (tx_q v) = q_len (tx_q u)"
      "q_free (tx_q v) \<le> q_free (tx_q s)" "q_tail (tx_q v) \<le> q_tail (tx_q s)"
      "(\<forall>h. c_int K h = 0) \<longrightarrow> q_free (tx_q v) = q_free (tx_q s)" "pending v = pending u"
      "iobase v = iobase u" "membase v = membase u" "baudrate v = baudrate u" "tbusy v = 0"
      "copies (card_acts v) = copies (card_acts u)" "sends_head r s c v" for v x
      using that pend u len outgoing_copies [of v s] by (simp add: P_def)
    show "wp (next_frame K (iobase s)) (\<lambda>_. wp (kernel_call ''mark_bh'' []) P never) never (t\<lparr>tx_q := sent_queue (tx_q s)\<rparr>)"
    proof (cases "q_len (tx_q u) = 0")
      case False
      then have ne: "pending u \<noteq> []"
        using nil by simp
      then obtain f fs where f: "pending u = f # fs"
        by (cases "pending u") simp_all
      have P_sent: "P x v" if "tx_q v = tx_q u" "iobase v = iobase u" "membase v = membase u" "baudrate v = baudrate u"
        "tbusy v = 0" "copies (card_acts v) = copies (card_acts u)"
        "chip_of r (iobase s) (card_acts v) = transmit_chip (fc_start f - membase u) (fc_len f) (chip_of r (iobase s) (card_acts u))"
        for v x
      proof (rule PI)
        show "sends_head r s c v"
          using that(7) by (simp add: sends_head_def queue_same(2) [OF that(1,3)] f u unread_chips) (simp add: unread_def)
      qed (use that wf in \<open>simp_all add: queue_same [OF that(1,3)] u(5) sent_queue_def\<close>)
      show ?thesis
        using False unfolding u_def [symmetric] next_frame_def
        apply (simp add: wp_simps)
        apply (rule dma_write_run [OF K pending_head(1,2) [OF wf ne] pending_head(3) [OF wf ne, symmetric]])
        apply (simp only: access_wp)
        apply (rule P_sent)
              apply (simp_all add: chip_simps f u)
        done
    next
      case True
      then have "pending u = []"
        using nil by simp
      have P_idle: "P x v" if "pending v = []" "queue_wf v" "q_len (tx_q v) = 0"
        "q_free (tx_q v) \<le> q_free (tx_q s)" "q_tail (tx_q v) \<le> q_tail (tx_q s)"
        "(\<forall>h. c_int K h = 0) \<longrightarrow> q_free (tx_q v) = q_free (tx_q s)" "iobase v = iobase u" "membase v = membase u"
        "baudrate v = baudrate u" "tbusy v = 0" "copies (card_acts v) = copies (card_acts u)" for v x
        by (rule PI) (use that True \<open>pending u = []\<close> in \<open>simp_all add: sends_head_def\<close>)
      show ?thesis
        using True unfolding u_def [symmetric] next_frame_def
        apply (simp add: chip_run del: append_assoc)
        apply (intro conjI impI)
        subgoal
          apply (rule receive_run [OF K])
          apply (simp only: access_wp)
          apply (rule P_idle)
                 apply (use room in \<open>simp_all add: u pending_def reset_queue_def chip_simps del: append_assoc\<close>)
          by (rule queue_wf_reset [OF wf, where q = "tx_q u"]) (simp_all add: reset_queue_def u, blast)
        subgoal
          by (rule P_idle) (simp_all add: chip_simps queue_same [of _ u] u(4,5) sent_queue_def wf \<open>pending u = []\<close> del: append_assoc)
        done
    qed
  qed
  then show ?thesis
    by (simp add: P_def c_def)
qed

section \<open>Frames in order\<close>

text \<open>
  What a queue of frames promises: a frame that fits is added at the end, a completed one is taken from the front. A
  sequence of steps, frames to add (\<open>Some\<close>) and completions (\<open>None\<close>), is then a run of a list.
\<close>

fun fifo_run :: "'d option list \<Rightarrow> 'd list \<Rightarrow> 'd list" where
  "fifo_run [] xs = xs"
| "fifo_run (Some d # os) xs = fifo_run os (xs @ [d])"
| "fifo_run (None # os) xs = fifo_run os (tl xs)"

fun proper :: "'d option list \<Rightarrow> 'd list \<Rightarrow> bool" where
  "proper [] xs \<longleftrightarrow> True"
| "proper (Some d # os) xs \<longleftrightarrow> proper os (xs @ [d])"
| "proper (None # os) xs \<longleftrightarrow> xs \<noteq> [] \<and> proper os (tl xs)"

fun added :: "'d option list \<Rightarrow> 'd list" where
  "added [] = []"
| "added (Some d # os) = d # added os"
| "added (None # os) = added os"

definition fifo_step :: "('d \<Rightarrow> ('s, unit) cm) \<Rightarrow> ('s, unit) cm \<Rightarrow> 'd option \<Rightarrow> ('s, unit) cm" where
  "fifo_step put sent o' = (case o' of None \<Rightarrow> sent | Some d \<Rightarrow> put d)"

locale frame_fifo =
  fixes ok :: "'s \<Rightarrow> bool" and contents :: "'s \<Rightarrow> 'd list" and fits :: "'s \<Rightarrow> 'd list \<Rightarrow> bool"
    and put :: "'d \<Rightarrow> ('s, unit) cm" and sent :: "('s, unit) cm"
  assumes put_law: "ok s \<Longrightarrow> fits s (d # ds) \<Longrightarrow> wp (put d) (\<lambda>_ t. ok t \<and> contents t = contents s @ [d] \<and> fits t ds) never s"
    and sent_law: "ok s \<Longrightarrow> contents s \<noteq> [] \<Longrightarrow> fits s ds \<Longrightarrow> wp sent (\<lambda>_ t. ok t \<and> contents t = tl (contents s) \<and> fits t ds) never s"
begin

lemma steps:
  assumes "ok s" and "proper os (contents s)" and "fits s (added os)"
  shows "wp (seqs (map (fifo_step put sent) os)) (\<lambda>_ t. ok t \<and> contents t = fifo_run os (contents s)) never s"
  using assms
proof (induction os arbitrary: s)
  case Nil
  then show ?case by (simp add: wp_seqs_Nil)
next
  case (Cons o' os)
  have "wp (fifo_step put sent o') (\<lambda>_ t. ok t \<and> contents t = (case o' of None \<Rightarrow> tl (contents s) | Some d \<Rightarrow> contents s @ [d]) \<and>
      fits t (added os)) never s"
    using Cons.prems by (cases o') (auto simp: fifo_step_def put_law sent_law)
  then show ?case
    unfolding list.map wp_seqs_Cons
  proof (rule wp_weaken)
    fix a t
    assume t: "ok t \<and> contents t = (case o' of None \<Rightarrow> tl (contents s) | Some d \<Rightarrow> contents s @ [d]) \<and> fits t (added os)"
    have "wp (seqs (map (fifo_step put sent) os)) (\<lambda>_ u. ok u \<and> contents u = fifo_run os (contents t)) never t"
      by (rule Cons.IH) (use t Cons.prems(2) in \<open>auto split: option.splits\<close>)
    then show "wp (seqs (map (fifo_step put sent) os)) (\<lambda>_ u. ok u \<and> contents u = fifo_run (o' # os) (contents s)) never t"
      using t by (cases o') simp_all
  qed
qed

end

text \<open>The frame the DMA registers of the controller name, and its bytes.\<close>

definition reg_value :: "(byte \<times> int \<times> byte) list \<Rightarrow> byte \<Rightarrow> int \<Rightarrow> byte" where
  "reg_value log bank off = fold (\<lambda>(b, f, v) x. if b = bank \<and> f = off then v else x) log 0"

definition dma_frame :: "byte \<Rightarrow> ircard \<Rightarrow> frame_cb" where
  "dma_frame r s = (let log = chip_log (chip_of r (iobase s) (card_acts s)) in
     \<lparr>fc_start = membase s + (uint (reg_value log 3 TX_DMA_ADDR_HIGH) * 256 + uint (reg_value log 3 TX_DMA_ADDR_LOW)),
      fc_len = uint (reg_value log 1 TX_BYTE_COUNT_HIGH) * 256 + uint (reg_value log 1 TX_BYTE_COUNT_LOW)\<rparr>)"

definition on_air :: "(int \<Rightarrow> byte) \<Rightarrow> byte \<Rightarrow> ircard \<Rightarrow> byte list" where
  "on_air m r s = frame_bytes (shm_of m (card_acts s)) (dma_frame r s)"

lemma chip_log_unread [simp]: "chip_log (unread c) = chip_log c"
  by (simp add: unread_def)

lemma dma_frame_transmit:
  assumes "chip_log (chip_of r (iobase s) (card_acts s)) = chip_log (transmit_chip (fc_start f - membase s) (fc_len f) c)"
    and "SHMEM_TX_START + membase s \<le> fc_start f" and "fc_start f < membase s + 0x8000" and "0 \<le> fc_len f" and "fc_len f < 0x2000"
  shows "dma_frame r s = f"
  using dma_address_bytes [of "fc_start f - membase s"] byte_count_bytes [OF assms(4,5)] assms(2,3)
  by (simp add: dma_frame_def assms(1) transmit_chip_def reg_value_def)

text \<open>The driver between two steps: the queue is in order, and the controller sends its head.\<close>

definition card_ready :: "card_system \<Rightarrow> byte \<Rightarrow> ircard \<Rightarrow> bool" where
  "card_ready K r s \<longleftrightarrow> queue_wf s \<and> tbusy s = 0 \<and> 0 \<le> q_len (tx_q s) \<and> q_tail (tx_q s) \<le> membase s + 0x8000 \<and>
     list_all (\<lambda>f. 0 < fc_len f \<and> fc_len f < 0x2000) (pending s) \<and>
     (pending s \<noteq> [] \<longrightarrow> dma_frame r s = hd (pending s)) \<and> mcr_reads_back K r (iobase s)"

definition card_fits :: "ircard \<Rightarrow> byte list list \<Rightarrow> bool" where
  "card_fits s ds \<longleftrightarrow> q_free (tx_q s) + int (length ds) \<le> int MAX_WINDOW \<and>
     list_all (\<lambda>d. d \<noteq> [] \<and> length d < 0x2000) ds \<and>
     q_tail (tx_q s) + int (length (concat ds)) \<le> membase s + 0x8000"

lemma pending_bounds:
  assumes "queue_wf s" and "f \<in> set (pending s)"
  shows "SHMEM_TX_START + membase s \<le> fc_start f" and "fc_start f + fc_len f \<le> q_tail (tx_q s)"
  using assms unfolding queue_wf_def pending_def Let_def by (meson in_set_dropD laid_before)+

lemma card_put:
  assumes s: "card_ready K r s" and "card_fits s (d # ds)"
  shows "wp (ignore (ircard_hard_xmit K d)) (\<lambda>_ t. card_ready K r t \<and> outgoing m t = outgoing m s @ [d] \<and> card_fits t ds \<and>
    q_free (tx_q t) = q_free (tx_q s) + 1) never s"
  unfolding wp_ignore
proof (rule hard_xmit_run [where r = r and m = m])
  fix t :: ircard
  assume q: "tx_q t = add_frame s (int (length d))" and t: "queue_wf t" "tbusy t = 0" "iobase t = iobase s" "membase t = membase s"
    and out: "outgoing m t = outgoing m s @ [d]"
    and chip: "chip_of r (iobase s) (card_acts t) = (let c = chip_switch 0 (chip_of r (iobase s) (card_acts s)) in
        if q_len (tx_q s) = 0 then transmit_chip (q_tail (tx_q s) - membase s) (int (length d)) c else c)"
  have pend: "pending t = pending s @ [\<lparr>fc_start = q_tail (tx_q s), fc_len = int (length d)\<rparr>]"
    by (rule pending_add) (use assms q in \<open>auto simp: card_ready_def card_fits_def\<close>)
  have nil: "pending s = [] \<longleftrightarrow> q_len (tx_q s) = 0"
    using s by (auto simp: card_ready_def pending_Nil_iff)
  have d: "0 < int (length d)"
    using assms(2) by (simp add: card_fits_def)
  have "q_tail (tx_q s) + int (length d) \<le> membase s + 0x8000"
    using assms(2) by (simp add: card_fits_def)
  then have lim: "q_tail (tx_q s) < membase s + 0x8000"
    using d by linarith
  have "dma_frame r t = hd (pending t)"
  proof (cases "q_len (tx_q s) = 0")
    case True
    have "SHMEM_TX_START + membase s \<le> q_tail (tx_q s)"
      using s laid_le unfolding card_ready_def queue_wf_def Let_def by blast
    then have "dma_frame r t = \<lparr>fc_start = q_tail (tx_q s), fc_len = int (length d)\<rparr>"
      using lim assms(2) by (intro dma_frame_transmit) (auto simp: t chip True card_fits_def)
    then show ?thesis
      using True nil pend by simp
  next
    case False
    then have "dma_frame r t = dma_frame r s"
      by (simp add: dma_frame_def t chip chip_switch_def)
    then show ?thesis
      using False nil pend s by (simp add: card_ready_def)
  qed
  then show "card_ready K r t \<and> outgoing m t = outgoing m s @ [d] \<and> card_fits t ds \<and> q_free (tx_q t) = q_free (tx_q s) + 1"
    using assms q t out pend by (simp add: card_ready_def card_fits_def add_frame_def Let_def)
qed (use assms in \<open>auto simp: card_ready_def card_fits_def\<close>)

lemma card_sent:
  assumes s: "card_ready K r s" and "outgoing m s \<noteq> []" and "card_fits s ds"
  shows "wp (ircard_xmit_complete K) (\<lambda>_ t. card_ready K r t \<and> outgoing m t = tl (outgoing m s) \<and> card_fits t ds \<and>
    ((\<forall>h. c_int K h = 0) \<longrightarrow> q_free (tx_q t) = q_free (tx_q s))) never s"
proof -
  have len: "0 < q_len (tx_q s)" and K: "mcr_reads_back K r (iobase s)" and wf: "queue_wf s"
    using assms pending_Nil_iff [of s] by (auto simp: card_ready_def outgoing_def)
  show ?thesis
  proof (rule wp_weaken [OF xmit_complete_sends [OF K wf len, of m]])
    fix a :: unit and t :: ircard
    assume p: "queue_wf t \<and> tbusy t = 0 \<and> iobase t = iobase s \<and> membase t = membase s \<and>
      baudrate t = baudrate s \<and> q_len (tx_q t) = q_len (tx_q s) - 1 \<and>
      q_free (tx_q t) \<le> q_free (tx_q s) \<and> q_tail (tx_q t) \<le> q_tail (tx_q s) \<and> ((\<forall>h. c_int K h = 0) \<longrightarrow> q_free (tx_q t) = q_free (tx_q s)) \<and> pending t = tl (pending s) \<and>
      outgoing m t = tl (outgoing m s) \<and> sends_head r s (sent_chip (chip_of r (iobase s) (card_acts s))) t"
    have t: "queue_wf t" "membase t = membase s" "iobase t = iobase s" "pending t = tl (pending s)" "q_tail (tx_q t) \<le> q_tail (tx_q s)"
      using p by simp_all
    have "set (tl (pending s)) \<subseteq> set (pending s)"
      by (cases "pending s") auto
    then have lens: "list_all (\<lambda>f. 0 < fc_len f \<and> fc_len f < 0x2000) (pending t)"
      using s t(4) by (auto simp: card_ready_def list_all_iff)
    have "dma_frame r t = hd (pending t)" if ne: "pending t \<noteq> []"
    proof -
      obtain f fs where f: "pending t = f # fs"
        using ne by (cases "pending t") simp_all
      have "sends_head r s (sent_chip (chip_of r (iobase s) (card_acts s))) t"
        using p by blast
      then have "unread (chip_of r (iobase s) (card_acts t)) =
          transmit_chip (fc_start f - membase s) (fc_len f) (unread (sent_chip (chip_of r (iobase s) (card_acts s))))"
        by (simp only: sends_head_def f list.case)
      then have "chip_log (chip_of r (iobase t) (card_acts t)) =
          chip_log (transmit_chip (fc_start f - membase t) (fc_len f) (unread (sent_chip (chip_of r (iobase s) (card_acts s)))))"
        unfolding t by (metis chip_log_unread)
      then have "dma_frame r t = f"
        using pending_bounds [OF t(1), of f] lens s t(2,5) f by (intro dma_frame_transmit) (auto simp: card_ready_def)
      then show ?thesis
        by (simp add: f)
    qed
    then show "card_ready K r t \<and> outgoing m t = tl (outgoing m s) \<and> card_fits t ds \<and>
        ((\<forall>h. c_int K h = 0) \<longrightarrow> q_free (tx_q t) = q_free (tx_q s))"
      using assms p t(5) lens len by (simp add: card_ready_def card_fits_def)
  qed
qed

interpretation card_frames: frame_fifo "card_ready K r" "outgoing m" card_fits "\<lambda>d. ignore (ircard_hard_xmit K d)" "ircard_xmit_complete K"
  for K r m
  by unfold_locales (auto intro: wp_weaken [OF card_put] wp_weaken [OF card_sent])

lemma head_on_air:
  assumes "card_ready K r s" and "outgoing m s \<noteq> []"
  shows "on_air m r s = hd (outgoing m s)"
  using assms by (cases "pending s") (simp_all add: card_ready_def outgoing_def on_air_def)


text \<open>A frame sent before the next one comes: the slots are used up when the network layer always has more.\<close>

lemma one_at_a_time:
  assumes "card_ready K r s" and "outgoing m s = []" and "card_fits s ds" and K: "\<forall>h. c_int K h = 0"
  shows "wp (seqs (concat (map (\<lambda>d. [ignore (ircard_hard_xmit K d), ircard_xmit_complete K]) ds)))
    (\<lambda>_ t. card_ready K r t \<and> outgoing m t = [] \<and> q_free (tx_q t) = q_free (tx_q s) + int (length ds)) never s"
  using assms(1-3)
proof (induction ds arbitrary: s)
  case Nil
  then show ?case by (simp add: wp_seqs_Nil)
next
  case (Cons d ds)
  have sent: "wp (seqs (ircard_xmit_complete K # concat (map (\<lambda>d. [ignore (ircard_hard_xmit K d), ircard_xmit_complete K]) ds)))
      (\<lambda>_ u. card_ready K r u \<and> outgoing m u = [] \<and> q_free (tx_q u) = q_free (tx_q s) + int (length (d # ds))) never t"
    if t: "card_ready K r t" "outgoing m t = [d]" "card_fits t ds" "q_free (tx_q t) = q_free (tx_q s) + 1" for t
    unfolding wp_seqs_Cons
  proof (rule wp_weaken [OF card_sent [OF t(1) _ t(3), of m]])
    fix a :: unit and u
    assume "card_ready K r u \<and> outgoing m u = tl (outgoing m t) \<and> card_fits u ds \<and>
      ((\<forall>h. c_int K h = 0) \<longrightarrow> q_free (tx_q u) = q_free (tx_q t))"
    then have u: "card_ready K r u" "outgoing m u = []" "card_fits u ds" "q_free (tx_q u) = q_free (tx_q s) + 1"
      using K t by simp_all
    show "wp (seqs (concat (map (\<lambda>d. [ignore (ircard_hard_xmit K d), ircard_xmit_complete K]) ds)))
      (\<lambda>_ v. card_ready K r v \<and> outgoing m v = [] \<and> q_free (tx_q v) = q_free (tx_q s) + int (length (d # ds))) never u"
      by (rule wp_weaken [OF Cons.IH [OF u(1-3)]]) (use u(4) in simp)
  qed (simp add: t(2))
  show ?case
    unfolding list.map concat.simps append_Cons append_Nil
    by (subst wp_seqs_Cons, rule wp_weaken [OF card_put [OF Cons.prems(1,3), of m]], rule sent)
      (use Cons.prems(2) in simp_all)
qed

section \<open>Properties\<close>

text \<open>A controller at port 0x100 whose control register reads back, with a network layer that always has one more frame.\<close>

definition listening_card :: card_system where
  "listening_card = \<lparr>c_in = (\<lambda>h. if last h = Inb 0x100 then chip_mcr (chip_of 0 0x100 (butlast h)) else 4),
     c_read = (\<lambda>_. []), c_int = (\<lambda>_. 0), c_time = (\<lambda>_. (0, 0))\<rparr>"

definition fresh_card :: ircard where
  "fresh_card = \<lparr>tx_q = \<lparr>q_frames = replicate 8 \<lparr>fc_start = 0, fc_len = 0\<rparr>, q_ptr = 0, q_len = 0, q_free = 0, q_tail = 0xd4000\<rparr>,
     rx_data = 0, rx_stamp = (0, 0), baudrate = 4000000, io_direction = IO_RECV, iobase = 0x100, iobase2 = 0xf8, membase = 0xd0000,
     hard_start_xmit = Ircard_hard_xmit, tbusy = 0, media_busy = False, in_interrupt = False, tx_packets = 0, tx_bytes = 0,
     tx_buff_len = 0, tx_errors = 0, tx_fifo_errors = 0, rx_packets = 0, rx_errors = 0, rx_frame_errors = 0, rx_fifo_errors = 0,
     rx_outside_frame = True, card_acts = []\<rparr>"

lemma listening_card_reads [simp]: "mcr_reads_back listening_card 0 0x100"
  by (simp add: mcr_reads_back_def listening_card_def)

lemma fresh_card_ready [simp]: "card_ready listening_card 0 fresh_card" "outgoing m fresh_card = []"
  by (simp_all add: card_ready_def queue_wf_def pending_def outgoing_def fresh_card_def Let_def)

text \<open>
  C12. Frames handed to \<open>ircard_hard_xmit\<close> and completion interrupts in any order, with at most eight frames and no more bytes
  than the window holds: nothing stops, the frames in the shared memory leave first in first out, and what the DMA registers
  of the controller name are the bytes of the first of them.
\<close>

theorem frames_leave_in_order:
  assumes "card_ready K r s" and "proper os (outgoing m s)" and "card_fits s (added os)"
  shows "wp (seqs (map (fifo_step (\<lambda>d. ignore (ircard_hard_xmit K d)) (ircard_xmit_complete K)) os))
    (\<lambda>_ t. outgoing m t = fifo_run os (outgoing m s) \<and> (outgoing m t \<noteq> [] \<longrightarrow> on_air m r t = hd (outgoing m t))) never s"
proof (rule wp_weaken [OF card_frames.steps [OF assms]])
  fix a :: unit and t
  assume "card_ready K r t \<and> outgoing m t = fifo_run os (outgoing m s)"
  then show "outgoing m t = fifo_run os (outgoing m s) \<and> (outgoing m t \<noteq> [] \<longrightarrow> on_air m r t = hd (outgoing m t))"
    using head_on_air [of K r t m] by blast
qed

lemma frames_leave_in_order_witness:
  "wp (seqs (map (fifo_step (\<lambda>d. ignore (ircard_hard_xmit listening_card d)) (ircard_xmit_complete listening_card))
      [Some [1, 2], Some [3, 4, 5], None, Some [6]]))
    (\<lambda>_ t. outgoing (\<lambda>_. 0) t = [[3, 4, 5], [6]] \<and> on_air (\<lambda>_. 0) 0 t = [3, 4, 5]) never fresh_card"
proof (rule wp_weaken [OF frames_leave_in_order [where r = 0 and m = "\<lambda>_. 0"]])
  show "card_fits fresh_card (added [Some [1, 2], Some [3, 4, 5], None, Some [6]])"
    by (simp add: card_fits_def fresh_card_def)
qed simp_all

text \<open>
  C13. The slots of \<open>tx_q.queue\<close> are used again only after the driver went back to receiving. While the network layer always
  has another frame, eight frames sent one at a time use them up: the ninth, with nothing left to send, is written outside the
  array.
\<close>

theorem ninth_frame_outside:
  assumes "card_ready K r s" and "outgoing m s = []" and "q_free (tx_q s) = 0" and "card_fits s ds" and "length ds = 8"
    and "\<forall>h. c_int K h = 0"
  shows "wp (seqs (concat (map (\<lambda>d. [ignore (ircard_hard_xmit K d), ircard_xmit_complete K]) ds)))
    (\<lambda>_ t. outgoing m t = [] \<and> stops_with (ircard_hard_xmit K d) Bad_index t) never s"
  by (rule wp_weaken [OF one_at_a_time [OF assms(1,2,4,6)]])
    (use assms(3,5) in \<open>auto intro!: queue_full_run simp: card_ready_def\<close>)

lemma ninth_frame_outside_witness:
  "wp (seqs (concat (map (\<lambda>d. [ignore (ircard_hard_xmit listening_card d), ircard_xmit_complete listening_card]) (replicate 8 [1]))))
    (\<lambda>_ t. outgoing (\<lambda>_. 0) t = [] \<and> stops_with (ircard_hard_xmit listening_card [2]) Bad_index t) never fresh_card"
proof (rule ninth_frame_outside [where r = 0])
  show "card_fits fresh_card (replicate 8 [1])"
    by (simp add: card_fits_def fresh_card_def numeral_eq_Suc)
qed (simp_all, simp_all add: fresh_card_def listening_card_def)

end
