(* ===== verification/Ircard_Receive.thy ===== *)
theory Ircard_Receive
  imports Ircard_Queue
begin

text \<open>
  Frames received by the card: the controller writes a frame, its checksum and its length into a ring at the start of the
  shared memory and tells where they end; \<open>ircard_receive_complete\<close> takes the frame out.
\<close>

section \<open>What the controller stored\<close>

definition stored :: "(int \<Rightarrow> byte) \<Rightarrow> int \<Rightarrow> byte list \<Rightarrow> bool" where
  "stored mem a l \<longleftrightarrow> map (\<lambda>i. mem (a + int i)) [0..<length l] = l"

text \<open>The length field: low byte, then five bits; the upper bits are the errors.\<close>

definition length_field :: "nat \<Rightarrow> byte list" where
  "length_field n = [low_byte (int n), high_byte (int n)]"

text \<open>
  A controller with given memory that tells the frame pointer in the registers 4 and 5 of bank 1, as \<open>ircard_cs.h\<close> has it; in
  another bank these are other registers, which may answer anything. The kernel has a buffer for every frame.
\<close>

definition received_by :: "card_system \<Rightarrow> byte \<Rightarrow> int \<Rightarrow> (int \<Rightarrow> byte) \<Rightarrow> int \<Rightarrow> bool" where
  "received_by K r base mem p \<longleftrightarrow> mcr_reads_back K r base \<and>
     (\<forall>h a. c_in K (h @ [Readb a]) = mem a) \<and>
     (\<forall>h. chip_bank (chip_of r base h) = 1 \<longrightarrow>
       c_in K (h @ [Inb (base + RX_RING_FRM_PTR_LOW)]) = low_byte p \<and> c_in K (h @ [Inb (base + RX_RING_FRM_PTR_HIGH)]) = high_byte p) \<and>
     (\<forall>h a n. c_read K (h @ [Copy_from a n]) = map (\<lambda>i. mem (a + int i)) [0..<nat n]) \<and>
     (\<forall>h n. c_int K (h @ [Kernel ''dev_alloc_skb'' [n]]) \<noteq> 0)"

lemma stored_append: "stored mem a (xs @ ys) \<longleftrightarrow> stored mem a xs \<and> stored mem (a + int (length xs)) ys"
proof -
  have *: "map (\<lambda>i. mem (a + int i)) [0..<length xs + n] =
      map (\<lambda>i. mem (a + int i)) [0..<length xs] @ map (\<lambda>i. mem (a + int (length xs) + int i)) [0..<n]" for n
    by (rule nth_equalityI) (auto simp: nth_append add.assoc)
  show ?thesis
    unfolding stored_def length_append * by (rule append_eq_append_conv) simp
qed

lemma stored_Cons: "stored mem a (x # xs) \<longleftrightarrow> mem a = x \<and> stored mem (a + 1) xs"
  using stored_append [of mem a "[x]" xs] by (simp add: stored_def)

lemma ptr_bits: "list_all (\<lambda>k. uint (word_of_int k AND 0x3f :: byte) = k) [0..63]"
  by code_simp

lemma frame_pointer:
  assumes "0 \<le> p" and "p < 0x4000"
  shows "uint (low_byte p) + 256 * uint (high_byte p AND 0x3f) = p"
proof -
  have "0 \<le> p div 256" "p div 256 \<le> 63"
    using assms by linarith+
  then have "p div 256 \<in> set [0..63]"
    by (simp only: set_upto atLeastAtMost_iff)
  with ptr_bits have "uint (high_byte p AND 0x3f) = p div 256"
    unfolding list_all_iff high_byte_def by blast
  moreover have "uint (low_byte p) = p mod 256"
    by (simp add: low_byte_def uint_word_of_int)
  ultimately show ?thesis
    by simp
qed

lemma length_bits: "list_all (\<lambda>k. uint (word_of_int k AND 0x1f :: byte) = k \<and> (word_of_int k :: byte) AND 0x80 = 0 \<and>
    (word_of_int k :: byte) AND 0x40 = 0 \<and> (word_of_int k :: byte) AND 0x20 = 0) [0..31]"
  by code_simp

lemma length_read:
  assumes "n < 0x2000"
  shows "256 * uint (high_byte (int n) AND 0x1f) + uint (low_byte (int n)) = int n"
    and "high_byte (int n) AND 0x80 = 0" "high_byte (int n) AND 0x40 = 0" "high_byte (int n) AND 0x20 = 0"
proof -
  have "0 \<le> int n div 256" "int n div 256 \<le> 31"
    using assms by linarith+
  then have "int n div 256 \<in> set [0..31]"
    by (simp only: set_upto atLeastAtMost_iff)
  with length_bits have *: "uint (high_byte (int n) AND 0x1f) = int n div 256 \<and> high_byte (int n) AND 0x80 = 0 \<and>
      high_byte (int n) AND 0x40 = 0 \<and> high_byte (int n) AND 0x20 = 0"
    unfolding list_all_iff high_byte_def by blast
  moreover have "uint (low_byte (int n)) = int n mod 256"
    by (simp add: low_byte_def unsigned_of_nat take_bit_eq_mod zmod_int)
  ultimately show "256 * uint (high_byte (int n) AND 0x1f) + uint (low_byte (int n)) = int n"
    by simp
  from * show "high_byte (int n) AND 0x80 = 0" "high_byte (int n) AND 0x40 = 0" "high_byte (int n) AND 0x20 = 0"
    by simp_all
qed

section \<open>The frame is delivered\<close>

text \<open>What the function does with a frame of \<open>n\<close> bytes and checksum that ends before the pointer.\<close>

lemma receive_complete_run:
  assumes K: "received_by K r base mem p" and p: "0 < p" "p < 0x4000" and n: "5 < n" "n < 0x2000"
    and field: "mem (membase s + p - 1) = low_byte (int n)" "mem (membase s + p) = high_byte (int n)"
  shows "wp (ircard_receive_complete K base) Q E s =
    wp (deliver_frame K p (int n)) Q E (s\<lparr>card_acts := switched (card_acts s) base (chip_mcr (chip_of r base (card_acts s))) 1 @
        [Inb (base + RX_RING_FRM_PTR_LOW), Inb (base + RX_RING_FRM_PTR_HIGH), Readb (membase s + p), Readb (membase s + p - 1)]\<rparr>)"
proof -
  have mcr: "mcr_reads_back K r base" and rd: "\<And>h a. c_in K (h @ [Readb a]) = mem a"
    and lo: "\<And>h. chip_bank (chip_of r base h) = 1 \<Longrightarrow> c_in K (h @ [Inb (base + RX_RING_FRM_PTR_LOW)]) = low_byte p"
    and hi: "\<And>h. chip_bank (chip_of r base h) = 1 \<Longrightarrow> c_in K (h @ [Inb (base + RX_RING_FRM_PTR_HIGH)]) = high_byte p"
    using K by (simp_all add: received_by_def)
  have b: "(m AND NOT MCR_BANK_MASK OR 1) AND MCR_BANK_MASK = (1 :: byte)" for m
    by (simp add: bank_of_or)
  show ?thesis
    using n p
    by (simp add: ircard_receive_complete_def wp_simps access_wp wp_to_bank [OF mcr] Let_def rd lo hi frame_pointer field length_read
        chip_bank_def chip_simps chip_write_def chip_read_def b del: append_assoc) simp
qed

lemma deliver_frame_run:
  assumes K: "received_by K r base mem p" and n: "5 < n" "n \<le> 2054"
    and start: "a = membase s + p - int n - 1" "p < 0x4000"
  shows "if membase s \<le> a
    then wp (deliver_frame K p (int n)) (\<lambda>v t. v \<and> card_acts t = card_acts s @ [Kernel ''do_gettimeofday'' [], Kernel ''dev_alloc_skb'' [int n - 3],
        Copy_from a (int n - 4), Delivered (map (\<lambda>i. mem (a + int i)) [0..<n - 4])] \<and>
      rx_packets t = rx_packets s + 1 \<and> tx_q t = tx_q s \<and> iobase t = iobase s) never s
    else stops_with (deliver_frame K p (int n)) Oob_read s"
proof -
  have skb: "\<And>h n. c_int K (h @ [Kernel ''dev_alloc_skb'' [n]]) \<noteq> 0"
    and rd: "\<And>h a n. c_read K (h @ [Copy_from a n]) = map (\<lambda>i. mem (a + int i)) [0..<nat n]"
    using K by (simp_all add: received_by_def)
  have "nat (int n - 4) = n - 4"
    by simp
  then show ?thesis
    using n start(2)
    by (simp add: deliver_frame_def wp_simps access_wp Let_def skb rd stops_with_iff_wp start(1) del: append_assoc)
qed

text \<open>The whole run of a frame that lies in one piece, with the accesses.\<close>

definition takes_frame :: "int \<Rightarrow> int \<Rightarrow> byte list \<Rightarrow> int \<Rightarrow> card_act list" where
  "takes_frame base m d p = [Inb (base + RX_RING_FRM_PTR_LOW), Inb (base + RX_RING_FRM_PTR_HIGH), Readb (m + p), Readb (m + p - 1),
     Kernel ''do_gettimeofday'' [], Kernel ''dev_alloc_skb'' [int (length d) + 1],
     Copy_from (m + p - int (length d) - 5) (int (length d))]"

lemma frame_taken:
  assumes "received_by K r base mem p" and "1 < length d" and "length d \<le> 2050" and "length crc = 4" and "0 < p" and "p < 0x4000"
    and "stored mem (membase s + p - int (length d + 4) - 1) (d @ crc @ length_field (length d + 4))"
  shows "if int (length d + 4) + 1 \<le> p
    then wp (ircard_receive_complete K base) (\<lambda>v t. v \<and>
      card_acts t = switched (card_acts s) base (chip_mcr (chip_of r base (card_acts s))) 1 @ takes_frame base (membase s) d p @ [Delivered d] \<and>
      rx_packets t = rx_packets s + 1 \<and> tx_q t = tx_q s \<and> iobase t = iobase s) never s
    else stops_with (ircard_receive_complete K base) Oob_read s"
proof -
  define n where "n = length d + 4"
  define a where "a = membase s + p - int n - 1"
  have n: "5 < n" "n < 0x2000" "n \<le> 2054" "n - 4 = length d"
    using assms(2,3) by (simp_all add: n_def)
  have parts: "map (\<lambda>i. mem (a + int i)) [0..<length d] = d" "mem (membase s + p - 1) = low_byte (int n)" "mem (membase s + p) = high_byte (int n)"
    using assms(7) unfolding n_def [symmetric] a_def [symmetric] length_field_def stored_append stored_Cons
    by (simp_all add: stored_def a_def n_def assms(4) algebra_simps)
  note run = receive_complete_run [OF assms(1,5,6) n(1,2) parts(2,3)]
  have lens: "int n - 3 = int (length d) + 1" "int n - 4 = int (length d)" "a = membase s + p - int (length d) - 5"
    by (simp_all add: n_def a_def)
  have deliver: "if int n + 1 \<le> p
    then wp (deliver_frame K p (int n)) (\<lambda>v t. v \<and> card_acts t = h @ [Kernel ''do_gettimeofday'' [], Kernel ''dev_alloc_skb'' [int (length d) + 1],
        Copy_from a (int (length d)), Delivered d] \<and> rx_packets t = rx_packets s + 1 \<and> tx_q t = tx_q s \<and> iobase t = iobase s) never (s\<lparr>card_acts := h\<rparr>)
    else stops_with (deliver_frame K p (int n)) Oob_read (s\<lparr>card_acts := h\<rparr>)" for h
    using deliver_frame_run [OF assms(1) n(1,3) _ assms(6), of a "s\<lparr>card_acts := h\<rparr>"]
    by (cases "int n + 1 \<le> p") (simp_all add: a_def n(4) lens(1,2) parts(1) [unfolded a_def])
  show ?thesis
    unfolding stops_with_iff_wp run n_def [symmetric]
    using deliver [of "switched (card_acts s) base (chip_mcr (chip_of r base (card_acts s))) 1 @
        [Inb (base + RX_RING_FRM_PTR_LOW), Inb (base + RX_RING_FRM_PTR_HIGH), Readb (membase s + p), Readb (membase s + p - 1)]"]
    by (cases "int n + 1 \<le> p") (simp_all add: takes_frame_def lens(3) stops_with_iff_wp)
qed

text \<open>
  C15. A frame the controller stored, with its checksum and the length field before the frame pointer, is delivered without the
  checksum when it lies in one piece; when it goes round the end of the ring, memory before the window is read. The frame has 2
  to 2050 bytes; the frame pointer can be read in bank 1 only, whatever bank is selected before, and
  \<open>dev_alloc_skb\<close> finds memory (without it the frame is dropped).
\<close>

theorem received_frame_delivered:
  assumes "received_by K r base mem p" and "1 < length d" and "length d \<le> 2050" and "length crc = 4" and "0 < p" and "p < 0x4000"
    and "stored mem (membase s + p - int (length d + 4) - 1) (d @ crc @ length_field (length d + 4))"
  shows "if int (length d + 4) + 1 \<le> p
    then wp (ircard_receive_complete K base) (\<lambda>v t. v \<and> last (card_acts t) = Delivered d \<and> rx_packets t = rx_packets s + 1 \<and> tx_q t = tx_q s) never s
    else stops_with (ircard_receive_complete K base) Oob_read s"
  using frame_taken [OF assms] by (auto elim: wp_weaken split: if_splits)

text \<open>A controller whose registers other than the frame pointer read as 8, and a frame of two bytes at the start of the ring.\<close>

definition stored_card :: "(int \<Rightarrow> byte) \<Rightarrow> int \<Rightarrow> card_system" where
  "stored_card mem p = \<lparr>c_in = (\<lambda>h. case last h of Readb a \<Rightarrow> mem a
       | Inb q \<Rightarrow> (if q = 0x100 then chip_mcr (chip_of 0 0x100 (butlast h)) else if chip_bank (chip_of 0 0x100 (butlast h)) = 1 then if q = 0x104 then low_byte p else high_byte p else 8) | _ \<Rightarrow> 0),
     c_read = (\<lambda>h. case last h of Copy_from a n \<Rightarrow> map (\<lambda>i. mem (a + int i)) [0..<nat n] | _ \<Rightarrow> []),
     c_int = (\<lambda>_. 1), c_time = (\<lambda>_. (0, 0))\<rparr>"

lemma received_frame_delivered_witness:
  "wp (ircard_receive_complete (stored_card ((\<lambda>_. 0)(0xd0000 := 7, 0xd0001 := 9, 0xd0006 := 6)) 7) 0x100)
    (\<lambda>v t. v \<and> last (card_acts t) = Delivered [7, 9] \<and> rx_packets t = 1 \<and> tx_q t = tx_q fresh_card) never fresh_card"
  using received_frame_delivered [where K = "stored_card ((\<lambda>_. 0)(0xd0000 := 7, 0xd0001 := 9, 0xd0006 := 6)) 7" and r = 0 and base = "0x100" and
      mem = "(\<lambda>_. 0)(0xd0000 := 7, 0xd0001 := 9, 0xd0006 := 6)" and p = 7 and d = "[7, 9]" and crc = "[0, 0, 0, 0]" and s = fresh_card]
  by (simp add: received_by_def stored_card_def mcr_reads_back_def stored_Cons stored_def length_field_def fresh_card_def
      low_byte_def high_byte_def)

end
