(* ===== verification/Ircard_Interrupt.thy ===== *)
theory Ircard_Interrupt
  imports Ircard_Receive
begin

text \<open>
  The operations the kernel calls on the card, together: every one keeps the queue well formed, the interrupt handler gives
  back the bank it found, a change of speed, and the status the handler reads after a frame was received.
\<close>

section \<open>Frames with the controller\<close>

abbreviation (input) some_fault :: "fault \<Rightarrow> 's \<Rightarrow> bool" where
  "some_fault \<equiv> (\<lambda>e s. True)"

text \<open>
  How many frames the controller has that it did not report as sent: one more with each copy into the shared memory, one less
  when the driver takes back a report (\<open>RESET_TX_SPEC_BITS\<close>), none when the driver goes back to receiving (\<open>RESET_RX_RFP\<close>).
\<close>

fun flight :: "int \<Rightarrow> card_act \<Rightarrow> int \<Rightarrow> int" where
  "flight base (Copy_to a d) n = n + 1"
| "flight base (Outb v p) n = (if p \<noteq> base + RESET then n else if v = RESET_TX_SPEC_BITS then n - 1 else if v = RESET_RX_RFP then 0 else n)"
| "flight base _ n = n"

definition in_flight :: "int \<Rightarrow> card_act list \<Rightarrow> int" where
  "in_flight base h = fold (flight base) h 0"

lemma in_flight_snoc [simp]: "in_flight base [] = 0" "in_flight base (h @ [a]) = flight base a (in_flight base h)"
  "in_flight base (h @ a # b # l) = fold (flight base) (b # l) (flight base a (in_flight base h))"
  by (simp_all add: in_flight_def)

text \<open>The high byte of the length is written to the register of the same number in bank 1, with other values.\<close>

lemma count_high: "(v AND 0x1f :: byte) \<noteq> RESET_TX_SPEC_BITS" "(v AND 0x1f :: byte) \<noteq> RESET_RX_RFP"
proof -
  have "v AND 0x1f \<le> (0x1f :: byte)"
    by (rule word_and_le1)
  then show "v AND 0x1f \<noteq> RESET_TX_SPEC_BITS" "v AND 0x1f \<noteq> RESET_RX_RFP"
    by auto
qed

text \<open>The controller reports the end of a transmission, and has a frame that was being sent.\<close>

definition reports_sent :: "card_system \<Rightarrow> int \<Rightarrow> bool" where
  "reports_sent K base \<longleftrightarrow> (\<forall>h. c_in K (h @ [Inb (base + MSR)]) AND MSR_ID_MASK = MSR_TX_COND_ID \<longrightarrow> 0 < in_flight base h)"

section \<open>The contract of an invariant of the card\<close>

lemma keeps_ignore: "keeps I E m \<Longrightarrow> keeps I E (ignore m)"
  by (simp add: ignore_def keeps_thn keeps_ret)

lemma keeps_seqs_Nil: "keeps I E (seqs [])"
  by (simp add: keeps_def wp_seqs_Nil)

lemma keeps_seqs_Cons: "keeps I E m \<Longrightarrow> keeps I E (seqs ms) \<Longrightarrow> keeps I E (seqs (m # ms))"
  by (simp add: seqs.simps keeps_thn)

lemmas structure_kept = keeps_seqs_Nil keeps_seqs_Cons keeps_ret keeps_gets keeps_bnd keeps_thn keeps_if keeps_doif keeps_Let keeps_ignore

text \<open>A step after which the history has grown, and a step that leaves the queue and the controller's frames.\<close>

definition went_on :: "ircard \<Rightarrow> ircard \<Rightarrow> bool" where
  "went_on s t \<longleftrightarrow> membase t = membase s \<and> iobase t = iobase s \<and> prefix (card_acts s) (card_acts t)"

definition quiet_step :: "int \<Rightarrow> ircard \<Rightarrow> ircard \<Rightarrow> bool" where
  "quiet_step base s t \<longleftrightarrow> went_on s t \<and> tx_q t = tx_q s \<and> in_flight base (card_acts t) = in_flight base (card_acts s)"

abbreviation with_queue :: "(ircard \<Rightarrow> bool) \<Rightarrow> shm_queue \<Rightarrow> ircard \<Rightarrow> bool" where
  "with_queue I q s \<equiv> I s \<and> tx_q s = q"

named_theorems quiet_kept

text \<open>
  An invariant of the card at the port \<open>base\<close>: it outlives a quiet step, a reset of the queue, and the completion of a frame
  while the queue is \<open>busy\<close>, which it is whenever the status tells of one. \<open>E\<close> is what may stop an operation: an index outside
  the slots when a frame is started, and a received frame that goes round the end of the ring.
\<close>

locale card_invariant =
  fixes K :: card_system and base :: int and I :: "ircard \<Rightarrow> bool" and E :: "fault \<Rightarrow> ircard \<Rightarrow> bool"
    and busy :: "shm_queue \<Rightarrow> bool"
  assumes quiet: "I s \<Longrightarrow> quiet_step base s t \<Longrightarrow> I t"
    and reset: "I s \<Longrightarrow> went_on s t \<Longrightarrow> tx_q t = reset_queue (membase s) (tx_q s) \<Longrightarrow> in_flight base (card_acts t) = 0 \<Longrightarrow> I t"
    and sent: "I s \<Longrightarrow> busy (tx_q s) \<Longrightarrow> went_on s t \<Longrightarrow> tx_q t = sent_queue (tx_q s) \<Longrightarrow>
      in_flight base (card_acts t) = in_flight base (card_acts s) - 1 \<Longrightarrow> I t"
    and status: "I s \<Longrightarrow> card_acts s = h @ [Inb (base + MSR)] \<Longrightarrow> c_in K (card_acts s) AND MSR_ID_MASK = MSR_TX_COND_ID \<Longrightarrow> busy (tx_q s)"
    and here: "I s \<Longrightarrow> iobase s = base"
    and index: "I s \<Longrightarrow> q_len (tx_q s) \<noteq> 0 \<Longrightarrow> \<not> (0 \<le> q_ptr (tx_q s) \<and> q_ptr (tx_q s) < int MAX_WINDOW) \<Longrightarrow> E Bad_index s"
    and around: "I s \<Longrightarrow> rx_data s \<le> 0x2000 \<Longrightarrow> E Oob_read s"
begin

text \<open>Operations that leave the queue as it is.\<close>

lemma quiet_modify: "(\<And>s. quiet_step base s (f s)) \<Longrightarrow> keeps (with_queue I q) E (modify f)"
  by (rule keepsI) (auto simp: wp_modify quiet_step_def intro: quiet)

lemma quiet_card_do [quiet_kept]: "(\<And>n. flight base a n = n) \<Longrightarrow> keeps (with_queue I q) E (card_do a)"
  unfolding card_do_def by (rule quiet_modify) (simp add: quiet_step_def went_on_def)

lemma quiet_outb [quiet_kept]:
  "p \<noteq> base + RESET \<or> v \<noteq> RESET_TX_SPEC_BITS \<and> v \<noteq> RESET_RX_RFP \<Longrightarrow> keeps (with_queue I q) E (c_outb v p)"
  unfolding c_outb_def by (rule quiet_card_do) auto

lemma quiet_inb [quiet_kept]: "keeps (with_queue I q) E (c_inb K p)"
  unfolding c_inb_def by (intro structure_kept quiet_card_do) simp

lemma quiet_readb [quiet_kept]: "keeps (with_queue I q) E (c_readb K p)"
  unfolding c_readb_def by (intro structure_kept quiet_card_do) simp

lemma quiet_kernel [quiet_kept]: "keeps (with_queue I q) E (kernel_call nm as)"
  unfolding kernel_call_def by (rule quiet_card_do) simp

lemma quiet_ask [quiet_kept]: "keeps (with_queue I q) E (kernel_ask K nm as)"
  unfolding kernel_ask_def by (intro structure_kept quiet_kernel)

lemma quiet_clock [quiet_kept]: "keeps (with_queue I q) E (card_time K)"
  unfolding card_time_def by (intro structure_kept quiet_kernel)

lemma quiet_set_mcr [quiet_kept]: "keeps (with_queue I q) E (ircard_set_mcr base i b)"
  unfolding ircard_set_mcr_def by (rule quiet_outb) simp

lemma quiet_set_bank [quiet_kept]: "keeps (with_queue I q) E (set_bank base b)"
  unfolding set_bank_def by (rule quiet_outb) simp

lemma quiet_switch [quiet_kept]: "keeps (with_queue I q) E (switch_bank K base b)" "keeps (with_queue I q) E (to_bank K base b)"
  unfolding switch_bank_def to_bank_def by (intro structure_kept quiet_kept)+

lemma quiet_queued [quiet_kept]: "q_len q \<noteq> 0 \<Longrightarrow> keeps (with_queue I q) E (queued (q_ptr q))"
  unfolding queued_def by (intro structure_kept; rule keepsI) (auto simp: wp_check intro: index)

lemma quiet_spin_eom [quiet_kept]: "keeps (with_queue I q) E (spin_eom K base stat left)"
proof (induction left arbitrary: stat)
  case 0
  then show ?case by (simp add: keeps_ret)
next
  case (Suc left)
  then show ?case
    unfolding spin_eom.simps by (intro structure_kept quiet_kept)
qed

lemma quiet_mtt_delay [quiet_kept]: "keeps (with_queue I q) E (mtt_delay K)"
  unfolding mtt_delay_def by (intro structure_kept quiet_kept)

lemma quiet_fields [quiet_kept]:
  "keeps (with_queue I q) E (modify (\<lambda>s. s\<lparr>io_direction := d\<rparr>))" "keeps (with_queue I q) E (modify (\<lambda>s. s\<lparr>tbusy := n\<rparr>))"
  "keeps (with_queue I q) E (modify (\<lambda>s. s\<lparr>tbusy := n, media_busy := b\<rparr>))" "keeps (with_queue I q) E (modify (\<lambda>s. s\<lparr>in_interrupt := b\<rparr>))"
  "keeps (with_queue I q) E (modify (\<lambda>s. s\<lparr>baudrate := sp, hard_start_xmit := x\<rparr>))"
  "keeps (with_queue I q) E (modify (\<lambda>s. s\<lparr>tx_errors := f s, tx_fifo_errors := k s\<rparr>))"
  "keeps (with_queue I q) E (modify (\<lambda>s. s\<lparr>tx_packets := f s, tx_bytes := g s\<rparr>))"
  by (rule quiet_modify, simp add: quiet_step_def went_on_def)+

lemma quiet_skip_frame [quiet_kept]:
  "keeps (with_queue I q) E (skip_frame (\<lambda>s. s\<lparr>rx_frame_errors := f s\<rparr>))" "keeps (with_queue I q) E (skip_frame (\<lambda>s. s\<lparr>rx_fifo_errors := f s\<rparr>))"
  unfolding skip_frame_def by (intro structure_kept quiet_modify; simp add: quiet_step_def went_on_def)+

lemma quiet_deliver_frame:
  assumes "0 < ptr" and "ptr < 0x4000" and "5 < len" and "len < 0x2000"
  shows "keeps (with_queue I q) E (deliver_frame K ptr len)"
proof (rule keepsI)
  fix s
  assume s: "with_queue I q s"
  have next_state: "with_queue I q t" if "quiet_step base s t" for t
    using s that quiet by (auto simp: quiet_step_def)
  have fault: "E Oob_read t" if "quiet_step base s t" "rx_data t = ptr + 1" "ptr < len + 1" for t
    using around [OF conjunct1 [OF next_state [OF that(1)]]] that(2,3) assms(4) by simp
  show "wp (deliver_frame K ptr len) (\<lambda>_. with_queue I q) E s"
    using assms
    by (simp add: deliver_frame_def wp_simps access_wp Let_def del: append_assoc)
      (intro conjI impI; (rule next_state | rule fault | rule next_state [THEN conjunct1] | rule next_state [THEN conjunct2]);
        simp add: quiet_step_def went_on_def)
qed

lemma quiet_receive_complete [quiet_kept]: "keeps (with_queue I q) E (ircard_receive_complete K base)"
proof -
  have ptr: "uint lo + 256 * uint (hi AND 0x3f) < 0x4000" "0 \<le> uint lo + 256 * uint (hi AND 0x3f)" for lo hi :: byte
  proof -
    have "hi AND 0x3f \<le> 0x3f"
      by (rule word_and_le1)
    then show "uint lo + 256 * uint (hi AND 0x3f) < 0x4000"
      using uint_lt2p [of lo] by (simp add: word_le_def)
  qed simp
  have len: "256 * uint (stat AND 0x1f) + uint low < 0x2000" for stat low :: byte
  proof -
    have "stat AND 0x1f \<le> 0x1f"
      by (rule word_and_le1)
    then show ?thesis
      using uint_lt2p [of low] by (simp add: word_le_def)
  qed
  show ?thesis
    unfolding ircard_receive_complete_def Let_def
    by (intro structure_kept quiet_kept quiet_deliver_frame) (use ptr len in \<open>simp_all add: order_less_le\<close>)
qed

text \<open>All of them keep the invariant.\<close>

lemma quiet_run:
  assumes "keeps (with_queue I (tx_q s)) E m" and "I s"
  shows "wp m (\<lambda>_. with_queue I (tx_q s)) E s"
  by (rule keepsD [OF assms(1)]) (simp add: assms(2))

lemma quiet_I: "(\<And>q. keeps (with_queue I q) E m) \<Longrightarrow> keeps I E m"
  by (rule keepsI) (erule wp_weaken [OF quiet_run, rotated], simp_all)

lemma keeps_receive: "keeps I E (ircard_receive K base)"
proof (rule keepsI)
  fix s
  assume s: "I s"
  have "I t" if "went_on s t" "tx_q t = reset_queue (membase s) (tx_q s)" "in_flight base (card_acts t) = 0" for t
    using s that by (rule reset)
  then show "wp (ircard_receive K base) (\<lambda>_. I) E s"
    by (simp add: ircard_receive_def to_bank_def switch_bank_def reset_tx_queue_def wp_simps access_wp Let_def went_on_def reset_queue_def)
qed

text \<open>A frame is started; the queue is not empty.\<close>

lemma dma_write_kept:
  assumes "I s" and "q_len (tx_q s) \<noteq> 0"
  shows "wp (ircard_dma_write K base) (\<lambda>_. I) E s"
proof -
  have "keeps (with_queue I (tx_q s)) E (ircard_dma_write K base)"
  proof (rule keepsI)
    fix t
    assume t: "with_queue I (tx_q s) t"
    then have ptr: "q_ptr (tx_q t) = q_ptr (tx_q s)"
      by simp
    show "wp (ircard_dma_write K base) (\<lambda>_. with_queue I (tx_q s)) E t"
      unfolding ircard_dma_write_def wp_bnd [of "gets f" for f] wp_gets ptr
      by (rule keepsD [where I = "with_queue I (tx_q s)", OF _ t]) (intro structure_kept quiet_kept; simp add: assms(2) count_high)
  qed
  from quiet_run [OF this assms(1)] show ?thesis
    by (rule wp_weaken) simp
qed

lemma keeps_next_frame: "keeps I E (next_frame K base)"
proof (rule keepsI)
  fix s
  assume s: "I s"
  have "keeps I E (bnd (kernel_ask K ''irda_device_txqueue_empty'' []) (\<lambda>e. doif (e \<noteq> 0) (thn (c_outb 0 (base + TX_CTRL1)) (ircard_receive K base))))"
    by (intro keeps_bnd keeps_doif keeps_thn keeps_receive quiet_I quiet_kept) simp
  from keepsD [OF this s] show "wp (next_frame K base) (\<lambda>_. I) E s"
    using dma_write_kept [OF s] by (simp add: next_frame_def wp_bnd [of "gets f" for f] wp_gets)
qed

text \<open>A completion while the queue is busy.\<close>

lemma xmit_complete_kept:
  assumes "I s" and "busy (tx_q s)"
  shows "wp (ircard_xmit_complete K) (\<lambda>_. I) E s"
proof -
  have read: "keeps (with_queue I q) E (bnd (c_inb K (base + TX_STAT)) (\<lambda>stat.
      if stat AND TX_STAT_FIFO_UNDR \<noteq> 0 then modify (\<lambda>s. s\<lparr>tx_errors := tx_errors s + 1, tx_fifo_errors := tx_fifo_errors s + 1\<rparr>)
      else thn (spin_eom K base stat 1001) (modify (\<lambda>s. s\<lparr>tx_packets := tx_packets s + 1, tx_bytes := tx_bytes s + tx_buff_len s\<rparr>))))" for q
    by (intro structure_kept quiet_kept)
  have done_state: "I u" if "with_queue I (tx_q s) t" "went_on t u" "tx_q u = sent_queue (tx_q t)"
      "in_flight base (card_acts u) = in_flight base (card_acts t) - 1" for t u
    by (rule sent [of t]) (use that assms(2) in simp_all)
  have rest: "keeps I E (thn (next_frame K base) (kernel_call ''mark_bh'' []))"
    by (intro keeps_thn keeps_next_frame quiet_I quiet_kept)
  have tail: "wp (seqs [ircard_set_mcr base MCR_INTR_EN b, c_outb 0 (base + MISC), c_outb RESET_TX_SPEC_BITS (base + RESET),
      modify (\<lambda>s. s\<lparr>tbusy := 0, media_busy := False\<rparr>),
      modify (\<lambda>s. s\<lparr>tx_q := (tx_q s)\<lparr>q_ptr := q_ptr (tx_q s) + 1, q_len := q_len (tx_q s) - 1\<rparr>\<rparr>),
      next_frame K base, kernel_call ''mark_bh'' []]) (\<lambda>_. I) E t" if t: "with_queue I (tx_q s) t" for t b
    unfolding wp_seqs_Cons wp_seqs_Nil wp_set_mcr wp_c_outb wp_modify
    by (rule keepsD [OF rest, unfolded wp_thn], rule done_state [OF t]) (simp_all add: went_on_def sent_queue_def)
  show ?thesis
    unfolding ircard_xmit_complete_def wp_bnd [of "gets iobase"] wp_gets here [OF assms(1)] wp_bnd [of "switch_bank K base 0"]
      wp_seqs_Cons [of "bnd (c_inb K p) f" for p f]
    by (rule wp_weaken [OF quiet_run [OF quiet_switch(1) assms(1)]],
        rule wp_weaken [OF keepsD [OF read [of "tx_q s"]]], simp, rule tail)
qed

lemma serve_cause_kept:
  assumes "I s" and "msr = MSR_TX_COND_ID \<Longrightarrow> busy (tx_q s)"
  shows "wp (serve_cause K base msr) (\<lambda>_. I) E s"
proof -
  have "keeps I E (ignore (ircard_receive_complete K base))"
    by (intro quiet_I keeps_ignore quiet_kept)
  from keepsD [OF this assms(1)] show ?thesis
    using xmit_complete_kept [OF assms(1)] assms by (simp add: serve_cause_def wp_ret)
qed

lemma status_read:
  assumes "I s" and "\<And>v t. I t \<Longrightarrow> (v = MSR_TX_COND_ID \<Longrightarrow> busy (tx_q t)) \<Longrightarrow> wp (f v) Q E t"
  shows "wp (bnd (c_inb K (base + MSR)) (\<lambda>v. f (v AND MSR_ID_MASK))) Q E s"
proof -
  let ?t = "s\<lparr>card_acts := card_acts s @ [Inb (base + MSR)]\<rparr>"
  have "I ?t"
    by (rule quiet [OF assms(1)]) (simp add: quiet_step_def went_on_def)
  then have "wp (f (c_in K (card_acts ?t) AND MSR_ID_MASK)) Q E ?t"
    by (intro assms(2) status [of ?t "card_acts s"]) simp_all
  then show ?thesis
    by (simp add: wp_bnd wp_c_inb)
qed

lemma serve_causes_kept:
  assumes "I s" and "msr = MSR_TX_COND_ID \<Longrightarrow> busy (tx_q s)"
  shows "wp (serve_causes K base msr left) (\<lambda>_. I) E s"
  using assms
proof (induction left arbitrary: msr s)
  case 0
  have "keeps I E (card_do (Printk f as))" for f as
    by (intro quiet_I quiet_kept) simp
  then show ?case
    using "0.prems" serve_cause_kept [OF "0.prems"] by (auto simp: wp_thn wp_ret intro: wp_weaken keepsD)
next
  case (Suc left)
  show ?case
  proof (cases "msr = 0")
    case False
    have "wp (bnd (c_inb K (base + MSR)) (\<lambda>v. serve_causes K base (v AND MSR_ID_MASK) left)) (\<lambda>_. I) E t" if "I t" for t
      by (rule status_read [OF that]) (rule Suc.IH)
    then show ?thesis
      using False by (simp add: wp_thn del: wp_bnd) (rule wp_weaken [OF serve_cause_kept [OF Suc.prems]])
  qed (use Suc.prems in \<open>simp add: wp_ret\<close>)
qed

lemma keeps_interrupt: "keeps I E (ircard_interrupt K)"
proof (rule keepsI)
  fix s
  assume s: "I s"
  let ?t = "s\<lparr>in_interrupt := True\<rparr>"
  have t: "I ?t"
    by (rule quiet [OF s]) (simp add: quiet_step_def went_on_def)
  have slow: "wp (kernel_call ''irport_interrupt'' []) (\<lambda>_. I) E s"
    by (rule keepsD [OF quiet_I s]) (rule quiet_kept)
  have end_it: "wp (to_bank K base b) (\<lambda>_. wp (modify (\<lambda>s. s\<lparr>in_interrupt := False\<rparr>)) (\<lambda>_. I) E) E u" if "I u" for u b
    by (rule wp_weaken [OF keepsD [OF quiet_I that]], rule quiet_kept, rule keepsD [OF quiet_I], rule quiet_kept)
  have served: "wp (bnd (c_inb K (base + MSR)) (\<lambda>v. thn (serve_causes K base (v AND MSR_ID_MASK) 11) (
      thn (to_bank K base b) (modify (\<lambda>s. s\<lparr>in_interrupt := False\<rparr>))))) (\<lambda>_. I) E u" if "I u" for u b
    by (rule status_read [OF that, of "\<lambda>w. thn (serve_causes K base w 11) (thn (to_bank K base b) (modify (\<lambda>s. s\<lparr>in_interrupt := False\<rparr>)))"])
      (simp only: wp_thn, rule wp_weaken [OF serve_causes_kept], assumption, assumption, rule end_it)
  have "wp (switch_bank K base 0) (\<lambda>b. wp (bnd (c_inb K (base + MSR)) (\<lambda>v. thn (serve_causes K base (v AND MSR_ID_MASK) 11) (
      thn (to_bank K base b) (modify (\<lambda>s. s\<lparr>in_interrupt := False\<rparr>))))) (\<lambda>_. I) E) E ?t"
    by (rule wp_weaken [OF keepsD [OF quiet_I t]], rule quiet_kept, rule served)
  with slow show "wp (ircard_interrupt K) (\<lambda>_. I) E s"
    unfolding ircard_interrupt_def wp_bnd [of "gets f" for f] wp_gets wp_if wp_thn [of "modify f" for f] wp_modify wp_bnd [of "switch_bank K b c" for b c]
    by (simp add: here [OF s] del: wp_bnd wp_thn)
qed

lemma keeps_change_speed: "keeps I E (ircard_change_speed K speed)"
proof (rule keepsI)
  fix s
  assume s: "I s"
  show "wp (ircard_change_speed K speed) (\<lambda>_. I) E s"
    unfolding ircard_change_speed_def wp_bnd [of "gets f" for f] wp_gets here [OF s] ircard_fir_to_sir_def ircard_sir_to_fir_def
    by (rule keepsD [where I = I, OF _ s]) (intro keeps_seqs_Nil keeps_seqs_Cons keeps_doif keeps_receive; intro quiet_I structure_kept quiet_kept; simp)
qed

end

section \<open>The queue is kept\<close>

text \<open>
  What the driver and the controller agree on: a well-formed queue whose length is the number of frames the controller has.
\<close>

definition queue_sound :: "card_system \<Rightarrow> int \<Rightarrow> ircard \<Rightarrow> bool" where
  "queue_sound K base s \<longleftrightarrow> reports_sent K base \<and> queue_wf s \<and> iobase s = base \<and> q_len (tx_q s) = in_flight base (card_acts s)"

text \<open>
  What can stop an operation: a ninth frame while all eight slots are used up, a frame behind the end of the send window, a
  received frame whose end is closer to the start of the ring than it is long.
\<close>

definition queue_fault :: "fault \<Rightarrow> ircard \<Rightarrow> bool" where
  "queue_fault e t \<longleftrightarrow> e = Bad_index \<and> q_free (tx_q t) = int MAX_WINDOW \<or> e = Oob_write \<and> membase t + 0x8000 < q_tail (tx_q t) \<or>
     e = Oob_read \<and> rx_data t \<le> 0x2000"

interpretation queue_inv: card_invariant K base "queue_sound K base" queue_fault "\<lambda>q. 0 < q_len q" for K base
proof unfold_locales
  fix s t :: ircard
  assume s: "queue_sound K base s" and t: "went_on s t" "tx_q t = sent_queue (tx_q s)" "0 < q_len (tx_q s)"
    and n: "in_flight base (card_acts t) = in_flight base (card_acts s) - 1"
  have "queue_wf t"
    by (rule queue_wf_sent [OF _ t(3,2)]) (use s t(1) in \<open>simp_all add: queue_sound_def went_on_def\<close>)
  then show "queue_sound K base t"
    using s t n by (simp add: queue_sound_def went_on_def sent_queue_def)
next
  fix s t :: ircard
  assume s: "queue_sound K base s" and t: "went_on s t" "tx_q t = reset_queue (membase s) (tx_q s)" "in_flight base (card_acts t) = 0"
  have "queue_wf t"
    by (rule queue_wf_reset [of s t "tx_q s"]) (use s t in \<open>simp_all add: queue_sound_def went_on_def\<close>)
  then show "queue_sound K base t"
    using s t by (simp add: queue_sound_def went_on_def reset_queue_def)
next
  fix s :: ircard
  assume s: "queue_sound K base s" and "q_len (tx_q s) \<noteq> 0"
    and out: "\<not> (0 \<le> q_ptr (tx_q s) \<and> q_ptr (tx_q s) < int MAX_WINDOW)"
  then show "queue_fault Bad_index s"
    using queue_wfD [of s] by (simp add: queue_sound_def)
next
  fix s t :: ircard
  assume s: "queue_sound K base s" and t: "quiet_step base s t"
  then have "queue_wf t = queue_wf s"
    by (intro queue_same(1)) (simp_all add: quiet_step_def went_on_def)
  with s t show "queue_sound K base t"
    by (simp add: queue_sound_def quiet_step_def went_on_def)
next
  fix s :: ircard and h
  assume "queue_sound K base s" and "card_acts s = h @ [Inb (base + MSR)]" and "c_in K (card_acts s) AND MSR_ID_MASK = MSR_TX_COND_ID"
  then show "0 < q_len (tx_q s)"
    by (simp add: queue_sound_def reports_sent_def)
qed (simp_all add: queue_sound_def queue_fault_def)

interpretation history: card_invariant K base "\<lambda>s. prefix h (card_acts s) \<and> iobase s = base" "\<lambda>_ s. prefix h (card_acts s)" "\<lambda>_. True"
  for K base h
  by unfold_locales (auto simp: quiet_step_def went_on_def intro: prefix_order.trans)

text \<open>The end of \<open>ircard_hard_xmit\<close>, after the first frame of a window was started or without that.\<close>

abbreviation frame_taken_over :: "card_system \<Rightarrow> int \<Rightarrow> ircard \<Rightarrow> bool" where
  "frame_taken_over K base u \<equiv> wp (kernel_call ''dev_kfree_skb'' [])
     (\<lambda>_. wp (modify (\<lambda>s. s\<lparr>tbusy := 0\<rparr>)) (\<lambda>_. queue_sound K base) queue_fault) queue_fault u"

lemma taken_over: "queue_sound K base u \<Longrightarrow> frame_taken_over K base u"
  by (rule wp_weaken [OF keepsD [OF queue_inv.quiet_I]], rule quiet_kept, assumption, rule keepsD [OF queue_inv.quiet_I],
      rule queue_inv.quiet_fields)

lemma first_started:
  assumes "queue_sound K base u" and "q_len (tx_q u) \<noteq> 0"
  shows "wp (mtt_delay K) (\<lambda>_. wp (ircard_dma_write K base) (\<lambda>_. frame_taken_over K base) queue_fault) queue_fault u"
proof (rule wp_weaken [OF queue_inv.quiet_run [OF queue_inv.quiet_mtt_delay assms(1)]])
  fix a :: unit and v
  assume "queue_sound K base v \<and> tx_q v = tx_q u"
  then show "wp (ircard_dma_write K base) (\<lambda>_. frame_taken_over K base) queue_fault v"
    using assms(2) by (intro wp_weaken [OF queue_inv.dma_write_kept]) (auto intro: taken_over)
qed

text \<open>A frame in its slot and in the window, which the controller has.\<close>

lemma frame_added:
  assumes s: "queue_sound K base s" and "q_free (tx_q s) < int MAX_WINDOW" and "q_tail (tx_q s) + int n \<le> membase s + 0x8000"
    and u: "tx_q u = add_frame s (int n)" "membase u = membase s" "iobase u = base" "in_flight base (card_acts u) = in_flight base (card_acts s) + 1"
  shows "queue_sound K base u"
proof -
  have "queue_wf u"
    by (rule queue_wf_add [OF _ assms(2) _ u(1,2) assms(3)]) (use s in \<open>simp_all add: queue_sound_def\<close>)
  then show ?thesis
    using s u by (simp add: queue_sound_def add_frame_def Let_def)
qed

text \<open>A frame to send: it gets a slot and a place in the window, or the operation stops before anything is written.\<close>

lemma keeps_hard_xmit: "keeps (queue_sound K base) queue_fault (ircard_hard_xmit K data)"
proof (rule keepsI)
  fix s
  assume s: "queue_sound K base s"
  then have wf: "queue_wf s" and base: "iobase s = base"
    by (simp_all add: queue_sound_def)
  have free: "0 \<le> q_free (tx_q s)" "q_free (tx_q s) \<le> 8" "nat (q_free (tx_q s)) < length (q_frames (tx_q s)) \<longleftrightarrow> q_free (tx_q s) < 8"
    using queue_wfD [OF wf] by auto
  have room: "membase s \<le> q_tail (tx_q s)"
    using queue_wfD(10) [OF wf] by simp
  have same: "queue_sound K base u" if "quiet_step base s u" for u
    by (rule queue_inv.quiet [OF s that])
  have go: "if q_len (tx_q u) = 1
    then wp (mtt_delay K) (\<lambda>_. wp (ircard_dma_write K base) (\<lambda>_. frame_taken_over K base) queue_fault) queue_fault u
    else frame_taken_over K base u"
    if "q_free (tx_q s) < 8" "q_tail (tx_q s) + int (length data) \<le> membase s + 0x8000"
      "tx_q u = add_frame s (int (length data))" "membase u = membase s" "iobase u = base" "in_flight base (card_acts u) = in_flight base (card_acts s) + 1" for u
    using frame_added [OF s _ that(2-6)] that(1) taken_over [of K base u] first_started [of K base u] by simp
  show "wp (ircard_hard_xmit K data) (\<lambda>_. queue_sound K base) queue_fault s"
  proof (cases "tbusy s = 0 \<and> q_free (tx_q s) < 8 \<and> q_tail (tx_q s) + int (length data) \<le> membase s + 0x8000")
    case False
    then show ?thesis
      using free room same
      by (auto simp: ircard_hard_xmit_def to_bank_def switch_bank_def ircard_set_mcr_def put_queued_def queued_def wp_simps access_wp Let_def
        base queue_fault_def quiet_step_def went_on_def)
  next
    case True
    let ?h = "card_acts s @ [Inb base, Outb (c_in K (card_acts s @ [Inb base]) AND NOT MCR_BANK_MASK OR 0) base, Copy_to (q_tail (tx_q s)) data]"
    note go = go [of "s\<lparr>tbusy := 1, card_acts := ?h, tx_q := add_frame s (int (length data))\<rparr>"]
    show ?thesis
      using True free room go
      by (cases "q_len (tx_q s) = 0") (simp_all add: ircard_hard_xmit_def to_bank_def switch_bank_def ircard_set_mcr_def put_queued_def queued_def wp_seqs_Cons wp_seqs_Nil
        wp_thn wp_bnd wp_gets wp_check wp_modify wp_ret wp_doif wp_ignore wp_c_inb wp_c_outb wp_card_do Let_def base add_frame_def)
  qed
qed

text \<open>What the kernel calls on the card.\<close>

datatype card_call = Frame_to_send "byte list" | Card_interrupt | New_speed u32 | Wait_sent | Net_open | Net_close

fun card_called :: "card_system \<Rightarrow> card_call \<Rightarrow> unit cardm" where
  "card_called K (Frame_to_send data) = ignore (ircard_hard_xmit K data)"
| "card_called K Card_interrupt = ircard_interrupt K"
| "card_called K (New_speed speed) = ircard_change_speed K speed"
| "card_called K Wait_sent = ircard_wait_until_sent"
| "card_called K Net_open = ignore ircard_net_open"
| "card_called K Net_close = ignore ircard_net_close"

lemma keeps_card_called: "keeps (queue_sound K base) queue_fault (card_called K c)"
proof (cases c)
  case (Frame_to_send data)
  then show ?thesis
    by (simp add: keeps_ignore keeps_hard_xmit)
qed (simp_all add: queue_inv.keeps_interrupt queue_inv.keeps_change_speed ircard_wait_until_sent_def ircard_net_open_def ircard_net_close_def,
  (intro queue_inv.quiet_I structure_kept quiet_kept)+)

text \<open>
  C14. The type of the transmit queue: whatever the kernel calls, in whatever order, the
  queue keeps eight slots, indices in them and in order, a length that is their distance, and frames that lie one behind the
  other from the start of the send window to \<open>tail\<close> inside the window. At the start the length is the number of frames the
  controller has. The controller may answer anything, but reports the end of a
  transmission only when it has a frame that it did not report (the status read from another bank, see C17, included): a
  completion without a frame would take the length of the queue below zero. Three things stop an operation, before
  memory outside of the slots, the window or the ring is used: a ninth frame while all slots are used up, a frame that does not fit in the window, and a received frame that
  goes round the end of the ring.
\<close>

theorem card_calls_keep_queue:
  assumes "queue_wf s" and "q_len (tx_q s) = in_flight (iobase s) (card_acts s)" and "reports_sent K (iobase s)"
  shows "wp (seqs (map (card_called K) cs)) (\<lambda>_. queue_wf) queue_fault s"
proof -
  have "queue_sound K (iobase s) s"
    using assms by (simp add: queue_sound_def)
  then have "wp (seqs (map (card_called K) cs)) (\<lambda>_. queue_sound K (iobase s)) queue_fault s"
    by (intro wp_seqs_inv [where I = "queue_sound K (iobase s)"]) (auto intro: keepsD [OF keeps_card_called])
  then show ?thesis
    by (rule wp_weaken) (simp add: queue_sound_def)
qed

text \<open>A controller that reports a frame whenever it has one.\<close>

definition reporting_card :: card_system where
  "reporting_card = listening_card\<lparr>c_in := (\<lambda>h. if last h = Inb 0x100 then chip_mcr (chip_of 0 0x100 (butlast h))
     else if last h = Inb 0x101 \<and> 0 < in_flight 0x100 (butlast h) then 0x0e else 0)\<rparr>"

lemma card_calls_keep_queue_witness:
  "wp (seqs (map (card_called reporting_card) [Frame_to_send [1, 2], Frame_to_send [3], Card_interrupt, New_speed 4000000])) (\<lambda>_. queue_wf) queue_fault fresh_card"
proof (rule card_calls_keep_queue)
  show "queue_wf fresh_card"
    by (simp add: queue_wf_def fresh_card_def Let_def)
  show "reports_sent reporting_card (iobase fresh_card)"
    by (simp add: reports_sent_def reporting_card_def fresh_card_def)
qed (simp add: fresh_card_def)

section \<open>Banks and interrupts\<close>

lemma wp_always: "(\<And>a t. Q a t) \<Longrightarrow> (\<And>e t. E e t) \<Longrightarrow> wp m Q E s"
  by (simp add: wp_def split: prod.split sum.split)

text \<open>
  C18. At the fast speeds the handler leaves the controller in the bank it found, whichever causes it served: an interrupt between
  a switch of bank and an access of other code does not misdirect the access.
\<close>

theorem interrupt_restores_bank:
  assumes K: "mcr_reads_back K r (iobase s)" and "115200 < baudrate s"
  shows "wp (ircard_interrupt K) (\<lambda>_ t. chip_bank (chip_of r (iobase s) (card_acts t)) = chip_bank (chip_of r (iobase s) (card_acts s)) \<and>
    \<not> in_interrupt t) some_fault s"
proof -
  have "\<not> baudrate s \<le> 115200"
    using assms(2) by simp
  then show ?thesis
    by (simp add: ircard_interrupt_def wp_simps access_wp wp_switch [OF K] Let_def wp_to_bank [OF K])
      (rule wp_always; simp add: wp_to_bank [OF K] chip_run)
qed

lemma interrupt_restores_bank_witness:
  "wp (ircard_interrupt listening_card) (\<lambda>_ t. chip_bank (chip_of 0 0x100 (card_acts t)) = 0 \<and> \<not> in_interrupt t) some_fault fresh_card"
  using interrupt_restores_bank [of listening_card 0 fresh_card] by (simp add: fresh_card_def chip_of_def chip_bank_def)

text \<open>
  C16. A change of speed on the registers, for every speed: the transceiver sequence, the hardware reset and the mode. At the
  fast speeds (above 115200) reception is started and the queue is emptied; the two reset commands of that start
  (\<open>RESET_RX_SPEC_BITS\<close>, \<open>RESET_RX_RFP\<close>) are written while bank 2 is selected and do not reach the reset register, which is in
  bank 0. At the slow speeds bank 2 stays selected, and the queue and the direction are what they were. The control register
  reads back what was written to it.
\<close>

theorem speed_change_registers:
  assumes "mcr_reads_back K r (iobase s)"
  shows "wp (ircard_change_speed K speed) (\<lambda>_ t.
      chip_log (chip_of r (iobase s) (card_acts t)) = chip_log (chip_of r (iobase s) (card_acts s)) @
        transceiver_log (baudrate s) speed @ [(0, 7, 7), (2, IR_CONF, conf_of speed)] @
        (if 115200 < speed then [(2, RESET, RESET_RX_SPEC_BITS), (2, RESET, RESET_RX_RFP),
           (0, RX_CTRL, RX_CTRL_EN_CRC OR RX_CTRL_COND_I), (0, MISC, 0xc0)] else []) \<and>
      chip_mcr (chip_of r (iobase s) (card_acts t)) = (if 115200 < speed then MCR_RX_EN OR MCR_INTR_EN else 2) \<and>
      baudrate t = speed \<and> tbusy t = 0 \<and> hard_start_xmit t = (if 115200 < speed then Ircard_hard_xmit else Irport_hard_xmit) \<and>
      (if 115200 < speed then q_len (tx_q t) = 0 \<and> io_direction t = IO_RECV else tx_q t = tx_q s \<and> io_direction t = io_direction s)) never s"
  by (rule change_speed_run [OF assms(1)])
    (auto simp: speed_state_def speed_chip_def receive_chip_def chip_bank_def reset_queue_def Let_def)

lemma speed_change_registers_witness:
  "wp (ircard_change_speed listening_card 1152000) (\<lambda>_ t.
      chip_log (chip_of 0 0x100 (card_acts t)) = [(2, 2, 0x10), (2, 2, 0), (0, 7, 7), (2, 1, 2), (2, 7, 0x30), (2, 7, 0x40), (0, 6, 0x41), (0, 1, 0xc0)]) never fresh_card \<and>
    wp (ircard_change_speed listening_card 9600) (\<lambda>_ t.
      chip_log (chip_of 0 0x100 (card_acts t)) = [(2, 2, 0x10), (2, 2, 0), (0, 7, 7), (2, 1, 0)] \<and> tx_q t = tx_q fresh_card) never fresh_card"
  by (intro conjI; rule wp_weaken [OF speed_change_registers [where r = 0]])
    (simp_all add: fresh_card_def chip_of_def transceiver_log_def conf_of_def)

text \<open>
  The history of a handler that has delivered the frame \<open>d\<close> and reads register 1 next, with the banks it has read in since \<open>s\<close>.
\<close>

definition misread_after :: "byte \<Rightarrow> ircard \<Rightarrow> byte list \<Rightarrow> ircard \<Rightarrow> bool" where
  "misread_after r s d t \<longleftrightarrow> (\<exists>h. prefix (h @ [Delivered d, Inb (iobase s + MSR)]) (card_acts t) \<and>
     chip_reads (chip_of r (iobase s) (h @ [Delivered d, Inb (iobase s + MSR)])) = chip_reads (chip_of r (iobase s) (card_acts s)) @
       [(0, MSR), (1, RX_RING_FRM_PTR_LOW), (1, RX_RING_FRM_PTR_HIGH), (1, MSR)])"

lemma chip_of_append: "chip_of r base (h @ l) = fold (chip_act base) l (chip_of r base h)"
  by (simp add: chip_of_def)

text \<open>Serving a received frame: it is delivered, and the next access is the read of register 1; what follows keeps that.\<close>

lemma status_read_next:
  assumes "received_by K r base mem p" and "1 < length d" and "length d \<le> 2050" and "length crc = 4" and "p < 0x4000"
    and "int (length d + 4) + 1 \<le> p"
    and "stored mem (membase u + p - int (length d + 4) - 1) (d @ crc @ length_field (length d + 4))"
    and "msr = MSR_RX_COND_ID \<or> msr = MSR_RX_DATA_ID" and "iobase u = base"
    and h: "h = switched (card_acts u) base (chip_mcr (chip_of r base (card_acts u))) 1 @ takes_frame base (membase u) d p"
  shows "wp (serve_causes K base msr (Suc left)) (\<lambda>_ t. prefix (h @ [Delivered d, Inb (base + MSR)]) (card_acts t) \<and> iobase t = base)
    (\<lambda>_ t. prefix (h @ [Delivered d, Inb (base + MSR)]) (card_acts t)) u"
proof -
  let ?E = "\<lambda>(_ :: fault) t :: ircard. prefix (h @ [Delivered d, Inb (base + MSR)]) (card_acts t)"
  have "0 < p"
    using assms(6) by simp
  then have "wp (ircard_receive_complete K base) (\<lambda>v t. v \<and>
      card_acts t = switched (card_acts u) base (chip_mcr (chip_of r base (card_acts u))) 1 @ takes_frame base (membase u) d p @ [Delivered d] \<and>
      rx_packets t = rx_packets u + 1 \<and> tx_q t = tx_q u \<and> iobase t = iobase u) never u"
    using frame_taken [OF assms(1-4) _ assms(5,7)] assms(6) by simp
  then have taken: "wp (ircard_receive_complete K base) (\<lambda>v t. card_acts t = h @ [Delivered d] \<and> iobase t = base) ?E u"
    by (rule wp_mono) (simp_all add: h assms(9))
  have causes: "serve_causes K base msr (Suc left) = thn (ignore (ircard_receive_complete K base))
      (bnd (c_inb K (base + MSR)) (\<lambda>v. serve_causes K base (v AND MSR_ID_MASK) left))"
    using assms(8) by (auto simp: serve_cause_def)
  show ?thesis
    unfolding causes wp_thn wp_ignore
    by (rule wp_weaken [OF taken]) (simp add: wp_bnd wp_c_inb history.serve_causes_kept)
qed

text \<open>
  C17. When the status says that a frame was received, and the frame lies in one piece in the ring as in C15, the handler
  delivers it and then reads the next status while bank 1 is
  still selected, so from the frame address register and not from the status register. This has happened whatever
  the controller answers further on, and however the handler ends.
\<close>

theorem next_status_from_wrong_bank:
  assumes "received_by K r (iobase s) mem p" and "115200 < baudrate s"
    and "1 < length d" and "length d \<le> 2050" and "length crc = 4" and "p < 0x4000" and "int (length d + 4) + 1 \<le> p"
    and "stored mem (membase s + p - int (length d + 4) - 1) (d @ crc @ length_field (length d + 4))"
    and "c_in K (switched (card_acts s) (iobase s) (chip_mcr (chip_of r (iobase s) (card_acts s))) 0 @ [Inb (iobase s + MSR)])
      AND MSR_ID_MASK \<in> {MSR_RX_COND_ID, MSR_RX_DATA_ID}"
  shows "wp (ircard_interrupt K) (\<lambda>_. misread_after r s d) (\<lambda>_. misread_after r s d) s"
proof -
  define base where "base = iobase s"
  define u where "u = s\<lparr>in_interrupt := True, card_acts := switched (card_acts s) base (chip_mcr (chip_of r base (card_acts s))) 0 @ [Inb (base + MSR)]\<rparr>"
  define h where "h = switched (card_acts u) base (chip_mcr (chip_of r base (card_acts u))) 1 @ takes_frame base (membase s) d p"
  let ?H = "h @ [Delivered d, Inb (base + MSR)]" and ?msr = "c_in K (card_acts u) AND MSR_ID_MASK"
  let ?I = "\<lambda>t :: ircard. prefix ?H (card_acts t) \<and> iobase t = base" and ?E = "\<lambda>(_ :: fault) t :: ircard. prefix ?H (card_acts t)"
  have K: "mcr_reads_back K r base"
    using assms(1) by (simp add: received_by_def base_def)
  have fast: "\<not> baudrate s \<le> 115200"
    using assms(2) by simp
  have msr: "?msr = MSR_RX_COND_ID \<or> ?msr = MSR_RX_DATA_ID"
    using assms(9) by (simp add: u_def base_def)
  have "chip_reads (chip_of r base ?H) = chip_reads (chip_of r base (card_acts s)) @
      [(0, MSR), (1, RX_RING_FRM_PTR_LOW), (1, RX_RING_FRM_PTR_HIGH), (1, MSR)]"
    unfolding h_def append_assoc chip_of_append [of _ _ "switched x base b c" for x b c] chip_of_switched
    by (simp add: takes_frame_def chip_read_def chip_bank_def bank_of_or u_def chip_simps del: append_assoc)
  then have want: "misread_after r s d t" if "prefix ?H (card_acts t)" for t
    using that unfolding misread_after_def base_def [symmetric] by blast
  have served: "wp (serve_causes K base ?msr (Suc left)) (\<lambda>_. ?I) ?E u" for left
    using status_read_next [OF assms(1) [folded base_def] assms(3-7), where u = u and msr = "?msr" and left = left and h = h] assms(8) msr
    by (simp add: h_def u_def base_def)
  have ending: "wp (to_bank K base b) (\<lambda>_. wp (modify (\<lambda>s. s\<lparr>in_interrupt := False\<rparr>)) (\<lambda>_. ?I) ?E) ?E t" if "?I t" for t b
    by (rule wp_weaken [OF keepsD [OF history.quiet_I that]], rule quiet_kept, rule keepsD [OF history.quiet_I],
        rule history.quiet_fields)
  have "wp (serve_causes K base ?msr 11) (\<lambda>_. wp (to_bank K base b) (\<lambda>_. wp (modify (\<lambda>s. s\<lparr>in_interrupt := False\<rparr>)) (\<lambda>_. ?I) ?E) ?E) ?E u" for b
    using served [of 10] by (intro wp_weaken [OF served [of 10, simplified]] ending) simp
  then have "wp (ircard_interrupt K) (\<lambda>_. ?I) ?E s"
    by (simp add: ircard_interrupt_def fast wp_bnd wp_thn wp_gets wp_modify wp_c_inb wp_switch [OF K [unfolded base_def]] Let_def u_def base_def)
  then show ?thesis
    by (rule wp_mono) (simp_all add: want)
qed

text \<open>The frame of C15, and a status register that reports it.\<close>

lemma next_status_from_wrong_bank_witness:
  "wp (ircard_interrupt (stored_card ((\<lambda>_. 0)(0xd0000 := 7, 0xd0001 := 9, 0xd0006 := 6)) 7))
    (\<lambda>_. misread_after 0 fresh_card [7, 9]) (\<lambda>_. misread_after 0 fresh_card [7, 9]) fresh_card"
  using next_status_from_wrong_bank [where K = "stored_card ((\<lambda>_. 0)(0xd0000 := 7, 0xd0001 := 9, 0xd0006 := 6)) 7" and r = 0 and
      mem = "(\<lambda>_. 0)(0xd0000 := 7, 0xd0001 := 9, 0xd0006 := 6)" and p = 7 and d = "[7, 9]" and crc = "[0, 0, 0, 0]" and s = fresh_card]
  by (simp add: received_by_def stored_card_def mcr_reads_back_def stored_Cons stored_def length_field_def fresh_card_def
      low_byte_def high_byte_def switched_def chip_bank_def chip_of_def chip_write_def chip_read_def)

end
