(* ===== verification/Ircard_Services.thy ===== *)
theory Ircard_Services
  imports Ircard_Interrupt
begin

text \<open>
  The part of the kernel driver \<open>pcmcia/ircard_cs.c\<close> that works with Card Services: attaching and detaching an instance,
  configuring the card from its configuration table, card events, release, and loading and unloading the module. What Card
  Services and the kernel answer is a parameter; flags whose values are in their headers are named constants of a datatype.
\<close>

section \<open>State\<close>

datatype dev_flag = DEV_PRESENT | DEV_CONFIG | DEV_STALE_CONFIG | DEV_STALE_LINK | DEV_CONFIG_PENDING | DEV_RELEASE_PENDING | DEV_SUSPEND

datatype conf_flag = CONF_ENABLE_IRQ | CONF_ENABLE_SPKR

datatype path_width = IO_DATA_PATH_WIDTH_8 | IO_DATA_PATH_WIDTH_16 | IO_DATA_PATH_WIDTH_AUTO

abbreviation (input) IRCARD_MAGIC :: int where "IRCARD_MAGIC \<equiv> 92612"

text \<open>An entry of the configuration table; a voltage is given or absent (\<open>present & (1<<CISTPL_POWER_VNOM)\<close>).\<close>

record cftable_entry =
  cf_default :: bool
  cf_index :: int
  cf_audio :: bool
  cf_vcc :: "int option"
  cf_vpp1 :: "int option"
  cf_irq :: int                  \<comment> \<open>\<open>irq.IRQInfo1\<close>\<close>
  cf_io_8bit :: bool
  cf_io_16bit :: bool
  cf_io_win :: "(int \<times> int) list"     \<comment> \<open>base and length; \<open>nwin\<close> is the length of the list\<close>
  cf_mem_win :: "(int \<times> int) list"    \<comment> \<open>length and card address\<close>

definition no_entry :: cftable_entry where
  "no_entry = \<lparr>cf_default = False, cf_index = 0, cf_audio = False, cf_vcc = None, cf_vpp1 = None, cf_irq = 0,
     cf_io_8bit = False, cf_io_16bit = False, cf_io_win = [], cf_mem_win = []\<rparr>"

record link_conf =
  c_attributes :: "conf_flag list"
  c_vcc :: int
  c_vpp1 :: int
  c_vpp2 :: int
  c_status_audio :: bool         \<comment> \<open>\<open>Status = CCSR_AUDIO_ENA\<close>\<close>
  c_config_base :: int
  c_present :: int
  c_config_index :: int

record link_io =
  io_base1 :: int
  io_ports1 :: int
  io_attr1 :: path_width
  io_base2 :: int
  io_ports2 :: int
  io_attr2 :: path_width

text \<open>\<open>dev_link_t\<close> with its private data \<open>ircard_cb\<close>.\<close>

record dev_link =
  l_state :: "dev_flag list"
  l_open :: int
  l_handle :: int
  l_win :: int
  l_irq_info2 :: u32
  l_assigned_irq :: int
  l_conf :: link_conf
  l_io :: link_io
  l_magic :: int
  l_stop :: int
  l_card :: ircard

text \<open>
  The links that are allocated, \<open>dev_list\<close>, the release timers that run, and the history. Links are named by numbers in the
  order of their allocation.
\<close>

record card_driver =
  links :: "nat \<Rightarrow> dev_link option"
  dev_list :: "nat list"
  next_link :: nat
  timers :: "nat list"
  drv_acts :: "card_act list"

type_synonym 'a csm = "(card_driver, 'a) cm"

text \<open>A tuple of the card's configuration table: what \<open>GetTupleData\<close> and \<open>ParseTuple\<close> return for it, and its content.\<close>

record cis_tuple =
  t_data :: int
  t_parse :: int
  t_entry :: cftable_entry

record card_services =
  cs_card :: card_system
  cs_config :: "int \<times> int"             \<comment> \<open>base and \<open>rmask[0]\<close> of the \<open>CISTPL_CONFIG\<close> tuple\<close>
  cs_table :: "cis_tuple list"
  cs_io :: "link_io \<Rightarrow> link_io"
  cs_window :: "card_act list \<Rightarrow> int \<times> int"  \<comment> \<open>window handle and base\<close>
  cs_irq :: "card_act list \<Rightarrow> int"
  cs_handle :: "card_act list \<Rightarrow> int"
  par_irq_mask :: u32
  par_irq_list :: "int list"

section \<open>Calls\<close>

definition cs_act :: "string \<Rightarrow> int list \<Rightarrow> unit csm" where
  "cs_act name args = modify (\<lambda>s. s\<lparr>drv_acts := drv_acts s @ [Kernel name args]\<rparr>)"

definition cs_call :: "card_services \<Rightarrow> string \<Rightarrow> int list \<Rightarrow> int csm" where
  "cs_call K name args = thn (cs_act name args) (gets (\<lambda>s. c_int (cs_card K) (drv_acts s)))"

text \<open>A link that was freed is no object any more.\<close>

definition with_link :: "nat \<Rightarrow> (dev_link \<Rightarrow> 'a csm) \<Rightarrow> 'a csm" where
  "with_link i f = bnd (gets (\<lambda>s. links s i)) (\<lambda>l. case l of None \<Rightarrow> stop Oob_read | Some l \<Rightarrow> f l)"

definition upd_link :: "nat \<Rightarrow> (dev_link \<Rightarrow> dev_link) \<Rightarrow> unit csm" where
  "upd_link i f = with_link i (\<lambda>l. modify (\<lambda>s. s\<lparr>links := (links s)(i := Some (f l))\<rparr>))"

text \<open>An operation of the chip on the card of a link.\<close>

definition on_card :: "nat \<Rightarrow> 'a cardm \<Rightarrow> 'a csm" where
  "on_card i m = with_link i (\<lambda>l s. case m ((l_card l)\<lparr>card_acts := drv_acts s\<rparr>) of
     (r, c) \<Rightarrow> (r, s\<lparr>links := (links s)(i := Some (l\<lparr>l_card := c\<rparr>)), drv_acts := card_acts c\<rparr>))"

definition cs_error :: "int \<Rightarrow> string \<Rightarrow> int \<Rightarrow> unit csm" where
  "cs_error handle func r = cs_act (''ReportError '' @ func) [handle, r]"

definition set_flag :: "dev_flag \<Rightarrow> dev_link \<Rightarrow> dev_link" where
  "set_flag f l = l\<lparr>l_state := List.insert f (l_state l)\<rparr>"

definition clear_flags :: "dev_flag list \<Rightarrow> dev_link \<Rightarrow> dev_link" where
  "clear_flags fs l = l\<lparr>l_state := filter (\<lambda>f. \<not> List.member fs f) (l_state l)\<rparr>"

definition has_flag :: "dev_flag \<Rightarrow> dev_link \<Rightarrow> bool" where
  "has_flag f l = List.member (l_state l) f"

section \<open>Attach and detach\<close>

text \<open>The private data after \<open>memset\<close>.\<close>

definition blank_card :: ircard where
  "blank_card = \<lparr>tx_q = \<lparr>q_frames = replicate MAX_WINDOW \<lparr>fc_start = 0, fc_len = 0\<rparr>, q_ptr = 0, q_len = 0, q_free = 0, q_tail = 0\<rparr>,
     rx_data = 0, rx_stamp = (0, 0), baudrate = 0, io_direction = IO_XMIT, iobase = 0, iobase2 = 0, membase = 0,
     hard_start_xmit = Irport_hard_xmit, tbusy = 0, media_busy = False, in_interrupt = False, tx_packets = 0, tx_bytes = 0,
     tx_buff_len = 0, tx_errors = 0, tx_fifo_errors = 0, rx_packets = 0, rx_errors = 0, rx_frame_errors = 0, rx_fifo_errors = 0,
     rx_outside_frame = True, card_acts = []\<rparr>"

definition blank_conf :: link_conf where
  "blank_conf = \<lparr>c_attributes = [], c_vcc = 50, c_vpp1 = 0, c_vpp2 = 0, c_status_audio = False, c_config_base = 0, c_present = 0, c_config_index = 0\<rparr>"

definition blank_io :: link_io where
  "blank_io = \<lparr>io_base1 = 0, io_ports1 = 0, io_attr1 = IO_DATA_PATH_WIDTH_8, io_base2 = 0, io_ports2 = 0, io_attr2 = IO_DATA_PATH_WIDTH_8\<rparr>"

text \<open>The interrupts to choose from; a shift by a negative or too large number has no result.\<close>

fun irq_bits :: "int list \<Rightarrow> u32 option" where
  "irq_bits [] = Some 0"
| "irq_bits (n # ns) = (if n < 0 \<or> 32 \<le> n then None else map_option (\<lambda>w. push_bit (nat n) 1 OR w) (irq_bits ns))"

definition irq_choice :: "u32 \<Rightarrow> int list \<Rightarrow> u32 option" where
  "irq_choice choosable given = (if hd given = -1 then Some choosable else irq_bits (take 4 given))"

definition ircard_detach :: "card_services \<Rightarrow> nat \<Rightarrow> unit csm" where
  "ircard_detach K i = with_link i (\<lambda>l.
     bnd (gets dev_list) (\<lambda>ls.
     if i \<notin> set ls then ret ()
     else if has_flag DEV_CONFIG l then upd_link i (set_flag DEV_STALE_LINK)
     else seqs [
       doif (l_handle l \<noteq> 0) (cs_act ''DeregisterClient'' [l_handle l]),
       modify (\<lambda>s. s\<lparr>dev_list := remove1 i (dev_list s)\<rparr>),
       cs_act ''irport_stop'' [iobase2 (l_card l)],
       cs_act ''irda_device_close'' [],
       modify (\<lambda>s. s\<lparr>links := (links s)(i := None)\<rparr>)]))"

definition ircard_attach :: "card_services \<Rightarrow> nat option csm" where
  "ircard_attach K =
    bnd (cs_call K ''kmalloc'' []) (\<lambda>p.
    thn (check Null_deref (p \<noteq> 0)) (
    case irq_choice (par_irq_mask K) (par_irq_list K) of None \<Rightarrow> stop Impl_defined | Some irqs \<Rightarrow>
    bnd (cs_call K ''kmalloc'' []) (\<lambda>p.
    thn (check Null_deref (p \<noteq> 0)) (
    bnd (gets next_link) (\<lambda>i.
    thn (modify (\<lambda>s. s\<lparr>links := (links s)(i := Some \<lparr>l_state = [], l_open = 0, l_handle = 0, l_win = 0, l_irq_info2 = irqs,
        l_assigned_irq = 0, l_conf = blank_conf, l_io = blank_io, l_magic = IRCARD_MAGIC, l_stop = 0, l_card = blank_card\<rparr>),
      dev_list := i # dev_list s, next_link := i + 1\<rparr>)) (
    bnd (cs_call K ''RegisterClient'' []) (\<lambda>r.
    thn (bnd (gets (\<lambda>s. cs_handle K (drv_acts s))) (\<lambda>h. doif (r = 0) (upd_link i (\<lambda>l. l\<lparr>l_handle := h\<rparr>)))) (
    if r \<noteq> 0 then
      with_link i (\<lambda>l. thn (cs_error (l_handle l) ''RegisterClient'' r) (thn (ircard_detach K i) (ret None)))
    else ret (Some i)))))))))"

section \<open>Configuration\<close>

text \<open>
  The settings an entry makes. \<open>dflt\<close> is declared inside the loop, so it holds the entry itself or nothing.
\<close>

definition entry_power :: "cftable_entry \<Rightarrow> cftable_entry \<Rightarrow> link_conf \<Rightarrow> link_conf" where
  "entry_power dflt cfg c = (
     let c = (case cf_vcc cfg of Some v \<Rightarrow> c\<lparr>c_vcc := v div 10000\<rparr>
              | None \<Rightarrow> (case cf_vcc dflt of Some v \<Rightarrow> c\<lparr>c_vcc := v div 10000\<rparr> | None \<Rightarrow> c)) in
     case cf_vpp1 cfg of Some v \<Rightarrow> c\<lparr>c_vpp1 := v div 10000, c_vpp2 := v div 10000\<rparr>
     | None \<Rightarrow> (case cf_vpp1 dflt of Some v \<Rightarrow> c\<lparr>c_vpp1 := v div 10000, c_vpp2 := v div 10000\<rparr> | None \<Rightarrow> c))"

definition entry_io :: "cftable_entry \<Rightarrow> cftable_entry \<Rightarrow> link_io \<Rightarrow> link_io" where
  "entry_io dflt cfg io = (
     let io = io\<lparr>io_ports1 := 0, io_ports2 := 0\<rparr> in
     if cf_io_win cfg = [] \<and> cf_io_win dflt = [] then io else
     let e = (if cf_io_win cfg \<noteq> [] then cfg else dflt);
         w = (if \<not> cf_io_16bit e then IO_DATA_PATH_WIDTH_8 else if \<not> cf_io_8bit e then IO_DATA_PATH_WIDTH_16 else IO_DATA_PATH_WIDTH_AUTO);
         io = io\<lparr>io_attr1 := w, io_base1 := fst (cf_io_win e ! 0), io_ports1 := snd (cf_io_win e ! 0)\<rparr> in
     if 1 < length (cf_io_win e) then
       io\<lparr>io_attr2 := io_attr1 io, io_base2 := fst (cf_io_win e ! 1), io_ports2 := snd (cf_io_win e ! 1)\<rparr>
     else io)"

definition entry_settings :: "cftable_entry \<Rightarrow> cftable_entry \<Rightarrow> dev_link \<Rightarrow> dev_link" where
  "entry_settings dflt cfg l = (
     let c = (l_conf l)\<lparr>c_config_index := cf_index cfg\<rparr>;
         c = (if cf_audio cfg then c\<lparr>c_attributes := List.insert CONF_ENABLE_SPKR (c_attributes c), c_status_audio := True\<rparr> else c);
         c = entry_power dflt cfg c;
         c = (if cf_irq cfg \<noteq> 0 \<or> cf_irq dflt \<noteq> 0 then c\<lparr>c_attributes := List.insert CONF_ENABLE_IRQ (c_attributes c)\<rparr> else c)
     in l\<lparr>l_conf := c, l_io := entry_io dflt cfg (l_io l)\<rparr>)"

definition entry_memory :: "cftable_entry \<Rightarrow> cftable_entry \<Rightarrow> (int \<times> int) option" where
  "entry_memory dflt cfg = (
     if cf_mem_win cfg = [] \<and> cf_mem_win dflt = [] then None
     else Some (hd (cf_mem_win (if cf_mem_win cfg \<noteq> [] then cfg else dflt))))"

text \<open>
  One tuple: \<open>True\<close> when the card is configured_driver by it, \<open>False\<close> for \<open>goto next_entry\<close>. \<open>req\<close> is the base of the memory window
  requested so far, \<open>None\<close> while the variable has no value.
\<close>

definition try_entry :: "card_services \<Rightarrow> nat \<Rightarrow> cis_tuple \<Rightarrow> int option \<Rightarrow> (bool \<times> int option) csm" where
  "try_entry K i t req = (
     let cfg = t_entry t; dflt = (if cf_default cfg then cfg else no_entry); next_entry = ret (False, req) in
     thn (cs_act ''GetTupleData'' []) (if t_data t \<noteq> 0 then next_entry else
     thn (cs_act ''ParseTuple'' []) (if t_parse t \<noteq> 0 then next_entry else
     if cf_index cfg = 0 then next_entry else
     thn (upd_link i (entry_settings dflt cfg)) (
     bnd (cs_call K ''RequestIO'' []) (\<lambda>r. if r \<noteq> 0 then next_entry else
     thn (upd_link i (\<lambda>l. l\<lparr>l_io := cs_io K (l_io l)\<rparr>)) (
     case entry_memory dflt cfg of None \<Rightarrow> ret (True, req) | Some (len, addr) \<Rightarrow>
     thn (upd_link i (\<lambda>l. l\<lparr>l_win := l_handle l\<rparr>)) (
     bnd (cs_call K ''RequestWindow'' [0, 0x8000]) (\<lambda>r. if r \<noteq> 0 then ret (False, Some 0) else
     bnd (gets (\<lambda>s. cs_window K (drv_acts s))) (\<lambda>w.
     thn (upd_link i (\<lambda>l. l\<lparr>l_win := fst w\<rparr>)) (
     bnd (cs_call K ''MapMemPage'' [fst w, addr]) (\<lambda>r. ret (r = 0, Some (snd w)))))))))))))"

text \<open>\<open>CS_CHECK\<close>: a failing call ends the configuration.\<close>

datatype cs_failure = Cs_failed string int

definition cs_check :: "card_services \<Rightarrow> string \<Rightarrow> int list \<Rightarrow> (cs_failure + 'a) csm \<Rightarrow> (cs_failure + 'a) csm" where
  "cs_check K name args k = bnd (cs_call K name args) (\<lambda>r. if r \<noteq> 0 then ret (Inl (Cs_failed name r)) else k)"

text \<open>The loop over the table; \<open>CS_NO_MORE_ITEMS\<close> after the last entry.\<close>

abbreviation (input) CS_NO_MORE_ITEMS :: int where "CS_NO_MORE_ITEMS \<equiv> 0x1f"

fun scan_entries :: "card_services \<Rightarrow> nat \<Rightarrow> cis_tuple list \<Rightarrow> string \<Rightarrow> int option \<Rightarrow> (cs_failure + int option) csm" where
  "scan_entries K i [] name req = thn (cs_act name []) (ret (Inl (Cs_failed name CS_NO_MORE_ITEMS)))"
| "scan_entries K i (t # ts) name req = thn (cs_act name [])
     (bnd (try_entry K i t req) (\<lambda>(done, req). if done then ret (Inr req) else scan_entries K i ts ''GetNextTuple'' req))"

definition ircard_release :: "nat \<Rightarrow> unit csm" where
  "ircard_release i = with_link i (\<lambda>l.
     if l_open l \<noteq> 0 then upd_link i (set_flag DEV_STALE_CONFIG)
     else seqs [
       cs_act ''ReleaseWindow'' [l_win l],
       cs_act ''iounmap'' [membase (l_card l)],
       cs_act ''ReleaseConfiguration'' [l_handle l],
       cs_act ''ReleaseIO'' [l_handle l],
       cs_act ''ReleaseIRQ'' [l_handle l],
       upd_link i (clear_flags [DEV_CONFIG, DEV_RELEASE_PENDING])])"

text \<open>The line for the log.\<close>

definition cs_print :: "string \<Rightarrow> int list \<Rightarrow> unit csm" where
  "cs_print fm args = modify (\<lambda>s. s\<lparr>drv_acts := drv_acts s @ [Printk fm args]\<rparr>)"

definition report_card :: "nat \<Rightarrow> int \<Rightarrow> unit csm" where
  "report_card i req = with_link i (\<lambda>l. let c = l_conf l; io = l_io l in seqs [
     cs_print ''ircard0: index 0x%02x: Vcc %d.%d'' [c_config_index c, c_vcc c div 10, c_vcc c mod 10],
     doif (c_vpp1 c \<noteq> 0) (cs_print '', Vpp %d.%d'' [c_vpp1 c div 10, c_vpp1 c mod 10]),
     doif (List.member (c_attributes c) CONF_ENABLE_IRQ) (cs_print '', irq %d'' [l_assigned_irq l]),
     doif (io_ports1 io \<noteq> 0) (cs_print '', io 0x%04x-0x%04x'' [io_base1 io, io_base1 io + io_ports1 io - 1]),
     doif (io_ports2 io \<noteq> 0) (cs_print '' & 0x%04x-0x%04x'' [io_base2 io, io_base2 io + io_ports2 io - 1]),
     doif (l_win l \<noteq> 0) (cs_print '', mem 0x%06lx-0x%06lx'' [req, req + 0x8000 - 1]),
     cs_print (ln []) []])"

text \<open>From the mapped memory to the open device.\<close>

definition start_device :: "card_services \<Rightarrow> nat \<Rightarrow> int \<Rightarrow> unit csm" where
  "start_device K i req = seqs [
     bnd (cs_call K ''ioremap'' [req, 0x8000]) (\<lambda>m. upd_link i (\<lambda>l. l\<lparr>l_card := (l_card l)\<lparr>iobase := io_base1 (l_io l) + 8,
       iobase2 := io_base1 (l_io l), membase := m, baudrate := 9600,
       tx_q := (tx_q (l_card l))\<lparr>q_len := 0, q_ptr := 0, q_free := 0, q_tail := SHMEM_TX_START + m\<rparr>\<rparr>\<rparr>)),
     on_card i (ircard_probe (cs_card K)),
     cs_act ''irda_init_max_qos_capabilies'' [],
     cs_act ''irda_qos_bits_to_value'' [],
     upd_link i (\<lambda>l. l\<lparr>l_card := (l_card l)\<lparr>hard_start_xmit := Irport_hard_xmit\<rparr>\<rparr>),
     cs_act ''irda_device_open'' [],
     upd_link i (clear_flags [DEV_CONFIG_PENDING])]"

definition configure :: "card_services \<Rightarrow> nat \<Rightarrow> (cs_failure + int option) csm" where
  "configure K i =
    cs_check K ''GetFirstTuple'' [] (cs_check K ''GetTupleData'' [] (cs_check K ''ParseTuple'' [] (
    thn (upd_link i (\<lambda>l. set_flag DEV_CONFIG (l\<lparr>l_conf := (l_conf l)\<lparr>c_config_base := fst (cs_config K), c_present := snd (cs_config K)\<rparr>\<rparr>))) (
    bnd (scan_entries K i (cs_table K) ''GetFirstTuple'' None) (\<lambda>r. case r of Inl e \<Rightarrow> ret (Inl e) | Inr req \<Rightarrow>
    with_link i (\<lambda>l. let config = cs_check K ''RequestConfiguration'' [l_handle l] (ret (Inr req)) in
      if List.member (c_attributes (l_conf l)) CONF_ENABLE_IRQ
      then cs_check K ''RequestIRQ'' [l_handle l] (
        thn (bnd (gets (\<lambda>s. cs_irq K (drv_acts s))) (\<lambda>n. upd_link i (\<lambda>l. l\<lparr>l_assigned_irq := n\<rparr>))) config)
      else config))))))"

definition ircard_config :: "card_services \<Rightarrow> nat \<Rightarrow> unit csm" where
  "ircard_config K i = with_link i (\<lambda>l. if l_magic l \<noteq> IRCARD_MAGIC then ret () else
     bnd (configure K i) (\<lambda>r. case r of
       Inl (Cs_failed name code) \<Rightarrow> with_link i (\<lambda>l. thn (cs_error (l_handle l) name code) (ircard_release i))
     | Inr None \<Rightarrow> stop Impl_defined
     | Inr (Some req) \<Rightarrow> thn (report_card i req) (start_device K i req)))"

section \<open>Events\<close>

datatype card_event = CARD_REMOVAL | CARD_INSERTION | PM_SUSPEND | RESET_PHYSICAL | PM_RESUME | CARD_RESET | Other_event

definition stop_card :: "nat \<Rightarrow> unit csm" where
  "stop_card i = thn (upd_link i (\<lambda>l. l\<lparr>l_stop := 1\<rparr>))
     (with_link i (\<lambda>l. doif (has_flag DEV_CONFIG l) (cs_act ''ReleaseConfiguration'' [l_handle l])))"

definition restart_card :: "card_services \<Rightarrow> nat \<Rightarrow> unit csm" where
  "restart_card K i = seqs [
     with_link i (\<lambda>l. doif (has_flag DEV_CONFIG l) (cs_act ''RequestConfiguration'' [l_handle l])),
     upd_link i (\<lambda>l. l\<lparr>l_stop := 0\<rparr>),
     with_link i (\<lambda>l. cs_act ''irport_start'' [iobase2 (l_card l)]),
     on_card i (ircard_change_speed (cs_card K) 9600)]"

definition ircard_event :: "card_services \<Rightarrow> card_event \<Rightarrow> nat \<Rightarrow> int csm" where
  "ircard_event K e i = with_link i (\<lambda>l. if l_magic l \<noteq> IRCARD_MAGIC then ret (-1) else
     thn (case e of
         CARD_REMOVAL \<Rightarrow> thn (upd_link i (clear_flags [DEV_PRESENT])) (doif (has_flag DEV_CONFIG l)
           (thn (upd_link i (\<lambda>l. l\<lparr>l_stop := 1\<rparr>)) (modify (\<lambda>s. s\<lparr>timers := timers s @ [i]\<rparr>))))
       | CARD_INSERTION \<Rightarrow> thn (upd_link i (\<lambda>l. set_flag DEV_CONFIG_PENDING (set_flag DEV_PRESENT l))) (ircard_config K i)
       | PM_SUSPEND \<Rightarrow> thn (upd_link i (set_flag DEV_SUSPEND)) (stop_card i)
       | RESET_PHYSICAL \<Rightarrow> stop_card i
       | PM_RESUME \<Rightarrow> thn (upd_link i (clear_flags [DEV_SUSPEND])) (restart_card K i)
       | CARD_RESET \<Rightarrow> restart_card K i
       | Other_event \<Rightarrow> ret ()) (ret 0))"

text \<open>The timer a removal starts calls \<open>ircard_release\<close>.\<close>

definition timer_fires :: "nat \<Rightarrow> unit csm" where
  "timer_fires i = thn (modify (\<lambda>s. s\<lparr>timers := remove1 i (timers s)\<rparr>)) (ircard_release i)"

text \<open>The kernel calls the function of a timer only while the timer is pending.\<close>

definition timer_expires :: "nat \<Rightarrow> unit csm" where
  "timer_expires i = bnd (gets timers) (\<lambda>ts. doif (i \<in> set ts) (timer_fires i))"

section \<open>The module\<close>

definition init_module :: "card_services \<Rightarrow> bool \<Rightarrow> int csm" where
  "init_module K same_release = thn (cs_act ''GetCardServicesInfo'' [])
     (if \<not> same_release then thn (cs_print (ln ''ircard_cs: Card Services release does not match!'') []) (ret (-1)) else thn (cs_act ''register_pccard_driver'' []) (ret 0))"

text \<open>The loop that empties the list, at most \<open>n\<close> times; \<open>None\<close> when it has not ended.\<close>

fun cleanup_links :: "card_services \<Rightarrow> nat \<Rightarrow> unit option csm" where
  "cleanup_links K n = bnd (gets dev_list) (\<lambda>ls. case ls of [] \<Rightarrow> ret (Some ()) | i # _ \<Rightarrow>
     (case n of 0 \<Rightarrow> ret None | Suc n \<Rightarrow>
       thn (with_link i (\<lambda>l. doif (has_flag DEV_CONFIG l) (ircard_release i)))
         (thn (ircard_detach K i) (cleanup_links K n))))"

definition cleanup_module :: "card_services \<Rightarrow> nat \<Rightarrow> unit option csm" where
  "cleanup_module K n = thn (cs_act ''unregister_pccard_driver'' []) (cleanup_links K n)"

section \<open>The links\<close>

text \<open>Exactly the listed links are allocated, each once, none is open, and numbers are not used again.\<close>

definition sound_link :: "dev_link \<Rightarrow> bool" where
  "sound_link l \<longleftrightarrow> l_open l = 0 \<and> l_magic l = IRCARD_MAGIC"

definition links_sound :: "card_driver \<Rightarrow> bool" where
  "links_sound s \<longleftrightarrow> distinct (dev_list s) \<and> (\<forall>i. links s i \<noteq> None \<longleftrightarrow> i \<in> set (dev_list s)) \<and>
     (\<forall>i\<in>set (dev_list s). i < next_link s) \<and> (\<forall>i l. links s i = Some l \<longrightarrow> sound_link l)"

named_theorems links_kept

lemma keeps_cs_act [links_kept]: "keeps links_sound some_fault (cs_act nm as)"
  by (rule keepsI) (simp add: cs_act_def wp_modify links_sound_def)

lemma keeps_cs_print [links_kept]: "keeps links_sound some_fault (cs_print nm as)"
  by (rule keepsI) (simp add: cs_print_def wp_modify links_sound_def)

lemma keeps_cs_call [links_kept]: "keeps links_sound some_fault (cs_call K nm as)"
  unfolding cs_call_def by (intro structure_kept links_kept)

lemma keeps_cs_error [links_kept]: "keeps links_sound some_fault (cs_error h nm r)"
  unfolding cs_error_def by (rule links_kept)

lemma keeps_timers [links_kept]: "keeps links_sound some_fault (modify (\<lambda>s. s\<lparr>timers := f s\<rparr>))"
  by (rule keepsI) (simp add: wp_modify links_sound_def)

lemma keeps_stop [links_kept]: "keeps links_sound some_fault (stop e)"
  by (simp add: keeps_def wp_stop)

lemma keeps_with_link [links_kept]: "(\<And>l. keeps links_sound some_fault (f l)) \<Longrightarrow> keeps links_sound some_fault (with_link i f)"
  unfolding with_link_def by (intro structure_kept keeps_option links_kept)

lemma wp_with_link: "wp (with_link i f) Q E s = (case links s i of None \<Rightarrow> E Oob_read s | Some l \<Rightarrow> wp (f l) Q E s)"
  by (simp add: with_link_def wp_simps split: option.split)

lemma keeps_upd_link [links_kept]: "(\<And>l. sound_link l \<Longrightarrow> sound_link (f l)) \<Longrightarrow> keeps links_sound some_fault (upd_link i f)"
  by (rule keepsI) (auto simp: upd_link_def wp_with_link wp_modify links_sound_def split: option.split)

lemma wp_on_card: "wp (on_card i m) Q E s = (case links s i of None \<Rightarrow> E Oob_read s
    | Some l \<Rightarrow> (case m ((l_card l)\<lparr>card_acts := drv_acts s\<rparr>) of
       (r, c) \<Rightarrow> (let t = s\<lparr>links := (links s)(i := Some (l\<lparr>l_card := c\<rparr>)), drv_acts := card_acts c\<rparr> in
         case r of Inl e \<Rightarrow> E e t | Inr a \<Rightarrow> Q a t)))"
  by (cases "links s i") (simp_all add: on_card_def wp_def with_link_def bnd_def gets_def stop_def Let_def split: prod.split)

lemma keeps_on_card [links_kept]: "keeps links_sound some_fault (on_card i m)"
  by (rule keepsI)
    (auto simp: wp_on_card links_sound_def sound_link_def Let_def split: option.split prod.split sum.split)

lemma sound_flags [simp]: "sound_link (set_flag f l) = sound_link l" "sound_link (clear_flags fs l) = sound_link l"
  by (simp_all add: sound_link_def set_flag_def clear_flags_def)

lemma keeps_release [links_kept]: "keeps links_sound some_fault (ircard_release i)"
  unfolding ircard_release_def by (intro structure_kept links_kept) simp_all

lemma keeps_report [links_kept]: "keeps links_sound some_fault (report_card i req)"
  unfolding report_card_def by (intro structure_kept links_kept)

lemma keeps_start_device [links_kept]: "keeps links_sound some_fault (start_device K i req)"
  unfolding start_device_def by (intro structure_kept links_kept) (simp_all add: sound_link_def clear_flags_def)

lemma sound_settings [simp]: "sound_link (entry_settings d c l) = sound_link l"
  by (simp add: sound_link_def entry_settings_def Let_def)

lemma keeps_try_entry [links_kept]: "keeps links_sound some_fault (try_entry K i t req)"
  unfolding try_entry_def split_beta Let_def by (intro structure_kept keeps_option links_kept) (simp_all add: sound_link_def entry_settings_def Let_def)

lemma keeps_scan [links_kept]: "keeps links_sound some_fault (scan_entries K i ts name req)"
proof (induction ts arbitrary: name req)
  case Nil
  then show ?case
    unfolding scan_entries.simps by (intro structure_kept links_kept)
next
  case (Cons t ts)
  then show ?case
    unfolding scan_entries.simps split_beta by (intro structure_kept links_kept)
qed

lemma keeps_cs_check [links_kept]: "keeps links_sound some_fault k \<Longrightarrow> keeps links_sound some_fault (cs_check K nm as k)"
  unfolding cs_check_def by (intro structure_kept links_kept)

lemma keeps_sum: "(\<And>e. keeps I E (f e)) \<Longrightarrow> (\<And>a. keeps I E (g a)) \<Longrightarrow> keeps I E (case x of Inl e \<Rightarrow> f e | Inr a \<Rightarrow> g a)"
  by (cases x) simp_all

lemma keeps_configure [links_kept]: "keeps links_sound some_fault (configure K i)"
  unfolding configure_def Let_def by (intro structure_kept keeps_sum links_kept) (simp_all add: sound_link_def set_flag_def)

lemma keeps_cs_failure: "(\<And>nm r. keeps I E (f nm r)) \<Longrightarrow> keeps I E (case x of Cs_failed nm r \<Rightarrow> f nm r)"
  by (cases x) simp

lemma keeps_config [links_kept]: "keeps links_sound some_fault (ircard_config K i)"
  unfolding ircard_config_def by (intro structure_kept keeps_sum keeps_option keeps_cs_failure links_kept)

lemma keeps_stop_card [links_kept]: "keeps links_sound some_fault (stop_card i)"
  unfolding stop_card_def by (intro structure_kept links_kept) (simp add: sound_link_def)

lemma keeps_restart_card [links_kept]: "keeps links_sound some_fault (restart_card K i)"
  unfolding restart_card_def by (intro structure_kept links_kept) (simp add: sound_link_def)

lemma keeps_event [links_kept]: "keeps links_sound some_fault (ircard_event K e i)"
  unfolding ircard_event_def
  by (cases e; simp only: card_event.case) (intro structure_kept links_kept; simp add: sound_link_def set_flag_def clear_flags_def)+

lemma keeps_timer_fires [links_kept]: "keeps links_sound some_fault (timer_fires i)"
  unfolding timer_fires_def by (intro structure_kept links_kept)

lemma keeps_timer_expires [links_kept]: "keeps links_sound some_fault (timer_expires i)"
  unfolding timer_expires_def by (intro structure_kept links_kept)

text \<open>A link taken from the list and freed, and a new one.\<close>

lemma links_sound_removed:
  assumes "links_sound s"
  shows "links_sound (s\<lparr>dev_list := remove1 i (dev_list s), drv_acts := h, links := (links s)(i := None)\<rparr>)"
  using assms by (auto simp: links_sound_def)

lemma keeps_detach [links_kept]: "keeps links_sound some_fault (ircard_detach K i)"
proof (rule keepsI)
  fix s
  assume s: "links_sound s"
  have flag: "wp (upd_link i (set_flag DEV_STALE_LINK)) (\<lambda>_. links_sound) some_fault s"
    by (rule keepsD [OF keeps_upd_link s]) simp
  show "wp (ircard_detach K i) (\<lambda>_. links_sound) some_fault s"
    using s flag links_sound_removed [OF s, of i]
    by (auto simp: ircard_detach_def wp_with_link wp_simps cs_act_def split: option.split)
qed

lemma keeps_new_link:
  assumes "sound_link l" and "\<And>i. keeps links_sound some_fault (k i)"
  shows "keeps links_sound some_fault (bnd (gets next_link) (\<lambda>i. thn (modify (\<lambda>s. s\<lparr>links := (links s)(i := Some l),
    dev_list := i # dev_list s, next_link := i + 1\<rparr>)) (k i)))"
proof (rule keepsI)
  fix s
  assume "links_sound s"
  then have "links_sound (s\<lparr>links := (links s)(next_link s := Some l), dev_list := next_link s # dev_list s, next_link := next_link s + 1\<rparr>)"
    using assms(1) by (auto simp: links_sound_def)
  then show "wp (bnd (gets next_link) (\<lambda>i. thn (modify (\<lambda>s. s\<lparr>links := (links s)(i := Some l),
      dev_list := i # dev_list s, next_link := i + 1\<rparr>)) (k i))) (\<lambda>_. links_sound) some_fault s"
    unfolding wp_bnd wp_thn wp_gets wp_modify by (rule keepsD [OF assms(2)])
qed

lemma keeps_check_links [links_kept]: "keeps links_sound some_fault (check e b)"
  by (simp add: keeps_def wp_check)

lemma keeps_attach [links_kept]: "keeps links_sound some_fault (ircard_attach K)"
  unfolding ircard_attach_def by (intro keeps_new_link structure_kept keeps_option links_kept) (simp_all add: sound_link_def)

section \<open>Properties\<close>

text \<open>What the kernel calls in the driver.\<close>

datatype driver_call = Attach | Detach nat | Event card_event nat | Timer nat | Device nat card_call

fun driver_called :: "card_services \<Rightarrow> driver_call \<Rightarrow> unit csm" where
  "driver_called K Attach = ignore (ircard_attach K)"
| "driver_called K (Detach i) = ircard_detach K i"
| "driver_called K (Event e i) = ignore (ircard_event K e i)"
| "driver_called K (Timer i) = timer_expires i"
| "driver_called K (Device i c) = on_card i (card_called (cs_card K) c)"

lemma keeps_driver_called: "keeps links_sound some_fault (driver_called K c)"
  by (cases c) (simp_all, (intro structure_kept links_kept)+)

definition no_links :: card_driver where
  "no_links = \<lparr>links = (\<lambda>_. None), dev_list = [], next_link = 0, timers = [], drv_acts = []\<rparr>"

text \<open>What the driver can reach from loading on, whatever is called and answered.\<close>

inductive driver_reaches :: "card_services \<Rightarrow> card_driver \<Rightarrow> bool" for K where
  loaded: "driver_reaches K no_links"
| called: "driver_reaches K s \<Longrightarrow> driver_called K c s = (r, t) \<Longrightarrow> r = Inr () \<Longrightarrow> driver_reaches K t"

inductive_cases driver_reachesE: "driver_reaches K s"

lemma reachable_sound: "driver_reaches K s \<Longrightarrow> links_sound s"
proof (induction rule: driver_reaches.induct)
  case loaded
  show ?case by (simp add: links_sound_def no_links_def)
next
  case (called s c r t)
  then show ?case
    using keepsD [OF keeps_driver_called, of s K c] by (simp add: wp_def)
qed

text \<open>Detaching and releasing a link that is not open.\<close>

lemma detach_configured:
  assumes "links_sound s" and "links s i = Some l" and "has_flag DEV_CONFIG l"
  shows "wp (ircard_detach K i) Q E s = Q () (s\<lparr>links := (links s)(i := Some (set_flag DEV_STALE_LINK l))\<rparr>)"
  using assms unfolding links_sound_def by (auto simp: ircard_detach_def wp_with_link wp_simps upd_link_def)

lemma detach_frees:
  assumes "links_sound s" and "links s i = Some l" and "\<not> has_flag DEV_CONFIG l"
    and "\<And>h. Q () (s\<lparr>dev_list := remove1 i (dev_list s), drv_acts := h, links := (links s)(i := None)\<rparr>)"
  shows "wp (ircard_detach K i) Q E s"
  using assms unfolding links_sound_def by (auto simp: ircard_detach_def wp_with_link wp_simps cs_act_def)

lemma release_run:
  assumes "links_sound s" and "links s i = Some l"
    and "\<And>h. Q () (s\<lparr>drv_acts := h, links := (links s)(i := Some (clear_flags [DEV_CONFIG, DEV_RELEASE_PENDING] l))\<rparr>)"
  shows "wp (ircard_release i) Q E s"
proof -
  have "l_open l = 0"
    using assms(1,2) by (auto simp: links_sound_def sound_link_def)
  then show ?thesis
    using assms(2,3) by (simp add: ircard_release_def wp_with_link wp_simps cs_act_def upd_link_def)
qed

lemma flags [simp]:
  "has_flag f (set_flag g l) \<longleftrightarrow> f = g \<or> has_flag f l"
  "has_flag f (clear_flags fs l) \<longleftrightarrow> f \<notin> set fs \<and> has_flag f l"
  by (auto simp: has_flag_def set_flag_def clear_flags_def)

lemma flags_handle [simp]: "l_handle (set_flag g l) = l_handle l" "l_handle (clear_flags fs l) = l_handle l"
  by (simp_all add: set_flag_def clear_flags_def)

text \<open>
  C21. Detaching a configured card is postponed: the link is marked stale. The release does not take it up again, so the link
  stays in the list, allocated and registered.
\<close>

theorem postponed_detach_forgotten:
  assumes "links_sound s" and "links s i = Some l" and "has_flag DEV_CONFIG l"
  shows "wp (seqs [ircard_detach K i, ircard_release i]) (\<lambda>_ t. dev_list t = dev_list s \<and>
    (\<exists>l'. links t i = Some l' \<and> has_flag DEV_STALE_LINK l' \<and> \<not> has_flag DEV_CONFIG l' \<and> l_handle l' = l_handle l)) never s"
proof -
  let ?s = "s\<lparr>links := (links s)(i := Some (set_flag DEV_STALE_LINK l))\<rparr>"
  have "links_sound ?s"
    using assms by (auto simp: links_sound_def)
  then show ?thesis
    by (simp add: wp_simps detach_configured [OF assms]) (rule release_run [where l = "set_flag DEV_STALE_LINK l"]; simp)
qed

text \<open>Unloading: every link is released and detached.\<close>

lemma unload_link:
  assumes s: "links_sound s" and l: "dev_list s = i # js"
    and Q: "\<And>t. links_sound t \<Longrightarrow> dev_list t = js \<Longrightarrow> timers t = timers s \<Longrightarrow> Q () t"
  shows "wp (thn (with_link i (\<lambda>l. doif (has_flag DEV_CONFIG l) (ircard_release i))) (ircard_detach K i)) Q E s"
proof -
  obtain l where i: "links s i = Some l"
    using s l unfolding links_sound_def by (metis list.set_intros(1) not_None_eq)
  have detach: "wp (ircard_detach K i) Q E t" if "links_sound t" "links t i = Some l'" "\<not> has_flag DEV_CONFIG l'"
    "dev_list t = i # js" "timers t = timers s" for t l'
    by (rule detach_frees [OF that(1-3)]) (use links_sound_removed [OF that(1), of i] that(4,5) in \<open>auto intro!: Q\<close>)
  have released: "wp (ircard_detach K i) Q E (s\<lparr>drv_acts := h, links := (links s)(i := Some (clear_flags [DEV_CONFIG, DEV_RELEASE_PENDING] l))\<rparr>)" for h
    by (rule detach [where l' = "clear_flags [DEV_CONFIG, DEV_RELEASE_PENDING] l"])
      (use s i l in \<open>auto simp: links_sound_def\<close>)
  show ?thesis
    by (simp add: wp_simps wp_with_link i) (auto intro: release_run [OF s i] released detach [OF s i _ l])
qed

lemma no_link_left: "links_sound s \<Longrightarrow> dev_list s = [] \<Longrightarrow> links s i = None"
  by (auto simp: links_sound_def)

declare cleanup_links.simps [simp del]

lemma cleanup_links_run:
  assumes "links_sound s" and "length (dev_list s) \<le> n"
  shows "wp (cleanup_links K n) (\<lambda>r t. r = Some () \<and> dev_list t = [] \<and> links_sound t \<and> timers t = timers s) never s"
  using assms
proof (induction n arbitrary: s)
  case 0
  then show ?case by (simp add: cleanup_links.simps wp_simps)
next
  case (Suc n)
  show ?case
  proof (cases "dev_list s")
    case Nil
    then show ?thesis
      using Suc.prems(1) by (simp add: cleanup_links.simps wp_simps)
  next
    case (Cons i js)
    let ?P = "\<lambda>r t. r = Some () \<and> dev_list t = [] \<and> links_sound t \<and> timers t = timers s"
    have "wp (thn (with_link i (\<lambda>l. doif (has_flag DEV_CONFIG l) (ircard_release i))) (ircard_detach K i))
        (\<lambda>_. wp (cleanup_links K n) ?P never) never s"
    proof (rule unload_link [OF Suc.prems(1) Cons])
      fix t
      assume "links_sound t" "dev_list t = js" "timers t = timers s"
      then show "wp (cleanup_links K n) ?P never t"
        using Suc.IH [of t] Suc.prems(2) Cons by simp
    qed
    then show ?thesis
      by (simp add: cleanup_links.simps [of K "Suc n"] wp_simps Cons)
  qed
qed

text \<open>
  C19. Unloading the module ends: from every state the driver reaches, the loop of \<open>cleanup_module\<close> runs at most once for each
  link, frees all of them and uses none of them after it was freed.
\<close>

theorem unloading_frees_links:
  assumes "driver_reaches K s"
  shows "wp (cleanup_module K (length (dev_list s))) (\<lambda>r t. r = Some () \<and> dev_list t = [] \<and> links t = (\<lambda>_. None)) never s"
proof -
  let ?t = "s\<lparr>drv_acts := drv_acts s @ [Kernel ''unregister_pccard_driver'' []]\<rparr>"
  have "links_sound ?t"
    using reachable_sound [OF assms] by (simp add: links_sound_def)
  then have "wp (cleanup_links K (length (dev_list s))) (\<lambda>r t. r = Some () \<and> dev_list t = [] \<and> links_sound t \<and> timers t = timers ?t) never ?t"
    by (rule cleanup_links_run) simp
  then show ?thesis
    by (simp add: cleanup_module_def wp_simps cs_act_def)
      (erule wp_weaken, auto simp: links_sound_def)
qed

text \<open>
  C20. The timer a removal starts is not stopped when the module is unloaded: after both, which do not fail, the link is freed and
  its timer is still pending, and when it expires \<open>ircard_release\<close> uses the freed link. This is for any state with
  sound links in which the card of the link is configured.
\<close>

theorem timer_outlives_link:
  assumes "links_sound s" and "links s i = Some l" and "has_flag DEV_CONFIG l"
  shows "wp (thn (ircard_event K CARD_REMOVAL i) (cleanup_module K (length (dev_list s))))
    (\<lambda>r t. r = Some () \<and> links t i = None \<and> timers t = timers s @ [i] \<and> stops_with (timer_expires i) Oob_read t) never s"
proof -
  let ?Q = "\<lambda>r t. r = Some () \<and> links t i = None \<and> timers t = timers s @ [i] \<and> stops_with (timer_expires i) Oob_read t"
  have unloaded: "wp (cleanup_module K (length (dev_list s))) ?Q never t"
    if t: "links_sound t" "dev_list t = dev_list s" "timers t = timers s @ [i]" for t
  proof -
    let ?t = "t\<lparr>drv_acts := drv_acts t @ [Kernel ''unregister_pccard_driver'' []]\<rparr>"
    have late: "stops_with (timer_expires i) Oob_read u" if "links u i = None" "timers u = timers s @ [i]" for u
      by (rule stops_with_wp) (simp add: that timer_expires_def timer_fires_def ircard_release_def wp_simps wp_with_link)
    have "wp (cleanup_links K (length (dev_list s))) (\<lambda>r u. r = Some () \<and> dev_list u = [] \<and> links_sound u \<and> timers u = timers ?t) never ?t"
      by (rule cleanup_links_run) (use t in \<open>simp_all add: links_sound_def\<close>)
    then have "wp (cleanup_links K (length (dev_list s))) ?Q never ?t"
      by (rule wp_weaken) (simp add: no_link_left t(3) late)
    then show ?thesis
      by (simp add: cleanup_module_def wp_simps cs_act_def)
  qed
  have "l_magic l = IRCARD_MAGIC"
    using assms(1,2) by (auto simp: links_sound_def sound_link_def)
  then show ?thesis
    unfolding wp_thn [of "ircard_event K CARD_REMOVAL i"]
    using assms by (simp add: ircard_event_def wp_with_link wp_simps upd_link_def)
      (rule unloaded; auto simp: links_sound_def sound_link_def clear_flags_def)
qed

text \<open>A card with two entries, the first the default one, and services that never fail.\<close>

definition plain_entry :: cftable_entry where
  "plain_entry = no_entry\<lparr>cf_index := 1, cf_io_win := [(0x2e8, 16)], cf_io_8bit := True\<rparr>"

definition plain_services :: card_services where
  "plain_services = \<lparr>cs_card = \<lparr>c_in = (\<lambda>_. 0), c_read = (\<lambda>_. []),
       c_int = (\<lambda>h. case last h of Kernel nm as \<Rightarrow> (if nm = ''kmalloc'' then 1 else 0) | _ \<Rightarrow> 0), c_time = (\<lambda>_. (0, 0))\<rparr>,
     cs_config = (0, 0), cs_table = [\<lparr>t_data = 0, t_parse = 0, t_entry = plain_entry\<rparr>], cs_io = (\<lambda>io. io),
     cs_window = (\<lambda>_. (1, 0xd0000)), cs_irq = (\<lambda>_. 3), cs_handle = (\<lambda>_. 7), par_irq_mask = 0xdeb8, par_irq_list = [-1, 0, 0, 0]\<rparr>"

definition attached :: card_driver where
  "attached = snd (driver_called plain_services Attach no_links)"

lemma attached_run: "driver_called plain_services Attach no_links = (Inr (), attached)"
  by (simp add: attached_def ircard_attach_def run_simps cs_call_def cs_act_def plain_services_def no_links_def irq_choice_def
      upd_link_def with_link_def)

lemma attached_reached: "driver_reaches plain_services attached"
  by (rule driver_reaches.called [OF driver_reaches.loaded attached_run]) simp

lemma unloading_frees_links_witness:
  "wp (cleanup_module plain_services (length (dev_list attached))) (\<lambda>r t. r = Some () \<and> dev_list t = [] \<and> links t = (\<lambda>_. None)) never attached"
  by (rule unloading_frees_links [OF attached_reached])

text \<open>A link that is configured.\<close>

definition configured_link :: dev_link where
  "configured_link = \<lparr>l_state = [DEV_PRESENT, DEV_CONFIG], l_open = 0, l_handle = 7, l_win = 1, l_irq_info2 = 0, l_assigned_irq = 3,
     l_conf = blank_conf, l_io = blank_io, l_magic = IRCARD_MAGIC, l_stop = 0, l_card = blank_card\<rparr>"

definition configured_driver :: card_driver where
  "configured_driver = \<lparr>links = (\<lambda>_. None)(0 := Some configured_link), dev_list = [0], next_link = 1, timers = [], drv_acts = []\<rparr>"

lemma configured_facts: "links_sound configured_driver" "links configured_driver 0 = Some configured_link" "has_flag DEV_CONFIG configured_link"
  by (auto simp: configured_driver_def links_sound_def sound_link_def configured_link_def has_flag_def)

lemma postponed_detach_forgotten_witness:
  "wp (seqs [ircard_detach plain_services 0, ircard_release 0]) (\<lambda>_ t. dev_list t = [0] \<and>
    (\<exists>l'. links t 0 = Some l' \<and> has_flag DEV_STALE_LINK l' \<and> \<not> has_flag DEV_CONFIG l' \<and> l_handle l' = 7)) never configured_driver"
  by (rule wp_weaken [OF postponed_detach_forgotten [OF configured_facts]]) (auto simp: configured_driver_def configured_link_def)

lemma timer_outlives_link_witness:
  "wp (thn (ircard_event plain_services CARD_REMOVAL 0) (cleanup_module plain_services 1))
    (\<lambda>r t. r = Some () \<and> links t 0 = None \<and> timers t = [0] \<and> stops_with (timer_expires 0) Oob_read t) never configured_driver"
  using timer_outlives_link [OF configured_facts, of plain_services] by (simp add: configured_driver_def)

section \<open>The configuration table\<close>

text \<open>
  The defaults of the configuration table are never used: \<open>dflt\<close> is a fresh variable of each round of the loop, so what a default
  entry sets does not reach the entries that follow it, and every setting depends on the entry alone.
\<close>

theorem defaults_never_used:
  "entry_settings (if cf_default cfg then cfg else no_entry) cfg l = entry_settings no_entry cfg l \<and>
   entry_memory (if cf_default cfg then cfg else no_entry) cfg = entry_memory no_entry cfg"
  by (auto simp: entry_settings_def entry_power_def entry_io_def entry_memory_def no_entry_def Let_def split: option.split)

text \<open>
  A list of less than four interrupts given to the module leaves zeros behind it, and interrupt 0 is offered as well.
\<close>

lemma short_irq_list_offers_zero:
  assumes "0 \<le> n" and "n < 32"
  shows "irq_choice choosable [n, 0, 0, 0] = Some (push_bit (nat n) 1 OR 1)"
  using assms by (simp add: irq_choice_def)

text \<open>Every call keeps the links sound.\<close>

lemma driver_calls_keep_links:
  assumes "links_sound s"
  shows "wp (seqs (map (driver_called K) cs)) (\<lambda>_. links_sound) some_fault s"
  by (rule wp_seqs_inv [where I = links_sound]) (auto intro: keepsD [OF keeps_driver_called] assms)

end
