(* ===== verification/Gfindchip.thy ===== *)
theory Gfindchip
  imports Findchip C_Library
begin

text \<open>
  gfindchip (\<open>findchip/gfindchip.c\<close>): a window that runs findchip and shows the fields of the line it prints. GTK is a
  sequence of calls; \<open>label_cells\<close> is the array \<open>button\<close> with the text of the label each cell points to. How \<open>printf\<close> renders
  the line of findchip is written out, so that the two programs can be put together.
\<close>

section \<open>The window\<close>

datatype gtk_call = Gtk string "varg list"

record gwindow =
  gtk_calls :: "gtk_call list"
  label_cells :: "byte list option list"

type_synonym 'a gm = "(gwindow, 'a) cm"

definition gtk :: "string \<Rightarrow> varg list \<Rightarrow> unit gm" where
  "gtk name args = modify (\<lambda>s. s\<lparr>gtk_calls := gtk_calls s @ [Gtk name args]\<rparr>)"

definition set_cell :: "int \<Rightarrow> byte list \<Rightarrow> unit gm" where
  "set_cell n label = thn (check Bad_index (0 \<le> n \<and> n < 16))
     (modify (\<lambda>s. s\<lparr>label_cells := (label_cells s)[nat n := Some label]\<rparr>))"

definition dialog_close_cb :: "unit gm" where
  "dialog_close_cb = gtk ''gtk_widget_destroy'' []"

definition show_dialog :: "string \<Rightarrow> string \<Rightarrow> unit gm" where
  "show_dialog title body = seqs [
     gtk ''gtk_dialog_new'' [],
     gtk ''gtk_window_set_title'' [Sl title],
     gtk ''gtk_container_border_width'' [Ii 5],
     gtk ''gtk_label_new'' [Sl body],
     gtk ''gtk_box_pack_start'' [Sl ''vbox'', Sl ''label'', Ii 1, Ii 1, Ii 0],
     gtk ''gtk_widget_show'' [Sl ''label''],
     gtk ''gtk_button_new_with_label'' [Sl '' Close ''],
     gtk ''gtk_signal_connect'' [Sl ''clicked'', Sl ''dialog_close_cb''],
     gtk ''gtk_box_pack_start'' [Sl ''action_area'', Sl ''button'', Ii 0, Ii 0, Ii 0],
     gtk ''gtk_widget_show'' [Sl ''button''],
     gtk ''gtk_widget_show'' [Sl ''dialog''],
     gtk ''gtk_widget_grab_focus'' [Sl ''button'']]"

text \<open>The body of the box, a line break before each line but the first.\<close>

definition about_lines :: "string list" where
  "about_lines = [''gFindChip 0.01'', '''',
    ''Copyright (c) 2000 Jonathan Hudson <jrhudson@bigfoot.com>,'',
    ''Copyright (c) 2000 Dag Brattli <dagb@cs.uit.no>,'',
    ''All Rights Reserved.'', '''',
    ''This program is free software; you can redistribute it and/or modify'',
    ''it under the terms of the GNU General Public License as published by'',
    ''the Free Software Foundation; either version 2 of the License, or'',
    ''(at your option) any later version.'', '''',
    ''This program is distributed in the hope that it will be useful,'',
    ''but WITHOUT ANY WARRANTY; without even the implied warranty of'',
    ''MERCHANTABILITY or FITNESS FOR A PARTICULAR PURPOSE.  See the'',
    ''GNU General Public License for more details.'', '''',
    ''You should have received a copy of the GNU General Public License'',
    ''along with this program; if not, write to the Free Software'',
    ''Foundation, Inc., 59 Temple Place - Suite 330, Boston, MA 02111-1307,'',
    ''USA.'']"

definition about :: "unit gm" where
  "about = show_dialog ''About gFindChip 0.01'' (tl (concat (map (\<lambda>l. CHR 0x0A # l) about_lines)))"

text \<open>An entry of the menu: its path, its key and what it calls.\<close>

definition menu_items :: "(string \<times> string \<times> unit gm) list" where
  "menu_items = [
     (''/_File'', '''', ret ()),
     (''/File/Quit'', ''<control>Q'', gtk ''gtk_main_quit'' []),
     (''/_Help'', '''', ret ()),
     (''/_Help/About'', '''', about)]"

definition get_main_menu :: "unit gm" where
  "get_main_menu = seqs (
     gtk ''gtk_accel_group_new'' [] # gtk ''gtk_item_factory_new'' [Sl ''<main>''] #
     gtk ''gtk_item_factory_create_items''
       (Ii (int (length menu_items)) # concat (map (\<lambda>(path, key, call). [Sl path, Sl key]) menu_items)) #
     [gtk ''gtk_accel_group_attach'' [Sl ''window''], gtk ''gtk_item_factory_get_widget'' [Sl ''<main>'']])"

text \<open>A label in a cell of the table, its caption to the left of it.\<close>

definition attach_label :: "int \<Rightarrow> byte list \<Rightarrow> int \<Rightarrow> int \<Rightarrow> unit gm" where
  "attach_label n label x y = seqs [
     set_cell n label,
     gtk ''gtk_label_set_justify'' [],
     gtk ''gtk_table_attach_defaults'' [AS label, Ii x, Ii (x + 1), Ii y, Ii (y + 1)],
     gtk ''gtk_widget_show'' [AS label]]"

definition MakeResultLabel :: "int \<Rightarrow> byte list \<Rightarrow> unit gm" where
  "MakeResultLabel i label = attach_label (i * 2 + 1) label (2 * (i mod 3) + 1) (i div 3)"

definition labels :: "string list" where
  "labels = [''Chip:'', ''Model:'', ''Version:'', ''Control I/O:'', ''SIR I/O:'', ''FIR I/O:'', ''IRQ:'', ''DMA:'']"

definition MakeStaticLabels :: "unit gm" where
  "MakeStaticLabels = seqs (map (\<lambda>i. attach_label (i * 2) (bytes_of (labels ! nat i)) (2 * (i mod 3)) (i div 3)) [0..7])"

text \<open>The loop over the fields of the line, each up to the next comma; the number of the last field.\<close>

fun result_labels :: "int \<Rightarrow> byte list \<Rightarrow> byte list \<Rightarrow> int gm" where
  "result_labels i field [] = thn (doif (field \<noteq> []) (MakeResultLabel i field)) (ret i)"
| "result_labels i field (b # bs) =
    (if b = of_char CHR '',''
     then thn (doif (field \<noteq> []) (MakeResultLabel i field)) (result_labels (i + 1) [] bs)
     else result_labels i (field @ [b]) bs)"

text \<open>The line \<open>fgets\<close> read: without a line break, \<open>strchr\<close> gives a null pointer.\<close>

definition show_results :: "byte list \<Rightarrow> int gm" where
  "show_results line = (let str = cstring line in
     thn (check Null_deref (10 \<in> set str)) (result_labels 0 [] (takeWhile (\<lambda>b. b \<noteq> 10) str)))"

text \<open>The window, the menu bar, the table with the captions.\<close>

definition build_window :: "unit gm" where
  "build_window = seqs [
     gtk ''gtk_init'' [],
     gtk ''gtk_window_new'' [],
     gtk ''gtk_signal_connect'' [Sl ''destroy'', Sl ''gtk_main_quit''],
     gtk ''gtk_window_set_title'' [Sl ''gFindChip''],
     gtk ''gtk_vbox_new'' [Ii 0, Ii 1],
     gtk ''gtk_container_border_width'' [Sl ''main_vbox'', Ii 1],
     gtk ''gtk_container_add'' [Sl ''window'', Sl ''main_vbox''],
     gtk ''gtk_widget_show'' [Sl ''main_vbox''],
     get_main_menu,
     gtk ''gtk_box_pack_start'' [Sl ''main_vbox'', Sl ''menubar'', Ii 0, Ii 1, Ii 0],
     gtk ''gtk_widget_show'' [Sl ''menubar''],
     gtk ''gtk_table_new'' [Ii 3, Ii 6, Ii 1],
     gtk ''gtk_container_set_border_width'' [Sl ''window'', Ii 2],
     gtk ''gtk_container_add'' [Sl ''main_vbox'', Sl ''table''],
     MakeStaticLabels]"

text \<open>The program; \<open>None\<close> when \<open>popen\<close> fails, else what findchip prints.\<close>

definition gfindchip_main :: "byte list option \<Rightarrow> int gm" where
  "gfindchip_main output = thn build_window
     (bnd (case output of None \<Rightarrow> ret 0 | Some out \<Rightarrow>
        if out = [] then ret 0 else show_results (fst (fgets 127 out))) (\<lambda>i.
     thn (seqs [
       doif (i = 0) (show_dialog ''gFindChip'' ''Unable to find any known IR chip''),
       gtk ''gtk_widget_show'' [Sl ''table''],
       gtk ''gtk_widget_show'' [Sl ''window''],
       gtk ''gtk_main'' []]) (ret 0)))"

definition empty_window :: gwindow where
  "empty_window = \<lparr>gtk_calls = [], label_cells = replicate 16 None\<rparr>"

section \<open>The line findchip prints\<close>

definition hex_digit :: "nat \<Rightarrow> byte" where
  "hex_digit n = (if n < 10 then of_nat (48 + n) else of_nat (87 + n))"

function hex_of :: "nat \<Rightarrow> byte list" where
  "hex_of n = (if n < 16 then [hex_digit n] else hex_of (n div 16) @ [hex_digit (n mod 16)])"
  by auto
termination by (relation "measure id") auto

declare hex_of.simps [simp del]

text \<open>The conversions of the formats: \<open>%s\<close>, \<open>%d\<close>, \<open>%x\<close>.\<close>

definition rendered_arg :: "char \<Rightarrow> varg \<Rightarrow> byte list" where
  "rendered_arg c a = (case a of AS t \<Rightarrow> t | AI w \<Rightarrow> (if c = CHR ''x'' then hex_of (unat w) else dec_int (sint w)) | _ \<Rightarrow> [])"

fun rendered :: "string \<Rightarrow> varg list \<Rightarrow> byte list" where
  "rendered (CHR ''%'' # c # fm) (a # as) = rendered_arg c a @ rendered fm as"
| "rendered (c # fm) as = of_char c # rendered fm as"
| "rendered [] as = []"

fun rendered_calls :: "tcall list \<Rightarrow> byte list" where
  "rendered_calls [] = []"
| "rendered_calls (Term fm as # ts) = rendered fm as @ rendered_calls ts"

definition info_fields :: "chip_info \<Rightarrow> byte list list" where
  "info_fields info = [bytes_of (manufacturer info), bytes_of (chip_name info),
     rendered ''%d.%d'' [Ii (chip_id info), Ii (revision info)],
     rendered ''0x%x'' [Ii (cfg_base info)], rendered ''0x%x'' [Ii (sir_base info)], rendered ''0x%x'' [Ii (fir_base info)],
     rendered ''%d'' [Ii (irq info)], rendered ''%d'' [Ii (dma info)], rendered ''%d'' [Ii (enabled info)],
     rendered ''%d'' [Ii (suspended info)], rendered ''%d'' [Ii (uart_comp info)]]"

fun commas :: "byte list list \<Rightarrow> byte list" where
  "commas [] = []"
| "commas [f] = f"
| "commas (f # g # fs) = f @ of_char CHR '','' # commas (g # fs)"

lemma rendered_info_line: "rendered_calls (info_lines False info) = commas (info_fields info) @ [10]"
  by (simp add: info_lines_def info_fields_def ln_def Sl_def Ii_def rendered_arg_def)

section \<open>No field has a comma or a line break of its own\<close>

definition field_byte :: "byte \<Rightarrow> bool" where
  "field_byte b \<longleftrightarrow> b \<noteq> 44 \<and> b \<noteq> 10 \<and> b \<noteq> 0"

lemma field_byte_small: "0 < n \<Longrightarrow> n < 256 \<Longrightarrow> n \<noteq> 44 \<Longrightarrow> n \<noteq> 10 \<Longrightarrow> field_byte (of_nat n)"
  by (auto simp: field_byte_def word_unat_eq_iff unat_of_nat)

lemma digit_field: "n < 10 \<Longrightarrow> field_byte (digit n)"
  unfolding digit_def by (rule field_byte_small) simp_all

lemma hex_digit_field: "n < 16 \<Longrightarrow> field_byte (hex_digit n)"
  by (simp only: hex_digit_def split: if_split) (auto simp del: of_nat_add intro!: field_byte_small)

lemma dec_field: "list_all field_byte (dec n)"
proof (induction n rule: dec.induct)
  case (1 n)
  then show ?case
    by (subst dec.simps) (simp add: digit_field)
qed

lemma hex_field: "list_all field_byte (hex_of n)"
proof (induction n rule: hex_of.induct)
  case (1 n)
  then show ?case
    by (subst hex_of.simps) (simp add: hex_digit_field)
qed

lemma dec_int_field: "list_all field_byte (dec_int n)"
  by (simp add: dec_int_def dec_field) (simp add: field_byte_def)

lemma dec_int_nonempty: "dec_int n \<noteq> []"
  by (subst dec.simps | simp add: dec_int_def)+

definition plain_name :: "string \<Rightarrow> bool" where
  "plain_name t \<longleftrightarrow> list_all field_byte (bytes_of t)"

lemma info_fields_plain:
  assumes "plain_name (manufacturer info)" and "plain_name (chip_name info)"
  shows "list_all (list_all field_byte) (info_fields info)"
  using assms by (simp add: info_fields_def plain_name_def rendered_arg_def Ii_def dec_int_field hex_field)
    (simp add: field_byte_def)

section \<open>What the front end does with the line\<close>

lemma result_labels_field:
  "list_all field_byte f \<Longrightarrow> result_labels i g (f @ bs) = result_labels i (g @ f) bs"
  by (induction f arbitrary: g) (auto simp: field_byte_def)

lemma result_labels_commas:
  assumes "list_all field_byte f"
  shows "result_labels i [] (commas [f]) = thn (doif (f \<noteq> []) (MakeResultLabel i f)) (ret i)"
    and "result_labels i [] (commas (f # g # fs)) =
      thn (doif (f \<noteq> []) (MakeResultLabel i f)) (result_labels (i + 1) [] (commas (g # fs)))"
  using result_labels_field [OF assms, of i "[]" "[]"] result_labels_field [OF assms, of i "[]"] by simp_all

lemma MakeResultLabel_outside: "8 \<le> i \<Longrightarrow> wp (MakeResultLabel i f) Q E s = E Bad_index s"
  by (simp add: MakeResultLabel_def attach_label_def set_cell_def wp_simps)

lemma MakeResultLabel_inside:
  assumes "0 \<le> i" and "i < 8" and "\<And>s. Q () s"
  shows "wp (MakeResultLabel i f) Q E s"
  using assms by (simp add: MakeResultLabel_def attach_label_def set_cell_def gtk_def wp_simps)

text \<open>The ninth field, when there is one and it has a byte, is one too many.\<close>

lemma ninth_field_outside:
  assumes "list_all (list_all field_byte) fs" and "0 \<le> i" and "i \<le> 8" and "8 - i < int (length fs)" and "fs ! nat (8 - i) \<noteq> []"
  shows "wp (result_labels i [] (commas fs)) (\<lambda>_ _. False) (\<lambda>e _. e = Bad_index) s"
  using assms
proof (induction fs arbitrary: i s rule: commas.induct)
  case 1
  then show ?case by simp
next
  case (2 f)
  then have "i = 8" by simp
  with 2 show ?case
    by (simp add: result_labels_commas wp_simps MakeResultLabel_outside del: commas.simps)
next
  case (3 f g fs)
  show ?case
  proof (cases "i = 8")
    case True
    with 3 show ?thesis
      by (simp add: result_labels_commas wp_simps MakeResultLabel_outside del: commas.simps)
  next
    case False
    then have "nat (8 - i) = Suc (nat (8 - (i + 1)))"
      using 3 by simp
    then have next_field: "wp (result_labels (i + 1) [] (commas (g # fs))) (\<lambda>_ _. False) (\<lambda>e _. e = Bad_index) s'" for s'
      using 3 False by (intro "3.IH") auto
    show ?thesis
      using 3 False by (auto simp: result_labels_commas wp_simps next_field intro!: MakeResultLabel_inside simp del: commas.simps)
  qed
qed

lemma fgets_line:
  "10 \<notin> set l \<Longrightarrow> length l < n \<Longrightarrow> fgets n (l @ 10 # bs) = (l @ [10], bs)"
proof (induction l arbitrary: n)
  case Nil
  then show ?case by (cases n) simp_all
next
  case (Cons b l)
  then show ?case by (cases n) simp_all
qed

lemma commas_plain:
  assumes "list_all (list_all field_byte) fs"
  shows "10 \<notin> set (commas fs)" and "0 \<notin> set (commas fs)"
  using assms by (induction fs rule: commas.induct) (auto simp: field_byte_def list_all_iff)

lemma gtk_keeps: "keeps (\<lambda>_. True) (\<lambda>_ _. False) (gtk name args)"
  by (simp add: keeps_def gtk_def wp_modify)

lemma attach_label_keeps:
  "0 \<le> n \<Longrightarrow> n < 16 \<Longrightarrow> keeps (\<lambda>_. True) (\<lambda>_ _. False) (attach_label n l x y)"
  by (simp add: keeps_def attach_label_def set_cell_def gtk_def wp_simps)

lemma MakeStaticLabels_keeps: "keeps (\<lambda>_. True) (\<lambda>_ _. False) MakeStaticLabels"
  unfolding MakeStaticLabels_def by (rule keeps_seqs) (auto intro!: attach_label_keeps)

lemma main_menu_keeps: "keeps (\<lambda>_. True) (\<lambda>_ _. False) get_main_menu"
  unfolding get_main_menu_def by (rule keeps_seqs) (auto simp: gtk_keeps)

lemma build_window_keeps: "keeps (\<lambda>_. True) (\<lambda>_ _. False) build_window"
  unfolding build_window_def by (rule keeps_seqs) (auto simp: gtk_keeps main_menu_keeps MakeStaticLabels_keeps)

text \<open>Building the window never fails, so \<open>main\<close> stops where the loop over the fields does.\<close>

lemma main_stops:
  assumes "out \<noteq> []" and "\<And>s. wp (show_results (fst (fgets 127 out))) (\<lambda>_ _. False) (\<lambda>e' _. e' = e) s"
  shows "stops_with (gfindchip_main (Some out)) e s"
  unfolding stops_with_iff_wp gfindchip_main_def wp_thn
  by (rule wp_mono [OF keepsD [OF build_window_keeps]]) (auto simp: assms(1) wp_bnd intro: wp_weaken [OF assms(2)])

text \<open>
  C40. findchip and its front end together: findchip prints eleven fields separated by commas, and \<open>button\<close> has room for the
  labels of eight. For every chip that findchip reports, in a line that fits into the buffer and with a name that has no comma or line
  break, the ninth field is stored outside the array, whatever is printed after it.
\<close>
theorem chip_found_overruns_labels:
  assumes "plain_name (manufacturer info)" and "plain_name (chip_name info)"
    and "length (rendered_calls (info_lines False info)) \<le> 127"
  shows "stops_with (gfindchip_main (Some (rendered_calls (info_lines False info) @ rest))) Bad_index s"
proof -
  have plain: "list_all (list_all field_byte) (info_fields info)"
    using assms(1,2) by (rule info_fields_plain)
  let ?line = "commas (info_fields info)"
  have read: "fst (fgets 127 (?line @ 10 # rest)) = ?line @ [10]"
    using assms(3) commas_plain(1) [OF plain] by (simp add: rendered_info_line fgets_line)
  have "cstring (?line @ [10]) = ?line @ [10]" and "takeWhile (\<lambda>b. b \<noteq> 10) (?line @ [10]) = ?line"
    using commas_plain [OF plain] by (simp_all add: cstring_def takeWhile_append)
  moreover have "wp (result_labels 0 [] ?line) (\<lambda>_ _. False) (\<lambda>e _. e = Bad_index) s'" for s'
    by (rule ninth_field_outside [OF plain]) (simp_all add: info_fields_def rendered_arg_def Ii_def dec_int_nonempty)
  ultimately show ?thesis
    by (intro main_stops) (simp_all add: read rendered_info_line show_results_def Let_def wp_simps)
qed

text \<open>A PC87108.\<close>

definition found_chip :: chip_info where
  "found_chip = \<lparr>manufacturer = ''NSC'', chip_name = ''PC87108'', chip_id = 0x10, revision = 1,
     cfg_base = 0x150, sir_base = 0x2f8, fir_base = 0x2f8, irq = 3, dma = 0,
     uart_comp = 1, enabled = 1, suspended = 0, delay = 30\<rparr>"

theorem chip_found_overruns_labels_witness:
  "stops_with (gfindchip_main (Some (rendered_calls (info_lines False found_chip) @ []))) Bad_index empty_window"
proof (rule chip_found_overruns_labels)
  show "plain_name (manufacturer found_chip)" and "plain_name (chip_name found_chip)"
    by code_simp+
  show "length (rendered_calls (info_lines False found_chip)) \<le> 127"
    by code_simp
qed

end
