(* ===== verification/Spec2Isabelle.thy ===== *)
theory Spec2Isabelle
  imports Irdadump Irkbd Findchip Irpsion5 Dongle_Attach Tosh2450 Tosh1800 Irdaping Ir_Stream Ultra Ias_Query Irnetd Old_Sockets Ircard_Receive Ircard_Services Gfindchip
begin

text \<open>
  A model of irda-utils 0.9.18, the tools of Linux-IrDA and a driver for a PC card, and proofs about it.

  \<^bold>\<open>The programs and their theories.\<close> All of them rest on \<open>Prelude\<close> (C integers as words, undefined
  behaviour and exits as values of type \<open>fault\<close>, the state monad with stopping, weakest preconditions,
  C strings) and most on \<open>C_Library\<close> (byte order, \<open>atoi\<close>, \<open>strtoul\<close>, printing and scanning of numbers).

  \<^item> irdadump (\<open>irdadump/\<close>) captures infrared frames from a packet socket or a capture file and prints
    what the layers IrLAP, IrLMP, LM-IAS, TinyTP, IrCOMM and OBEX say. A frame goes through one network
    buffer from layer to layer; every layer reads \<open>buf->data\<close>, prints, and removes its header. State that
    survives a frame are the sequence numbers, the last LM-IAS query, and the table of LMP connections by
    which data frames are decoded. \<open>Netbuf\<close> (\<open>netbuf.h\<close>, \<open>netbuf.c\<close>): pointers as offsets into a block;
    the locale \<open>packet_buffer\<close> is the promise of the component, interpreted on its operations.
    \<open>Dump_State\<close> (\<open>irdadump.h\<close>, globals of \<open>irlap.c\<close>): the record \<open>dump\<close>, checked reads, and output as
    the list of calls on the \<open>GString\<close>. \<open>Lsap_Table\<close> (first part of \<open>irlap.c\<close>): the table of connections;
    the locale \<open>connection_store\<close> is what the decoder of LMP frames relies on. \<open>Ircomm\<close>, \<open>Obex\<close>, \<open>Irlmp\<close>,
    \<open>Irlap_Params\<close>, \<open>Irlap\<close>: one definition per function. \<open>Capture\<close> (\<open>capture.c\<close>): the file format.
    \<open>Irdadump\<close> (\<open>irdadump.c\<close>, \<open>main.c\<close>): time stamps, byte dumps, the loop over frames, options, start, end.
  \<^item> irkbd (\<open>tekram/\<close>), theory \<open>Irkbd\<close>: the driver of an infrared keyboard, with its two signal handlers;
    the program is a step relation \<open>irkbd_step\<close> whose steps are the turns of the main loop and the handlers;
    the handler of the alarm runs only while the timer is started (\<open>sigalrm\<close>).
  \<^item> findchip (\<open>findchip/\<close>), theories \<open>Port_Io\<close> (ports, the description of a chip, output), \<open>Smc\<close>, \<open>Nsc\<close>,
    \<open>Winbond\<close> (a probe per vendor) and \<open>Findchip\<close> (\<open>main\<close>); the locale \<open>chip_probe\<close> is what \<open>main\<close> relies
    on and is interpreted on the three probes. \<open>Gfindchip\<close> is the window that shows what findchip prints.
  \<^item> irpsion5 (\<open>psion/\<close>), theory \<open>Irpsion5\<close>: exchange of files with a Psion 5.
  \<^item> irattach and dongle\_attach (\<open>irattach/\<close>), theories \<open>Attach_State\<close> (globals, system calls, \<open>util.c\<close>),
    \<open>Irattach\<close> and \<open>Dongle_Attach\<close>: a serial line is made a network interface and is put back at the end.
  \<^item> smcinit, tosh1800-smcinit, tosh2450-smcinit (\<open>smcinit/\<close>), theories \<open>Super_Io\<close> (ports and PCI
    configuration, the register file of a chip), \<open>Smcinit\<close>, \<open>Tosh1800\<close>, \<open>Tosh2450\<close>.
  \<^item> irdaping (\<open>irdaping/\<close>), theory \<open>Irdaping\<close>: test frames, sent by an alarm, and their answers; a run is
    \<open>ping_main\<close> and events in any order (\<open>ping_reaches\<close>).
  \<^item> irnetd (\<open>irnetd/\<close>), theory \<open>Irnetd\<close>: starts \<open>pppd\<close> for requests of a connection.
  \<^item> The socket programs (\<open>irsockets/\<close>), theories \<open>Net_Calls\<close> (calls, the list of devices, the structure
    of an IAS query), \<open>Irdaspray\<close>, \<open>Ir_Stream\<close> (irprintf, irprintfx, irscanf, irscanfx), \<open>Ultra\<close>
    (send\_ultra, recv\_ultra), \<open>Ias_Query\<close>, and \<open>Old_Sockets\<close> for \<open>client.c\<close>, \<open>echo.c\<close> and \<open>irdaspray.c\<close>
    of \<open>oldies/\<close>. The locale \<open>line_sender\<close> of \<open>Ir_Stream\<close> is a way out for lines of text, interpreted on the
    two ways the programs have.
  \<^item> ircard\_cs (\<open>pcmcia/\<close>): the kernel driver of a PC card. \<open>Ircard_Chip\<close>: the functions that work with the
    controller. \<open>Ircard_Regs\<close> reads the history of port accesses as writes to the banked registers;
    \<open>Ircard_Queue\<close>: the transmit queue, with the locale \<open>frame_fifo\<close> as its promise; \<open>Ircard_Receive\<close>: the
    receive ring; \<open>Ircard_Interrupt\<close>: all calls of the kernel together, with the locale \<open>card_invariant\<close>, two
    interpretations of which are the invariant of the queue and the growth of the history. The laws of the locale
    name what may stop an operation and when a frame is with the controller (\<open>in_flight\<close>).
    \<open>Ircard_Services\<close>: links, configuration, events and the module, with the states the driver reaches; the
    function of a timer runs only while the timer is pending (\<open>timer_expires\<close>).
  \<^bold>\<open>How code becomes definitions.\<close> A function of the code is a definition of the same name where it is free.
  Globals are records, local arrays are byte lists, every read and write of memory whose place depends on
  data is checked against the object it must stay in, so that an access outside is an outcome of the model
  (\<open>Oob_read\<close>, \<open>Oob_write\<close>, \<open>Bad_index\<close>) and not a gap in it. What a program does to the outside is a list
  of actions in its state, in order.

  \<^bold>\<open>What is a parameter.\<close> Hardware and system are functions of the history of accesses: what a port, a PCI
  register or a system call answers may depend on everything asked before, so a proof for all of them covers
  every order of answers. In irdadump they are lists of answers, one for each turn. Further parameters are the
  allocator, uninitialised memory, libpci, and how a format string is rendered (nothing is assumed about it).

  \<^bold>\<open>What the lemmas show.\<close> For the buffer of irdadump: the invariant \<open>nb_ok\<close> and the byte string after every
  operation. For its parsers: \<open>talked\<close>, \<open>parsed\<close>, \<open>kept\<close> and \<open>intact\<close> are what a decoder may change, also when
  it stops in the middle, and go up layer by layer to the invariant \<open>sound\<close> of the whole program, which holds
  in every state it reaches (\<open>reaches\<close>). For irkbd: an invariant over all steps, delivery of packets,
  polling that goes on. For findchip: every run closes the configuration mode of a chip at each port where it has opened one, and which chips are
  found with which values. For irpsion5: a file sent and received is the same file; termination. For
  irattach: the line passes through phases (\<open>untouched\<close>, \<open>settled\<close>, \<open>restored\<close>) from which every way out leads
  back to the settings it had. For smcinit: a chip is a register file (\<open>chip_is\<close>), and the sequences of port
  accesses implement assignments of registers. For the socket programs: what one side sends the other
  shows or returns, old and new versions return the same bytes from buffers of different sizes, and which numbers and answers lead outside of arrays. For the
  card driver: the transmit queue is a list of frames of which the controller sends the first, the queue keeps
  its shape whatever is called (as long as the controller reports only frames that it has), a stored frame is the delivered one, and the links are those that are listed. Several
  properties state errors of the code: what it does where it does not do what it means to.

  \<^bold>\<open>Bounds and termination.\<close> Every loop over data is a terminating recursion with its measure. Loops
  that wait for the outside for ever are recursions over events (irdadump, irdaping, irnetd) or have a number
  of rounds as an argument (the servers; \<open>psion_main\<close>, where the number bounds the clients of a receiving run):
  a property about them says for which number the loop has ended, or holds for every number.
  \<open>ask_devices\<close> of irpsion5 tries five times as the code does, and the card driver spins and serves causes as
  often as the code does; \<open>cleanup_links\<close> has a number of rounds, and the number of links is enough.

  \<^bold>\<open>What is not modelled.\<close> The floating point numbers of progress lines (their arguments are kept), the
  fragment \<open>oldies/discard.c\<close>, which is not built, the copies of patched
  files under \<open>.pc/\<close>, and packaging. Signal handlers run between two steps of a program, not inside one. The
  device name and file name copies of irdadump's \<open>main\<close> (\<open>strdup\<close>) are assumed not to fail.
\<close>

end
